(* ===== verification/Vuoro_Prelude.thy ===== *)
theory Vuoro_Prelude
  imports Complex_Main "HOL-Library.AList" "HOL-Library.Sublist" "HOL-Library.Word"
    "HOL-Library.Multiset" "HOL-Library.Char_ord" "HOL-Library.List_Lexorder"
    "HOL-Library.Product_Lexorder" "HOL-Library.Monad_Syntax" "HOL-Library.While_Combinator"
begin

text \<open>
  Shared vocabulary of the development.

  \<^item> Results: a call that may raise is a value of \<open>'e + 'a\<close>, \<open>Inl\<close> for the exception. A
    stateful call returns the result and the state it leaves behind, also when it raises.
  \<^item> Dictionaries: a Python dict is an association list in insertion order, written with
    \<open>dict_set\<close> (in place for a known key, at the end for a new one) and \<open>dict_del\<close>.
  \<^item> Times: clock readings (\<open>time.time\<close>, \<open>time.monotonic\<close>) are reals.
  \<^item> Runs: \<open>run\<close> is a finite sequence of labelled steps of any step relation; the locales at
    the end state the contracts the components share (an invariant that steps keep, a history
    that only grows, a key that is accepted at most once) and prove what follows for runs.
\<close>

named_theorems dict_simps \<open>rewrite rules for dictionary lookups after updates\<close>

subsection \<open>Results\<close>

type_synonym ('e, 'a) result = "'e + 'a"

definition rbind :: "('e, 'a) result \<Rightarrow> ('a \<Rightarrow> ('e, 'b) result) \<Rightarrow> ('e, 'b) result" where
  "rbind r f = (case r of Inl e \<Rightarrow> Inl e | Inr a \<Rightarrow> f a)"

definition need :: "'e \<Rightarrow> bool \<Rightarrow> ('e, unit) result" where
  "need e c = (if c then Inr () else Inl e)"

definition is_ok :: "('e, 'a) result \<Rightarrow> bool" where
  "is_ok r = (case r of Inl _ \<Rightarrow> False | Inr _ \<Rightarrow> True)"

lemma rbind_simps [simp]:
  "rbind (Inl e) f = Inl e" "rbind (Inr a) f = f a"
  by (simp_all add: rbind_def)

lemma rbind_eq_Inr [simp]: "rbind r f = Inr b \<longleftrightarrow> (\<exists>a. r = Inr a \<and> f a = Inr b)"
  by (cases r) auto

lemma need_eq_Inr [simp]: "need e c = Inr u \<longleftrightarrow> c"
  by (simp add: need_def)

lemma need_eq_Inl [simp]: "need e c = Inl e' \<longleftrightarrow> \<not> c \<and> e = e'"
  by (auto simp: need_def)

lemma need_True [simp]: "need e True = Inr ()"
  by (simp add: need_def)

lemma is_ok_simps [simp]: "is_ok (Inr a)" "\<not> is_ok (Inl e)"
  by (simp_all add: is_ok_def)

lemma is_ok_iff: "is_ok r \<longleftrightarrow> (\<exists>a. r = Inr a)"
  by (cases r) auto

subsection \<open>Dictionaries in insertion order\<close>

type_synonym ('k, 'v) dict = "('k \<times> 'v) list"

abbreviation dict_get :: "('k, 'v) dict \<Rightarrow> 'k \<Rightarrow> 'v option" where
  "dict_get d k \<equiv> map_of d k"

abbreviation dict_set :: "'k \<Rightarrow> 'v \<Rightarrow> ('k, 'v) dict \<Rightarrow> ('k, 'v) dict" where
  "dict_set k v d \<equiv> AList.update k v d"

abbreviation dict_del :: "'k \<Rightarrow> ('k, 'v) dict \<Rightarrow> ('k, 'v) dict" where
  "dict_del k d \<equiv> AList.delete k d"

abbreviation dict_ok :: "('k, 'v) dict \<Rightarrow> bool" where
  "dict_ok d \<equiv> distinct (map fst d)"

definition dict_setdefault :: "'k \<Rightarrow> 'v \<Rightarrow> ('k, 'v) dict \<Rightarrow> ('k, 'v) dict" where
  "dict_setdefault k v d = (case map_of d k of None \<Rightarrow> d @ [(k, v)] | Some _ \<Rightarrow> d)"

lemma dict_get_set [simp, dict_simps]:
  "dict_get (dict_set k v d) k' = (if k = k' then Some v else dict_get d k')"
  by (simp add: update_conv')

lemma dict_get_del [simp, dict_simps]:
  "dict_get (dict_del k d) k' = (if k = k' then None else dict_get d k')"
  by (simp add: delete_conv')

lemma dict_get_setdefault [simp, dict_simps]:
  "dict_get (dict_setdefault k v d) k' =
    (if k = k' \<and> dict_get d k = None then Some v else dict_get d k')"
  by (auto simp: dict_setdefault_def map_add_def split: option.splits)

lemma dict_ok_set [simp]: "dict_ok d \<Longrightarrow> dict_ok (dict_set k v d)"
  by (rule distinct_update)

lemma dict_ok_del [simp]: "dict_ok d \<Longrightarrow> dict_ok (dict_del k d)"
  by (rule distinct_delete)

lemma dict_ok_setdefault [simp]: "dict_ok d \<Longrightarrow> dict_ok (dict_setdefault k v d)"
  by (auto simp: dict_setdefault_def map_of_eq_None_iff split: option.splits)

declare map_of_eq_Some_iff [simp del] Some_eq_map_of_iff [simp del] map_of_is_SomeI [simp del]

lemma dict_get_in: "dict_ok d \<Longrightarrow> (k, v) \<in> set d \<longleftrightarrow> dict_get d k = Some v"
  by (rule map_of_eq_Some_iff [symmetric])

lemma dict_find_Some:
  assumes "dict_ok d" "find P (map snd d) = Some v"
  obtains k where "dict_get d k = Some v" "P v"
proof -
  have "v \<in> set (map snd d)" "P v"
    using assms(2) unfolding find_Some_iff by (metis length_map nth_mem, blast)
  then show ?thesis using that assms(1) by (auto simp: dict_get_in)
qed

lemma dict_find_None:
  "dict_ok d \<Longrightarrow> find P (map snd d) = None \<longleftrightarrow> (\<forall>k v. dict_get d k = Some v \<longrightarrow> \<not> P v)"
  by (auto simp: find_None_iff dict_get_in [symmetric])

lemma dict_get_filter:
  "dict_ok d \<Longrightarrow> dict_get (filter P d) k =
    (case dict_get d k of None \<Rightarrow> None | Some v \<Rightarrow> if P (k, v) then Some v else None)"
proof (induction d)
  case (Cons x d)
  have "dict_get d (fst x) = None" using Cons.prems by (simp add: map_of_eq_None_iff)
  with Cons show ?case by (cases x) (auto split: option.splits)
qed simp

lemma length_dict_set:
  "length (dict_set k v d) = (if dict_get d k = None then Suc (length d) else length d)"
  by (induction d) auto

lemma dict_del_filter: "dict_del k d = filter (\<lambda>p. fst p \<noteq> k) d"
  by (induction d) auto

lemma map_le_Some: "m \<subseteq>\<^sub>m m' \<Longrightarrow> m k = Some v \<Longrightarrow> m' k = Some v"
  by (force simp: map_le_def)

subsection \<open>Runs of a labelled step relation\<close>

inductive run :: "('s \<Rightarrow> 'l \<Rightarrow> 's \<Rightarrow> bool) \<Rightarrow> 's \<Rightarrow> 'l list \<Rightarrow> 's \<Rightarrow> bool" for step where
  run_nil: "run step s [] s"
| run_cons: "step s l s' \<Longrightarrow> run step s' ls s'' \<Longrightarrow> run step s (l # ls) s''"

inductive_simps run_nil_iff [simp]: "run step s [] s'"
inductive_simps run_cons_iff: "run step s (l # ls) s'"

lemma run_append:
  "run step s (ls @ ks) s'' \<longleftrightarrow> (\<exists>s'. run step s ls s' \<and> run step s' ks s'')"
  by (induction ls arbitrary: s) (auto simp: run_cons_iff)

lemma run_snoc: "run step s ls s' \<Longrightarrow> step s' l s'' \<Longrightarrow> run step s (ls @ [l]) s''"
  by (auto simp: run_append run_cons_iff)

subsection \<open>Components whose calls read a clock\<close>

text \<open>
  A component whose calls are functions of a clock reading, a call and its state. A step is one
  call; clock readings do not decrease, and \<open>guard\<close> states what the environment promises about
  the arguments of a call (for example that a random identifier is fresh).
\<close>

inductive clocked_step :: "('o \<Rightarrow> 's \<Rightarrow> bool) \<Rightarrow> (real \<Rightarrow> 'o \<Rightarrow> 's \<Rightarrow> 'r \<times> 's) \<Rightarrow>
    real \<times> 's \<Rightarrow> real \<times> 'o \<times> 'r \<Rightarrow> real \<times> 's \<Rightarrow> bool" for guard exec where
  clocked_call: "t \<le> now \<Longrightarrow> guard op s \<Longrightarrow> exec now op s = (res, s') \<Longrightarrow>
    clocked_step guard exec (t, s) (now, op, res) (now, s')"

lemma clocked_stepE:
  assumes "clocked_step guard exec c l c'"
  obtains now op where "fst c \<le> now" "guard op (snd c)"
    "l = (now, op, fst (exec now op (snd c)))" "c' = (now, snd (exec now op (snd c)))"
  using assms
proof cases
  case (clocked_call t now op s res s')
  then show thesis using that [of now op] by simp
qed

lemma clocked_time:
  "run (clocked_step guard exec) c ls c' \<Longrightarrow> fst c \<le> fst c' \<and> (\<forall>l \<in> set ls. fst l \<le> fst c')"
  by (induction rule: run.induct) (auto elim!: clocked_stepE)

text \<open>Executing a list of timed calls, and the run it is.\<close>

fun exec_calls :: "(real \<Rightarrow> 'o \<Rightarrow> 's \<Rightarrow> 'r \<times> 's) \<Rightarrow> real \<times> 's \<Rightarrow> (real \<times> 'o) list \<Rightarrow>
    (real \<times> 'o \<times> 'r) list \<times> real \<times> 's" where
  "exec_calls exec (t, s) [] = ([], t, s)"
| "exec_calls exec (t, s) ((now, op) # ops) =
     (let (res, s') = exec now op s; (ls, c) = exec_calls exec (now, s') ops
      in ((now, op, res) # ls, c))"

fun calls_ok :: "('o \<Rightarrow> 's \<Rightarrow> bool) \<Rightarrow> (real \<Rightarrow> 'o \<Rightarrow> 's \<Rightarrow> 'r \<times> 's) \<Rightarrow> real \<times> 's \<Rightarrow>
    (real \<times> 'o) list \<Rightarrow> bool" where
  "calls_ok guard exec (t, s) [] \<longleftrightarrow> True"
| "calls_ok guard exec (t, s) ((now, op) # ops) \<longleftrightarrow>
     t \<le> now \<and> guard op s \<and> calls_ok guard exec (now, snd (exec now op s)) ops"

lemma exec_calls_run:
  "calls_ok guard exec c ops \<Longrightarrow>
     run (clocked_step guard exec) c (fst (exec_calls exec c ops)) (snd (exec_calls exec c ops))"
proof (induction guard exec c ops rule: calls_ok.induct)
  case (1 guard exec t s)
  show ?case by (simp add: run_nil)
next
  case (2 guard exec t s now op ops)
  obtain res s' where e: "exec now op s = (res, s')" by fastforce
  with 2 have "clocked_step guard exec (t, s) (now, op, res) (now, s')"
    by (auto intro: clocked_step.intros)
  moreover have "run (clocked_step guard exec) (now, s') (fst (exec_calls exec (now, s') ops))
      (snd (exec_calls exec (now, s') ops))" using 2 e by simp
  ultimately show ?case using e by (auto simp: Let_def split: prod.splits intro: run_cons)
qed

subsection \<open>Contracts shared by the stateful components\<close>

text \<open>A property every step keeps holds after any run.\<close>

locale step_invariant =
  fixes step :: "'s \<Rightarrow> 'l \<Rightarrow> 's \<Rightarrow> bool"
    and inv :: "'s \<Rightarrow> bool"
  assumes inv_step: "inv s \<Longrightarrow> step s l s' \<Longrightarrow> inv s'"
begin

lemma inv_run: "run step s ls s' \<Longrightarrow> inv s \<Longrightarrow> inv s'"
  by (induction rule: run.induct) (auto intro: inv_step)

end

text \<open>A history that a step may only extend at its end: no run loses or rewrites an entry.\<close>

locale append_only = step_invariant +
  fixes hist :: "'s \<Rightarrow> 'h list"
  assumes hist_step: "inv s \<Longrightarrow> step s l s' \<Longrightarrow> prefix (hist s) (hist s')"
begin

lemma hist_run: "run step s ls s' \<Longrightarrow> inv s \<Longrightarrow> prefix (hist s) (hist s')"
proof (induction rule: run.induct)
  case (run_nil s)
  show ?case by simp
next
  case (run_cons s l s' ls s'')
  then have "prefix (hist s) (hist s')" and "prefix (hist s') (hist s'')"
    using hist_step inv_step by blast+
  then show ?case by (rule prefix_order.trans)
qed

lemma hist_run_mem: "run step s ls s' \<Longrightarrow> inv s \<Longrightarrow> x \<in> set (hist s) \<Longrightarrow> x \<in> set (hist s')"
  using hist_run set_mono_prefix by blast

end

text \<open>
  A key that a step accepts was not spent before, is spent afterwards, and stays spent: in any
  run every key is accepted at most once.
\<close>

locale at_most_once = step_invariant +
  fixes accepts :: "'l \<Rightarrow> 'k option"
    and spent :: "'s \<Rightarrow> 'k set"
  assumes accept_fresh: "inv s \<Longrightarrow> step s l s' \<Longrightarrow> accepts l = Some k \<Longrightarrow> k \<notin> spent s"
    and accept_spends: "inv s \<Longrightarrow> step s l s' \<Longrightarrow> accepts l = Some k \<Longrightarrow> k \<in> spent s'"
    and spent_mono: "inv s \<Longrightarrow> step s l s' \<Longrightarrow> spent s \<subseteq> spent s'"
begin

lemma spent_run: "run step s ls s' \<Longrightarrow> inv s \<Longrightarrow> spent s \<subseteq> spent s'"
  by (induction rule: run.induct) (use spent_mono inv_step in blast)+

lemma accepted_distinct:
  "run step s ls s' \<Longrightarrow> inv s \<Longrightarrow>
    distinct (List.map_filter accepts ls) \<and>
    set (List.map_filter accepts ls) \<inter> spent s = {} \<and>
    set (List.map_filter accepts ls) \<subseteq> spent s'"
proof (induction rule: run.induct)
  case (run_nil s)
  show ?case by (simp add: List.map_filter_simps)
next
  case (run_cons s l s' ls s'')
  then have inv': "inv s'" using inv_step by blast
  note ih = run_cons.IH [OF inv']
  have mono: "spent s \<subseteq> spent s'" "spent s' \<subseteq> spent s''"
    using run_cons spent_mono spent_run inv' by blast+
  show ?case
  proof (cases "accepts l")
    case None
    then have "List.map_filter accepts (l # ls) = List.map_filter accepts ls"
      by (simp add: List.map_filter_simps)
    then show ?thesis using ih mono by auto
  next
    case (Some k)
    then have "k \<notin> spent s" "k \<in> spent s'"
      using run_cons accept_fresh accept_spends by blast+
    moreover have "List.map_filter accepts (l # ls) = k # List.map_filter accepts ls"
      using Some by (simp add: List.map_filter_simps)
    ultimately show ?thesis using ih mono by auto
  qed
qed

end

text \<open>A clocked component whose calls keep an invariant is a system with that invariant.\<close>

locale clocked_system =
  fixes guard :: "'o \<Rightarrow> 's \<Rightarrow> bool"
    and exec :: "real \<Rightarrow> 'o \<Rightarrow> 's \<Rightarrow> 'r \<times> 's"
    and ok :: "'s \<Rightarrow> bool"
  assumes ok_exec: "ok s \<Longrightarrow> guard op s \<Longrightarrow> ok (snd (exec now op s))"
begin

sublocale step_invariant "clocked_step guard exec" "\<lambda>c. ok (snd c)"
  by unfold_locales (auto elim!: clocked_stepE intro: ok_exec)

lemma ok_reachable: "ok s0 \<Longrightarrow> run (clocked_step guard exec) (t0, s0) ls (t, s) \<Longrightarrow> ok s"
  using inv_run by fastforce

end

end
