(* ===== verification/Lease.thy ===== *)
theory Lease
  imports Vuoro_Prelude
begin

text \<open>
  The lease store of \<open>vuoro_service/lease.py\<close>: who may work on a subject, until when, and what
  becomes of a result that arrives under a lease that is no longer current.
\<close>

subsection \<open>Data\<close>

datatype lease_error = LeaseConflictError | LeaseHolderMismatchError | LeaseNotCurrentError

record lease =
  lease_id :: string
  lease_subject :: string
  lease_holder :: string
  issued_at :: real
  ttl_seconds :: real
  last_heartbeat_at :: real

datatype retain_reason = Expired | Superseded

record 'r retained_outcome =
  ro_lease_id :: string
  ro_subject :: string
  ro_holder :: string
  ro_result :: 'r
  ro_reason :: retain_reason
  ro_retained_at :: real
  ro_disposition :: string
  ro_settlement_effect :: string

record 'r lease_store =
  by_subject :: "(string, lease) dict"
  issued :: "(string, lease) dict"
  retained :: "'r retained_outcome list"
  completed :: "string set"

definition empty_store :: "'r lease_store" where
  "empty_store = \<lparr>by_subject = [], issued = [], retained = [], completed = {}\<rparr>"

subsection \<open>Operations\<close>

definition is_expired :: "lease \<Rightarrow> real \<Rightarrow> bool" where
  "is_expired l now \<longleftrightarrow> now > last_heartbeat_at l + ttl_seconds l"

definition current :: "'r lease_store \<Rightarrow> string \<Rightarrow> lease option" where
  "current s subject = dict_get (by_subject s) subject"

text \<open>\<open>claim\<close>; \<open>uuid\<close> is the identifier \<open>str(uuid.uuid4())\<close> would give, \<open>now\<close> the clock reading.\<close>

definition claim :: "string \<Rightarrow> string \<Rightarrow> real \<Rightarrow> string \<Rightarrow> real \<Rightarrow> 'r lease_store \<Rightarrow>
    (lease_error, lease) result \<times> 'r lease_store" where
  "claim subject holder ttl uuid now s =
    (case current s subject of
       Some cur \<Rightarrow>
         if \<not> is_expired cur now then (Inl LeaseConflictError, s)
         else if lease_holder cur = holder then
           (let renewed = cur\<lparr>last_heartbeat_at := now\<rparr>
            in (Inr renewed,
                s\<lparr>by_subject := dict_set subject renewed (by_subject s),
                  issued := dict_set (lease_id renewed) renewed (issued s)\<rparr>))
         else
           (let l = \<lparr>lease_id = uuid, lease_subject = subject, lease_holder = holder,
                     issued_at = now, ttl_seconds = ttl, last_heartbeat_at = now\<rparr>
            in (Inr l, s\<lparr>by_subject := dict_set subject l (by_subject s),
                         issued := dict_set (lease_id l) l (issued s)\<rparr>))
     | None \<Rightarrow>
         (let l = \<lparr>lease_id = uuid, lease_subject = subject, lease_holder = holder,
                   issued_at = now, ttl_seconds = ttl, last_heartbeat_at = now\<rparr>
          in (Inr l, s\<lparr>by_subject := dict_set subject l (by_subject s),
                       issued := dict_set (lease_id l) l (issued s)\<rparr>)))"

definition reclaim :: "string \<Rightarrow> string \<Rightarrow> real \<Rightarrow> string \<Rightarrow> real \<Rightarrow> 'r lease_store \<Rightarrow>
    (lease_error, lease) result \<times> 'r lease_store" where
  "reclaim subject holder ttl uuid now s =
    (let cur = current s subject;
         live = (case cur of None \<Rightarrow> False | Some c \<Rightarrow> \<not> is_expired c now);
         own = (case cur of None \<Rightarrow> None | Some c \<Rightarrow> if lease_holder c = holder then Some c else None)
     in if live then (Inl LeaseConflictError, s)
        else case own of
          Some c \<Rightarrow>
            (let renewed = c\<lparr>last_heartbeat_at := now\<rparr>
             in (Inr renewed,
                 s\<lparr>by_subject := dict_set subject renewed (by_subject s),
                   issued := dict_set (lease_id renewed) renewed (issued s)\<rparr>))
        | None \<Rightarrow>
            (let l = \<lparr>lease_id = uuid, lease_subject = subject, lease_holder = holder,
                      issued_at = now, ttl_seconds = ttl, last_heartbeat_at = now\<rparr>
             in (Inr l, s\<lparr>by_subject := dict_set subject l (by_subject s),
                          issued := dict_set (lease_id l) l (issued s)\<rparr>)))"

definition current_for_lease_id :: "'r lease_store \<Rightarrow> string \<Rightarrow> lease option" where
  "current_for_lease_id s lid = find (\<lambda>l. lease_id l = lid) (map snd (by_subject s))"

definition heartbeat :: "string \<Rightarrow> string \<Rightarrow> real \<Rightarrow> 'r lease_store \<Rightarrow>
    (lease_error, lease) result \<times> 'r lease_store" where
  "heartbeat lid holder now s =
    (case current_for_lease_id s lid of
       None \<Rightarrow> (Inl LeaseNotCurrentError, s)
     | Some cur \<Rightarrow>
         if lease_holder cur \<noteq> holder then (Inl LeaseHolderMismatchError, s)
         else if is_expired cur now then (Inl LeaseNotCurrentError, s)
         else (let renewed = cur\<lparr>last_heartbeat_at := now\<rparr>
               in (Inr renewed,
                   s\<lparr>by_subject := dict_set (lease_subject cur) renewed (by_subject s)\<rparr>)))"

definition retain :: "lease \<Rightarrow> 'r \<Rightarrow> retain_reason \<Rightarrow> real \<Rightarrow> 'r lease_store \<Rightarrow> 'r lease_store" where
  "retain l result reason now s = s\<lparr>retained := retained s @
     [\<lparr>ro_lease_id = lease_id l, ro_subject = lease_subject l, ro_holder = lease_holder l,
       ro_result = result, ro_reason = reason, ro_retained_at = now,
       ro_disposition = ''stale'', ro_settlement_effect = ''none''\<rparr>]\<rparr>"

definition complete :: "string \<Rightarrow> string \<Rightarrow> 'r \<Rightarrow> real \<Rightarrow> 'r lease_store \<Rightarrow>
    (lease_error, unit) result \<times> 'r lease_store" where
  "complete lid holder result now s =
    (case current_for_lease_id s lid of
       None \<Rightarrow>
         (Inl LeaseNotCurrentError,
          case dict_get (issued s) lid of
            None \<Rightarrow> s
          | Some i \<Rightarrow> if lease_holder i = holder \<and> lid \<notin> completed s
                      then retain i result Superseded now s else s)
     | Some cur \<Rightarrow>
         if lease_holder cur \<noteq> holder then (Inl LeaseHolderMismatchError, s)
         else if is_expired cur now then
           (Inl LeaseNotCurrentError, retain cur result Expired now s)
         else (Inr (), s\<lparr>by_subject := dict_del (lease_subject cur) (by_subject s),
                         completed := insert lid (completed s)\<rparr>))"

definition retained_outcomes :: "string \<Rightarrow> 'r lease_store \<Rightarrow> 'r retained_outcome list" where
  "retained_outcomes subject s = filter (\<lambda>ro. ro_subject ro = subject) (retained s)"

definition subject_is_expired :: "string \<Rightarrow> real \<Rightarrow> 'r lease_store \<Rightarrow> bool option" where
  "subject_is_expired subject now s = map_option (\<lambda>l. is_expired l now) (current s subject)"

subsection \<open>Operations as steps\<close>

text \<open>
  One call on the store at a clock reading, and the relation between the states around it. Clock
  readings do not decrease (\<open>time.monotonic\<close>) and \<open>uuid4\<close> gives an identifier that was not
  issued before.
\<close>

datatype 'r lease_op =
    Claim string string real string
  | Reclaim string string real string
  | Heartbeat string string
  | Complete string string 'r

fun lease_exec :: "real \<Rightarrow> 'r lease_op \<Rightarrow> 'r lease_store \<Rightarrow>
    (lease_error, lease option) result \<times> 'r lease_store" where
  "lease_exec now (Claim subject holder ttl uuid) s =
     apfst (map_sum id Some) (claim subject holder ttl uuid now s)"
| "lease_exec now (Reclaim subject holder ttl uuid) s =
     apfst (map_sum id Some) (reclaim subject holder ttl uuid now s)"
| "lease_exec now (Heartbeat lid holder) s =
     apfst (map_sum id Some) (heartbeat lid holder now s)"
| "lease_exec now (Complete lid holder result) s =
     apfst (map_sum id (\<lambda>_. None)) (complete lid holder result now s)"

fun fresh_uuid :: "'r lease_op \<Rightarrow> 'r lease_store \<Rightarrow> bool" where
  "fresh_uuid (Claim subject holder ttl uuid) s \<longleftrightarrow> dict_get (issued s) uuid = None"
| "fresh_uuid (Reclaim subject holder ttl uuid) s \<longleftrightarrow> dict_get (issued s) uuid = None"
| "fresh_uuid _ s \<longleftrightarrow> True"

fun caller :: "'r lease_op \<Rightarrow> string" where
  "caller (Claim subject holder ttl uuid) = holder"
| "caller (Reclaim subject holder ttl uuid) = holder"
| "caller (Heartbeat lid holder) = holder"
| "caller (Complete lid holder result) = holder"

type_synonym 'r lease_label = "real \<times> 'r lease_op \<times> (lease_error, lease option) result"

abbreviation lease_step :: "real \<times> 'r lease_store \<Rightarrow> 'r lease_label \<Rightarrow> real \<times> 'r lease_store \<Rightarrow> bool"
  where "lease_step \<equiv> clocked_step fresh_uuid lease_exec"

fun settles :: "'r lease_label \<Rightarrow> string option" where
  "settles (now, Complete lid holder result, Inr _) = Some lid"
| "settles _ = None"

subsection \<open>The store invariant\<close>

definition store_inv :: "'r lease_store \<Rightarrow> bool" where
  "store_inv s \<longleftrightarrow>
     dict_ok (by_subject s) \<and>
     (\<forall>subject l. dict_get (by_subject s) subject = Some l \<longrightarrow>
        lease_subject l = subject \<and> lease_id l \<notin> completed s \<and>
        (\<exists>i. dict_get (issued s) (lease_id l) = Some i \<and>
             lease_holder i = lease_holder l \<and> lease_subject i = subject)) \<and>
     (\<forall>lid i. dict_get (issued s) lid = Some i \<longrightarrow> lease_id i = lid) \<and>
     completed s \<subseteq> dom (dict_get (issued s)) \<and>
     (\<forall>ro \<in> set (retained s). ro_disposition ro = ''stale'' \<and> ro_settlement_effect ro = ''none'' \<and>
        (\<exists>i. dict_get (issued s) (ro_lease_id ro) = Some i \<and>
             lease_holder i = ro_holder ro \<and> lease_subject i = ro_subject ro))"

lemma store_inv_empty: "store_inv empty_store"
  by (simp add: store_inv_def empty_store_def)

lemma store_invD:
  assumes "store_inv s" "dict_get (by_subject s) subject = Some l"
  shows "lease_subject l = subject" "lease_id l \<notin> completed s"
    "\<exists>i. dict_get (issued s) (lease_id l) = Some i \<and>
         lease_holder i = lease_holder l \<and> lease_subject i = subject"
  using assms by (auto simp: store_inv_def)

lemma store_inv_unique:
  assumes "store_inv s" "dict_get (by_subject s) a = Some l" "dict_get (by_subject s) b = Some m"
    "lease_id l = lease_id m"
  shows "a = b"
  using store_invD(3) [OF assms(1,2)] store_invD(3) [OF assms(1,3)] assms(4) by auto

lemma store_inv_replace:
  assumes "store_inv s" "dict_get (by_subject s) subject = Some cur" "l = cur\<lparr>last_heartbeat_at := now\<rparr>"
  shows "store_inv (s\<lparr>by_subject := dict_set subject l (by_subject s)\<rparr>)"
    "store_inv (s\<lparr>by_subject := dict_set subject l (by_subject s),
                 issued := dict_set (lease_id l) l (issued s)\<rparr>)"
proof -
  have eq: "lease_id l = lease_id cur" "lease_holder l = lease_holder cur"
    "lease_subject l = lease_subject cur" by (simp_all add: assms(3))
  note D = store_invD [OF assms(1,2)]
  show "store_inv (s\<lparr>by_subject := dict_set subject l (by_subject s)\<rparr>)"
    using assms(1) D eq by (auto simp: store_inv_def)
  show "store_inv (s\<lparr>by_subject := dict_set subject l (by_subject s),
                 issued := dict_set (lease_id l) l (issued s)\<rparr>)"
    using assms(1) D eq by (auto simp: store_inv_def) (metis option.inject)+
qed

lemma reclaim_eq_claim: "reclaim subject holder ttl uuid now s = claim subject holder ttl uuid now s"
  by (simp add: reclaim_def claim_def Let_def split: option.splits)

lemma current_for_lease_id_Some:
  assumes "store_inv s" "current_for_lease_id s lid = Some l"
  shows "current s (lease_subject l) = Some l" "lease_id l = lid" "lid \<notin> completed s"
    "\<exists>i. dict_get (issued s) lid = Some i \<and> lease_holder i = lease_holder l \<and>
       lease_subject i = lease_subject l"
proof -
  have "dict_ok (by_subject s)" using assms(1) by (simp add: store_inv_def)
  then obtain subject where get: "dict_get (by_subject s) subject = Some l" and id: "lease_id l = lid"
    using assms(2) unfolding current_for_lease_id_def by (rule dict_find_Some)
  with assms(1) show "current s (lease_subject l) = Some l"
    by (auto simp: store_inv_def current_def)
  show "lease_id l = lid" by (rule id)
  show "lid \<notin> completed s" "\<exists>i. dict_get (issued s) lid = Some i \<and>
      lease_holder i = lease_holder l \<and> lease_subject i = lease_subject l"
    using assms(1) get id by (auto simp: store_inv_def)
qed

lemma current_for_lease_id_None:
  "store_inv s \<Longrightarrow> current_for_lease_id s lid = None \<longleftrightarrow>
     (\<forall>subject l. current s subject = Some l \<longrightarrow> lease_id l \<noteq> lid)"
  unfolding current_for_lease_id_def current_def by (rule dict_find_None) (simp add: store_inv_def)

lemma claim_inv:
  assumes "store_inv s" "dict_get (issued s) uuid = None"
  shows "store_inv (snd (claim subject holder ttl uuid now s))"
proof (cases "current s subject")
  case None
  with assms show ?thesis
    by (fastforce simp: claim_def store_inv_def current_def Let_def)
next
  case (Some cur)
  with assms(1) obtain i where i: "dict_get (issued s) (lease_id cur) = Some i"
    "lease_holder i = lease_holder cur" "lease_subject i = subject" "lease_subject cur = subject"
    by (auto simp: store_inv_def current_def)
  have ne: "lease_id cur \<noteq> uuid" using i assms(2) by auto
  consider "\<not> is_expired cur now" | "is_expired cur now" "lease_holder cur = holder"
    | "is_expired cur now" "lease_holder cur \<noteq> holder" by blast
  then show ?thesis
  proof cases
    case 1
    with Some assms(1) show ?thesis by (simp add: claim_def)
  next
    case 2
    with Some assms(1) store_inv_replace(2) [of s subject cur _ now] show ?thesis
      by (simp add: claim_def current_def Let_def)
  next
    case 3
    with Some assms ne show ?thesis
      by (fastforce simp: claim_def store_inv_def current_def Let_def)
  qed
qed

lemma heartbeat_inv:
  assumes "store_inv s"
  shows "store_inv (snd (heartbeat lid holder now s))"
proof (cases "current_for_lease_id s lid")
  case None
  with assms show ?thesis by (simp add: heartbeat_def)
next
  case (Some cur)
  with assms current_for_lease_id_Some(1) [OF assms Some] show ?thesis
    by (simp add: heartbeat_def current_def Let_def store_inv_replace(1))
qed

lemma retain_inv:
  assumes "store_inv s" "dict_get (issued s) (lease_id l) = Some i"
    "lease_holder i = lease_holder l" "lease_subject i = lease_subject l"
  shows "store_inv (retain l result reason now s)"
  using assms by (auto simp: store_inv_def retain_def)

lemma complete_inv:
  assumes "store_inv s"
  shows "store_inv (snd (complete lid holder result now s))"
proof (cases "current_for_lease_id s lid")
  case None
  with assms show ?thesis
    by (auto simp: complete_def split: option.splits intro!: retain_inv)
      (auto simp: store_inv_def)
next
  case (Some cur)
  note facts = current_for_lease_id_Some [OF assms Some]
  from facts(4) obtain i where i: "dict_get (issued s) lid = Some i"
    "lease_holder i = lease_holder cur" "lease_subject i = lease_subject cur" by blast
  have "store_inv (retain cur result Expired now s)"
    using assms i facts(2) by (auto intro: retain_inv)
  moreover have "\<And>subject l. dict_get (by_subject s) subject = Some l \<Longrightarrow>
      lease_id l = lid \<Longrightarrow> subject = lease_subject cur"
    using facts(1,2) store_inv_unique [OF assms] by (auto simp: current_def)
  ultimately show ?thesis using assms Some i
    by (auto simp: complete_def store_inv_def)
qed

lemma lease_exec_inv: "store_inv s \<Longrightarrow> fresh_uuid op s \<Longrightarrow> store_inv (snd (lease_exec now op s))"
  by (cases op) (simp_all add: claim_inv reclaim_eq_claim heartbeat_inv complete_inv)

subsection \<open>What each call keeps\<close>

lemma issued_stable:
  assumes "store_inv s" "fresh_uuid op s" "dict_get (issued s) lid = Some i"
  shows "\<exists>i'. dict_get (issued (snd (lease_exec now op s))) lid = Some i' \<and>
    lease_holder i' = lease_holder i \<and> lease_subject i' = lease_subject i"
proof (cases op)
  case (Claim subject holder ttl uuid)
  with assms show ?thesis
    by (auto simp: claim_def current_def store_inv_def Let_def split: option.splits)
      (metis option.inject)+
next
  case (Reclaim subject holder ttl uuid)
  with assms show ?thesis
    by (auto simp: reclaim_eq_claim claim_def current_def store_inv_def Let_def split: option.splits)
      (metis option.inject)+
qed (use assms in \<open>auto simp: heartbeat_def complete_def retain_def Let_def split: option.splits\<close>)

lemma dead_stays_dead:
  assumes "store_inv s" "fresh_uuid op s" "dict_get (issued s) lid = Some i"
    "current_for_lease_id s lid = None"
  shows "current_for_lease_id (snd (lease_exec now op s)) lid = None"
proof -
  have inv': "store_inv (snd (lease_exec now op s))" using assms by (simp add: lease_exec_inv)
  have old: "\<forall>subject l. dict_get (by_subject s) subject = Some l \<longrightarrow> lease_id l \<noteq> lid"
    using assms by (simp add: current_for_lease_id_None current_def)
  have "\<forall>subject l. dict_get (by_subject (snd (lease_exec now op s))) subject = Some l \<longrightarrow>
      lease_id l \<noteq> lid"
  proof (cases op)
    case (Heartbeat hid holder)
    show ?thesis
      using old Heartbeat current_for_lease_id_Some(1,2) [OF assms(1), of hid]
      by (simp add: heartbeat_def current_def Let_def split: option.splits if_splits) fastforce
  qed (use assms(2,3) old in \<open>auto simp: claim_def reclaim_eq_claim complete_def retain_def current_def
        Let_def split: option.splits if_splits\<close>)
  then show ?thesis using inv' by (simp add: current_for_lease_id_None current_def)
qed

lemma retained_append:
  "prefix (retained s) (retained (snd (lease_exec now op s)))"
  by (cases op) (auto simp: claim_def reclaim_eq_claim heartbeat_def complete_def retain_def Let_def
      split: option.splits)

lemma completed_mono: "completed s \<subseteq> completed (snd (lease_exec now op s))"
  by (cases op) (auto simp: claim_def reclaim_eq_claim heartbeat_def complete_def retain_def Let_def
      split: option.splits)

lemma complete_Inr:
  assumes "store_inv s" "complete lid holder result now s = (Inr (), s')"
  shows "lid \<notin> completed s" "lid \<in> completed s'"
  using assms current_for_lease_id_Some(3) [OF assms(1)]
  by (auto simp: complete_def split: option.splits if_splits)

subsection \<open>Contracts\<close>

interpretation lease_sys: clocked_system fresh_uuid lease_exec store_inv
  by unfold_locales (rule lease_exec_inv)

interpretation lease_history: append_only lease_step "\<lambda>c. store_inv (snd c)" "\<lambda>c. retained (snd c)"
  by unfold_locales (auto elim!: clocked_stepE simp: retained_append)

interpretation lease_settlement: at_most_once lease_step "\<lambda>c. store_inv (snd c)" settles
  "\<lambda>c. completed (snd c)"
proof unfold_locales
  fix c :: "real \<times> 'a lease_store" and l c' lid
  assume inv: "store_inv (snd c)" and st: "lease_step c l c'"
  show "completed (snd c) \<subseteq> completed (snd c')"
    using st by (elim clocked_stepE) (simp add: completed_mono)
  assume "settles l = Some lid"
  then obtain now holder result r where "l = (now, Complete lid holder result, Inr r)"
    by (auto elim: settles.elims)
  with st have "complete lid holder result now (snd c) = (Inr (), snd c')"
    by (cases "complete lid holder result now (snd c)")
      (auto elim!: clocked_stepE simp: apfst_def map_sum_def split: sum.splits)
  with inv show "lid \<notin> completed (snd c)" "lid \<in> completed (snd c')"
    by (auto dest: complete_Inr)
qed

lemma dead_run:
  "run lease_step c ks c' \<Longrightarrow> store_inv (snd c) \<Longrightarrow> dict_get (issued (snd c)) lid = Some i \<Longrightarrow>
     current_for_lease_id (snd c) lid = None \<Longrightarrow> current_for_lease_id (snd c') lid = None"
proof (induction arbitrary: i rule: run.induct)
  case (run_nil c)
  then show ?case by simp
next
  case (run_cons c l c' ks c'')
  from run_cons.hyps(1) obtain now op where op: "fresh_uuid op (snd c)"
    "c' = (now, snd (lease_exec now op (snd c)))" by (auto elim: clocked_stepE)
  obtain i' where "dict_get (issued (snd c')) lid = Some i'"
    using issued_stable run_cons.prems op by fastforce
  moreover have "store_inv (snd c')" "current_for_lease_id (snd c') lid = None"
    using run_cons.prems op by (simp_all add: lease_exec_inv dead_stays_dead)
  ultimately show ?case using run_cons.IH by blast
qed

lemma reachable_inv: "run lease_step (t0, empty_store) ls (t, s) \<Longrightarrow> store_inv s"
  using lease_sys.ok_reachable store_inv_empty by blast

lemma live_lease_kept:
  assumes "store_inv s" "current s subject = Some l" "\<not> is_expired l now"
    "caller op \<noteq> lease_holder l"
  shows "current (snd (lease_exec now op s)) subject = Some l"
proof (cases op)
  case (Heartbeat hid holder)
  show ?thesis
    using Heartbeat assms current_for_lease_id_Some(1) [OF assms(1), of hid]
    by (auto simp: heartbeat_def current_def Let_def split: option.splits)
next
  case (Complete hid holder result)
  show ?thesis
    using Complete assms current_for_lease_id_Some(1) [OF assms(1), of hid]
    by (auto simp: complete_def current_def retain_def split: option.splits)
qed (use assms in \<open>auto simp: claim_def reclaim_eq_claim current_def Let_def split: option.splits\<close>)

subsection \<open>Properties\<close>

text \<open>
  A concrete history used by the witnesses: \<open>alice\<close> claims a subject for ten seconds, lets it
  expire, \<open>bob\<close> claims it, and \<open>alice\<close> completes too late.
\<close>

definition demo_history :: "(real \<times> nat lease_op) list" where
  "demo_history = [(0, Claim ''work'' ''alice'' 10 ''L1''), (11, Claim ''work'' ''bob'' 10 ''L2''),
     (12, Complete ''L1'' ''alice'' 7)]"

abbreviation lease_replay :: "real \<times> 'r lease_store \<Rightarrow> (real \<times> 'r lease_op) list \<Rightarrow>
    'r lease_label list \<times> real \<times> 'r lease_store" where
  "lease_replay \<equiv> exec_calls lease_exec"

lemmas lease_eval = demo_history_def empty_store_def claim_def reclaim_def heartbeat_def complete_def
  retain_def current_def current_for_lease_id_def is_expired_def Let_def

lemma demo_history_ok: "calls_ok fresh_uuid lease_exec (0, empty_store) demo_history"
  by (simp add: lease_eval)

text \<open>In every state the store reaches, each subject has at most one current lease, a lease id is
  current for at most one subject, every current lease was issued with the same holder and subject and
  has not been completed, and every retained outcome is marked stale with no settlement effect and
  names a lease that was issued to its own holder.\<close>

theorem lease_store_sound:
  assumes "run lease_step (t0, empty_store) ls (t, s)"
  shows "store_inv s \<and>
    (\<forall>a b l m. current s a = Some l \<and> current s b = Some m \<and> lease_id l = lease_id m \<longrightarrow> a = b)"
  using reachable_inv [OF assms] by (auto simp: current_def intro: store_inv_unique)

theorem lease_store_sound_witness:
  "store_inv (snd (snd (lease_replay (0, empty_store) demo_history)))"
  using lease_store_sound [of 0 "fst (lease_replay (0, empty_store) demo_history)"
      "fst (snd (lease_replay (0, empty_store) demo_history))"
      "snd (snd (lease_replay (0, empty_store) demo_history))"]
    exec_calls_run [OF demo_history_ok] by simp

text \<open>C1: A superseded lease id is dead for ever: once an issued id names no current lease, no
  later sequence of calls makes it current again, and a heartbeat or a completion with it is refused as
  not current, whoever presents it, without touching any current lease or settling anything.\<close>

theorem superseded_lease_is_dead:
  assumes "run lease_step (t0, empty_store) ls (t, s)" "dict_get (issued s) lid = Some i"
    "current_for_lease_id s lid = None" "run lease_step (t, s) ks (t', s')"
  shows "current_for_lease_id s' lid = None \<and>
    heartbeat lid holder now s' = (Inl LeaseNotCurrentError, s') \<and>
    fst (complete lid holder result now s') = Inl LeaseNotCurrentError \<and>
    by_subject (snd (complete lid holder result now s')) = by_subject s' \<and>
    completed (snd (complete lid holder result now s')) = completed s'"
proof -
  have "current_for_lease_id s' lid = None"
    using dead_run [OF assms(4)] reachable_inv [OF assms(1)] assms(2,3) by simp
  then show ?thesis by (simp add: heartbeat_def complete_def retain_def split: option.splits)
qed

theorem superseded_lease_is_dead_witness:
  "heartbeat ''L1'' ''alice'' 13 (snd (snd (lease_replay (0, empty_store) demo_history))) =
    (Inl LeaseNotCurrentError, snd (snd (lease_replay (0, empty_store) demo_history)))"
proof -
  let ?r = "lease_replay (0, empty_store) demo_history"
  have "dict_get (issued (snd (snd ?r))) ''L1'' =
      Some \<lparr>lease_id = ''L1'', lease_subject = ''work'', lease_holder = ''alice'',
            issued_at = 0, ttl_seconds = 10, last_heartbeat_at = 0\<rparr>"
    "current_for_lease_id (snd (snd ?r)) ''L1'' = None"
    by (simp_all add: lease_eval)
  then show ?thesis
    using superseded_lease_is_dead [of 0 "fst ?r" "fst (snd ?r)" "snd (snd ?r)" "''L1''" _ "[]"
        "fst (snd ?r)" "snd (snd ?r)" "''alice''" 13] exec_calls_run [OF demo_history_ok]
    by simp
qed

text \<open>C2: A live lease is exclusive: while it has not expired, no call by anyone but its holder
  changes the current lease of its subject, and a claim or reclaim of the subject is refused as a
  conflict.\<close>

theorem live_lease_is_exclusive:
  assumes "run lease_step (t0, empty_store) ls (t, s)" "current s subject = Some l"
    "\<not> is_expired l now" "caller op \<noteq> lease_holder l"
  shows "current (snd (lease_exec now op s)) subject = Some l \<and>
    claim subject other ttl uuid now s = (Inl LeaseConflictError, s) \<and>
    reclaim subject other ttl uuid now s = (Inl LeaseConflictError, s)"
  using live_lease_kept [OF reachable_inv [OF assms(1)] assms(2-4)] assms(2,3)
  by (simp add: reclaim_eq_claim claim_def)

theorem live_lease_is_exclusive_witness:
  "claim ''work'' ''carol'' 10 ''L3'' 13 (snd (snd (lease_replay (0, empty_store) demo_history))) =
    (Inl LeaseConflictError, snd (snd (lease_replay (0, empty_store) demo_history)))"
proof -
  let ?r = "lease_replay (0, empty_store) demo_history"
  let ?l = "\<lparr>lease_id = ''L2'', lease_subject = ''work'', lease_holder = ''bob'',
            issued_at = 11, ttl_seconds = 10, last_heartbeat_at = 11\<rparr>"
  have "current (snd (snd ?r)) ''work'' = Some ?l" "\<not> is_expired ?l 13"
    "caller (Complete ''L2'' ''alice'' 0) \<noteq> lease_holder ?l"
    by (simp_all add: lease_eval)
  then show ?thesis
    using live_lease_is_exclusive [of 0 "fst ?r" "fst (snd ?r)" "snd (snd ?r)" "''work''" ?l 13
        "Complete ''L2'' ''alice'' 0" "''carol''" 10 "''L3''"] exec_calls_run [OF demo_history_ok]
    by simp
qed

text \<open>A late result is evidence, never a settlement (INV-L1): when the holder of an issued lease that
  it has not completed presents a result after the lease expired or was superseded, the call is refused
  as not current, nothing about any lease changes, and exactly one outcome is appended that carries the
  result, its own lease and holder, and the reason.\<close>

theorem late_result_is_retained:
  assumes "run lease_step (t0, empty_store) ls (t, s)" "dict_get (issued s) lid = Some i"
    "lease_holder i = holder" "lid \<notin> completed s"
    "\<forall>cur. current_for_lease_id s lid = Some cur \<longrightarrow> is_expired cur now"
  shows "complete lid holder result now s = (Inl LeaseNotCurrentError,
    s\<lparr>retained := retained s @ [\<lparr>ro_lease_id = lid, ro_subject = lease_subject i, ro_holder = holder,
       ro_result = result,
       ro_reason = (if current_for_lease_id s lid = None then Superseded else Expired),
       ro_retained_at = now, ro_disposition = ''stale'', ro_settlement_effect = ''none''\<rparr>]\<rparr>)"
proof (cases "current_for_lease_id s lid")
  case None
  have "lease_id i = lid" using reachable_inv [OF assms(1)] assms(2) by (auto simp: store_inv_def)
  with None assms(2-4) show ?thesis by (simp add: complete_def retain_def)
next
  case (Some cur)
  note facts = current_for_lease_id_Some [OF reachable_inv [OF assms(1)] Some]
  with Some assms(2,3,5) show ?thesis by (auto simp: complete_def retain_def)
qed

theorem late_result_is_retained_witness:
  "retained_outcomes ''work'' (snd (complete ''L1'' ''alice'' (8::nat) 13
      (snd (snd (lease_replay (0, empty_store) demo_history))))) =
    [\<lparr>ro_lease_id = ''L1'', ro_subject = ''work'', ro_holder = ''alice'', ro_result = 7,
      ro_reason = Superseded, ro_retained_at = 12, ro_disposition = ''stale'',
      ro_settlement_effect = ''none''\<rparr>,
     \<lparr>ro_lease_id = ''L1'', ro_subject = ''work'', ro_holder = ''alice'', ro_result = 8,
      ro_reason = Superseded, ro_retained_at = 13, ro_disposition = ''stale'',
      ro_settlement_effect = ''none''\<rparr>]"
proof -
  let ?r = "lease_replay (0, empty_store) demo_history"
  let ?i = "\<lparr>lease_id = ''L1'', lease_subject = ''work'', lease_holder = ''alice'',
            issued_at = 0, ttl_seconds = 10, last_heartbeat_at = 0\<rparr>"
  have "dict_get (issued (snd (snd ?r))) ''L1'' = Some ?i"
    "''L1'' \<notin> completed (snd (snd ?r))" "current_for_lease_id (snd (snd ?r)) ''L1'' = None"
    by (simp_all add: lease_eval)
  then show ?thesis
    using late_result_is_retained [of 0 "fst ?r" "fst (snd ?r)" "snd (snd ?r)" "''L1''" ?i "''alice''"
        13 8] exec_calls_run [OF demo_history_ok]
    by (simp add: retained_outcomes_def) (simp add: lease_eval)
qed

text \<open>C3: A lease settles at most once: in any history of calls, no two completions of the same
  lease id succeed.\<close>

theorem settled_at_most_once:
  assumes "run lease_step (t0, empty_store) ls c"
  shows "distinct (List.map_filter settles ls)"
  using lease_settlement.accepted_distinct [OF assms] store_inv_empty by fastforce

theorem settled_at_most_once_witness:
  "distinct (List.map_filter settles (fst (lease_replay (0, empty_store)
     [(0, Claim ''work'' ''alice'' 10 ''L1''), (1, Complete ''L1'' ''alice'' (7::nat)),
      (2, Complete ''L1'' ''alice'' 7)])))"
proof -
  let ?ops = "[(0, Claim ''work'' ''alice'' 10 ''L1''), (1, Complete ''L1'' ''alice'' (7::nat)),
      (2, Complete ''L1'' ''alice'' 7)]"
  have "calls_ok fresh_uuid lease_exec (0, empty_store) ?ops" by (simp add: lease_eval)
  then show ?thesis
    using settled_at_most_once [of 0 "fst (lease_replay (0, empty_store) ?ops)"] exec_calls_run by blast
qed

text \<open>Retained evidence is append-only: no call removes, reorders or rewrites an outcome that was
  retained for a subject.\<close>

theorem retained_evidence_is_append_only:
  assumes "run lease_step (t0, empty_store) ls (t, s)" "run lease_step (t, s) ks (t', s')"
  shows "prefix (retained_outcomes subject s) (retained_outcomes subject s')"
  using lease_history.hist_run [OF assms(2)] reachable_inv [OF assms(1)]
  by (auto simp: retained_outcomes_def prefix_def)

theorem retained_evidence_is_append_only_witness:
  "prefix (retained_outcomes ''work'' (snd (snd (lease_replay (0, empty_store) demo_history))))
    (retained_outcomes ''work'' (snd (snd (lease_replay
      (snd (lease_replay (0, empty_store) demo_history)) [(30, Complete ''L2'' ''bob'' 9)]))))"
proof -
  let ?r = "lease_replay (0, empty_store) demo_history"
  let ?q = "lease_replay (snd ?r) [(30, Complete ''L2'' ''bob'' 9)]"
  have "calls_ok fresh_uuid lease_exec (snd ?r) [(30, Complete ''L2'' ''bob'' 9)]" by (simp add: lease_eval)
  then show ?thesis
    using retained_evidence_is_append_only [of 0 "fst ?r" "fst (snd ?r)" "snd (snd ?r)" "fst ?q"
        "fst (snd ?q)" "snd (snd ?q)"] exec_calls_run [OF demo_history_ok] exec_calls_run
    by (metis prod.collapse)
qed

text \<open>Takeover (INV-L2): an expired lease never blocks its subject. The same holder gets its own lease
  back with id, issue time and time to live kept; any other holder gets the fresh id, and the old id is
  no longer current. Either way the new lease is live for its whole time to live: within it the holder's
  heartbeat and completion succeed.\<close>

theorem takeover_after_expiry:
  assumes "run lease_step (t0, empty_store) ls (t, s)" "current s subject = Some old"
    "is_expired old now" "dict_get (issued s) uuid = None"
  shows "\<exists>l s'. claim subject holder ttl uuid now s = (Inr l, s') \<and>
    (if holder = lease_holder old
     then lease_id l = lease_id old \<and> issued_at l = issued_at old \<and> ttl_seconds l = ttl_seconds old
     else lease_id l = uuid \<and> ttl_seconds l = ttl \<and> current_for_lease_id s' (lease_id old) = None) \<and>
    current s' subject = Some l \<and>
    (\<forall>later \<le> now + ttl_seconds l.
       is_ok (fst (heartbeat (lease_id l) holder later s')) \<and>
       is_ok (fst (complete (lease_id l) holder result later s')))"
proof -
  note inv = reachable_inv [OF assms(1)]
  define l where "l = (if holder = lease_holder old then old\<lparr>last_heartbeat_at := now\<rparr>
    else \<lparr>lease_id = uuid, lease_subject = subject, lease_holder = holder,
          issued_at = now, ttl_seconds = ttl, last_heartbeat_at = now\<rparr>)"
  define s' where "s' = s\<lparr>by_subject := dict_set subject l (by_subject s),
    issued := dict_set (lease_id l) l (issued s)\<rparr>"
  have claim: "claim subject holder ttl uuid now s = (Inr l, s')"
    using assms(2,3) by (auto simp: claim_def l_def s'_def Let_def)
  have inv': "store_inv s'" using claim_inv [OF inv assms(4)] claim by (metis snd_conv)
  have cur: "current s' subject = Some l" by (simp add: s'_def current_def)
  have D: "lease_subject old = subject" "lease_id old \<noteq> uuid"
    using store_invD [OF inv, of subject old] assms(2,4) by (auto simp: current_def)
  have found: "current_for_lease_id s' (lease_id l) = Some l"
    using current_for_lease_id_None [OF inv'] current_for_lease_id_Some(1,2) [OF inv'] cur
      store_inv_unique [OF inv'] by (cases "current_for_lease_id s' (lease_id l)")
      (force simp: current_def)+
  have "holder \<noteq> lease_holder old \<Longrightarrow> current_for_lease_id s' (lease_id old) = None"
    using D store_inv_unique [OF inv] assms(2)
    by (auto simp: current_for_lease_id_None [OF inv']) (auto simp: s'_def current_def l_def split: if_splits)
  moreover have "lease_holder l = holder" "last_heartbeat_at l = now" by (auto simp: l_def)
  ultimately show ?thesis using claim cur found
    by (auto simp: heartbeat_def complete_def is_expired_def l_def Let_def)
qed

theorem takeover_after_expiry_witness:
  "\<exists>l s'. claim ''work'' ''carol'' 5 ''L3'' 30 (snd (snd (lease_replay (0, empty_store) demo_history))) =
      (Inr l, s') \<and> lease_id l = ''L3'' \<and> is_ok (fst (complete ''L3'' ''carol'' 1 35 s'))"
proof -
  let ?r = "lease_replay (0, empty_store) demo_history"
  let ?l = "\<lparr>lease_id = ''L2'', lease_subject = ''work'', lease_holder = ''bob'',
            issued_at = 11, ttl_seconds = 10, last_heartbeat_at = 11\<rparr>"
  have "current (snd (snd ?r)) ''work'' = Some ?l" "is_expired ?l 30"
    "dict_get (issued (snd (snd ?r))) ''L3'' = None"
    by (simp_all add: lease_eval)
  then show ?thesis
    using takeover_after_expiry [of 0 "fst ?r" "fst (snd ?r)" "snd (snd ?r)" "''work''" ?l 30 "''L3''"
        "''carol''" 5 1] exec_calls_run [OF demo_history_ok]
    by fastforce
qed

end
