(* ===== verification/Heapq.thy ===== *)
theory Heapq
  imports Vuoro_Prelude
begin

text \<open>
  Byte strings, and the priority queue of the standard library's \<open>heapq\<close> as its callers see it: a
  push adds one row, row 0 is a least row, a pop removes it. The contract is a locale, whose
  consequences for draining the rows below a threshold the callers use; the queue itself is
  kept as the sorted list of its rows, which has the same least row as the heap array.
\<close>

type_synonym bytes = "8 word list"

locale priority_queue =
  fixes push :: "'a::linorder \<Rightarrow> 'q \<Rightarrow> 'q"
    and peek :: "'q \<Rightarrow> 'a option"
    and pop :: "'q \<Rightarrow> 'q"
    and rows :: "'q \<Rightarrow> 'a multiset"
    and ok :: "'q \<Rightarrow> bool"
  assumes push_rows: "ok q \<Longrightarrow> rows (push x q) = add_mset x (rows q)"
    and push_ok: "ok q \<Longrightarrow> ok (push x q)"
    and peek_None: "ok q \<Longrightarrow> peek q = None \<longleftrightarrow> rows q = {#}"
    and peek_Some: "ok q \<Longrightarrow> peek q = Some x \<Longrightarrow> x \<in># rows q \<and> (\<forall>y \<in># rows q. x \<le> y)"
    and pop_rows: "ok q \<Longrightarrow> peek q = Some x \<Longrightarrow> rows (pop q) = rows q - {#x#}"
    and pop_ok: "ok q \<Longrightarrow> ok (pop q)"
begin

lemma pop_size: "ok q \<Longrightarrow> peek q = Some x \<Longrightarrow> size (rows (pop q)) < size (rows q)"
  using pop_rows peek_Some by (metis size_Diff1_less)

lemma peek_above: "ok q \<Longrightarrow> peek q = Some x \<Longrightarrow> b < x \<Longrightarrow> y \<in># rows q \<Longrightarrow> b < y"
  using peek_Some order.strict_trans2 by blast

lemma pop_row_mem:
  "ok q \<Longrightarrow> peek q = Some x \<Longrightarrow> y \<in># rows q \<Longrightarrow> y \<noteq> x \<Longrightarrow> y \<in># rows (pop q)"
  using pop_rows by (simp add: in_diff_count)

lemma pop_row_sub: "ok q \<Longrightarrow> peek q = Some x \<Longrightarrow> y \<in># rows (pop q) \<Longrightarrow> y \<in># rows q"
  using pop_rows by (metis in_diffD)

end

definition heappush :: "'a::linorder \<Rightarrow> 'a list \<Rightarrow> 'a list" where
  "heappush x q = insort x q"

definition heap_top :: "'a list \<Rightarrow> 'a option" where
  "heap_top q = (case q of [] \<Rightarrow> None | x # _ \<Rightarrow> Some x)"

definition heappop :: "'a list \<Rightarrow> 'a list" where
  "heappop q = tl q"

interpretation heapq: priority_queue heappush heap_top heappop mset sorted
proof unfold_locales
  fix q :: "'a list" and x y
  assume s: "sorted q"
  show "mset (heappush x q) = add_mset x (mset q)" by (simp add: heappush_def)
  show "sorted (heappush x q)" using s by (simp add: heappush_def sorted_insort)
  show "heap_top q = None \<longleftrightarrow> mset q = {#}" by (cases q) (auto simp: heap_top_def)
  show "sorted (heappop q)" using s by (simp add: heappop_def sorted_tl)
  assume "heap_top q = Some x"
  then obtain r where q: "q = x # r" by (cases q) (auto simp: heap_top_def)
  show "x \<in># mset q \<and> (\<forall>y \<in># mset q. x \<le> y)" using s q by auto
  show "mset (heappop q) = mset q - {#x#}" using q by (simp add: heappop_def)
qed

end
