(* ===== verification/Replay_Cache.thy ===== *)
theory Replay_Cache
  imports Heapq
begin

text \<open>
  The one-use cache of \<open>vuoro_service/replay.py\<close>: keys claimed by one route, a bounded number
  of times, until they expire. The lock makes each call atomic, so a call is one step.
\<close>

subsection \<open>Data\<close>

record replay_entry =
  re_expires_at :: real
  re_route :: string
  re_uses :: nat

record replay_cache =
  max_entries :: nat
  entries :: "(bytes, replay_entry) dict"
  expiry :: "(real \<times> bytes) list"
  refused_since_log :: nat
  last_full_log :: "real option"
  full_log :: "(real \<times> nat) list"

datatype replay_error = ReplayCacheFull

definition full_log_interval :: real where
  "full_log_interval = 60"

definition new_cache :: "nat \<Rightarrow> (string, replay_cache) result" where
  "new_cache n =
    (if n < 1 then Inl ''max_entries must be positive''
     else Inr \<lparr>max_entries = n, entries = [], expiry = [], refused_since_log = 0,
               last_full_log = None, full_log = []\<rparr>)"

subsection \<open>Operations\<close>

definition drop_if_live :: "real \<Rightarrow> bytes \<Rightarrow> (bytes, replay_entry) dict \<Rightarrow> (bytes, replay_entry) dict" where
  "drop_if_live e k es =
    (case dict_get es k of
       None \<Rightarrow> es
     | Some en \<Rightarrow> if re_expires_at en = e then dict_del k es else es)"

function purge_loop :: "real \<Rightarrow> (real \<times> bytes) list \<Rightarrow> (bytes, replay_entry) dict \<Rightarrow>
    (real \<times> bytes) list \<times> (bytes, replay_entry) dict" where
  "purge_loop now q es =
    (case heap_top q of
       None \<Rightarrow> (q, es)
     | Some (e, k) \<Rightarrow>
         if e \<le> now then purge_loop now (heappop q) (drop_if_live e k es) else (q, es))"
  by pat_completeness auto
termination
  by (relation "measure (\<lambda>(now, q, es). length q)")
    (auto simp: heap_top_def heappop_def split: list.splits)

declare purge_loop.simps [simp del]

definition purge :: "real \<Rightarrow> replay_cache \<Rightarrow> replay_cache" where
  "purge now c = (let (q, es) = purge_loop now (expiry c) (entries c)
                  in c\<lparr>expiry := q, entries := es\<rparr>)"

text \<open>The same loop read literally: its test, and its body.\<close>

definition purge_test :: "real \<Rightarrow> (real \<times> bytes) list \<times> (bytes, replay_entry) dict \<Rightarrow> bool" where
  "purge_test now s = (case heap_top (fst s) of None \<Rightarrow> False | Some (e, k) \<Rightarrow> e \<le> now)"

definition purge_body :: "(real \<times> bytes) list \<times> (bytes, replay_entry) dict \<Rightarrow> (real \<times> bytes) list \<times> (bytes, replay_entry) dict" where
  "purge_body s =
    (case heap_top (fst s) of None \<Rightarrow> s | Some (e, k) \<Rightarrow> (heappop (fst s), drop_if_live e k (snd s)))"

text \<open>\<open>_insert\<close>; the error record it may log is kept in \<open>full_log\<close> with the time and the count.\<close>

definition insert_key :: "bytes \<Rightarrow> real \<Rightarrow> real \<Rightarrow> string \<Rightarrow> replay_cache \<Rightarrow>
    (replay_error, unit) result \<times> replay_cache" where
  "insert_key key expires_at now route c =
    (if length (entries c) \<ge> max_entries c then
       (let refused = refused_since_log c + 1;
            log = (case last_full_log c of None \<Rightarrow> True
                   | Some t \<Rightarrow> now - t \<ge> full_log_interval)
        in (Inl ReplayCacheFull,
            if log then c\<lparr>last_full_log := Some now, refused_since_log := 0,
                          full_log := full_log c @ [(now, refused)]\<rparr>
            else c\<lparr>refused_since_log := refused\<rparr>))
     else
       (Inr (), c\<lparr>entries := dict_set key
                     \<lparr>re_expires_at = expires_at, re_route = route, re_uses = 1\<rparr> (entries c),
                  expiry := heappush (expires_at, key) (expiry c)\<rparr>))"

definition claim_key :: "bytes \<Rightarrow> real \<Rightarrow> string \<Rightarrow> nat \<Rightarrow> real \<Rightarrow> replay_cache \<Rightarrow>
    (replay_error, bool) result \<times> replay_cache" where
  "claim_key key expires_at route max_uses now c0 =
    (let c = purge now c0
     in case dict_get (entries c) key of
          None \<Rightarrow> (let (r, c') = insert_key key expires_at now route c
                   in (map_sum id (\<lambda>_. True) r, c'))
        | Some en \<Rightarrow>
            if re_route en \<noteq> route \<or> re_uses en \<ge> max_uses then (Inr False, c)
            else
              (let en' = en\<lparr>re_uses := re_uses en + 1\<rparr>
               in if expires_at > re_expires_at en then
                    (Inr True, c\<lparr>entries := dict_set key (en'\<lparr>re_expires_at := expires_at\<rparr>) (entries c),
                                 expiry := heappush (expires_at, key) (expiry c)\<rparr>)
                  else (Inr True, c\<lparr>entries := dict_set key en' (entries c)\<rparr>)))"

definition consume :: "bytes \<Rightarrow> real \<Rightarrow> real \<Rightarrow> replay_cache \<Rightarrow>
    (replay_error, bool) result \<times> replay_cache" where
  "consume key expires_at now c = claim_key key expires_at ''direct'' 1 now c"

definition cache_len :: "real \<Rightarrow> replay_cache \<Rightarrow> nat \<times> replay_cache" where
  "cache_len now c = (let c' = purge now c in (length (entries c'), c'))"

subsection \<open>Calls as steps\<close>

datatype replay_op = ClaimKey bytes real string nat | CacheLen

fun replay_exec :: "real \<Rightarrow> replay_op \<Rightarrow> replay_cache \<Rightarrow> (replay_error, bool) result \<times> replay_cache" where
  "replay_exec now (ClaimKey key e route n) c = claim_key key e route n now c"
| "replay_exec now CacheLen c = (Inr False, snd (cache_len now c))"

type_synonym replay_label = "real \<times> replay_op \<times> (replay_error, bool) result"

abbreviation replay_step :: "real \<times> replay_cache \<Rightarrow> replay_label \<Rightarrow> real \<times> replay_cache \<Rightarrow> bool" where
  "replay_step \<equiv> clocked_step (\<lambda>_ _. True) replay_exec"

subsection \<open>The cache invariant\<close>

definition cache_inv :: "replay_cache \<Rightarrow> bool" where
  "cache_inv c \<longleftrightarrow>
     dict_ok (entries c) \<and> sorted (expiry c) \<and> 1 \<le> max_entries c \<and>
     length (entries c) \<le> max_entries c \<and>
     (\<forall>k en. dict_get (entries c) k = Some en \<longrightarrow>
        (re_expires_at en, k) \<in> set (expiry c) \<and> 1 \<le> re_uses en)"

text \<open>What purging is for: exactly the entries that expire after \<open>now\<close> stay, in their order.\<close>

definition unexpired :: "real \<Rightarrow> (bytes, replay_entry) dict \<Rightarrow> (bytes, replay_entry) dict" where
  "unexpired now es = filter (\<lambda>(k, en). now < re_expires_at en) es"

lemma unexpired_get:
  "dict_ok es \<Longrightarrow> dict_get (unexpired now es) k =
    (case dict_get es k of None \<Rightarrow> None
     | Some en \<Rightarrow> if now < re_expires_at en then Some en else None)"
  by (simp add: unexpired_def dict_get_filter split: option.split)

lemma unexpired_drop:
  assumes "dict_ok es" "e \<le> now"
  shows "unexpired now (drop_if_live e k es) = unexpired now es"
proof (cases "dict_get es k")
  case (Some en)
  have "unexpired now (dict_del k es) = unexpired now es" if "re_expires_at en = e"
    using assms Some that unfolding unexpired_def dict_del_filter filter_filter
    by (intro filter_cong) (auto simp: dict_get_in split: prod.splits)
  then show ?thesis using Some by (simp add: drop_if_live_def)
qed (simp add: drop_if_live_def)

lemma drop_ok: "dict_ok es \<Longrightarrow> dict_ok (drop_if_live e k es)"
  by (auto simp: drop_if_live_def split: option.splits)

lemma drop_get: "dict_get (drop_if_live e k es) k' = Some en \<longleftrightarrow>
    dict_get es k' = Some en \<and> (k' = k \<longrightarrow> re_expires_at en \<noteq> e)"
  by (auto simp: drop_if_live_def split: option.splits)

text \<open>
  The heap-driven loop computes that filter, keeps the rows that are still in the future, and leaves
  every remaining entry with its row, as long as every entry had a row to begin with.
\<close>

lemma purge_loop_correct:
  assumes "dict_ok es" "sorted q"
    "\<forall>k en. dict_get es k = Some en \<longrightarrow> (re_expires_at en, k) \<in> set q"
  shows "snd (purge_loop now q es) = unexpired now es \<and>
    sorted (fst (purge_loop now q es)) \<and>
    (\<forall>k en. dict_get (snd (purge_loop now q es)) k = Some en \<longrightarrow>
       (re_expires_at en, k) \<in> set (fst (purge_loop now q es)))"
  using assms
proof (induction now q es rule: purge_loop.induct)
  case (1 now q es)
  show ?case
  proof (cases "heap_top q")
    case None
    then have "set q = {}" using heapq.peek_None [OF "1.prems"(2)] by simp
    then have "\<forall>k. dict_get es k = None" using "1.prems"(3) by (metis empty_iff not_None_eq)
    then have "es = []" by (cases es) (auto simp: fun_eq_iff split: if_splits)
    with None 1 show ?thesis by (simp add: purge_loop.simps [of now q "[]"] unexpired_def)
  next
    case (Some row)
    then obtain e k where top: "heap_top q = Some (e, k)" by (cases row) auto
    show ?thesis
    proof (cases "e \<le> now")
      case True
      have "\<forall>k' en. dict_get (drop_if_live e k es) k' = Some en \<longrightarrow>
          (re_expires_at en, k') \<in> set (heappop q)"
        using 1 heapq.pop_row_mem [OF "1.prems"(2) top] by (auto simp: drop_get)
      then have "snd (purge_loop now (heappop q) (drop_if_live e k es)) =
          unexpired now (drop_if_live e k es) \<and>
        sorted (fst (purge_loop now (heappop q) (drop_if_live e k es))) \<and>
        (\<forall>k' en. dict_get (snd (purge_loop now (heappop q) (drop_if_live e k es))) k' = Some en \<longrightarrow>
           (re_expires_at en, k') \<in> set (fst (purge_loop now (heappop q) (drop_if_live e k es))))"
        using "1.IH" [OF top refl True] "1.prems" by (simp add: drop_ok heapq.pop_ok)
      then show ?thesis using True top 1 by (simp add: purge_loop.simps [of now q es] unexpired_drop)
    next
      case False
      have "now < re_expires_at en" if "dict_get es k' = Some en" for k' en
        using 1 that heapq.peek_Some [OF "1.prems"(2) top] False by fastforce
      then have "unexpired now es = es"
        using 1 by (auto simp: unexpired_def filter_id_conv dict_get_in)
      then show ?thesis using False top 1 by (simp add: purge_loop.simps [of now q es])
    qed
  qed
qed

lemma purge_fields [simp]:
  "max_entries (purge now c) = max_entries c" "refused_since_log (purge now c) = refused_since_log c"
  "last_full_log (purge now c) = last_full_log c" "full_log (purge now c) = full_log c"
  by (simp_all add: purge_def split: prod.splits)

lemma purge_entries: "cache_inv c \<Longrightarrow> entries (purge now c) = unexpired now (entries c)"
  using purge_loop_correct [of "entries c" "expiry c" now]
  by (auto simp: purge_def cache_inv_def split: prod.splits)

lemma purge_inv:
  assumes "cache_inv c"
  shows "cache_inv (purge now c)"
proof -
  have 1: "sorted (expiry (purge now c)) \<and> (\<forall>k en. dict_get (entries (purge now c)) k = Some en \<longrightarrow>
      (re_expires_at en, k) \<in> set (expiry (purge now c)))"
    using purge_loop_correct [of "entries c" "expiry c" now] assms
    by (auto simp: purge_def cache_inv_def split: prod.splits)
  have "dict_ok (entries (purge now c))" "length (entries (purge now c)) \<le> max_entries c"
    using assms unfolding purge_entries [OF assms] unexpired_def cache_inv_def
    by (auto simp: distinct_map_filter intro: order_trans [OF length_filter_le])
  moreover have "\<forall>k en. dict_get (entries (purge now c)) k = Some en \<longrightarrow> 1 \<le> re_uses en"
    using assms unfolding purge_entries [OF assms]
    by (auto simp: cache_inv_def unexpired_get split: option.splits if_splits)
  ultimately show ?thesis using 1 assms by (simp add: cache_inv_def)
qed

lemma insert_key_inv:
  assumes "cache_inv c" "dict_get (entries c) key = None"
  shows "cache_inv (snd (insert_key key e now route c))"
  using assms heapq.push_ok [of "expiry c" "(e, key)"]
  by (auto simp: insert_key_def cache_inv_def Let_def length_dict_set heappush_def set_insort_key)

lemma claim_key_inv:
  assumes "cache_inv c"
  shows "cache_inv (snd (claim_key key e route n now c))"
proof (cases "dict_get (entries (purge now c)) key")
  case None
  with insert_key_inv [OF purge_inv [OF assms]] show ?thesis
    by (auto simp: claim_key_def split: prod.splits) (metis snd_conv)
next
  case (Some en)
  with purge_inv [OF assms, of now] heapq.push_ok [of "expiry (purge now c)" "(e, key)"] show ?thesis
    by (auto simp: claim_key_def cache_inv_def Let_def length_dict_set heappush_def set_insort_key)
qed

lemma replay_exec_inv: "cache_inv c \<Longrightarrow> cache_inv (snd (replay_exec now op c))"
  by (cases op) (simp_all add: claim_key_inv cache_len_def Let_def purge_inv)

lemma new_cache_inv: "new_cache n = Inr c \<Longrightarrow> cache_inv c"
  by (auto simp: new_cache_def cache_inv_def split: if_splits)

interpretation replay_sys: clocked_system "\<lambda>_ _. True" replay_exec cache_inv
  by unfold_locales (rule replay_exec_inv)

subsection \<open>Reference behaviour without the heap\<close>

definition spec_claim :: "nat \<Rightarrow> bytes \<Rightarrow> real \<Rightarrow> string \<Rightarrow> nat \<Rightarrow> real \<Rightarrow> (bytes, replay_entry) dict \<Rightarrow>
    (replay_error, bool) result \<times> (bytes, replay_entry) dict" where
  "spec_claim cap key expires_at route max_uses now es0 =
    (let es = unexpired now es0
     in case dict_get es key of
          None \<Rightarrow>
            if cap \<le> length es then (Inl ReplayCacheFull, es)
            else (Inr True, dict_set key \<lparr>re_expires_at = expires_at, re_route = route, re_uses = 1\<rparr> es)
        | Some en \<Rightarrow>
            if re_route en \<noteq> route \<or> max_uses \<le> re_uses en then (Inr False, es)
            else (Inr True, dict_set key (en\<lparr>re_uses := re_uses en + 1,
                    re_expires_at := max (re_expires_at en) expires_at\<rparr>) es))"

lemma claim_refines:
  assumes "cache_inv c"
  shows "apsnd entries (claim_key key e route n now c) = spec_claim (max_entries c) key e route n now (entries c)"
  using purge_entries [OF assms, of now]
  by (auto simp: claim_key_def spec_claim_def insert_key_def Let_def max_def split: option.splits)

lemma claim_entries:
  assumes "cache_inv c"
  shows "fst (claim_key key e route n now c) = fst (spec_claim (max_entries c) key e route n now (entries c))"
    "entries (snd (claim_key key e route n now c)) =
      snd (spec_claim (max_entries c) key e route n now (entries c))"
  using claim_refines [OF assms] by (metis fst_apsnd, metis snd_apsnd)

subsection \<open>An unexpired entry persists and counts its uses\<close>

definition accepts_key :: "bytes \<Rightarrow> replay_label \<Rightarrow> bool" where
  "accepts_key k l = (case l of (now, ClaimKey key e r n, Inr True) \<Rightarrow> key = k | _ \<Rightarrow> False)"

lemma held_step:
  assumes inv: "cache_inv c" and st: "replay_step (t, c) (now, op, res) (t', c')"
    and en: "dict_get (entries c) k = Some en" "now < re_expires_at en"
  shows "\<exists>en'. dict_get (entries c') k = Some en' \<and> re_route en' = re_route en \<and>
    re_expires_at en \<le> re_expires_at en' \<and>
    re_uses en + (if accepts_key k (now, op, res) then 1 else 0) \<le> re_uses en'"
proof -
  have res: "res = fst (replay_exec now op c)" and c': "c' = snd (replay_exec now op c)"
    using st by (auto elim: clocked_stepE)
  have ok: "dict_ok (entries c)" using inv by (simp add: cache_inv_def)
  have live: "dict_get (unexpired now (entries c)) k = Some en"
    using en ok by (simp add: unexpired_get)
  show ?thesis
  proof (cases op)
    case (ClaimKey key e r n)
    then show ?thesis using live res c' claim_entries [OF inv, of key e r n now]
      by (auto simp: spec_claim_def accepts_key_def Let_def split: option.splits if_splits)
  next
    case CacheLen
    then show ?thesis using live c' res purge_entries [OF inv]
      by (auto simp: cache_len_def Let_def accepts_key_def)
  qed
qed

lemma held_run:
  assumes "run replay_step s ls s'" "cache_inv (snd s)" "dict_get (entries (snd s)) k = Some en"
    "fst s' < e" "e \<le> re_expires_at en"
  shows "\<exists>en'. dict_get (entries (snd s')) k = Some en' \<and> re_route en' = re_route en \<and>
    e \<le> re_expires_at en' \<and> re_uses en + length (filter (accepts_key k) ls) \<le> re_uses en'"
  using assms
proof (induction arbitrary: en rule: run.induct)
  case (run_nil s)
  then show ?case by auto
next
  case (run_cons s l s1 ls s')
  obtain t c where s: "s = (t, c)" by fastforce
  obtain now op res where l: "l = (now, op, res)" by (cases l) auto
  obtain t1 c1 where s1: "s1 = (t1, c1)" by fastforce
  have now: "now < re_expires_at en"
    using clocked_time [OF run_cons.hyps(2)] run_cons l by (auto elim!: clocked_stepE)
  obtain en1 where en1: "dict_get (entries c1) k = Some en1" "re_route en1 = re_route en"
    "re_expires_at en \<le> re_expires_at en1"
    "re_uses en + (if accepts_key k l then 1 else 0) \<le> re_uses en1"
    using held_step [of c t now op res t1 c1 k en] run_cons s l s1 now by auto
  have "cache_inv (snd s1)" using run_cons replay_sys.inv_step by blast
  with run_cons.IH [of en1] en1 run_cons.prems s1 show ?case by fastforce
qed

lemma purge_while:
  "while_option (purge_test now) purge_body (q, es) = Some (purge_loop now q es) \<and>
    (\<exists>n \<le> length q. (purge_body ^^ n) (q, es) = purge_loop now q es)"
proof (induction now q es rule: purge_loop.induct)
  case (1 now q es)
  show ?case
  proof (cases "purge_test now (q, es)")
    case True
    then obtain e k where top: "heap_top q = Some (e, k)" "e \<le> now" by (auto simp: purge_test_def split: option.splits)
    have step: "purge_body (q, es) = (heappop q, drop_if_live e k es)"
      "purge_loop now q es = purge_loop now (heappop q) (drop_if_live e k es)"
      "length q = Suc (length (heappop q))"
      using top by (auto simp: purge_body_def purge_loop.simps [of now q es] heap_top_def heappop_def split: list.splits)
    note ih = "1.IH" [OF top(1) refl top(2)]
    then obtain n where "n \<le> length (heappop q)" "(purge_body ^^ n) (heappop q, drop_if_live e k es) = purge_loop now q es"
      using step by auto
    then have "\<exists>n \<le> length q. (purge_body ^^ n) (q, es) = purge_loop now q es"
      using step by (intro exI [of _ "Suc n"]) (simp add: funpow_Suc_right del: funpow.simps)
    then show ?thesis using ih True step by (simp add: while_option_unfold [of "purge_test now" purge_body "(q, es)"])
  next
    case False
    then have "purge_loop now q es = (q, es)"
      by (auto simp: purge_test_def purge_loop.simps [of now q es] split: option.splits)
    then show ?thesis using False by (auto simp: while_option_unfold [of "purge_test now" purge_body "(q, es)"] intro: exI [of _ 0])
  qed
qed

subsection \<open>Properties\<close>

lemma reachable_cache_inv:
  "new_cache n = Inr c0 \<Longrightarrow> run replay_step (t0, c0) ls s \<Longrightarrow> cache_inv (snd s)"
  using replay_sys.inv_run new_cache_inv by fastforce

lemma max_entries_exec [simp]: "max_entries (snd (replay_exec now op c)) = max_entries c"
  by (cases op) (auto simp: claim_key_def insert_key_def cache_len_def Let_def split: option.splits)

lemma max_entries_run: "run replay_step s ls s' \<Longrightarrow> max_entries (snd s') = max_entries (snd s)"
  by (induction rule: run.induct) (auto elim!: clocked_stepE)

definition log_inv :: "replay_cache \<Rightarrow> bool" where
  "log_inv c \<longleftrightarrow> sorted_wrt (\<lambda>a b. full_log_interval \<le> fst b - fst a) (full_log c) \<and>
     (case last_full_log c of None \<Rightarrow> full_log c = []
      | Some t \<Rightarrow> (\<forall>a \<in> set (full_log c). fst a \<le> t) \<and>
          (\<exists>pre n. full_log c = pre @ [(t, n)]))"

definition refusal :: "replay_label \<Rightarrow> bool" where
  "refusal l = (snd (snd l) = Inl ReplayCacheFull)"

lemma sorted_wrt_gap_snoc:
  fixes t :: real and now :: real and d :: real
  assumes "sorted_wrt (\<lambda>a b. d \<le> fst b - fst a) (xs @ [(t, n)])" "d \<le> now - t" "0 \<le> d"
  shows "sorted_wrt (\<lambda>a b. d \<le> fst b - fst a) ((xs @ [(t, n)]) @ [(now, m)])"
  using assms by (fastforce simp: sorted_wrt_append)

lemma log_inv_insert:
  assumes "log_inv c" "dict_get (entries c) key = None"
  shows "log_inv (snd (insert_key key e now route c))"
proof (cases "last_full_log c")
  case None
  with assms show ?thesis by (auto simp: insert_key_def log_inv_def Let_def)
next
  case (Some t)
  with assms(1) obtain pre n where log: "full_log c = pre @ [(t, n)]"
    by (auto simp: log_inv_def)
  show ?thesis
  proof (cases "full_log_interval \<le> now - t")
    case True
    have "0 \<le> full_log_interval" by (simp add: full_log_interval_def)
    with True have "t \<le> now" by linarith
    with True Some log assms(1) sorted_wrt_gap_snoc [of full_log_interval pre t n now] \<open>0 \<le> full_log_interval\<close>
    show ?thesis by (fastforce simp: insert_key_def log_inv_def Let_def)
  next
    case False
    with Some assms(1) show ?thesis by (auto simp: insert_key_def log_inv_def Let_def)
  qed
qed

definition refused_total :: "replay_cache \<Rightarrow> nat" where
  "refused_total c = sum_list (map snd (full_log c)) + refused_since_log c"

lemma replay_exec_log:
  assumes "log_inv c"
  shows "log_inv (snd (replay_exec now op c))"
    "refused_total (snd (replay_exec now op c)) =
      refused_total c + (if fst (replay_exec now op c) = Inl ReplayCacheFull then 1 else 0)"
proof -
  have purge: "log_inv (purge now c)" using assms by (simp add: log_inv_def split: option.splits)
  show "log_inv (snd (replay_exec now op c))"
  proof (cases op)
    case (ClaimKey key e r n)
    with purge log_inv_insert [OF purge, of key e now r] show ?thesis
      by (auto simp: claim_key_def Let_def split: option.splits prod.splits)
        (auto simp: log_inv_def split: option.splits)
  qed (simp add: cache_len_def Let_def purge)
  show "refused_total (snd (replay_exec now op c)) =
      refused_total c + (if fst (replay_exec now op c) = Inl ReplayCacheFull then 1 else 0)"
    by (cases op) (auto simp: claim_key_def insert_key_def cache_len_def refused_total_def Let_def
        split: option.splits)
qed

interpretation replay_log: clocked_system "\<lambda>_ _. True" replay_exec log_inv
  by unfold_locales (rule replay_exec_log)

lemma refused_run:
  "run replay_step s ls s' \<Longrightarrow> log_inv (snd s) \<Longrightarrow>
     refused_total (snd s') = refused_total (snd s) + length (filter refusal ls)"
proof (induction rule: run.induct)
  case (run_cons s l s1 ls s')
  then have "log_inv (snd s1)" using replay_log.inv_step by blast
  with run_cons show ?case using replay_exec_log(2) [OF run_cons.prems]
    by (auto elim!: clocked_stepE simp: refusal_def)
qed simp

text \<open>In every state the cache reaches it holds at most \<open>max_entries\<close> entries, and every entry
  has a heap row with its own expiry, so that it is purged when it expires.\<close>

theorem replay_cache_sound:
  assumes "new_cache n = Inr c0" "run replay_step (t0, c0) ls (t, c)"
  shows "length (entries c) \<le> n \<and> sorted (expiry c) \<and>
    (\<forall>k en. dict_get (entries c) k = Some en \<longrightarrow> (re_expires_at en, k) \<in> set (expiry c))"
proof -
  have "max_entries c = n"
    using max_entries_run [OF assms(2)] assms(1) by (auto simp: new_cache_def split: if_splits)
  then show ?thesis using reachable_cache_inv [OF assms] by (auto simp: cache_inv_def)
qed

lemmas replay_eval = new_cache_def claim_key_def insert_key_def purge_def purge_loop.simps drop_if_live_def
  heap_top_def heappop_def heappush_def full_log_interval_def Let_def

abbreviation demo_cache :: replay_cache where
  "demo_cache \<equiv> \<lparr>max_entries = 1, entries = [], expiry = [], refused_since_log = 0,
    last_full_log = None, full_log = []\<rparr>"

definition demo_claims :: "(real \<times> replay_op) list" where
  "demo_claims = [(0, ClaimKey [1] 30 ''edge'' 3), (10, ClaimKey [1] 30 ''edge'' 3),
     (11, ClaimKey [2] 30 ''direct'' 1), (12, ClaimKey [3] 30 ''direct'' 1)]"

lemma demo_claims_run:
  "run replay_step (0, demo_cache)
    [(0, ClaimKey [1] 30 ''edge'' 3, Inr True), (10, ClaimKey [1] 30 ''edge'' 3, Inr True),
     (11, ClaimKey [2] 30 ''direct'' 1, Inl ReplayCacheFull),
     (12, ClaimKey [3] 30 ''direct'' 1, Inl ReplayCacheFull)]
    (12, \<lparr>max_entries = 1, entries = [([1], \<lparr>re_expires_at = 30, re_route = ''edge'', re_uses = 2\<rparr>)],
      expiry = [(30, [1])], refused_since_log = 1, last_full_log = Some 11, full_log = [(11, 1)]\<rparr>)"
  using exec_calls_run [of "\<lambda>_ _. True" replay_exec "(0, demo_cache)" demo_claims]
  by (simp add: demo_claims_def replay_eval numeral_2_eq_2)

theorem replay_cache_sound_witness:
  "length (entries \<lparr>max_entries = 1,
      entries = [([1], \<lparr>re_expires_at = 30, re_route = ''edge'', re_uses = 2\<rparr>)],
      expiry = [(30, [1])], refused_since_log = 1, last_full_log = Some 11, full_log = [(11, 1)]\<rparr>) \<le> 1"
  using replay_cache_sound [OF _ demo_claims_run, of 1] by (simp add: new_cache_def)

text \<open>C4: No replay before expiry: if a key was accepted with an expiry and is accepted again before that
  expiry, then on the same route, and counting both and all acceptances in between the route's use
  limit is respected. So a key consumed once on the direct route, or on another route, is not accepted
  again until the credential it stands for has expired.\<close>

theorem no_replay_before_expiry:
  assumes "new_cache n = Inr c0"
    "run replay_step (t0, c0) (ls @ [(t1, ClaimKey k e1 r1 n1, Inr True)] @ ms @
       [(t2, ClaimKey k e2 r2 n2, Inr True)]) s" "t2 < e1"
  shows "r2 = r1 \<and> 2 + length (filter (accepts_key k) ms) \<le> n2"
proof -
  obtain sa sb sc where runs: "run replay_step (t0, c0) ls sa"
    "replay_step sa (t1, ClaimKey k e1 r1 n1, Inr True) sb" "run replay_step sb ms sc"
    "replay_step sc (t2, ClaimKey k e2 r2 n2, Inr True) s"
    using assms(2) by (auto simp: run_append run_cons_iff)
  have inva: "cache_inv (snd sa)" using reachable_cache_inv [OF assms(1) runs(1)] .
  have invb: "cache_inv (snd sb)" using replay_sys.inv_step inva runs(2) by blast
  have invc: "cache_inv (snd sc)" using replay_sys.inv_run runs(3) invb by blast
  have "\<exists>en. dict_get (entries (snd sb)) k = Some en \<and> re_route en = r1 \<and> e1 \<le> re_expires_at en \<and>
      1 \<le> re_uses en"
    using runs(2) claim_entries [OF inva, of k e1 r1 n1 t1]
    by (auto elim!: clocked_stepE simp: spec_claim_def Let_def split: option.splits if_splits)
  then obtain en where en: "dict_get (entries (snd sb)) k = Some en" "re_route en = r1"
    "e1 \<le> re_expires_at en" "1 \<le> re_uses en" by blast
  have t2: "fst sc \<le> t2" using runs(4) by (auto elim: clocked_stepE)
  then obtain en' where en': "dict_get (entries (snd sc)) k = Some en'" "re_route en' = r1"
    "e1 \<le> re_expires_at en'" "re_uses en + length (filter (accepts_key k) ms) \<le> re_uses en'"
    using held_run [OF runs(3) invb en(1), of e1] en assms(3) by auto
  have "dict_get (unexpired t2 (entries (snd sc))) k = Some en'"
    using en' assms(3) invc by (simp add: unexpired_get cache_inv_def)
  then have "re_route en' = r2 \<and> re_uses en' < n2"
    using runs(4) claim_entries [OF invc, of k e2 r2 n2 t2]
    by (auto elim!: clocked_stepE simp: spec_claim_def Let_def split: option.splits if_splits)
  then show ?thesis using en en' by auto
qed

theorem no_replay_before_expiry_witness: "''edge'' = ''edge'' \<and> 2 + length (filter (accepts_key [1]) []) \<le> 3"
proof -
  have "\<exists>s. run replay_step (0, demo_cache) ([] @ [(0, ClaimKey [1] 30 ''edge'' 3, Inr True)] @ [] @
      [(10, ClaimKey [1] 30 ''edge'' 3, Inr True)]) s"
    using demo_claims_run by (auto simp: run_cons_iff)
  then obtain s where s: "run replay_step (0, demo_cache) ([] @ [(0, ClaimKey [1] 30 ''edge'' 3, Inr True)] @ [] @
      [(10, ClaimKey [1] 30 ''edge'' 3, Inr True)]) s" by blast
  show ?thesis
    using no_replay_before_expiry [of 1 demo_cache 0 "[]" 0 "[1]" 30 "''edge''" 3 "[]" 10 30 "''edge''" 3 s] s
    by (simp add: new_cache_def)
qed

text \<open>C5: The heap is an optimisation only: in every reachable state a claim answers, and leaves the entries,
  exactly as the reference that drops every expired entry by scanning the whole cache and then looks the
  key up. In particular a full cache refuses a new key and keeps every unexpired entry.\<close>

theorem claim_matches_reference:
  assumes "new_cache n = Inr c0" "run replay_step (t0, c0) ls (t, c)"
  shows "apsnd entries (claim_key key e route u now c) = spec_claim n key e route u now (entries c)"
proof -
  have "max_entries c = n"
    using max_entries_run [OF assms(2)] assms(1) by (auto simp: new_cache_def split: if_splits)
  then show ?thesis using claim_refines [of c] reachable_cache_inv [OF assms] by simp
qed

theorem claim_matches_reference_witness:
  "fst (claim_key [2] 50 ''direct'' 1 30 demo_cache) = Inr True"
  using claim_matches_reference [of 1 demo_cache 0 "[]" 0 demo_cache "[2]" 50 "''direct''" 1 30]
  by (simp add: new_cache_def spec_claim_def unexpired_def Let_def run_nil) (metis fst_apsnd fst_conv)

text \<open>C6: Purging terminates: the loop of \<open>_purge\<close>, read literally as a \<open>while\<close> over the heap and the
  dictionary, stops on every cache whatsoever, after at most as many rounds as the heap has rows, with
  the result of \<open>purge\<close> and its test false.\<close>

theorem purge_terminates:
  "while_option (purge_test now) purge_body (expiry c, entries c) = Some (expiry (purge now c), entries (purge now c)) \<and>
   \<not> purge_test now (expiry (purge now c), entries (purge now c)) \<and>
   (\<exists>n \<le> length (expiry c). (purge_body ^^ n) (expiry c, entries c) = (expiry (purge now c), entries (purge now c)))"
proof -
  have "(expiry (purge now c), entries (purge now c)) = purge_loop now (expiry c) (entries c)"
    by (simp add: purge_def split: prod.split)
  then show ?thesis using purge_while [of now "expiry c" "entries c"] while_option_stop by metis
qed

text \<open>Refusals at the cap are all counted, and logged at most once a minute: over any history, the
  counts in the log plus the count not yet logged are the number of calls refused because the cache was
  full, and any two log records are at least the interval apart.\<close>

theorem full_refusals_logged:
  assumes "new_cache n = Inr c0" "run replay_step (t0, c0) ls (t, c)"
  shows "sum_list (map snd (full_log c)) + refused_since_log c = length (filter refusal ls) \<and>
    sorted_wrt (\<lambda>a b. full_log_interval \<le> fst b - fst a) (full_log c)"
proof -
  have "log_inv c0" "refused_total c0 = 0"
    using assms(1) by (auto simp: new_cache_def log_inv_def refused_total_def split: if_splits)
  then show ?thesis
    using refused_run [OF assms(2)] replay_log.ok_reachable [OF _ assms(2)]
    by (auto simp: refused_total_def log_inv_def)
qed

theorem full_refusals_logged_witness:
  "sum_list (map snd [(11::real, 1::nat)]) + 1 = length (filter refusal
    [(0, ClaimKey [1] 30 ''edge'' 3, Inr True), (10, ClaimKey [1] 30 ''edge'' 3, Inr True),
     (11, ClaimKey [2] 30 ''direct'' 1, Inl ReplayCacheFull),
     (12, ClaimKey [3] 30 ''direct'' 1, Inl ReplayCacheFull)])"
  using full_refusals_logged [OF _ demo_claims_run, of 1] by (simp add: new_cache_def)

end
