(* ===== verification/Py_Text.thy ===== *)
theory Py_Text
  imports Heapq
begin

text \<open>
  The parts of Python's \<open>str\<close>, \<open>bytes\<close>, \<open>hashlib\<close> and \<open>base64\<close> the sources use. A \<open>str\<close> is a
  \<open>string\<close> whose characters are its code points; the model covers the code points below 256, on
  which every function here agrees with Python. \<open>bytes\<close> is a list of 8-bit words.
\<close>

unbundle bit_operations_syntax

subsection \<open>UTF-8\<close>

abbreviation ord_of :: "char \<Rightarrow> nat" where
  "ord_of c \<equiv> of_char c"

definition utf8_char :: "char \<Rightarrow> bytes" where
  "utf8_char c = (let n = ord_of c in
     if n < 128 then [word_of_nat n] else [word_of_nat (192 + n div 64), word_of_nat (128 + n mod 64)])"

definition utf8_encode :: "string \<Rightarrow> bytes" where
  "utf8_encode s = concat (map utf8_char s)"

fun utf8_decode :: "bytes \<Rightarrow> string option" where
  "utf8_decode [] = Some []"
| "utf8_decode (b # bs) =
    (let n = unat b in
     if n < 128 then map_option (Cons (char_of n)) (utf8_decode bs)
     else if n = 194 \<or> n = 195 then
       (case bs of
          [] \<Rightarrow> None
        | b' # bs' \<Rightarrow>
            if 128 \<le> unat b' \<and> unat b' < 192
            then map_option (Cons (char_of ((n - 192) * 64 + (unat b' - 128)))) (utf8_decode bs')
            else None)
     else None)"

lemma utf8_decode_char [simp]: "utf8_decode (utf8_char c @ bs) = map_option (Cons c) (utf8_decode bs)"
proof -
  have n: "(of_char c :: nat) < 256" by simp
  show ?thesis
  proof (cases "(of_char c :: nat) < 128")
    case True
    then show ?thesis by (simp add: utf8_char_def Let_def unat_of_nat)
  next
    case False
    define q where "q = (of_char c :: nat) div 64"
    define r where "r = (of_char c :: nat) mod 64"
    have qr: "of_char c = q * 64 + r" "r < 64" "q = 2 \<or> q = 3"
      using False n unfolding q_def r_def by (simp, simp, linarith)
    define a where "a = (word_of_nat (192 + q) :: 8 word)"
    define b where "b = (word_of_nat (128 + r) :: 8 word)"
    have u: "unat a = 192 + q" "unat b = 128 + r"
      using qr unfolding a_def b_def unat_of_nat by auto
    have "utf8_char c = [a, b]"
      using False by (simp add: utf8_char_def Let_def q_def r_def a_def b_def)
    moreover have "char_of (q * 64 + r) = c" using qr(1) by (metis char_of_char)
    ultimately show ?thesis using u qr by auto
  qed
qed

lemma utf8_roundtrip [simp]: "utf8_decode (utf8_encode s) = Some s"
  by (induction s) (simp_all add: utf8_encode_def)

lemma utf8_encode_inj [simp]: "utf8_encode s = utf8_encode t \<longleftrightarrow> s = t"
  by (metis option.inject utf8_roundtrip)

subsection \<open>SHA-256\<close>

text \<open>
  The constants are computed from their definition in the standard: the round constants are the first
  32 bits of the fractional parts of the cube roots of the first 64 primes, the initial state those of
  the square roots of the first eight.
\<close>

definition small_primes :: "nat list" where
  "small_primes = filter (\<lambda>n. \<forall>d \<in> set [2..<n]. n mod d \<noteq> 0) [2..<312]"

text \<open>The largest number below \<open>2 ^ n\<close> whose \<open>e\<close>th power is at most \<open>x\<close>, bit by bit.\<close>

fun root_bits :: "nat \<Rightarrow> nat \<Rightarrow> nat \<Rightarrow> nat \<Rightarrow> nat" where
  "root_bits e x 0 r = r"
| "root_bits e x (Suc n) r = root_bits e x n (if (r + 2 ^ n) ^ e \<le> x then r + 2 ^ n else r)"

definition root_fraction :: "nat \<Rightarrow> nat \<Rightarrow> 32 word" where
  "root_fraction e p = word_of_nat (root_bits e (p * 2 ^ (32 * e)) 40 0)"

definition sha_k :: "32 word list" where
  "sha_k = map (root_fraction 3) small_primes"

definition sha_init :: "32 word list" where
  "sha_init = map (root_fraction 2) (take 8 small_primes)"

definition rotr :: "nat \<Rightarrow> 32 word \<Rightarrow> 32 word" where
  "rotr n w = drop_bit n w OR push_bit (32 - n) w"

definition sha_pad :: "bytes \<Rightarrow> bytes" where
  "sha_pad m = (let l = length m; z = (119 - l mod 64) mod 64
    in m @ [0x80] @ replicate z 0 @ map (\<lambda>i. word_of_nat (8 * l div 256 ^ (7 - i))) [0..<8])"

fun be_words :: "bytes \<Rightarrow> 32 word list" where
  "be_words (a # b # c # d # bs) =
     (push_bit 24 (ucast a) OR push_bit 16 (ucast b) OR push_bit 8 (ucast c) OR ucast d) # be_words bs"
| "be_words _ = []"

text \<open>The message schedule, most recent word first.\<close>

fun sha_extend :: "nat \<Rightarrow> 32 word list \<Rightarrow> 32 word list" where
  "sha_extend 0 w = w"
| "sha_extend (Suc n) w =
    (let a = w ! 14; e = w ! 1;
         s0 = rotr 7 a XOR rotr 18 a XOR drop_bit 3 a;
         s1 = rotr 17 e XOR rotr 19 e XOR drop_bit 10 e
     in sha_extend n ((w ! 15 + s0 + w ! 6 + s1) # w))"

fun sha_round :: "32 word list \<Rightarrow> 32 word \<times> 32 word \<Rightarrow> 32 word list" where
  "sha_round [a, b, c, d, e, f, g, h] (k, w) =
    (let s1 = rotr 6 e XOR rotr 11 e XOR rotr 25 e;
         ch = (e AND f) XOR ((NOT e) AND g);
         t1 = h + s1 + ch + k + w;
         s0 = rotr 2 a XOR rotr 13 a XOR rotr 22 a;
         maj = (a AND b) XOR (a AND c) XOR (b AND c)
     in [t1 + s0 + maj, a, b, c, d + t1, e, f, g])"
| "sha_round st _ = st"

definition sha_block :: "32 word list \<Rightarrow> 32 word list \<Rightarrow> 32 word list" where
  "sha_block h ws = map2 (+) h (foldl sha_round h (zip sha_k (rev (sha_extend 48 (rev ws)))))"

function sha_blocks :: "32 word list \<Rightarrow> 32 word list \<Rightarrow> 32 word list" where
  "sha_blocks h ws = (if ws = [] then h else sha_blocks (sha_block h (take 16 ws)) (drop 16 ws))"
  by pat_completeness auto
termination by (relation "measure (\<lambda>(h, ws). length ws)") auto

declare sha_blocks.simps [simp del]

definition sha256 :: "bytes \<Rightarrow> 32 word list" where
  "sha256 m = sha_blocks sha_init (be_words (sha_pad m))"

definition hex_digit :: "nat \<Rightarrow> char" where
  "hex_digit n = ''0123456789abcdef'' ! n"

definition hex_word :: "32 word \<Rightarrow> string" where
  "hex_word w = map (\<lambda>i. hex_digit (unat (drop_bit (28 - 4 * i) w AND 15))) [0..<8]"

definition hexdigest :: "bytes \<Rightarrow> string" where
  "hexdigest m = concat (map hex_word (sha256 m))"

subsection \<open>Digests\<close>

lemma sha_round_length: "length st = 8 \<Longrightarrow> length (sha_round st kw) = 8"
  by (cases "(st, kw)" rule: sha_round.cases) (simp_all add: Let_def)

lemma sha_rounds_length: "length st = 8 \<Longrightarrow> length (foldl sha_round st kws) = 8"
  by (induction kws arbitrary: st) (simp_all add: sha_round_length)

lemma sha_blocks_length: "length h = 8 \<Longrightarrow> length (sha_blocks h ws) = 8"
proof (induction h ws rule: sha_blocks.induct)
  case (1 h ws)
  then show ?case by (subst sha_blocks.simps) (simp add: sha_block_def sha_rounds_length)
qed

lemma sha_init_length: "length sha_init = 8"
proof -
  let ?P = "\<lambda>n::nat. \<forall>d \<in> set [2..<n]. n mod d \<noteq> 0"
  have "filter ?P [2..<20] = [2, 3, 5, 7, 11, 13, 17, 19]" by code_simp
  moreover have "[2..<312] = [2..<20] @ [20..<(312::nat)]"
    using upt_add_eq_append [of 2 20 292] by (simp only: numeral_plus_numeral add_num_simps numeral_le_iff le_num_simps)
  then have "small_primes = filter ?P [2..<20] @ filter ?P [20..<312]"
    by (simp only: small_primes_def filter_append)
  ultimately have p: "small_primes = [2, 3, 5, 7, 11, 13, 17, 19] @ filter ?P [20..<312]" by (rule subst)
  have "length (take 8 (([2, 3, 5, 7, 11, 13, 17, 19] :: nat list) @ zs)) = 8" for zs by simp
  then have "length (take 8 small_primes) = 8" unfolding p .
  then show ?thesis by (simp only: sha_init_def length_map)
qed

lemma sha256_length: "length (sha256 m) = 8"
  by (simp add: sha256_def sha_blocks_length sha_init_length)

lemma hex_word_length: "length (hex_word w) = 8"
  by (simp add: hex_word_def)

lemma hexdigest_length [simp]: "length (hexdigest m) = 64"
proof -
  have "length (concat (map hex_word ws)) = 8 * length ws" for ws
    by (induction ws) (simp_all add: hex_word_length)
  then show ?thesis by (simp add: hexdigest_def sha256_length)
qed

end
