(* ===== verification/Py_Json.thy ===== *)
theory Py_Json
  imports Py_Text
begin

text \<open>
  Python's \<open>json\<close> module on the values the sources exchange: null, booleans, integers, strings,
  arrays and objects. \<open>json_text sp\<close> is \<open>json.dumps(v, sort_keys=True, separators=..., ensure_ascii=...)\<close>
  with \<open>sp\<close> written after every separator; \<open>json_dumps\<close> is the compact form; \<open>json_loads\<close> is \<open>json.loads(s, object_pairs_hook=...)\<close> with floats and
  NaN refused, as the readers of this repository ask for. The main results are that reading what
  was written gives the value back with its keys sorted, hence that distinct values have
  distinct texts.
\<close>

subsection \<open>Values and their canonical text\<close>

datatype json = JNull | JBool bool | JInt int | JStr string | JList "json list" | JObj "(string \<times> json) list"

definition digit_char :: "nat \<Rightarrow> char" where
  "digit_char n = ''0123456789'' ! n"

fun str_of_nat :: "nat \<Rightarrow> string" where
  "str_of_nat n = (if n < 10 then [digit_char n] else str_of_nat (n div 10) @ [digit_char (n mod 10)])"

declare str_of_nat.simps [simp del]

definition str_of_int :: "int \<Rightarrow> string" where
  "str_of_int i = (if i < 0 then CHR ''-'' # str_of_nat (nat (- i)) else str_of_nat (nat i))"

abbreviation dquote :: char where "dquote \<equiv> CHR 0x22"
abbreviation bslash :: char where "bslash \<equiv> CHR 0x5C"

definition escape_char :: "bool \<Rightarrow> char \<Rightarrow> string" where
  "escape_char ascii c =
    (if c = dquote then [bslash, dquote]
     else if c = bslash then [bslash, bslash]
     else if ord_of c = 10 then [bslash, CHR ''n'']
     else if ord_of c = 13 then [bslash, CHR ''r'']
     else if ord_of c = 9 then [bslash, CHR ''t'']
     else if ord_of c = 12 then [bslash, CHR ''f'']
     else if ord_of c = 8 then [bslash, CHR ''b'']
     else if ord_of c < 32 \<or> ascii \<and> 126 < ord_of c then
       [bslash, CHR ''u'', CHR ''0'', CHR ''0'', hex_digit (ord_of c div 16), hex_digit (ord_of c mod 16)]
     else [c])"

definition json_quote :: "bool \<Rightarrow> string \<Rightarrow> string" where
  "json_quote ascii s = [dquote] @ concat (map (escape_char ascii) s) @ [dquote]"

fun join :: "string \<Rightarrow> string list \<Rightarrow> string" where
  "join sep [] = []"
| "join sep [x] = x"
| "join sep (x # y # xs) = x @ sep @ join sep (y # xs)"

primrec json_text :: "string \<Rightarrow> bool \<Rightarrow> json \<Rightarrow> string" where
  "json_text sp a JNull = ''null''"
| "json_text sp a (JBool b) = (if b then ''true'' else ''false'')"
| "json_text sp a (JInt i) = str_of_int i"
| "json_text sp a (JStr s) = json_quote a s"
| "json_text sp a (JList xs) = ''['' @ join (CHR '','' # sp) (map (json_text sp a) xs) @ '']''"
| "json_text sp a (JObj kvs) =
     ''{'' @ join (CHR '','' # sp) (map (\<lambda>(k, v). json_quote a k @ (CHR '':'' # sp) @ v)
        (sort_key fst (map (map_prod id (json_text sp a)) kvs))) @ ''}''"

abbreviation json_dumps :: "bool \<Rightarrow> json \<Rightarrow> string" where
  "json_dumps \<equiv> json_text []"

text \<open>The same value with the keys of every object in order, and well-formedness: distinct keys.\<close>

primrec json_norm :: "json \<Rightarrow> json" where
  "json_norm JNull = JNull"
| "json_norm (JBool b) = JBool b"
| "json_norm (JInt i) = JInt i"
| "json_norm (JStr s) = JStr s"
| "json_norm (JList xs) = JList (map json_norm xs)"
| "json_norm (JObj kvs) = JObj (sort_key fst (map (map_prod id json_norm) kvs))"

primrec json_wf :: "json \<Rightarrow> bool" where
  "json_wf JNull \<longleftrightarrow> True"
| "json_wf (JBool b) \<longleftrightarrow> True"
| "json_wf (JInt i) \<longleftrightarrow> True"
| "json_wf (JStr s) \<longleftrightarrow> True"
| "json_wf (JList xs) \<longleftrightarrow> list_all id (map json_wf xs)"
| "json_wf (JObj kvs) \<longleftrightarrow> distinct (map fst kvs) \<and> list_all (\<lambda>(k, b). b) (map (map_prod id json_wf) kvs)"

subsection \<open>Reading\<close>

definition is_digit :: "char \<Rightarrow> bool" where
  "is_digit c \<longleftrightarrow> 48 \<le> ord_of c \<and> ord_of c \<le> 57"

definition is_ws :: "char \<Rightarrow> bool" where
  "is_ws c \<longleftrightarrow> ord_of c \<in> {32, 9, 10, 13}"

definition skip_ws :: "string \<Rightarrow> string" where
  "skip_ws s = dropWhile is_ws s"

definition hex_value :: "char \<Rightarrow> nat option" where
  "hex_value c = (let n = ord_of c in
     if 48 \<le> n \<and> n \<le> 57 then Some (n - 48)
     else if 97 \<le> n \<and> n \<le> 102 then Some (n - 87)
     else if 65 \<le> n \<and> n \<le> 70 then Some (n - 55) else None)"

definition hex4 :: "char \<Rightarrow> char \<Rightarrow> char \<Rightarrow> char \<Rightarrow> nat option" where
  "hex4 a b c d =
    (case (hex_value a, hex_value b, hex_value c, hex_value d) of
       (Some w, Some x, Some y, Some z) \<Rightarrow> Some (((w * 16 + x) * 16 + y) * 16 + z)
     | _ \<Rightarrow> None)"

definition unescape :: "char \<Rightarrow> char option" where
  "unescape c =
    (if c = dquote \<or> c = bslash \<or> c = CHR ''/'' then Some c
     else if c = CHR ''n'' then Some (char_of (10::nat))
     else if c = CHR ''r'' then Some (char_of (13::nat))
     else if c = CHR ''t'' then Some (char_of (9::nat))
     else if c = CHR ''f'' then Some (char_of (12::nat))
     else if c = CHR ''b'' then Some (char_of (8::nat)) else None)"

text \<open>The characters of a string literal up to its closing quote, and what follows it.\<close>

fun scan_string :: "string \<Rightarrow> (string \<times> string) option" where
  "scan_string [] = None"
| "scan_string (c # cs) =
    (if c = dquote then Some ([], cs)
     else if c = bslash then
       (case cs of
          [] \<Rightarrow> None
        | e # r \<Rightarrow>
            if e = CHR ''u'' then
              (case r of
                 w # x # y # z # r' \<Rightarrow>
                   (case hex4 w x y z of
                      None \<Rightarrow> None
                    | Some n \<Rightarrow> if n < 256 then map_option (apfst (Cons (char_of n))) (scan_string r') else None)
               | _ \<Rightarrow> None)
            else (case unescape e of
                    None \<Rightarrow> None
                  | Some d \<Rightarrow> map_option (apfst (Cons d)) (scan_string r)))
     else if ord_of c < 32 then None
     else map_option (apfst (Cons c)) (scan_string cs))"

fun nat_of_digits :: "nat \<Rightarrow> string \<Rightarrow> nat" where
  "nat_of_digits n [] = n"
| "nat_of_digits n (c # cs) = nat_of_digits (10 * n + (ord_of c - 48)) cs"

definition scan_nat :: "string \<Rightarrow> (nat \<times> string) option" where
  "scan_nat s =
    (case s of
       [] \<Rightarrow> None
     | c # cs \<Rightarrow>
         if c = CHR ''0'' then Some (0, cs)
         else if is_digit c then Some (nat_of_digits 0 (takeWhile is_digit s), dropWhile is_digit s)
         else None)"

definition after :: "char \<Rightarrow> string \<Rightarrow> string option" where
  "after c s = (case s of [] \<Rightarrow> None | x # xs \<Rightarrow> if x = c then Some xs else None)"

text \<open>
  An integer literal. A fraction or exponent after it would make it a float, which the readers
  refuse; here it is left in the rest, where no reader accepts it.
\<close>

definition scan_int :: "string \<Rightarrow> (int \<times> string) option" where
  "scan_int s =
    (case after (CHR ''-'') s of
       Some cs \<Rightarrow> map_option (apfst (\<lambda>n. - int n)) (scan_nat cs)
     | None \<Rightarrow> map_option (apfst int) (scan_nat s))"

type_synonym pairs_hook = "(string \<times> json) list \<Rightarrow> json option"

definition hook_unique :: pairs_hook where
  "hook_unique kvs = (if distinct (map fst kvs) then Some (JObj kvs) else None)"

fun parse_value :: "pairs_hook \<Rightarrow> nat \<Rightarrow> string \<Rightarrow> (json \<times> string) option"
  and parse_elems :: "pairs_hook \<Rightarrow> nat \<Rightarrow> string \<Rightarrow> (json list \<times> string) option"
  and parse_members :: "pairs_hook \<Rightarrow> nat \<Rightarrow> string \<Rightarrow> ((string \<times> json) list \<times> string) option" where
  "parse_value hook 0 s = None"
| "parse_value hook (Suc f) s =
    (case s of
       [] \<Rightarrow> None
     | c # cs \<Rightarrow>
         if c = dquote then map_option (apfst JStr) (scan_string cs)
         else if c = CHR ''['' then
           (case after (CHR '']'') (skip_ws cs) of
              Some r \<Rightarrow> Some (JList [], r)
            | None \<Rightarrow> map_option (apfst JList) (parse_elems hook f (skip_ws cs)))
         else if c = CHR ''{'' then
           (case after (CHR ''}'') (skip_ws cs) of
              Some r \<Rightarrow> map_option (\<lambda>v. (v, r)) (hook [])
            | None \<Rightarrow> (case parse_members hook f (skip_ws cs) of
                         None \<Rightarrow> None
                       | Some (kvs, r) \<Rightarrow> map_option (\<lambda>v. (v, r)) (hook kvs)))
         else if take 4 s = ''null'' then Some (JNull, drop 4 s)
         else if take 4 s = ''true'' then Some (JBool True, drop 4 s)
         else if take 5 s = ''false'' then Some (JBool False, drop 5 s)
         else map_option (apfst JInt) (scan_int s))"
| "parse_elems hook 0 s = None"
| "parse_elems hook (Suc f) s =
    (case parse_value hook f s of
       None \<Rightarrow> None
     | Some (v, r) \<Rightarrow>
         (case after (CHR '']'') (skip_ws r) of
            Some r' \<Rightarrow> Some ([v], r')
          | None \<Rightarrow>
              (case after (CHR '','') (skip_ws r) of
                 Some r' \<Rightarrow> map_option (apfst (Cons v)) (parse_elems hook f (skip_ws r'))
               | None \<Rightarrow> None)))"
| "parse_members hook 0 s = None"
| "parse_members hook (Suc f) s =
    (case s of
       [] \<Rightarrow> None
     | c # cs \<Rightarrow>
         if c \<noteq> dquote then None
         else (case scan_string cs of
                 None \<Rightarrow> None
               | Some (k, r) \<Rightarrow>
                   (case after (CHR '':'') (skip_ws r) of
                      None \<Rightarrow> None
                    | Some r1 \<Rightarrow>
                        (case parse_value hook f (skip_ws r1) of
                           None \<Rightarrow> None
                         | Some (v, r2) \<Rightarrow>
                             (case after (CHR ''}'') (skip_ws r2) of
                                Some r3 \<Rightarrow> Some ([(k, v)], r3)
                              | None \<Rightarrow>
                                  (case after (CHR '','') (skip_ws r2) of
                                     Some r3 \<Rightarrow>
                                       map_option (apfst (Cons (k, v))) (parse_members hook f (skip_ws r3))
                                   | None \<Rightarrow> None))))))"

definition json_fuel :: "string \<Rightarrow> nat" where
  "json_fuel s = 2 * length s + 2"

definition json_loads :: "pairs_hook \<Rightarrow> string \<Rightarrow> json option" where
  "json_loads hook s =
    (case parse_value hook (json_fuel s) (skip_ws s) of
       Some (v, r) \<Rightarrow> if skip_ws r = [] then Some v else None
     | None \<Rightarrow> None)"


subsection \<open>Reading what was written: scalars\<close>

lemma ord_digit_char [simp]: "n < 10 \<Longrightarrow> ord_of (digit_char n) = 48 + n"
proof -
  assume "n < 10"
  then have "n \<in> set [0..<10]" by simp
  then show ?thesis unfolding digit_char_def by (simp add: upt_rec numeral_eq_Suc) (elim disjE; simp)
qed

lemma after_simps [simp]:
  "after c [] = None" "after c (x # xs) = (if x = c then Some xs else None)"
  by (simp_all add: after_def)

lemma is_digit_digit_char [simp]: "n < 10 \<Longrightarrow> is_digit (digit_char n)"
  by (simp add: is_digit_def)

lemma str_of_nat_digits: "list_all is_digit (str_of_nat n)"
  by (induction n rule: str_of_nat.induct) (subst str_of_nat.simps, simp)

lemma str_of_nat_nonempty [simp]: "str_of_nat n \<noteq> []"
  by (subst str_of_nat.simps) simp

lemma str_of_nat_0 [simp]: "str_of_nat 0 = ''0''"
  by (simp add: str_of_nat.simps digit_char_def numeral_eq_Suc)

lemma hd_str_of_nat: "0 < n \<Longrightarrow> hd (str_of_nat n) \<noteq> CHR ''0''"
proof (induction n rule: str_of_nat.induct)
  case (1 n)
  show ?case
  proof (cases "n < 10")
    case True
    then have "ord_of (digit_char n) \<noteq> ord_of (CHR ''0'')" using 1 by (simp del: of_char_eq_iff)
    then show ?thesis using True by (subst str_of_nat.simps) (metis list.sel(1))
  next
    case False
    then show ?thesis using 1 by (subst str_of_nat.simps) simp
  qed
qed

lemma nat_of_digits_snoc: "nat_of_digits k (cs @ [c]) = 10 * nat_of_digits k cs + (ord_of c - 48)"
  by (induction k cs rule: nat_of_digits.induct) auto

lemma nat_of_digits_str [simp]: "nat_of_digits 0 (str_of_nat n) = n"
proof (induction n rule: str_of_nat.induct)
  case (1 n)
  then show ?case
    by (subst str_of_nat.simps) (auto simp: nat_of_digits_snoc)
qed

definition no_digit :: "string \<Rightarrow> bool" where
  "no_digit rest \<longleftrightarrow> (case rest of [] \<Rightarrow> True | c # _ \<Rightarrow> \<not> is_digit c)"

lemma no_digit_simps [simp]: "no_digit []" "no_digit (c # cs) \<longleftrightarrow> \<not> is_digit c"
  by (simp_all add: no_digit_def)

lemma span_digits:
  assumes "list_all is_digit ds" "no_digit rest"
  shows "takeWhile is_digit (ds @ rest) = ds" "dropWhile is_digit (ds @ rest) = rest"
  using assms by (induction ds) (auto split: list.splits simp: no_digit_def)

lemma scan_nat_str:
  assumes "no_digit rest"
  shows "scan_nat (str_of_nat n @ rest) = Some (n, rest)"
proof (cases "n = 0")
  case True
  then show ?thesis by (simp add: scan_nat_def)
next
  case False
  obtain c cs where c: "str_of_nat n = c # cs" by (cases "str_of_nat n") auto
  have "c \<noteq> CHR ''0''" "is_digit c" "list_all is_digit (c # cs)"
    using hd_str_of_nat [of n] str_of_nat_digits [of n] False c by auto
  then show ?thesis
    using span_digits [OF _ assms, of "c # cs"] nat_of_digits_str [of n] c
    by (auto simp: scan_nat_def simp del: nat_of_digits_str)
qed

lemma scan_int_str:
  assumes "no_digit rest"
  shows "scan_int (str_of_int i @ rest) = Some (i, rest)"
proof (cases "i < 0")
  case True
  then show ?thesis by (simp add: scan_int_def str_of_int_def scan_nat_str [OF assms])
next
  case False
  obtain c cs where c: "str_of_nat (nat i) = c # cs" by (cases "str_of_nat (nat i)") auto
  have "is_digit c" using str_of_nat_digits [of "nat i"] c by simp
  then have "c \<noteq> CHR ''-''" by (auto simp: is_digit_def)
  then have "scan_int (c # cs @ rest) = map_option (apfst int) (scan_nat (c # cs @ rest))"
    by (simp add: scan_int_def)
  then show ?thesis
    using False scan_nat_str [OF assms, of "nat i"] c by (simp add: str_of_int_def)
qed

lemma hex_value_digit [simp]:
  assumes "n < 16"
  shows "hex_value (hex_digit n) = Some n"
proof -
  have "n \<in> set [0..<16]" using assms by simp
  then show ?thesis
    unfolding hex_value_def hex_digit_def by (simp add: upt_rec numeral_eq_Suc) (elim disjE; simp)
qed

lemma scan_string_escape [simp]:
  "scan_string (escape_char a c @ r) = map_option (apfst (Cons c)) (scan_string r)"
proof -
  have n: "(ord_of c :: nat) < 256" by simp
  let ?e = "[bslash, CHR ''u'', CHR ''0'', CHR ''0'', hex_digit (ord_of c div 16), hex_digit (ord_of c mod 16)]"
  have cc: "char_of (ord_of c :: nat) = c" by simp
  have u: "scan_string (?e @ r) = map_option (apfst (Cons c)) (scan_string r)"
  proof -
    have "hex4 (CHR ''0'') (CHR ''0'') (hex_digit (ord_of c div 16)) (hex_digit (ord_of c mod 16)) =
        Some (ord_of c)"
      using n by (simp add: hex4_def hex_value_def [of "CHR ''0''"] less_mult_imp_div_less)
    then show ?thesis using n by simp
  qed
  have s: "\<And>m. ord_of c = m \<Longrightarrow> char_of m = c" using cc by blast
  show ?thesis
    unfolding escape_char_def using u
    by (auto simp: unescape_def intro: s) (use s in \<open>force simp: apfst_def\<close>)+
qed

lemma scan_string_quoted:
  "scan_string (concat (map (escape_char a) s) @ dquote # rest) = Some (s, rest)"
  by (induction s) (simp_all del: scan_string.simps add: scan_string.simps(2) [of dquote])


subsection \<open>Reading what was written: values\<close>

lemma insort_key_map_prod:
  "insort_key fst (map_prod id f x) (map (map_prod id f) xs) = map (map_prod id f) (insort_key fst x xs)"
  by (induction xs) auto

lemma sort_key_map_prod:
  "sort_key fst (map (map_prod id f) xs) = map (map_prod id f) (sort_key fst xs)"
  by (induction xs) (simp_all add: insort_key_map_prod [unfolded id_def] id_def)

definition member_text :: "string \<Rightarrow> bool \<Rightarrow> string \<times> json \<Rightarrow> string" where
  "member_text sp a kv = json_quote a (fst kv) @ (CHR '':'' # sp) @ json_text sp a (snd kv)"

lemma json_dumps_obj:
  "json_text sp a (JObj kvs) = ''{'' @ join (CHR '','' # sp) (map (member_text sp a) (sort_key fst kvs)) @ ''}''"
  by (simp add: sort_key_map_prod comp_def case_prod_beta member_text_def [abs_def])

lemma json_dumps_head:
  obtains c cs where "json_text sp a v = c # cs" "\<not> is_ws c" "c \<noteq> CHR '']''" "c \<noteq> CHR ''}''" "c \<noteq> CHR '',''"
proof (cases v)
  case (JInt i)
  obtain c cs where c: "str_of_nat (nat \<bar>i\<bar>) = c # cs" by (cases "str_of_nat (nat \<bar>i\<bar>)") auto
  have "is_digit c" using str_of_nat_digits [of "nat \<bar>i\<bar>"] c by simp
  then have "\<not> is_ws c" "c \<noteq> CHR '']''" "c \<noteq> CHR ''}''" "c \<noteq> CHR '',''"
    by (auto simp: is_digit_def is_ws_def)
  then show ?thesis using that JInt c
    by (cases "i < 0") (auto simp: str_of_int_def is_ws_def)
next
  case (JBool b)
  then show ?thesis using that by (cases b) (auto simp: is_ws_def)
qed (auto simp: is_ws_def json_quote_def intro: that)

lemma skip_ws_simps [simp]:
  "skip_ws [] = []" "\<not> is_ws c \<Longrightarrow> skip_ws (c # cs) = c # cs"
  by (simp_all add: skip_ws_def)

lemma skip_ws_append [simp]: "list_all is_ws sp \<Longrightarrow> skip_ws (sp @ s) = skip_ws s"
  by (induction sp) (simp_all add: skip_ws_def)

lemma not_ws [simp]: "\<not> is_ws (CHR '']'')" "\<not> is_ws (CHR ''}'')" "\<not> is_ws (CHR '','')"
  "\<not> is_ws (CHR '':'')" "\<not> is_ws dquote"
  by (simp_all add: is_ws_def)

lemma not_digit [simp]: "\<not> is_digit (CHR '']'')" "\<not> is_digit (CHR ''}'')" "\<not> is_digit (CHR '','')"
  by (simp_all add: is_digit_def)

lemma skip_ws_dumps [simp]: "skip_ws (json_text sp a v @ r) = json_text sp a v @ r"
  by (rule json_dumps_head [of sp a v]) simp

lemma after_dumps [simp]:
  "after (CHR '']'') (json_text sp a v @ r) = None" "after (CHR ''}'') (json_text sp a v @ r) = None"
  by (rule json_dumps_head [of sp a v], simp)+

definition reads_back :: "string \<Rightarrow> pairs_hook \<Rightarrow> bool \<Rightarrow> json \<Rightarrow> bool" where
  "reads_back sp hook a v \<longleftrightarrow> (\<forall>f rest. no_digit rest \<and> 2 * length (json_text sp a v) \<le> f \<longrightarrow>
     parse_value hook f (json_text sp a v @ rest) = Some (json_norm v, rest))"

lemma reads_backD:
  "reads_back sp hook a v \<Longrightarrow> no_digit rest \<Longrightarrow> 2 * length (json_text sp a v) \<le> f \<Longrightarrow>
    parse_value hook f (json_text sp a v @ rest) = Some (json_norm v, rest)"
  by (simp add: reads_back_def)

lemma reads_backI:
  assumes "\<forall>f rest. no_digit rest \<longrightarrow> parse_value hook (Suc f) (json_text sp a v @ rest) = Some (json_norm v, rest)"
  shows "reads_back sp hook a v"
proof -
  have "0 < length (json_text sp a v)" by (rule json_dumps_head [of sp a v]) simp
  then show ?thesis unfolding reads_back_def using assms
    by (metis gr0_conv_Suc less_le_trans nat_0_less_mult_iff zero_less_numeral)
qed

lemma parse_elems_join:
  "list_all is_ws sp \<Longrightarrow> vs \<noteq> [] \<Longrightarrow> list_all (reads_back sp hook a) vs \<Longrightarrow>
    2 * length (join (CHR '','' # sp) (map (json_text sp a) vs)) + 1 \<le> f \<Longrightarrow>
    parse_elems hook f (join (CHR '','' # sp) (map (json_text sp a) vs) @ CHR '']'' # rest) =
      Some (map json_norm vs, rest)"
proof (induction vs arbitrary: f rule: induct_list012)
  case (2 v)
  then obtain f' where f: "f = Suc f'" "2 * length (json_text sp a v) \<le> f'" by (cases f) auto
  then show ?case using 2 by (simp add: reads_backD)
next
  case (3 v w vs)
  then obtain f' where f: "f = Suc f'" by (cases f) auto
  have "parse_elems hook f' (join (CHR '','' # sp) (map (json_text sp a) (w # vs)) @ CHR '']'' # rest) =
      Some (map json_norm (w # vs), rest)"
    by (rule "3.IH"(2)) (use 3 f in auto)
  moreover have "skip_ws (join (CHR '','' # sp) (map (json_text sp a) (w # vs)) @ r) =
      join (CHR '','' # sp) (map (json_text sp a) (w # vs)) @ r" for r
    by (cases vs) simp_all
  ultimately show ?case using 3 f by (simp add: reads_backD)
qed simp

lemma parse_members_join:
  "list_all is_ws sp \<Longrightarrow> kvs \<noteq> [] \<Longrightarrow> list_all (\<lambda>kv. reads_back sp hook a (snd kv)) kvs \<Longrightarrow>
    2 * length (join (CHR '','' # sp) (map (member_text sp a) kvs)) + 1 \<le> f \<Longrightarrow>
    parse_members hook f (join (CHR '','' # sp) (map (member_text sp a) kvs) @ CHR ''}'' # rest) =
      Some (map (map_prod id json_norm) kvs, rest)"
proof (induction kvs arbitrary: f rule: induct_list012)
  case (2 kv)
  then obtain f' where f: "f = Suc f'" "2 * length (json_text sp a (snd kv)) \<le> f'"
    by (cases f) (auto simp: member_text_def)
  then show ?case
    using 2 by (simp add: reads_backD member_text_def json_quote_def scan_string_quoted map_prod_def case_prod_beta)
next
  case (3 kv kw kvs)
  then obtain f' where f: "f = Suc f'" by (cases f) auto
  have "parse_members hook f' (join (CHR '','' # sp) (map (member_text sp a) (kw # kvs)) @ CHR ''}'' # rest) =
      Some (map (map_prod id json_norm) (kw # kvs), rest)"
    by (rule "3.IH"(2)) (use 3 f in auto)
  moreover have "skip_ws (join (CHR '','' # sp) (map (member_text sp a) (kw # kvs)) @ r) =
      join (CHR '','' # sp) (map (member_text sp a) (kw # kvs)) @ r" for r
    by (cases kvs) (simp_all add: member_text_def json_quote_def)
  moreover have "2 * length (json_text sp a (snd kv)) \<le> f'" using 3 f by (auto simp: member_text_def)
  moreover have "member_text sp a kv = dquote # concat (map (escape_char a) (fst kv)) @ dquote #
      CHR '':'' # sp @ json_text sp a (snd kv)" by (simp add: member_text_def json_quote_def)
  ultimately show ?case
    using 3 f by (simp add: reads_backD scan_string_quoted map_prod_def case_prod_beta)
qed simp

lemma reads_back_dumps:
  assumes sp: "list_all is_ws sp" and hook: "\<forall>kvs. distinct (map fst kvs) \<longrightarrow> hook kvs = Some (JObj kvs)"
  shows "json_wf v \<Longrightarrow> reads_back sp hook a v"
proof (induction v)
  case (JInt i)
  have "parse_value hook (Suc f) (str_of_int i @ rest) = Some (JInt i, rest)" if "no_digit rest" for f rest
  proof -
    obtain c cs where c: "str_of_int i = c # cs" "c = CHR ''-'' \<or> is_digit c"
      using str_of_nat_digits [of "nat i"] str_of_nat_nonempty [of "nat i"]
      by (cases "str_of_nat (nat i)"; cases "i < 0") (auto simp: str_of_int_def)
    then have "c \<noteq> dquote \<and> c \<noteq> CHR ''['' \<and> c \<noteq> CHR ''{'' \<and> c \<noteq> CHR ''n'' \<and> c \<noteq> CHR ''t'' \<and> c \<noteq> CHR ''f''"
      by (auto simp: is_digit_def)
    then show ?thesis using scan_int_str [OF that, of i] c by simp
  qed
  then show ?case by (intro reads_backI) simp
next
  case (JList xs)
  have IH: "list_all (reads_back sp hook a) xs" using JList by (simp add: list_all_iff)
  show ?case unfolding reads_back_def
  proof (intro allI impI)
    fix f rest assume f: "no_digit rest \<and> 2 * length (json_text sp a (JList xs)) \<le> f"
    then obtain f' where f': "f = Suc f'" by (cases f) auto
    have "skip_ws (join (CHR '','' # sp) (map (json_text sp a) xs) @ r) = join (CHR '','' # sp) (map (json_text sp a) xs) @ r \<and>
        after (CHR '']'') (join (CHR '','' # sp) (map (json_text sp a) xs) @ r) = None" if "xs \<noteq> []" for r
      using that by (cases xs rule: remdups_adj.cases) simp_all
    then show "parse_value hook f (json_text sp a (JList xs) @ rest) = Some (json_norm (JList xs), rest)"
      using parse_elems_join [OF sp _ IH, of f' rest] f f' by (cases "xs = []") simp_all
  qed
next
  case (JObj kvs)
  let ?k = "sort_key fst kvs"
  have wf: "distinct (map fst kvs)" "\<forall>kv \<in> set kvs. json_wf (snd kv)"
    using JObj.prems by (auto simp: list_all_iff)
  have IH: "list_all (\<lambda>kv. reads_back sp hook a (snd kv)) ?k"
    using JObj wf(2) by (fastforce simp: list_all_iff)
  have "distinct (map fst (map (map_prod id json_norm) ?k))"
    using wf(1) by (simp add: comp_def distinct_map inj_on_def)
  then have hk: "hook (map (map_prod id json_norm) ?k) = Some (json_norm (JObj kvs))"
    using hook by (simp add: sort_key_map_prod)
  show ?case unfolding reads_back_def
  proof (intro allI impI)
    fix f rest assume f: "no_digit rest \<and> 2 * length (json_text sp a (JObj kvs)) \<le> f"
    then obtain f' where f': "f = Suc f'" by (cases f) (auto simp: json_dumps_obj simp del: json_text.simps)
    have "skip_ws (join (CHR '','' # sp) (map (member_text sp a) xs) @ r) = join (CHR '','' # sp) (map (member_text sp a) xs) @ r \<and>
        after (CHR ''}'') (join (CHR '','' # sp) (map (member_text sp a) xs) @ r) = None" if "xs \<noteq> []" for r xs
      using that by (cases xs rule: remdups_adj.cases) (simp_all add: member_text_def json_quote_def)
    moreover have "?k = [] \<longleftrightarrow> kvs = []" by (metis length_0_conv length_sort)
    ultimately show "parse_value hook f (json_text sp a (JObj kvs) @ rest) = Some (json_norm (JObj kvs), rest)"
      using parse_members_join [OF sp _ IH, of f' rest] f f' hk
      by (cases "kvs = []") (simp_all add: json_dumps_obj del: json_text.simps json_norm.simps)
  qed
qed (auto simp: json_quote_def scan_string_quoted intro!: reads_backI)

lemma json_text_roundtrip:
  assumes "json_wf v" "\<forall>kvs. distinct (map fst kvs) \<longrightarrow> hook kvs = Some (JObj kvs)" "list_all is_ws sp" "list_all is_ws ws"
  shows "json_loads hook (json_text sp a v @ ws) = Some (json_norm v)"
proof -
  have "no_digit ws" using assms(4) by (cases ws) (auto simp: is_ws_def is_digit_def)
  moreover have "skip_ws ws = []" using skip_ws_append [OF assms(4), of "[]"] by simp
  ultimately show ?thesis
    using reads_backD [OF reads_back_dumps [OF assms(3,2,1), of a], of ws "json_fuel (json_text sp a v @ ws)"]
    by (simp add: json_loads_def json_fuel_def)
qed

theorem json_roundtrip:
  assumes "json_wf v" "\<forall>kvs. distinct (map fst kvs) \<longrightarrow> hook kvs = Some (JObj kvs)"
  shows "json_loads hook (json_dumps a v) = Some (json_norm v)"
  using json_text_roundtrip [OF assms, of "[]" "[]"] by simp

lemma json_dumps_inj:
  assumes "json_wf v" "json_wf w" "json_dumps a v = json_dumps a w"
  shows "json_norm v = json_norm w"
  using json_roundtrip [of v hook_unique a] json_roundtrip [of w hook_unique a] assms
  by (simp add: hook_unique_def)

end
