(* ===== verification/Evidence_Chain.thy ===== *)
theory Evidence_Chain
  imports Py_Json
begin

text \<open>
  The evidence objects of \<open>vuoro_evidence/core/model.py\<close>, the hash chain of \<open>core/chain.py\<close> and its
  writer and reader \<open>core/set_builder.py\<close>. Instants are microseconds since the epoch; the free text a
  chain break carries beside its reason is dropped.
\<close>

subsection \<open>Objects\<close>

type_synonym json_map = "(string \<times> json) list"

datatype claim_type =
    TARGET_STALE | PRECONDITION_REFUSED | CAPABILITY_UNAVAILABLE | EVIDENCE_PERSISTED
  | EFFECT_COMPLETED | EFFECT_FAILED | EFFECT_UNCERTAIN | EFFECT_NOT_INVOKED | OBSERVATION

record freshness =
  fr_scope :: string
  fr_position :: int

record ev_claim =
  cl_type :: claim_type
  cl_subject :: string
  cl_grant_id :: "string option"
  cl_freshness :: "freshness option"
  cl_confirms :: "bool option"
  cl_detail :: json_map

datatype validity_basis = INDEFINITE | BOUNDED | UNTIL_INPUTS_CHANGE

record validity_window =
  vw_basis :: validity_basis
  valid_from :: int
  valid_until :: "int option"
  component_digests :: "(string, string) dict"

record evidence_item =
  item_id :: string
  item_kind :: string
  item_ref :: string
  item_digest :: string
  item_collector :: string
  item_validity :: validity_window
  item_claims :: "ev_claim list"
  item_provenance :: json_map
  chain_seq :: "int option"
  chain_prev_digest :: "string option"
  item_run_id :: "string option"

record effect_grant =
  eg_grant_id :: string
  eg_principal :: string
  eg_effect_class :: string
  eg_target_scope :: string
  eg_expiry :: "int option"
  eg_constraints :: json_map
  eg_policy_decision_ref :: "string option"

record evidence_set =
  set_id :: string
  set_items :: "evidence_item list"
  set_grants :: "effect_grant list"
  set_run_id :: "string option"

subsection \<open>The chain\<close>

definition json_opt :: "('a \<Rightarrow> json) \<Rightarrow> 'a option \<Rightarrow> json" where
  "json_opt f x = (case x of None \<Rightarrow> JNull | Some a \<Rightarrow> f a)"

definition entry_payload :: "evidence_item \<Rightarrow> json" where
  "entry_payload item = JObj
    [(''item_id'', JStr (item_id item)), (''digest'', JStr (item_digest item)),
     (''chain_seq'', json_opt JInt (chain_seq item)),
     (''chain_prev_digest'', json_opt JStr (chain_prev_digest item))]"

definition entry_bytes :: "evidence_item \<Rightarrow> bytes" where
  "entry_bytes item = utf8_encode (json_dumps True (entry_payload item))"

definition entry_digest :: "evidence_item \<Rightarrow> string" where
  "entry_digest item = ''sha256:'' @ hexdigest (entry_bytes item)"

datatype chain_error = NotChained

definition link :: "evidence_item list \<Rightarrow> evidence_item \<Rightarrow> (chain_error, evidence_item) result" where
  "link items next_item =
    (if items = [] then Inr (next_item\<lparr>chain_seq := Some 0, chain_prev_digest := None\<rparr>)
     else case chain_seq (last items) of
       None \<Rightarrow> Inl NotChained
     | Some n \<Rightarrow> Inr (next_item\<lparr>chain_seq := Some (n + 1),
                               chain_prev_digest := Some (entry_digest (last items))\<rparr>))"

datatype chain_break_reason = NOT_CHAINED | OUT_OF_ORDER | MISSING_PREDECESSOR | ALTERED_PREDECESSOR

record chain_break =
  break_index :: nat
  break_item_id :: string
  break_reason :: chain_break_reason

record chain_verification =
  chain_ok :: bool
  chain_breaks :: "chain_break list"

text \<open>
  One turn of the loop of \<open>verify_chain\<close> for a chained item: the breaks it appends, given the previous
  item and the digest expected of this one's predecessor.
\<close>

definition order_breaks :: "nat \<Rightarrow> evidence_item option \<Rightarrow> evidence_item \<Rightarrow> int \<Rightarrow> chain_break list" where
  "order_breaks i prev_item item seq =
    (case prev_item of
       None \<Rightarrow> []
     | Some p \<Rightarrow>
         (case chain_seq p of
            None \<Rightarrow> []
          | Some n \<Rightarrow> if seq \<noteq> n + 1 then [\<lparr>break_index = i, break_item_id = item_id item,
                                             break_reason = OUT_OF_ORDER\<rparr>] else []))"

definition link_breaks :: "string option \<Rightarrow> nat \<Rightarrow> evidence_item option \<Rightarrow> string option \<Rightarrow>
    evidence_item \<Rightarrow> int \<Rightarrow> chain_break list" where
  "link_breaks start i prev_item expected item seq =
    (let brk = (\<lambda>r. [\<lparr>break_index = i, break_item_id = item_id item, break_reason = r\<rparr>]) in
     if expected \<noteq> None \<or> (prev_item \<noteq> None \<and> seq \<noteq> 0) then
       (case chain_prev_digest item of
          None \<Rightarrow> brk MISSING_PREDECESSOR
        | Some d \<Rightarrow> if expected \<noteq> None \<and> Some d \<noteq> expected then brk ALTERED_PREDECESSOR else [])
     else if seq = 0 \<and> chain_prev_digest item \<noteq> None \<and> start = None then brk ALTERED_PREDECESSOR
     else [])"

fun verify_loop :: "string option \<Rightarrow> nat \<Rightarrow> evidence_item option \<Rightarrow> string option \<Rightarrow>
    evidence_item list \<Rightarrow> chain_break list" where
  "verify_loop start i prev_item expected [] = []"
| "verify_loop start i prev_item expected (item # items) =
    (case chain_seq item of
       None \<Rightarrow> \<lparr>break_index = i, break_item_id = item_id item, break_reason = NOT_CHAINED\<rparr> #
                verify_loop start (Suc i) (Some item) None items
     | Some seq \<Rightarrow>
         order_breaks i prev_item item seq @ link_breaks start i prev_item expected item seq @
         verify_loop start (Suc i) (Some item) (Some (entry_digest item)) items)"

definition verify_chain :: "evidence_item list \<Rightarrow> string option \<Rightarrow> chain_verification" where
  "verify_chain items start =
    (let breaks = verify_loop start 0 None start items
     in \<lparr>chain_ok = (breaks = []), chain_breaks = breaks\<rparr>)"

subsection \<open>The set builder\<close>

record set_builder =
  sb_set_id :: string
  sb_run_id :: "string option"
  sb_items :: "evidence_item list"

datatype builder_error = RunMismatch | ChainError chain_error

definition new_builder :: "string \<Rightarrow> string option \<Rightarrow> set_builder" where
  "new_builder sid rid = \<lparr>sb_set_id = sid, sb_run_id = rid, sb_items = []\<rparr>"

definition with_run_id :: "evidence_item \<Rightarrow> string option \<Rightarrow> evidence_item" where
  "with_run_id item rid = item\<lparr>item_run_id := rid\<rparr>"

definition add_item :: "set_builder \<Rightarrow> evidence_item \<Rightarrow> (builder_error, evidence_item) result \<times> set_builder" where
  "add_item b item =
    (if sb_run_id b \<noteq> None \<and> item_run_id item \<notin> {None, sb_run_id b} then (Inl RunMismatch, b)
     else
       (let stamped = (if item_run_id item \<noteq> None then item else with_run_id item (sb_run_id b))
        in case link (sb_items b) stamped of
             Inl e \<Rightarrow> (Inl (ChainError e), b)
           | Inr chained \<Rightarrow> (Inr chained, b\<lparr>sb_items := sb_items b @ [chained]\<rparr>)))"

fun extend :: "set_builder \<Rightarrow> evidence_item list \<Rightarrow> (builder_error, unit) result \<times> set_builder" where
  "extend b [] = (Inr (), b)"
| "extend b (item # items) =
    (case add_item b item of (Inl e, b') \<Rightarrow> (Inl e, b') | (Inr _, b') \<Rightarrow> extend b' items)"

definition build :: "set_builder \<Rightarrow> effect_grant list \<Rightarrow> evidence_set" where
  "build b grants = \<lparr>set_id = sb_set_id b, set_items = sb_items b, set_grants = grants, set_run_id = sb_run_id b\<rparr>"

definition verify_evidence_set :: "evidence_set \<Rightarrow> string option \<Rightarrow> chain_verification" where
  "verify_evidence_set es start = verify_chain (set_items es) start"

subsection \<open>What an unbroken chain is\<close>

definition follows :: "evidence_item \<Rightarrow> evidence_item \<Rightarrow> bool" where
  "follows x y \<longleftrightarrow> (\<exists>n. chain_seq x = Some n \<and> chain_seq y = Some (n + 1)) \<and>
     chain_prev_digest y = Some (entry_digest x)"

definition starts :: "string option \<Rightarrow> evidence_item \<Rightarrow> bool" where
  "starts start x \<longleftrightarrow> chain_seq x \<noteq> None \<and>
     (case start of Some d \<Rightarrow> chain_prev_digest x = Some d
      | None \<Rightarrow> chain_seq x = Some 0 \<longrightarrow> chain_prev_digest x = None)"

fun unbroken :: "string option \<Rightarrow> evidence_item list \<Rightarrow> bool" where
  "unbroken start [] \<longleftrightarrow> True"
| "unbroken start (x # xs) \<longleftrightarrow> starts start x \<and> successively follows (x # xs)"

lemma unbroken_alt: "unbroken start xs \<longleftrightarrow> (xs \<noteq> [] \<longrightarrow> starts start (hd xs)) \<and> successively follows xs"
  by (cases xs) auto

lemma verify_loop_tail:
  "chain_seq p \<noteq> None \<Longrightarrow>
    verify_loop start i (Some p) (Some (entry_digest p)) items = [] \<longleftrightarrow> successively follows (p # items)"
proof (induction items arbitrary: i p)
  case (Cons y ys)
  show ?case
    using Cons.prems Cons.IH [of y "Suc i"]
    by (cases "chain_seq y")
      (auto simp: follows_def order_breaks_def link_breaks_def Let_def split: option.splits)
qed simp

lemma verify_chain_iff: "chain_ok (verify_chain items start) \<longleftrightarrow> unbroken start items"
proof (cases items)
  case (Cons x xs)
  then show ?thesis using verify_loop_tail [of x start "Suc 0" xs]
    by (cases "chain_seq x")
      (auto simp: verify_chain_def starts_def order_breaks_def link_breaks_def Let_def split: option.splits)
qed (simp add: verify_chain_def)

lemma successively_seq:
  "successively follows xs \<Longrightarrow> i < length xs \<Longrightarrow> chain_seq (hd xs) = Some b \<Longrightarrow>
    chain_seq (xs ! i) = Some (b + int i)"
proof (induction i)
  case 0
  then show ?case by (simp add: hd_conv_nth)
next
  case (Suc i)
  then have "follows (xs ! i) (xs ! Suc i)" by (simp add: successively_conv_nth)
  then show ?case using Suc by (auto simp: follows_def)
qed

lemma unbroken_seq:
  assumes "unbroken start xs" "xs \<noteq> []"
  obtains b where "\<forall>i < length xs. chain_seq (xs ! i) = Some (b + int i)"
  using assms successively_seq [of xs] by (cases xs) (auto simp: starts_def)

lemma unbroken_segment:
  assumes "unbroken start xs" "unbroken start' ys" "set ys \<subseteq> set xs"
  shows "\<exists>j. ys = take (length ys) (drop j xs)"
proof (cases "ys = []")
  case False
  then have "xs \<noteq> []" using assms(3) by auto
  then obtain b where b: "\<forall>i < length xs. chain_seq (xs ! i) = Some (b + int i)"
    using unbroken_seq [OF assms(1)] by blast
  obtain c where c: "\<forall>i < length ys. chain_seq (ys ! i) = Some (c + int i)"
    using unbroken_seq [OF assms(2) False] by blast
  have at: "\<exists>k < length xs. ys ! i = xs ! k \<and> int k = c - b + int i" if "i < length ys" for i
  proof -
    have "ys ! i \<in> set xs" using that assms(3) by (simp add: subset_iff)
    then obtain k where k: "k < length xs" "ys ! i = xs ! k" by (auto simp: in_set_conv_nth)
    then have "b + int k = c + int i" using b c that by auto
    with k show ?thesis by auto
  qed
  have "c \<ge> b" using at [of 0] False by auto
  define j where "j = nat (c - b)"
  have "j + i < length xs \<and> ys ! i = xs ! (j + i)" if i: "i < length ys" for i
  proof -
    obtain k where k: "k < length xs" "ys ! i = xs ! k" "int k = c - b + int i" using at [OF i] by blast
    then have "k = j + i" using \<open>c \<ge> b\<close> by (simp add: j_def)
    with k show ?thesis by simp
  qed
  note seg = this
  have "length ys \<le> length xs - j" using seg [of "length ys - 1"] False by (cases ys) auto
  then have "ys = take (length ys) (drop j xs)" using seg by (intro nth_equalityI) auto
  then show ?thesis by blast
qed auto

lemma unbroken_drop:
  assumes "unbroken start xs" "0 < k" "k < length xs"
  shows "unbroken (Some (entry_digest (xs ! (k - 1)))) (drop k xs)"
    "chain_seq (hd xs) = Some 0 \<Longrightarrow> unbroken None (drop k xs)"
proof -
  have s: "successively follows xs" using assms by (cases xs) auto
  have d: "drop k xs = xs ! k # drop (Suc k) xs" using assms(3) by (rule Cons_nth_drop_Suc [symmetric])
  have f: "follows (xs ! (k - 1)) (xs ! k)"
    using s assms(2,3) successively_conv_nth [of follows xs] by (metis Suc_diff_1)
  have "successively follows (drop k xs)"
    using s by (auto simp: successively_conv_nth add.commute)
  then show "unbroken (Some (entry_digest (xs ! (k - 1)))) (drop k xs)"
    using f unfolding d by (auto simp: starts_def follows_def)
  show "unbroken None (drop k xs)" if "chain_seq (hd xs) = Some 0"
    using \<open>successively follows (drop k xs)\<close> successively_seq [OF s assms(3) that] assms(2)
    unfolding d by (auto simp: starts_def)
qed

subsection \<open>The writer\<close>

definition builder_inv :: "set_builder \<Rightarrow> bool" where
  "builder_inv b \<longleftrightarrow> unbroken None (sb_items b) \<and>
     (\<forall>i < length (sb_items b). chain_seq (sb_items b ! i) = Some (int i)) \<and>
     (\<forall>x \<in> set (sb_items b). sb_run_id b \<noteq> None \<longrightarrow> item_run_id x = sb_run_id b)"

lemma link_ok:
  assumes "\<forall>i < length xs. chain_seq (xs ! i) = Some (int i)"
  shows "link xs x = Inr (x\<lparr>chain_seq := Some (int (length xs)),
    chain_prev_digest := (if xs = [] then None else Some (entry_digest (last xs)))\<rparr>)"
proof (cases "xs = []")
  case False
  then have "chain_seq (last xs) = Some (int (length xs - 1))" using assms by (simp add: last_conv_nth)
  with False show ?thesis by (simp add: link_def of_nat_diff Suc_leI)
qed (simp add: link_def)

lemma unbroken_snoc:
  assumes "unbroken start xs" "xs \<noteq> []" "follows (last xs) x"
  shows "unbroken start (xs @ [x])"
  using assms by (auto simp: unbroken_alt successively_append_iff)

lemma add_item_inv:
  assumes "builder_inv b"
  shows "builder_inv (snd (add_item b item))"
    and "sb_run_id b = None \<or> item_run_id item \<in> {None, sb_run_id b} \<Longrightarrow> is_ok (fst (add_item b item))"
proof -
  let ?xs = "sb_items b"
  let ?st = "if item_run_id item \<noteq> None then item else with_run_id item (sb_run_id b)"
  let ?c = "?st\<lparr>chain_seq := Some (int (length ?xs)),
    chain_prev_digest := (if ?xs = [] then None else Some (entry_digest (last ?xs)))\<rparr>"
  have seq: "\<forall>i < length ?xs. chain_seq (?xs ! i) = Some (int i)" using assms by (simp add: builder_inv_def)
  note lk = link_ok [OF seq, of ?st]
  show "sb_run_id b = None \<or> item_run_id item \<in> {None, sb_run_id b} \<Longrightarrow> is_ok (fst (add_item b item))"
    using lk by (auto simp: add_item_def Let_def split: if_splits)
  have "unbroken None (?xs @ [?c])"
  proof (cases "?xs = []")
    case False
    then have "chain_seq (last ?xs) = Some (int (length ?xs - 1))" using seq by (simp add: last_conv_nth)
    then have "follows (last ?xs) ?c" using False by (auto simp: follows_def of_nat_diff Suc_leI)
    then show ?thesis using unbroken_snoc False assms by (simp add: builder_inv_def)
  qed (simp add: starts_def)
  then have ext: "builder_inv (b\<lparr>sb_items := ?xs @ [?c]\<rparr>)"
    if "sb_run_id b = None \<or> item_run_id item \<in> {None, sb_run_id b}"
    using assms that by (auto simp: builder_inv_def nth_append less_Suc_eq with_run_id_def)
  show "builder_inv (snd (add_item b item))"
    using ext assms lk by (auto simp: add_item_def Let_def split: if_splits)
qed

text \<open>What the caller handed over, without the fields the builder assigns.\<close>

definition unlinked :: "evidence_item \<Rightarrow> evidence_item" where
  "unlinked x = x\<lparr>chain_seq := None, chain_prev_digest := None, item_run_id := None\<rparr>"

lemma add_item_Inr:
  assumes "add_item b item = (Inr c, b')"
  shows "b' = b\<lparr>sb_items := sb_items b @ [c]\<rparr>" "unlinked c = unlinked item"
  using assms by (auto simp: add_item_def link_def unlinked_def with_run_id_def Let_def
      split: if_splits sum.splits option.splits)

lemma add_item_Inl: "add_item b item = (Inl e, b') \<Longrightarrow> b' = b"
  by (auto simp: add_item_def Let_def split: if_splits sum.splits)

lemma extend_inv: "builder_inv b \<Longrightarrow> builder_inv (snd (extend b items))"
proof (induction b items rule: extend.induct)
  case (2 b item items)
  have "builder_inv (snd (add_item b item))" using add_item_inv(1) 2(2) .
  then show ?case using 2(1) by (auto split: prod.splits sum.splits)
qed simp

lemma extend_keeps: "sb_run_id (snd (extend b items)) = sb_run_id b \<and> sb_set_id (snd (extend b items)) = sb_set_id b"
proof (induction b items rule: extend.induct)
  case (2 b item items)
  have "sb_run_id (snd (add_item b item)) = sb_run_id b \<and> sb_set_id (snd (add_item b item)) = sb_set_id b"
    by (auto simp: add_item_def Let_def split: sum.splits)
  then show ?case using 2 by (auto split: prod.splits sum.splits)
qed simp

lemma extend_contents:
  "builder_inv b \<Longrightarrow>
   (fst (extend b items) = Inr () \<longleftrightarrow>
      sb_run_id b = None \<or> (\<forall>x \<in> set items. item_run_id x \<in> {None, sb_run_id b})) \<and>
   (fst (extend b items) = Inr () \<longrightarrow>
      map unlinked (sb_items (snd (extend b items))) = map unlinked (sb_items b @ items))"
proof (induction b items rule: extend.induct)
  case (2 b item items)
  obtain r b' where a: "add_item b item = (r, b')" by fastforce
  note inv = add_item_inv [OF 2(2), of item]
  show ?case
  proof (cases r)
    case (Inl e)
    then have "\<not> (sb_run_id b = None \<or> item_run_id item \<in> {None, sb_run_id b})"
      using inv(2) a by (metis fst_conv is_ok_simps(2))
    then show ?thesis using Inl a by auto
  next
    case (Inr c)
    have "sb_run_id b = None \<or> item_run_id item \<in> {None, sb_run_id b}"
      using a Inr by (auto simp: add_item_def split: if_splits)
    then show ?thesis
      using a Inr inv(1) 2(1) [of r b' c] add_item_Inr [of b item c b'] by auto
  qed
qed simp

lemma new_builder_inv: "builder_inv (new_builder sid rid)"
  by (simp add: builder_inv_def new_builder_def)

subsection \<open>Tampering\<close>

definition chain_entry :: "evidence_item \<Rightarrow> string \<times> string \<times> int option \<times> string option" where
  "chain_entry x = (item_id x, item_digest x, chain_seq x, chain_prev_digest x)"

lemma entry_bytes_inj:
  assumes "entry_bytes x = entry_bytes y"
  shows "chain_entry x = chain_entry y"
proof -
  have "json_norm (entry_payload x) = json_norm (entry_payload y)"
    using assms by (intro json_dumps_inj [of _ _ True])
      (simp_all add: entry_bytes_def entry_payload_def json_opt_def split: option.splits)
  then show ?thesis
    by (auto simp: entry_payload_def json_opt_def chain_entry_def less_char_def split: option.splits)
qed

text \<open>Two entries that are different but have the same SHA-256 digest.\<close>

definition collision :: "evidence_item list \<Rightarrow> evidence_item list \<Rightarrow> bool" where
  "collision xs ys \<longleftrightarrow> (\<exists>x \<in> set xs. \<exists>y \<in> set ys. entry_bytes x \<noteq> entry_bytes y \<and>
     hexdigest (entry_bytes x) = hexdigest (entry_bytes y))"

lemma unbroken_butlast: "unbroken start (xs @ [x]) \<Longrightarrow> unbroken start xs"
  by (auto simp: unbroken_alt successively_append_iff)

lemma unbroken_last: "unbroken start (xs @ [x]) \<Longrightarrow> xs \<noteq> [] \<Longrightarrow> follows (last xs) x"
  by (auto simp: unbroken_alt successively_append_iff)

lemma chain_pinned:
  assumes "unbroken None xs" "unbroken None ys" "xs \<noteq> []" "ys \<noteq> []"
    "chain_seq (hd xs) = Some 0" "chain_seq (hd ys) = Some 0"
    "entry_digest (last xs) = entry_digest (last ys)"
  shows "map chain_entry xs = map chain_entry ys \<or> collision xs ys"
  using assms
proof (induction xs arbitrary: ys rule: rev_induct)
  case (snoc x xs)
  obtain y ys' where ys: "ys = ys' @ [y]" using snoc.prems(4) by (metis rev_exhaust)
  show ?case
  proof (cases "entry_bytes x = entry_bytes y")
    case False
    then show ?thesis using snoc.prems(7) ys by (auto simp: entry_digest_def collision_def)
  next
    case True
    then have e: "chain_entry x = chain_entry y" by (rule entry_bytes_inj)
    have len: "length xs = length ys'"
    proof -
      have "successively follows (xs @ [x])" using snoc.prems(1) by (cases xs) auto
      then have "chain_seq x = Some (int (length xs))"
        using successively_seq [of "xs @ [x]" "length xs" 0] snoc.prems(5) by simp
      moreover have "successively follows (ys' @ [y])" using snoc.prems(2) ys by (cases ys') auto
      then have "chain_seq y = Some (int (length ys'))"
        using successively_seq [of "ys' @ [y]" "length ys'" 0] snoc.prems(6) ys by simp
      ultimately show ?thesis using e by (simp add: chain_entry_def)
    qed
    show ?thesis
    proof (cases "xs = []")
      case True
      then show ?thesis using e ys len by simp
    next
      case False
      then have ne: "ys' \<noteq> []" using len by auto
      have "entry_digest (last xs) = entry_digest (last ys')"
        using e unbroken_last [OF snoc.prems(1) False] unbroken_last [of None ys' y] snoc.prems(2) ys ne
        by (auto simp: chain_entry_def follows_def)
      then have "map chain_entry xs = map chain_entry ys' \<or> collision xs ys'"
        using snoc.prems ys ne False unbroken_butlast by (intro snoc.IH) auto
      then show ?thesis using e ys by (auto simp: collision_def)
    qed
  qed
qed simp

subsection \<open>Properties\<close>

text \<open>C7: What the builder writes verifies: whatever items are added, and also when an item of another run
  is refused half-way, the built set is an unbroken chain from its root. The items go in exactly when
  none of them carries another run, they keep their content and order, and every stored item carries
  the builder's run.\<close>

theorem builder_chain_verifies:
  assumes "extend (new_builder sid rid) items = (r, b)"
  shows "verify_evidence_set (build b grants) None = \<lparr>chain_ok = True, chain_breaks = []\<rparr> \<and>
    (\<forall>i < length (sb_items b). chain_seq (sb_items b ! i) = Some (int i)) \<and>
    (rid \<noteq> None \<longrightarrow> (\<forall>x \<in> set (sb_items b). item_run_id x = rid)) \<and>
    (r = Inr () \<longleftrightarrow> rid = None \<or> (\<forall>x \<in> set items. item_run_id x \<in> {None, rid})) \<and>
    (r = Inr () \<longrightarrow> map unlinked (set_items (build b grants)) = map unlinked items)"
proof -
  have inv: "builder_inv b" using extend_inv [OF new_builder_inv, of sid rid items] assms by simp
  have "sb_run_id b = rid" using extend_keeps [of "new_builder sid rid" items] assms
    by (simp add: new_builder_def)
  moreover have "chain_ok (verify_chain (sb_items b) None)" using inv by (simp add: verify_chain_iff builder_inv_def)
  moreover note extend_contents [OF new_builder_inv, of sid rid items]
  ultimately show ?thesis
    using inv assms by (auto simp: verify_evidence_set_def build_def builder_inv_def verify_chain_def
        new_builder_def Let_def)
qed

definition demo_item :: "string \<Rightarrow> evidence_item" where
  "demo_item i = \<lparr>item_id = i, item_kind = ''log'', item_ref = ''ref'', item_digest = ''d'', item_collector = ''c'',
    item_validity = \<lparr>vw_basis = INDEFINITE, valid_from = 0, valid_until = None, component_digests = []\<rparr>,
    item_claims = [], item_provenance = [], chain_seq = None, chain_prev_digest = None, item_run_id = None\<rparr>"

abbreviation demo_items :: "evidence_item list" where
  "demo_items \<equiv> map demo_item [''a'', ''b'', ''c'']"

definition demo_chain :: "evidence_item list" where
  "demo_chain = sb_items (snd (extend (new_builder ''s'' (Some ''r'')) demo_items))"

theorem builder_chain_verifies_witness:
  "chain_ok (verify_evidence_set (build (snd (extend (new_builder ''s'' (Some ''r'')) demo_items)) []) None) \<and>
   map unlinked demo_chain = demo_items"
  using builder_chain_verifies [of "''s''" "Some ''r''" demo_items
      "fst (extend (new_builder ''s'' (Some ''r'')) demo_items)"
      "snd (extend (new_builder ''s'' (Some ''r'')) demo_items)" "[]"]
  by (simp add: demo_item_def unlinked_def demo_chain_def build_def del: extend.simps)

lemma demo_chain_facts: "unbroken None demo_chain" "length demo_chain = 3" "chain_seq (hd demo_chain) = Some 0"
proof -
  have inv: "builder_inv (snd (extend (new_builder ''s'' (Some ''r'')) demo_items))"
    by (rule extend_inv [OF new_builder_inv])
  then show "unbroken None demo_chain" by (simp add: demo_chain_def builder_inv_def)
  have "map unlinked demo_chain = map unlinked demo_items"
    using extend_contents [OF new_builder_inv, of "''s''" "Some ''r''" demo_items]
    by (simp add: demo_chain_def new_builder_def demo_item_def del: extend.simps)
  then show len: "length demo_chain = 3" by (metis length_map list.size(3,4) One_nat_def Suc_eq_plus1 numeral_3_eq_3)
  then have "demo_chain \<noteq> []" by auto
  then show "chain_seq (hd demo_chain) = Some 0"
    using inv by (auto simp: hd_conv_nth demo_chain_def builder_inv_def)
qed

text \<open>C8: Deleting, reordering or repeating entries of a chain is always detected, with no assumption on
  the hash, except for cutting entries off its ends: a sequence of entries of a chain that verifies
  passes the verification, from any expected start, only if it is a contiguous segment of it.\<close>

theorem only_segments_verify:
  assumes "chain_ok (verify_chain items start)" "set ys \<subseteq> set items" "chain_ok (verify_chain ys start')"
  shows "\<exists>j. ys = take (length ys) (drop j items)"
  using unbroken_segment assms by (simp add: verify_chain_iff)

theorem only_segments_verify_witness:
  "\<exists>j. [demo_chain ! 1, demo_chain ! 2] = take 2 (drop j demo_chain)"
proof -
  have d: "[demo_chain ! 1, demo_chain ! 2] = drop 1 demo_chain"
    using demo_chain_facts(2) by (intro nth_equalityI) (auto simp: less_Suc_eq numeral_2_eq_2)
  have "chain_ok (verify_chain (drop 1 demo_chain) None)" "chain_ok (verify_chain demo_chain None)"
    using unbroken_drop(2) [of None demo_chain 1] demo_chain_facts by (auto simp: verify_chain_iff)
  then show ?thesis
    using only_segments_verify [of demo_chain None "[demo_chain ! 1, demo_chain ! 2]" None] d
    by (metis length_Cons list.size(3) numeral_2_eq_2 set_drop_subset)
qed

text \<open>C9: A chain is pinned by the digest of its last entry: if two chains that verify from their roots
  end in entries with the same digest, then they have the same length and agree, entry by entry, on
  the item id, the content digest, the position and the predecessor, or else they exhibit two different
  entries with the same SHA-256 digest.\<close>

theorem chain_tampering_needs_collision:
  assumes "chain_ok (verify_chain xs None)" "chain_ok (verify_chain ys None)" "xs \<noteq> []" "ys \<noteq> []"
    "chain_seq (hd xs) = Some 0" "chain_seq (hd ys) = Some 0"
    "entry_digest (last xs) = entry_digest (last ys)"
  shows "map chain_entry xs = map chain_entry ys \<or>
    (\<exists>x \<in> set xs. \<exists>y \<in> set ys. entry_bytes x \<noteq> entry_bytes y \<and>
       hexdigest (entry_bytes x) = hexdigest (entry_bytes y))"
  using chain_pinned assms by (simp add: verify_chain_iff collision_def)

theorem chain_tampering_needs_collision_witness:
  "map chain_entry demo_chain = map chain_entry demo_chain \<or>
    (\<exists>x \<in> set demo_chain. \<exists>y \<in> set demo_chain. entry_bytes x \<noteq> entry_bytes y \<and>
       hexdigest (entry_bytes x) = hexdigest (entry_bytes y))"
  using chain_tampering_needs_collision [of demo_chain demo_chain] demo_chain_facts
  by (metis verify_chain_iff list.size(3) zero_neq_numeral)

text \<open>A continuation verifies against the digest of the entry before it. Without that digest the cut
  is invisible: every non-empty tail of a rooted chain also verifies on its own.\<close>

theorem continuation_verifies:
  assumes "chain_ok (verify_chain items None)" "chain_seq (hd items) = Some 0" "0 < k" "k < length items"
  shows "chain_ok (verify_chain (drop k items) (Some (entry_digest (items ! (k - 1))))) \<and>
    chain_ok (verify_chain (drop k items) None)"
  using unbroken_drop assms by (simp add: verify_chain_iff)

theorem continuation_verifies_witness: "chain_ok (verify_chain (drop 2 demo_chain) None)"
  using continuation_verifies [of demo_chain 2] demo_chain_facts by (simp add: verify_chain_iff)

end
