(* ===== verification/Evidence_Ledger.thy ===== *)
theory Evidence_Ledger
  imports Evidence_Chain
begin

text \<open>
  Reducing an evidence set to ledger state (\<open>vuoro_evidence/core/reducer.py\<close>) and the decision whether
  an effect may be rerun (\<open>core/decision.py\<close>).
\<close>

subsection \<open>Ledger state\<close>

datatype grant_use = UNUSED | USED | UNCERTAIN_USE

datatype effect_state = NOT_INVOKED | REFUSED | COMPLETED | FAILED | UNCERTAIN

record subject_state =
  ss_effect :: "effect_state option"
  ss_grant_id :: "string option"
  confirmed_by :: "string list"
  contradicted_by :: "string list"
  reconciled :: bool
  persisted :: "string list"
  ss_freshness :: "(string, int) dict"
  supporting_items :: "string list"

definition new_subject :: subject_state where
  "new_subject = \<lparr>ss_effect = None, ss_grant_id = None, confirmed_by = [], contradicted_by = [],
     reconciled = False, persisted = [], ss_freshness = [], supporting_items = []\<rparr>"

record evidence_expired =
  ee_item_id :: string
  ee_reason :: string
  ee_observed_at :: int

record ledger =
  subjects :: "(string, subject_state) dict"
  ledger_grant_use :: "(string, grant_use) dict"
  expired :: "(string, evidence_expired) dict"

definition valid_items_for :: "ledger \<Rightarrow> string \<Rightarrow> string list" where
  "valid_items_for l subject =
    filter (\<lambda>i. dict_get (expired l) i = None)
      (case dict_get (subjects l) subject of None \<Rightarrow> [] | Some s \<Rightarrow> supporting_items s)"

subsection \<open>Reduction\<close>

fun input_changed :: "(string, string) dict \<Rightarrow> (string, string) dict \<Rightarrow> string option" where
  "input_changed [] inputs = None"
| "input_changed ((component, digest) # cs) inputs =
    (case dict_get inputs component of
       Some seen \<Rightarrow> if seen \<noteq> digest then Some component else input_changed cs inputs
     | None \<Rightarrow> input_changed cs inputs)"

definition expiry_of :: "evidence_item \<Rightarrow> int \<Rightarrow> (string, string) dict \<Rightarrow> evidence_expired option" where
  "expiry_of item now inputs =
    (let v = item_validity item;
         past = (case valid_until v of None \<Rightarrow> False | Some u \<Rightarrow> vw_basis v = BOUNDED \<and> now > u)
     in if past then Some \<lparr>ee_item_id = item_id item, ee_reason = ''past_valid_until'', ee_observed_at = now\<rparr>
        else if vw_basis v = UNTIL_INPUTS_CHANGE then
          map_option (\<lambda>c. \<lparr>ee_item_id = item_id item, ee_reason = ''input_changed:'' @ c, ee_observed_at = now\<rparr>)
            (input_changed (component_digests v) inputs)
        else None)"

text \<open>Python's truth value of an optional string.\<close>

definition truthy :: "string option \<Rightarrow> bool" where
  "truthy x \<longleftrightarrow> (case x of None \<Rightarrow> False | Some s \<Rightarrow> s \<noteq> [])"

definition grant_use_of :: "effect_state option \<Rightarrow> grant_use" where
  "grant_use_of e =
    (if e = Some UNCERTAIN then UNCERTAIN_USE
     else if e = Some COMPLETED \<or> e = Some FAILED then USED else UNUSED)"

definition note_freshness :: "freshness option \<Rightarrow> (string, int) dict \<Rightarrow> (string, int) dict" where
  "note_freshness fr d =
    (case fr of
       None \<Rightarrow> d
     | Some f \<Rightarrow> dict_set (fr_scope f)
         (max (case dict_get d (fr_scope f) of None \<Rightarrow> -1 | Some p \<Rightarrow> p) (fr_position f)) d)"

text \<open>The part of \<open>_apply\<close> that updates the state of the claim's subject.\<close>

definition subject_step :: "string \<Rightarrow> ev_claim \<Rightarrow> subject_state \<Rightarrow> subject_state" where
  "subject_step i c s0 =
    (let s = s0\<lparr>supporting_items := supporting_items s0 @ [i],
                ss_grant_id := (if truthy (cl_grant_id c) then cl_grant_id c else ss_grant_id s0),
                ss_freshness := note_freshness (cl_freshness c) (ss_freshness s0)\<rparr>
     in case cl_type c of
          TARGET_STALE \<Rightarrow> s\<lparr>ss_effect := Some REFUSED\<rparr>
        | PRECONDITION_REFUSED \<Rightarrow> s\<lparr>ss_effect := Some REFUSED\<rparr>
        | CAPABILITY_UNAVAILABLE \<Rightarrow> s\<lparr>ss_effect := Some REFUSED\<rparr>
        | EFFECT_NOT_INVOKED \<Rightarrow>
            s\<lparr>ss_effect := (case ss_effect s of None \<Rightarrow> Some NOT_INVOKED | Some e \<Rightarrow> Some e)\<rparr>
        | EFFECT_COMPLETED \<Rightarrow> s\<lparr>ss_effect := Some COMPLETED\<rparr>
        | EFFECT_FAILED \<Rightarrow> s\<lparr>ss_effect := Some FAILED\<rparr>
        | EFFECT_UNCERTAIN \<Rightarrow> s\<lparr>ss_effect := Some UNCERTAIN, reconciled := False\<rparr>
        | EVIDENCE_PERSISTED \<Rightarrow> s\<lparr>persisted := persisted s @ [i]\<rparr>
        | OBSERVATION \<Rightarrow>
            (case cl_confirms c of
               None \<Rightarrow> s
             | Some b \<Rightarrow>
                 (let s1 = (if b then s\<lparr>confirmed_by := confirmed_by s @ [i]\<rparr>
                            else s\<lparr>contradicted_by := contradicted_by s @ [i]\<rparr>)
                  in if ss_effect s1 = Some UNCERTAIN
                     then s1\<lparr>ss_effect := Some (if b then COMPLETED else FAILED), reconciled := True\<rparr>
                     else s1)))"

definition apply_claim :: "string \<Rightarrow> ledger \<Rightarrow> ev_claim \<Rightarrow> ledger" where
  "apply_claim i l c =
    (let s0 = (case dict_get (subjects l) (cl_subject c) of None \<Rightarrow> new_subject | Some s \<Rightarrow> s);
         s = subject_step i c s0
     in l\<lparr>subjects := dict_set (cl_subject c) s (subjects l),
          ledger_grant_use := (case ss_grant_id s of
             Some g \<Rightarrow> if g \<noteq> [] then dict_set g (grant_use_of (ss_effect s)) (ledger_grant_use l)
                        else ledger_grant_use l
           | None \<Rightarrow> ledger_grant_use l)\<rparr>)"

definition apply_item :: "int \<Rightarrow> (string, string) dict \<Rightarrow> ledger \<Rightarrow> evidence_item \<Rightarrow> ledger" where
  "apply_item now inputs l item =
    (let l' = (case expiry_of item now inputs of None \<Rightarrow> l
               | Some e \<Rightarrow> l\<lparr>expired := dict_set (item_id item) e (expired l)\<rparr>)
     in foldl (apply_claim (item_id item)) l' (item_claims item))"

definition reduce :: "evidence_set \<Rightarrow> int \<Rightarrow> (string, string) dict \<Rightarrow> ledger" where
  "reduce ev now inputs =
    foldl (apply_item now inputs)
      \<lparr>subjects = [], ledger_grant_use =
         foldl (\<lambda>d g. dict_setdefault (eg_grant_id g) UNUSED d) [] (set_grants ev), expired = []\<rparr>
      (set_items ev)"

subsection \<open>The rerun decision\<close>

datatype decision_kind = ACCEPT | REACQUIRE | RECONCILE | REJECT

record decision =
  decision_id :: string
  dec_kind :: decision_kind
  dec_subject :: string
  evidence_ids :: "string list"
  rationale :: string
  requires_observation :: bool
  dec_events :: "evidence_expired list"

record rerun_question =
  rq_decision_id :: string
  rq_subject :: string

definition effect_value :: "effect_state option \<Rightarrow> string" where
  "effect_value e =
    (case e of None \<Rightarrow> ''unknown'' | Some NOT_INVOKED \<Rightarrow> ''not_invoked'' | Some REFUSED \<Rightarrow> ''refused''
     | Some COMPLETED \<Rightarrow> ''completed'' | Some FAILED \<Rightarrow> ''failed'' | Some UNCERTAIN \<Rightarrow> ''uncertain'')"

definition decide_rerun :: "ledger \<Rightarrow> rerun_question \<Rightarrow> decision" where
  "decide_rerun l q =
    (let items = valid_items_for l (rq_subject q);
         mk = (\<lambda>k ids why obs ev. \<lparr>decision_id = rq_decision_id q, dec_kind = k, dec_subject = rq_subject q,
                 evidence_ids = ids, rationale = why, requires_observation = obs, dec_events = ev\<rparr>)
     in case dict_get (subjects l) (rq_subject q) of
          None \<Rightarrow> mk REACQUIRE [] ''no evidence for subject'' False []
        | Some s \<Rightarrow>
            (let exp = filter (\<lambda>e. ee_item_id e \<in> set (supporting_items s)) (map snd (expired l))
             in if items = [] \<and> exp = [] then mk REACQUIRE [] ''no evidence for subject'' False []
                else if contradicted_by s \<noteq> [] then
                  mk REJECT (contradicted_by s)
                    ''independent observation contradicts the recorded effect'' False []
                else if ss_effect s = Some UNCERTAIN \<and> \<not> reconciled s then
                  mk RECONCILE items
                    ''effect outcome uncertain; grant marked uncertain-use; observe before any retry'' True []
                else if exp \<noteq> [] \<and> items = [] then
                  mk REACQUIRE (map ee_item_id exp)
                    (''supporting evidence expired: '' @ join '', '' (map ee_reason exp)) False exp
                else if ss_effect s = Some COMPLETED then
                  mk ACCEPT items ''valid evidence of completion; rerun avoided'' False exp
                else
                  mk REACQUIRE items
                    (''effect state '' @ effect_value (ss_effect s) @ '' does not justify trust'') False exp))"

subsection \<open>The history of a subject\<close>

text \<open>The claims of a set in the order the reducer applies them, each with the id of its item.\<close>

definition all_claims :: "evidence_set \<Rightarrow> (string \<times> ev_claim) list" where
  "all_claims ev = concat (map (\<lambda>item. map (Pair (item_id item)) (item_claims item)) (set_items ev))"

definition history :: "string \<Rightarrow> evidence_set \<Rightarrow> (string \<times> ev_claim) list" where
  "history subject ev = filter (\<lambda>(i, c). cl_subject c = subject) (all_claims ev)"

definition replay :: "(string \<times> ev_claim) list \<Rightarrow> subject_state" where
  "replay h = foldl (\<lambda>s (i, c). subject_step i c s) new_subject h"

definition apply_all :: "ledger \<Rightarrow> (string \<times> ev_claim) list \<Rightarrow> ledger" where
  "apply_all l cs = foldl (\<lambda>l (i, c). apply_claim i l c) l cs"

lemma apply_all_simps [simp]:
  "apply_all l [] = l" "apply_all l ((i, c) # cs) = apply_all (apply_claim i l c) cs"
  "apply_all l (cs @ ds) = apply_all (apply_all l cs) ds"
  by (simp_all add: apply_all_def)

lemma apply_claim_expired [simp]: "expired (apply_claim i l c) = expired l"
  by (simp add: apply_claim_def Let_def)

lemma apply_all_expired [simp]: "expired (apply_all l cs) = expired l"
  by (induction cs arbitrary: l) auto

lemma apply_claim_set_expired: "apply_claim i (l\<lparr>expired := e\<rparr>) c = (apply_claim i l c)\<lparr>expired := e\<rparr>"
  by (simp add: apply_claim_def Let_def split: option.split)

lemma apply_all_set_expired: "apply_all (l\<lparr>expired := e\<rparr>) cs = (apply_all l cs)\<lparr>expired := e\<rparr>"
  by (induction cs arbitrary: l) (auto simp: apply_claim_set_expired)

lemma foldl_apply_claim: "foldl (apply_claim i) l cs = apply_all l (map (Pair i) cs)"
  by (induction cs arbitrary: l) auto

definition note_expired :: "int \<Rightarrow> (string, string) dict \<Rightarrow> evidence_item \<Rightarrow>
    (string, evidence_expired) dict \<Rightarrow> (string, evidence_expired) dict" where
  "note_expired now inputs item d =
    (case expiry_of item now inputs of None \<Rightarrow> d | Some e \<Rightarrow> dict_set (item_id item) e d)"

lemma apply_item_alt:
  "apply_item now inputs l item =
    (apply_all l (map (Pair (item_id item)) (item_claims item)))
      \<lparr>expired := note_expired now inputs item (expired l)\<rparr>"
  by (auto simp: apply_item_def note_expired_def foldl_apply_claim apply_all_set_expired Let_def split: option.splits)

lemma apply_items:
  "foldl (apply_item now inputs) l items =
    (apply_all l (concat (map (\<lambda>item. map (Pair (item_id item)) (item_claims item)) items)))
      \<lparr>expired := foldl (\<lambda>d item. note_expired now inputs item d) (expired l) items\<rparr>"
  by (induction items arbitrary: l) (simp_all add: apply_item_alt apply_all_set_expired)

abbreviation start_ledger :: "evidence_set \<Rightarrow> ledger" where
  "start_ledger ev \<equiv> \<lparr>subjects = [], ledger_grant_use =
     foldl (\<lambda>d g. dict_setdefault (eg_grant_id g) UNUSED d) [] (set_grants ev), expired = []\<rparr>"

lemma reduce_alt:
  "reduce ev now inputs = (apply_all (start_ledger ev) (all_claims ev))
     \<lparr>expired := foldl (\<lambda>d item. note_expired now inputs item d) [] (set_items ev)\<rparr>"
  by (simp add: reduce_def apply_items all_claims_def)

text \<open>Subjects do not interfere: the state of a subject is the replay of its own claims.\<close>

lemma apply_all_subject:
  "dict_get (subjects (apply_all l cs)) subject =
    (let h = filter (\<lambda>(i, c). cl_subject c = subject) cs;
         s0 = (case dict_get (subjects l) subject of None \<Rightarrow> new_subject | Some s \<Rightarrow> s)
     in if h = [] then dict_get (subjects l) subject
        else Some (foldl (\<lambda>s (i, c). subject_step i c s) s0 h))"
proof (induction cs arbitrary: l)
  case (Cons ic cs)
  obtain i c where "ic = (i, c)" by fastforce
  then show ?case using Cons [of "apply_claim i l c"]
    by (auto simp: apply_claim_def Let_def split: option.splits)
qed simp

lemma reduce_subject:
  "dict_get (subjects (reduce ev now inputs)) subject =
    (if history subject ev = [] then None else Some (replay (history subject ev)))"
  by (simp add: reduce_alt apply_all_subject history_def replay_def Let_def)

definition expiries :: "int \<Rightarrow> (string, string) dict \<Rightarrow> evidence_item list \<Rightarrow>
    (string, evidence_expired) dict \<Rightarrow> (string, evidence_expired) dict" where
  "expiries now inputs items d = foldl (\<lambda>d item. note_expired now inputs item d) d items"

lemma expiries_simps [simp]:
  "expiries now inputs [] d = d"
  "expiries now inputs (x # xs) d = expiries now inputs xs (note_expired now inputs x d)"
  by (simp_all add: expiries_def)

lemma note_expired_None:
  "dict_get (note_expired now inputs item d) i = None \<longleftrightarrow>
    dict_get d i = None \<and> (item_id item = i \<longrightarrow> expiry_of item now inputs = None)"
  by (simp add: note_expired_def split: option.splits)

lemma expiries_None:
  "dict_get (expiries now inputs items d) i = None \<longleftrightarrow>
    dict_get d i = None \<and> (\<forall>item \<in> set items. item_id item = i \<longrightarrow> expiry_of item now inputs = None)"
  by (induction items arbitrary: d) (simp_all add: note_expired_None conj_assoc)

definition keyed :: "(string, evidence_expired) dict \<Rightarrow> bool" where
  "keyed d \<longleftrightarrow> dict_ok d \<and> (\<forall>k e. dict_get d k = Some e \<longrightarrow> ee_item_id e = k)"

lemma expiry_of_id: "expiry_of item now inputs = Some e \<Longrightarrow> ee_item_id e = item_id item"
  by (auto simp: expiry_of_def Let_def split: if_splits)

lemma expiries_keyed: "keyed d \<Longrightarrow> keyed (expiries now inputs items d)"
proof (induction items arbitrary: d)
  case (Cons item items)
  have "keyed (note_expired now inputs item d)"
    using Cons.prems expiry_of_id by (auto simp: keyed_def note_expired_def split: option.split)
  then show ?case using Cons.IH by simp
qed simp

lemma reduce_expired: "expired (reduce ev now inputs) = expiries now inputs (set_items ev) []"
  by (simp add: reduce_alt expiries_def)

lemma reduce_expired_None:
  "dict_get (expired (reduce ev now inputs)) i = None \<longleftrightarrow>
    (\<forall>item \<in> set (set_items ev). item_id item = i \<longrightarrow> expiry_of item now inputs = None)"
  by (simp add: reduce_expired expiries_None)

lemma reduce_keyed: "keyed (expired (reduce ev now inputs))"
  unfolding reduce_expired by (rule expiries_keyed) (simp add: keyed_def)

lemma supporting_step [simp]: "supporting_items (subject_step i c s) = supporting_items s @ [i]"
  by (simp add: subject_step_def Let_def split: claim_type.split option.split)

lemma supporting_foldl:
  "supporting_items (foldl (\<lambda>s (i, c). subject_step i c s) s h) = supporting_items s @ map fst h"
  by (induction h arbitrary: s) auto

lemma supporting_replay: "supporting_items (replay h) = map fst h"
  by (simp add: replay_def supporting_foldl new_subject_def)

lemma valid_items_reduce:
  "valid_items_for (reduce ev now inputs) subject =
    filter (\<lambda>i. \<forall>item \<in> set (set_items ev). item_id item = i \<longrightarrow> expiry_of item now inputs = None)
      (map fst (history subject ev))"
  by (simp add: valid_items_for_def reduce_subject reduce_expired_None supporting_replay)

lemma contradicted_step:
  "contradicted_by (subject_step i c s) = contradicted_by s @
     (if cl_type c = OBSERVATION \<and> cl_confirms c = Some False then [i] else [])"
  by (simp add: subject_step_def Let_def split: claim_type.split option.split)

lemma contradicted_foldl:
  "contradicted_by (foldl (\<lambda>s (i, c). subject_step i c s) s h) = contradicted_by s @
     map fst (filter (\<lambda>(i, c). cl_type c = OBSERVATION \<and> cl_confirms c = Some False) h)"
  by (induction h arbitrary: s) (auto simp: contradicted_step split: if_splits)

lemma contradicted_replay:
  "contradicted_by (replay h) =
     map fst (filter (\<lambda>(i, c). cl_type c = OBSERVATION \<and> cl_confirms c = Some False) h)"
  by (simp add: replay_def contradicted_foldl new_subject_def)

subsection \<open>The effect state from the history alone\<close>

definition refusal :: "ev_claim \<Rightarrow> bool" where
  "refusal c \<longleftrightarrow> cl_type c \<in> {TARGET_STALE, PRECONDITION_REFUSED, CAPABILITY_UNAVAILABLE}"

definition contradicts :: "ev_claim \<Rightarrow> bool" where
  "contradicts c \<longleftrightarrow> cl_type c = OBSERVATION \<and> cl_confirms c = Some False"

text \<open>A claim that ends an uncertain effect.\<close>

definition resolves :: "ev_claim \<Rightarrow> bool" where
  "resolves c \<longleftrightarrow> refusal c \<or> cl_type c \<in> {EFFECT_COMPLETED, EFFECT_FAILED} \<or>
     cl_type c = OBSERVATION \<and> cl_confirms c \<noteq> None"

definition open_uncertain :: "(string \<times> ev_claim) list \<Rightarrow> bool" where
  "open_uncertain h \<longleftrightarrow> (\<exists>pre i c post. h = pre @ (i, c) # post \<and> cl_type c = EFFECT_UNCERTAIN \<and>
     (\<forall>(j, d) \<in> set post. \<not> resolves d))"

definition shows_completion :: "(string \<times> ev_claim) list \<Rightarrow> bool" where
  "shows_completion h \<longleftrightarrow> (\<exists>pre i c post. h = pre @ (i, c) # post \<and>
     (cl_type c = EFFECT_COMPLETED \<or>
      cl_type c = OBSERVATION \<and> cl_confirms c = Some True \<and> open_uncertain pre) \<and>
     (\<forall>(j, d) \<in> set post. \<not> refusal d \<and> cl_type d \<notin> {EFFECT_FAILED, EFFECT_UNCERTAIN}))"

lemma replay_snoc: "replay (h @ [(i, c)]) = subject_step i c (replay h)"
  by (simp add: replay_def)

lemma replay_Nil: "replay [] = new_subject"
  by (simp add: replay_def)

lemma split_snoc:
  "(\<exists>pre x post. h @ [y] = pre @ x # post \<and> P pre x \<and> (\<forall>z \<in> set post. Q z)) \<longleftrightarrow>
    P h y \<or> Q y \<and> (\<exists>pre x post. h = pre @ x # post \<and> P pre x \<and> (\<forall>z \<in> set post. Q z))"
proof
  assume "\<exists>pre x post. h @ [y] = pre @ x # post \<and> P pre x \<and> (\<forall>z \<in> set post. Q z)"
  then obtain pre x post where e: "h @ [y] = pre @ x # post" "P pre x" "\<forall>z \<in> set post. Q z" by blast
  then show "P h y \<or> Q y \<and> (\<exists>pre x post. h = pre @ x # post \<and> P pre x \<and> (\<forall>z \<in> set post. Q z))"
    by (cases post rule: rev_cases) auto
next
  assume "P h y \<or> Q y \<and> (\<exists>pre x post. h = pre @ x # post \<and> P pre x \<and> (\<forall>z \<in> set post. Q z))"
  then show "\<exists>pre x post. h @ [y] = pre @ x # post \<and> P pre x \<and> (\<forall>z \<in> set post. Q z)"
  proof (elim disjE conjE exE)
    assume "P h y"
    then show ?thesis by (intro exI [of _ h] exI [of _ y] exI [of _ "[]"]) simp
  next
    fix pre x post
    assume "Q y" "h = pre @ x # post" "P pre x" "\<forall>z \<in> set post. Q z"
    then show ?thesis by (intro exI [of _ pre] exI [of _ x] exI [of _ "post @ [y]"]) simp
  qed
qed

lemma open_uncertain_snoc:
  "open_uncertain (h @ [(i, c)]) \<longleftrightarrow> cl_type c = EFFECT_UNCERTAIN \<or> \<not> resolves c \<and> open_uncertain h"
  using split_snoc [of h "(i, c)" "\<lambda>pre x. cl_type (snd x) = EFFECT_UNCERTAIN" "\<lambda>z. \<not> resolves (snd z)"]
  by (simp add: open_uncertain_def case_prod_beta)

lemma shows_completion_snoc:
  "shows_completion (h @ [(i, c)]) \<longleftrightarrow>
     cl_type c = EFFECT_COMPLETED \<or> cl_type c = OBSERVATION \<and> cl_confirms c = Some True \<and> open_uncertain h \<or>
     \<not> refusal c \<and> cl_type c \<notin> {EFFECT_FAILED, EFFECT_UNCERTAIN} \<and> shows_completion h"
  using split_snoc [of h "(i, c)" "\<lambda>pre x. cl_type (snd x) = EFFECT_COMPLETED \<or>
      cl_type (snd x) = OBSERVATION \<and> cl_confirms (snd x) = Some True \<and> open_uncertain pre"
      "\<lambda>z. \<not> refusal (snd z) \<and> cl_type (snd z) \<notin> {EFFECT_FAILED, EFFECT_UNCERTAIN}"]
  by (simp add: shows_completion_def case_prod_beta)

lemma replay_uncertain:
  "(ss_effect (replay h) = Some UNCERTAIN \<longleftrightarrow> open_uncertain h) \<and>
   (ss_effect (replay h) = Some UNCERTAIN \<longrightarrow> \<not> reconciled (replay h))"
proof (induction h rule: rev_induct)
  case Nil
  show ?case by (simp add: replay_Nil new_subject_def open_uncertain_def)
next
  case (snoc x h)
  obtain i c where x: "x = (i, c)" by fastforce
  show ?case unfolding x replay_snoc open_uncertain_snoc
    using snoc by (cases "cl_type c"; cases "cl_confirms c")
      (auto simp: subject_step_def resolves_def refusal_def Let_def split: option.splits)
qed

lemma replay_completed: "ss_effect (replay h) = Some COMPLETED \<longleftrightarrow> shows_completion h"
proof (induction h rule: rev_induct)
  case Nil
  show ?case by (simp add: replay_Nil new_subject_def shows_completion_def)
next
  case (snoc x h)
  obtain i c where x: "x = (i, c)" by fastforce
  show ?case unfolding x replay_snoc shows_completion_snoc
    using snoc replay_uncertain [of h] by (cases "cl_type c"; cases "cl_confirms c")
      (auto simp: subject_step_def refusal_def Let_def split: option.splits)
qed

lemma contradicted_replay_iff: "contradicted_by (replay h) = [] \<longleftrightarrow> (\<forall>(i, c) \<in> set h. \<not> contradicts c)"
  by (auto simp: contradicted_replay contradicts_def filter_empty_conv)

lemma reduce_expired_hit:
  assumes "history subject ev \<noteq> []" "valid_items_for (reduce ev now inputs) subject = []"
  shows "filter (\<lambda>e. ee_item_id e \<in> set (map fst (history subject ev)))
    (map snd (expired (reduce ev now inputs))) \<noteq> []"
proof -
  obtain i c h where h: "history subject ev = (i, c) # h" using assms(1) by (metis list.exhaust surj_pair)
  then have "dict_get (expired (reduce ev now inputs)) i \<noteq> None"
    using assms(2) by (simp add: valid_items_for_def reduce_subject supporting_replay split: if_splits)
  then obtain e where e: "dict_get (expired (reduce ev now inputs)) i = Some e" by blast
  moreover have "ee_item_id e = i" using reduce_keyed e unfolding keyed_def by blast
  ultimately show ?thesis using h by (force simp: filter_empty_conv dest: map_of_SomeD)
qed

subsection \<open>Grant use\<close>

definition sole_subject :: "(string \<times> ev_claim) list \<Rightarrow> bool" where
  "sole_subject cs \<longleftrightarrow> (\<forall>(i, c) \<in> set cs. \<forall>(j, d) \<in> set cs.
     truthy (cl_grant_id c) \<and> cl_grant_id c = cl_grant_id d \<longrightarrow> cl_subject c = cl_subject d)"

definition grants_inv :: "(string \<times> ev_claim) list \<Rightarrow> ledger \<Rightarrow> bool" where
  "grants_inv cs l \<longleftrightarrow> (\<forall>a s g. dict_get (subjects l) a = Some s \<and> ss_grant_id s = Some g \<and> g \<noteq> [] \<longrightarrow>
     dict_get (ledger_grant_use l) g = Some (grant_use_of (ss_effect s)) \<and>
     (\<exists>(i, c) \<in> set cs. cl_grant_id c = Some g \<and> cl_subject c = a))"

lemma grant_step:
  "ss_grant_id (subject_step i c s) = (if truthy (cl_grant_id c) then cl_grant_id c else ss_grant_id s)"
  by (simp add: subject_step_def Let_def split: claim_type.split option.split)

lemma grants_inv_step:
  assumes "grants_inv cs l" "sole_subject (cs @ [(i, c)])"
  shows "grants_inv (cs @ [(i, c)]) (apply_claim i l c)"
proof -
  define a where "a = cl_subject c"
  define s where "s = subject_step i c (case dict_get (subjects l) a of None \<Rightarrow> new_subject | Some s \<Rightarrow> s)"
  have origin: "\<exists>(j, d) \<in> set (cs @ [(i, c)]). cl_grant_id d = Some g \<and> cl_subject d = a"
    if g: "ss_grant_id s = Some g" "g \<noteq> []" for g
  proof (cases "truthy (cl_grant_id c)")
    case True
    then show ?thesis using g by (auto simp: s_def grant_step a_def)
  next
    case False
    then have "ss_grant_id (case dict_get (subjects l) a of None \<Rightarrow> new_subject | Some s \<Rightarrow> s) = Some g"
      using g by (simp add: s_def grant_step)
    then obtain s0 where "dict_get (subjects l) a = Some s0" "ss_grant_id s0 = Some g"
      by (auto simp: new_subject_def split: option.splits)
    then show ?thesis using assms(1) g unfolding grants_inv_def by fastforce
  qed
  have other: "b = a" if "ss_grant_id s = Some g" "g \<noteq> []" "(j, d) \<in> set cs" "cl_grant_id d = Some g"
      "cl_subject d = b" for g j d b
    using origin [OF that(1,2)] that assms(2) unfolding sole_subject_def by (fastforce simp: truthy_def)
  show ?thesis unfolding grants_inv_def
  proof (intro allI impI)
    fix b t g
    assume p: "dict_get (subjects (apply_claim i l c)) b = Some t \<and> ss_grant_id t = Some g \<and> g \<noteq> []"
    show "dict_get (ledger_grant_use (apply_claim i l c)) g = Some (grant_use_of (ss_effect t)) \<and>
      (\<exists>(j, d) \<in> set (cs @ [(i, c)]). cl_grant_id d = Some g \<and> cl_subject d = b)"
    proof (cases "b = a")
      case True
      then have "t = s" using p by (simp add: apply_claim_def Let_def a_def s_def)
      then show ?thesis using origin [of g] p True by (simp add: apply_claim_def Let_def a_def s_def)
    next
      case False
      then have "dict_get (subjects l) b = Some t" using p by (simp add: apply_claim_def Let_def a_def)
      then have old: "dict_get (ledger_grant_use l) g = Some (grant_use_of (ss_effect t))"
        "\<exists>(j, d) \<in> set cs. cl_grant_id d = Some g \<and> cl_subject d = b"
        using assms(1) p unfolding grants_inv_def by blast+
      then have "ss_grant_id s \<noteq> Some g" using other [of g] p False by blast
      then have "dict_get (ledger_grant_use (apply_claim i l c)) g = dict_get (ledger_grant_use l) g"
        by (auto simp: apply_claim_def Let_def a_def s_def split: option.splits)
      then show ?thesis using old by auto
    qed
  qed
qed

lemma grants_inv_all:
  "sole_subject cs \<Longrightarrow> subjects l = [] \<Longrightarrow> grants_inv cs (apply_all l cs)"
proof (induction cs rule: rev_induct)
  case (snoc x cs)
  obtain i c where x: "x = (i, c)" by fastforce
  have "sole_subject cs" using snoc.prems(1) by (auto simp: sole_subject_def)
  then show ?case using snoc grants_inv_step [of cs "apply_all l cs" i c] x by simp
qed (simp add: grants_inv_def)

lemma unnamed_grant_kept:
  "\<forall>(i, c) \<in> set cs. cl_grant_id c \<noteq> Some g \<Longrightarrow> \<forall>a s. dict_get (subjects l) a = Some s \<longrightarrow> ss_grant_id s \<noteq> Some g \<Longrightarrow>
    dict_get (ledger_grant_use (apply_all l cs)) g = dict_get (ledger_grant_use l) g"
proof (induction cs arbitrary: l)
  case (Cons x cs)
  obtain i c where x: "x = (i, c)" by fastforce
  let ?s = "subject_step i c (case dict_get (subjects l) (cl_subject c) of None \<Rightarrow> new_subject | Some s \<Rightarrow> s)"
  have "ss_grant_id ?s \<noteq> Some g"
    using Cons.prems x by (auto simp: grant_step new_subject_def split: option.splits)
  then have "dict_get (ledger_grant_use (apply_claim i l c)) g = dict_get (ledger_grant_use l) g \<and>
      (\<forall>a s. dict_get (subjects (apply_claim i l c)) a = Some s \<longrightarrow> ss_grant_id s \<noteq> Some g)"
    using Cons.prems(2) by (auto simp: apply_claim_def Let_def split: option.splits)
  then show ?case using Cons.IH [of "apply_claim i l c"] Cons.prems(1) x by simp
qed simp

lemma start_grants:
  "dict_get (foldl (\<lambda>d g. dict_setdefault (eg_grant_id g) UNUSED d) d gs) k =
    (case dict_get d k of Some u \<Rightarrow> Some u | None \<Rightarrow> if k \<in> eg_grant_id ` set gs then Some UNUSED else None)"
  by (induction gs arbitrary: d) (auto split: option.splits)

subsection \<open>Properties\<close>

text \<open>C10: Subjects do not interfere and expiry erases nothing: after a reduction the state of a subject is
  the replay of its own claims in order, whatever else the set holds and whether or not items have
  expired, and the items valid for it are those of its supporting items of which no item of the set
  with the same id has expired.\<close>

theorem ledger_is_own_history:
  "dict_get (subjects (reduce ev now inputs)) subject =
     (if history subject ev = [] then None else Some (replay (history subject ev))) \<and>
   valid_items_for (reduce ev now inputs) subject =
     filter (\<lambda>i. \<not> (\<exists>item \<in> set (set_items ev). item_id item = i \<and> expiry_of item now inputs \<noteq> None))
       (map fst (history subject ev))"
  unfolding valid_items_reduce by (auto simp: reduce_subject intro!: filter_cong)

text \<open>C11: A rerun is avoided exactly on valid evidence of completion: the decision is to accept if and only
  if the history of the subject shows completion (a completion claim, or a confirming observation of an
  uncertain effect, not followed by a refusal, a failure or a new uncertainty), no observation of it
  ever contradicted the effect, and some supporting item has not expired. The evidence named is then
  the list of the unexpired supporting items.\<close>

theorem accept_iff_shown_complete:
  "(dec_kind (decide_rerun (reduce ev now inputs) q) = ACCEPT \<longleftrightarrow>
     shows_completion (history (rq_subject q) ev) \<and>
     \<not> (\<exists>(i, c) \<in> set (history (rq_subject q) ev). cl_type c = OBSERVATION \<and> cl_confirms c = Some False) \<and>
     valid_items_for (reduce ev now inputs) (rq_subject q) \<noteq> []) \<and>
   (dec_kind (decide_rerun (reduce ev now inputs) q) = ACCEPT \<longrightarrow>
     evidence_ids (decide_rerun (reduce ev now inputs) q) =
       valid_items_for (reduce ev now inputs) (rq_subject q))"
proof (cases "history (rq_subject q) ev = []")
  case True
  then show ?thesis by (simp add: decide_rerun_def reduce_subject Let_def shows_completion_def)
next
  case False
  let ?h = "history (rq_subject q) ev"
  have s: "dict_get (subjects (reduce ev now inputs)) (rq_subject q) = Some (replay ?h)"
    using False by (simp add: reduce_subject)
  show ?thesis
    using contradicted_replay_iff [of ?h] replay_completed [of ?h]
    by (auto simp: decide_rerun_def s Let_def contradicts_def)
qed

definition demo_claim :: "claim_type \<Rightarrow> bool option \<Rightarrow> ev_claim" where
  "demo_claim t b = \<lparr>cl_type = t, cl_subject = ''deploy'', cl_grant_id = Some ''g'', cl_freshness = None,
     cl_confirms = b, cl_detail = []\<rparr>"

definition demo_set :: "ev_claim list \<Rightarrow> evidence_set" where
  "demo_set cs = \<lparr>set_id = ''s'', set_items = [(demo_item ''a'')\<lparr>item_claims := cs\<rparr>], set_grants = [], set_run_id = None\<rparr>"

lemmas ledger_eval = demo_set_def demo_claim_def demo_item_def history_def all_claims_def reduce_def apply_item_def
  apply_claim_def subject_step_def expiry_of_def valid_items_for_def new_subject_def truthy_def
  note_freshness_def grant_use_of_def Let_def

theorem accept_iff_shown_complete_witness:
  "dec_kind (decide_rerun (reduce (demo_set [demo_claim EFFECT_UNCERTAIN None, demo_claim OBSERVATION (Some True)]) 0 [])
     \<lparr>rq_decision_id = ''d'', rq_subject = ''deploy''\<rparr>) = ACCEPT \<and>
   evidence_ids (decide_rerun (reduce (demo_set [demo_claim EFFECT_UNCERTAIN None, demo_claim OBSERVATION (Some True)]) 0 [])
     \<lparr>rq_decision_id = ''d'', rq_subject = ''deploy''\<rparr>) = [''a'', ''a'']"
proof -
  let ?ev = "demo_set [demo_claim EFFECT_UNCERTAIN None, demo_claim OBSERVATION (Some True)]"
  have "shows_completion (history ''deploy'' ?ev)"
    unfolding replay_completed [symmetric] by (simp add: ledger_eval replay_def)
  moreover have "valid_items_for (reduce ?ev 0 []) ''deploy'' = [''a'', ''a'']" by (simp add: ledger_eval)
  moreover have "\<not> (\<exists>(i, c) \<in> set (history ''deploy'' ?ev). cl_type c = OBSERVATION \<and> cl_confirms c = Some False)"
    by (simp add: ledger_eval)
  ultimately show ?thesis
    using accept_iff_shown_complete [of ?ev 0 "[]" "\<lparr>rq_decision_id = ''d'', rq_subject = ''deploy''\<rparr>"] by simp
qed

text \<open>C12: An uncertain effect is never retried or accepted blindly: while the last uncertainty about a
  subject has not been resolved by a later outcome, refusal or observation with a verdict, the
  decision is to reconcile, and it requires a fresh observation; if some observation contradicted the
  effect it is to reject.\<close>

theorem uncertain_effect_needs_observation:
  assumes "history (rq_subject q) ev = pre @ (i, c) # post" "cl_type c = EFFECT_UNCERTAIN"
    "\<forall>(j, d) \<in> set post. \<not> resolves d"
  shows "if \<exists>(j, d) \<in> set pre. contradicts d
    then dec_kind (decide_rerun (reduce ev now inputs) q) = REJECT
    else dec_kind (decide_rerun (reduce ev now inputs) q) = RECONCILE \<and>
      requires_observation (decide_rerun (reduce ev now inputs) q)"
proof -
  let ?h = "history (rq_subject q) ev"
  have u: "ss_effect (replay ?h) = Some UNCERTAIN" "\<not> reconciled (replay ?h)"
    using replay_uncertain [of ?h] assms unfolding open_uncertain_def by blast+
  have s: "dict_get (subjects (reduce ev now inputs)) (rq_subject q) = Some (replay ?h)"
    using assms(1) by (simp add: reduce_subject)
  have "contradicted_by (replay ?h) = [] \<longleftrightarrow> \<not> (\<exists>(j, d) \<in> set pre. contradicts d)"
    using assms unfolding contradicted_replay_iff by (auto simp: contradicts_def resolves_def)
  moreover have "valid_items_for (reduce ev now inputs) (rq_subject q) \<noteq> [] \<or>
      filter (\<lambda>e. ee_item_id e \<in> set (supporting_items (replay ?h))) (map snd (expired (reduce ev now inputs))) \<noteq> []"
    using reduce_expired_hit [of "rq_subject q" ev now inputs] assms(1) by (auto simp: supporting_replay)
  ultimately show ?thesis using u by (auto simp: decide_rerun_def s Let_def)
qed

theorem uncertain_effect_needs_observation_witness:
  "requires_observation (decide_rerun (reduce (demo_set [demo_claim EFFECT_COMPLETED None, demo_claim EFFECT_UNCERTAIN None]) 0 [])
     \<lparr>rq_decision_id = ''d'', rq_subject = ''deploy''\<rparr>)"
proof -
  let ?ev = "demo_set [demo_claim EFFECT_COMPLETED None, demo_claim EFFECT_UNCERTAIN None]"
  have "history ''deploy'' ?ev = [(''a'', demo_claim EFFECT_COMPLETED None)] @ (''a'', demo_claim EFFECT_UNCERTAIN None) # []"
    by (simp add: ledger_eval)
  then show ?thesis
    using uncertain_effect_needs_observation [of "\<lparr>rq_decision_id = ''d'', rq_subject = ''deploy''\<rparr>" ?ev
        "[(''a'', demo_claim EFFECT_COMPLETED None)]" "''a''" "demo_claim EFFECT_UNCERTAIN None" "[]" 0 "[]"]
    by (simp add: demo_claim_def contradicts_def)
qed

text \<open>Grant use is a projection of the effect, never asserted: when no grant is named for two subjects,
  the recorded use of the grant of every subject is that of the subject's effect state, and a declared
  grant that no claim names stays unused.\<close>

theorem grant_use_projects_effect:
  assumes "sole_subject (all_claims ev)"
  shows "(\<forall>a s g. dict_get (subjects (reduce ev now inputs)) a = Some s \<and> ss_grant_id s = Some g \<and> g \<noteq> [] \<longrightarrow>
      dict_get (ledger_grant_use (reduce ev now inputs)) g = Some (grant_use_of (ss_effect s))) \<and>
    (\<forall>g \<in> set (set_grants ev). (\<forall>(i, c) \<in> set (all_claims ev). cl_grant_id c \<noteq> Some (eg_grant_id g)) \<longrightarrow>
      dict_get (ledger_grant_use (reduce ev now inputs)) (eg_grant_id g) = Some UNUSED)"
  using grants_inv_all [OF assms, of "start_ledger ev"]
    unnamed_grant_kept [of "all_claims ev" _ "start_ledger ev"]
  by (auto simp: grants_inv_def reduce_alt start_grants)

theorem grant_use_projects_effect_witness:
  "dict_get (ledger_grant_use (reduce (demo_set [demo_claim EFFECT_UNCERTAIN None]) 0 [])) ''g'' = Some UNCERTAIN_USE"
proof -
  let ?ev = "demo_set [demo_claim EFFECT_UNCERTAIN None]"
  have "\<exists>s. dict_get (subjects (reduce ?ev 0 [])) ''deploy'' = Some s \<and> ss_grant_id s = Some ''g'' \<and>
      ss_effect s = Some UNCERTAIN" by (simp add: ledger_eval)
  moreover have "sole_subject (all_claims ?ev)" by (simp add: ledger_eval sole_subject_def)
  ultimately show ?thesis using grant_use_projects_effect [of ?ev 0 "[]"] by (force simp: grant_use_of_def)
qed

end
