(* ===== verification/Py_Data.thy ===== *)
theory Py_Data
  imports Py_Json
begin

text \<open>
  Checked access to JSON data the way the protected modules of \<open>vuoro_reconciler\<close> do it, where every
  exception is turned into one fixed refusal at the boundary: a computation is an option, \<open>None\<close> for
  any exception. Also Python's equality on JSON values, \<open>base64\<close>, and UTC timestamps.
\<close>

subsection \<open>Checks and fields\<close>

definition ensure :: "bool \<Rightarrow> unit option" where
  "ensure c = (if c then Some () else None)"

lemma ensure_Some [simp]: "ensure c = Some u \<longleftrightarrow> c"
  by (simp add: ensure_def)

lemma ensure_True [simp]: "ensure True = Some ()" "ensure False = None"
  by (simp_all add: ensure_def)

fun is_obj :: "json \<Rightarrow> bool" where
  "is_obj (JObj kvs) \<longleftrightarrow> True"
| "is_obj _ \<longleftrightarrow> False"

text \<open>\<open>value[key]\<close>: a \<open>KeyError\<close> or \<open>TypeError\<close> when there is none.\<close>

fun fld :: "json \<Rightarrow> string \<Rightarrow> json option" where
  "fld (JObj kvs) k = map_of kvs k"
| "fld _ k = None"

definition has :: "json \<Rightarrow> string \<Rightarrow> (json \<Rightarrow> bool) \<Rightarrow> bool" where
  "has v k P = (case fld v k of None \<Rightarrow> False | Some x \<Rightarrow> P x)"

fun keys :: "json \<Rightarrow> string list" where
  "keys (JObj kvs) = map fst kvs"
| "keys _ = []"

fun as_str :: "json \<Rightarrow> string option" where
  "as_str (JStr s) = Some s"
| "as_str _ = None"

fun as_int :: "json \<Rightarrow> int option" where
  "as_int (JInt i) = Some i"
| "as_int _ = None"

fun as_list :: "json \<Rightarrow> json list option" where
  "as_list (JList xs) = Some xs"
| "as_list _ = None"

definition str_fld :: "json \<Rightarrow> string \<Rightarrow> string option" where
  "str_fld v k = Option.bind (fld v k) as_str"

lemma has_iff: "has v k P \<longleftrightarrow> (\<exists>x. fld v k = Some x \<and> P x)"
  by (simp add: has_def split: option.split)

lemma str_fld_Some: "str_fld v k = Some s \<longleftrightarrow> fld v k = Some (JStr s)"
proof -
  have "as_str x = Some s \<longleftrightarrow> x = JStr s" for x by (cases x) auto
  then show ?thesis by (simp add: str_fld_def bind_eq_Some_conv)
qed

text \<open>Python's \<open>==\<close>: booleans are the numbers 0 and 1, dictionaries ignore order.\<close>

fun as_num :: "json \<Rightarrow> int option" where
  "as_num (JInt i) = Some i"
| "as_num (JBool b) = Some (if b then 1 else 0)"
| "as_num _ = None"

primrec py_eq :: "json \<Rightarrow> json \<Rightarrow> bool" where
  "py_eq JNull w \<longleftrightarrow> w = JNull"
| "py_eq (JBool b) w \<longleftrightarrow> as_num w = Some (if b then 1 else 0)"
| "py_eq (JInt i) w \<longleftrightarrow> as_num w = Some i"
| "py_eq (JStr s) w \<longleftrightarrow> w = JStr s"
| "py_eq (JList xs) w \<longleftrightarrow>
     (case w of JList ys \<Rightarrow> length xs = length ys \<and> list_all (\<lambda>(f, y). f y) (zip (map py_eq xs) ys) | _ \<Rightarrow> False)"
| "py_eq (JObj kvs) w \<longleftrightarrow>
     (case w of
        JObj ws \<Rightarrow> length kvs = length ws \<and>
          list_all (\<lambda>(k, f). case map_of ws k of None \<Rightarrow> False | Some y \<Rightarrow> f y) (map (map_prod id py_eq) kvs)
      | _ \<Rightarrow> False)"

text \<open>Structural equality up to the order of keys implies Python's.\<close>

lemma py_eq_refl: "json_wf v \<Longrightarrow> py_eq v v"
proof (induction v)
  case (JList xs)
  then show ?case by (auto simp: list_all_iff zip_map1 zip_same_conv_map)
next
  case (JObj kvs)
  have "map_of kvs k = Some v" if "(k, v) \<in> set kvs" for k v
    using that JObj.prems by (simp add: map_of_is_SomeI)
  then show ?case using JObj by (fastforce simp: list_all_iff)
qed auto

subsection \<open>Characters\<close>

definition is_hex :: "char \<Rightarrow> bool" where
  "is_hex c \<longleftrightarrow> is_digit c \<or> 97 \<le> ord_of c \<and> ord_of c \<le> 102"

definition is_alnum :: "char \<Rightarrow> bool" where
  "is_alnum c \<longleftrightarrow> is_digit c \<or> 97 \<le> ord_of c \<and> ord_of c \<le> 122 \<or> 65 \<le> ord_of c \<and> ord_of c \<le> 90"

definition hex_string :: "nat \<Rightarrow> string \<Rightarrow> bool" where
  "hex_string n s \<longleftrightarrow> length s = n \<and> list_all is_hex s"

definition py_space :: "char \<Rightarrow> bool" where
  "py_space c \<longleftrightarrow> ord_of c \<in> {9, 10, 11, 12, 13, 28, 29, 30, 31, 32, 133, 160}"

text \<open>\<open>bool(s.strip())\<close>.\<close>

definition not_blank :: "string \<Rightarrow> bool" where
  "not_blank s \<longleftrightarrow> list_ex (\<lambda>c. \<not> py_space c) s"

text \<open>\<open>str.lower\<close> on ASCII, which is all it is used on.\<close>

definition ascii_lower :: "string \<Rightarrow> string" where
  "ascii_lower s = map (\<lambda>c. if 65 \<le> ord_of c \<and> ord_of c \<le> 90 then char_of (ord_of c + 32) else c) s"

definition eat :: "string \<Rightarrow> string \<Rightarrow> string option" where
  "eat p s = (if take (length p) s = p then Some (drop (length p) s) else None)"

lemma eat_Some: "eat p s = Some r \<longleftrightarrow> s = p @ r"
  by (auto simp: eat_def) (metis append_take_drop_id)

subsection \<open>Base64\<close>

text \<open>The alphabet \<open>A-Z a-z 0-9 + /\<close>.\<close>

definition b64_char :: "nat \<Rightarrow> char" where
  "b64_char n = char_of (if n < 26 then 65 + n else if n < 52 then 71 + n else if n < 62 then n - 4
     else if n = 62 then 43 else 47)"

definition b64_value :: "char \<Rightarrow> nat option" where
  "b64_value c =
    (let n = ord_of c in
     if 65 \<le> n \<and> n \<le> 90 then Some (n - 65)
     else if 97 \<le> n \<and> n \<le> 122 then Some (n - 71)
     else if 48 \<le> n \<and> n \<le> 57 then Some (n + 4)
     else if n = 43 then Some 62 else if n = 47 then Some 63 else None)"

fun b64encode :: "bytes \<Rightarrow> string" where
  "b64encode [] = []"
| "b64encode [a] = (let n = unat a * 16 in [b64_char (n div 64), b64_char (n mod 64), CHR ''='', CHR ''=''])"
| "b64encode [a, b] =
    (let n = (unat a * 256 + unat b) * 4
     in [b64_char (n div 4096), b64_char (n div 64 mod 64), b64_char (n mod 64), CHR ''=''])"
| "b64encode (a # b # c # r) =
    (let n = (unat a * 256 + unat b) * 256 + unat c
     in b64_char (n div 262144) # b64_char (n div 4096 mod 64) # b64_char (n div 64 mod 64) #
        b64_char (n mod 64) # b64encode r)"

definition b64_bytes :: "nat \<Rightarrow> nat \<Rightarrow> bytes" where
  "b64_bytes k n = take k [word_of_nat (n div 65536), word_of_nat (n div 256), word_of_nat n]"

fun b64decode :: "string \<Rightarrow> bytes option" where
  "b64decode [] = Some []"
| "b64decode (w # x # y # z # r) =
    (if z = CHR ''='' \<and> r = [] then
       (if y = CHR ''='' then
          do { m \<leftarrow> b64_value w; n \<leftarrow> b64_value x;
               Some (b64_bytes 1 ((m * 64 + n) * 4096)) }
        else
          do { m \<leftarrow> b64_value w; n \<leftarrow> b64_value x; k \<leftarrow> b64_value y;
               Some (b64_bytes 2 (((m * 64 + n) * 64 + k) * 64)) })
     else
       do { m \<leftarrow> b64_value w; n \<leftarrow> b64_value x; k \<leftarrow> b64_value y; l \<leftarrow> b64_value z;
            bs \<leftarrow> b64decode r;
            Some (b64_bytes 3 (((m * 64 + n) * 64 + k) * 64 + l) @ bs) })"
| "b64decode _ = None"

lemma b64_value_char [simp]: "n < 64 \<Longrightarrow> b64_value (b64_char n) = Some n"
  by (auto simp: b64_value_def b64_char_def Let_def)

lemma b64_char_not_pad [simp]: "n < 64 \<Longrightarrow> b64_char n \<noteq> CHR ''=''"
proof
  assume "n < 64" "b64_char n = CHR ''=''"
  then show False using b64_value_char [of n] by (simp add: b64_value_def)
qed

lemma unat_byte [simp]: "unat (a :: 8 word) < 256"
  using unsigned_less [of a] by simp

lemma unat_byte_le: "unat (a :: 8 word) \<le> 255"
  using unat_byte [of a] by linarith

lemma byte_256 [simp]: "(256 :: 8 word) = 0" "(65536 :: 8 word) = 0"
  by code_simp+

lemma byte_of_nat [simp]: "word_of_nat (x * 256 + unat b) = (b :: 8 word)"
  by simp

lemma b64_bytes_simps:
  "b64_bytes 1 (unat a * 65536) = [a]"
  "b64_bytes 2 ((unat a * 256 + unat b) * 256) = [a, b]"
  "b64_bytes 3 ((unat a * 256 + unat b) * 256 + unat c) = [a, b, c]"
proof -
  have d: "(x * 256 + unat z) div 256 = x" for x and z :: "8 word" using unat_byte [of z] by simp
  have e: "y div 65536 = y div 256 div 256" for y :: nat by (simp add: div_mult2_eq [symmetric])
  show "b64_bytes 1 (unat a * 65536) = [a]" by (simp add: b64_bytes_def)
  have z: "(unat a * 256 + unat b) * 256 div 256 = unat a * 256 + unat b" by simp
  show "b64_bytes 2 ((unat a * 256 + unat b) * 256) = [a, b]"
    unfolding b64_bytes_def e z d by (simp add: numeral_2_eq_2)
  show "b64_bytes 3 ((unat a * 256 + unat b) * 256 + unat c) = [a, b, c]"
    unfolding b64_bytes_def e d by (simp add: numeral_3_eq_3)
qed

lemma b64_digits:
  "n div 64 * 64 + n mod 64 = (n :: nat)"
  "n div 4096 * 64 + n div 64 mod 64 = n div 64"
  "n div 262144 * 64 + n div 4096 mod 64 = n div 4096"
proof -
  have "n div 4096 = n div 64 div 64" "n div 262144 = n div 4096 div 64"
    by (simp_all add: div_mult2_eq [symmetric])
  then show "n div 64 * 64 + n mod 64 = n" "n div 4096 * 64 + n div 64 mod 64 = n div 64"
    "n div 262144 * 64 + n div 4096 mod 64 = n div 4096" by simp_all
qed

lemma b64decode_one:
  "n < 4096 \<Longrightarrow> b64decode [b64_char (n div 64), b64_char (n mod 64), CHR ''='', CHR ''=''] =
    Some (b64_bytes 1 (n * 4096))"
  by (simp add: less_mult_imp_div_less del: distrib_right_numeral)

lemma b64decode_two:
  "n < 64 * 4096 \<Longrightarrow> b64decode [b64_char (n div 4096), b64_char (n div 64 mod 64), b64_char (n mod 64), CHR ''=''] =
    Some (b64_bytes 2 (n * 64))"
  using b64_digits(1,2) [of n] by (simp add: less_mult_imp_div_less del: distrib_right_numeral)

lemma b64decode_three:
  "n < 64 * 262144 \<Longrightarrow> b64decode (b64_char (n div 262144) # b64_char (n div 4096 mod 64) #
      b64_char (n div 64 mod 64) # b64_char (n mod 64) # r) =
    map_option ((@) (b64_bytes 3 n)) (b64decode r)"
  using b64_digits [of n]
  by (cases "b64decode r") (simp_all add: less_mult_imp_div_less del: distrib_right_numeral)

lemma b64_roundtrip [simp]: "b64decode (b64encode bs) = Some bs"
proof (induction bs rule: b64encode.induct)
  case (2 a)
  have "unat a * 16 < 4096" using unat_byte [of a] by simp
  then show ?case using b64decode_one [of "unat a * 16"] b64_bytes_simps(1) [of a]
    by (simp only: b64encode.simps Let_def mult.assoc) simp
next
  case (3 a b)
  have "(unat a * 256 + unat b) * 4 < 64 * 4096" using unat_byte_le [of a] unat_byte_le [of b] by simp
  from b64decode_two [OF this] show ?case using b64_bytes_simps(2) [of a b]
    by (simp only: b64encode.simps Let_def mult.assoc) simp
next
  case (4 a b c r)
  have "(unat a * 256 + unat b) * 256 + unat c < 64 * 262144"
    using unat_byte_le [of a] unat_byte_le [of b] unat_byte_le [of c] by simp
  from b64decode_three [OF this] 4 show ?case
    by (simp only: b64encode.simps Let_def b64_bytes_simps(3)) simp
qed simp

lemma b64encode_inj [simp]: "b64encode a = b64encode b \<longleftrightarrow> a = b"
  by (metis b64_roundtrip option.inject)

subsection \<open>JSON as Python reads it\<close>

text \<open>\<open>json.loads\<close> as it stands: a repeated key keeps its last value. Floats and UTF-16 are not modelled.\<close>

definition hook_dict :: pairs_hook where
  "hook_dict kvs = Some (JObj (foldl (\<lambda>d (k, v). dict_set k v d) [] kvs))"

definition py_loads :: "bytes \<Rightarrow> json option" where
  "py_loads raw = Option.bind (utf8_decode raw) (json_loads hook_dict)"

lemma hook_dict_distinct: "distinct (map fst kvs) \<Longrightarrow> hook_dict kvs = Some (JObj kvs)"
proof -
  have "dict_ok (d @ kvs) \<Longrightarrow> foldl (\<lambda>d (k, v). dict_set k v d) d kvs = d @ kvs" for d :: "(string, json) dict"
  proof (induction kvs arbitrary: d)
    case (Cons kv kvs)
    then have "dict_set (fst kv) (snd kv) d = d @ [kv]" by (induction d) auto
    then show ?case using Cons.IH [of "d @ [kv]"] Cons.prems by (cases kv) simp
  qed simp
  from this [of "[]"] show "distinct (map fst kvs) \<Longrightarrow> hook_dict kvs = Some (JObj kvs)" by (simp add: hook_dict_def)
qed

text \<open>\<open>bool(value)\<close>.\<close>

fun py_truthy :: "json \<Rightarrow> bool" where
  "py_truthy JNull \<longleftrightarrow> False"
| "py_truthy (JBool b) \<longleftrightarrow> b"
| "py_truthy (JInt i) \<longleftrightarrow> i \<noteq> 0"
| "py_truthy (JStr s) \<longleftrightarrow> s \<noteq> []"
| "py_truthy (JList xs) \<longleftrightarrow> xs \<noteq> []"
| "py_truthy (JObj kvs) \<longleftrightarrow> kvs \<noteq> []"

end
