(* ===== verification/Protected_Codec.thy ===== *)
theory Protected_Codec
  imports Py_Data
begin

text \<open>
  The wire and data checks for protected immutable copies: \<open>vuoro_reconciler/protected_effects.py\<close> and
  \<open>protected_copy_codec.py\<close>. The boundary turns every exception into one refusal, so a check is a
  Boolean and a decoder an option.
\<close>

subsection \<open>Validated data\<close>

record accepted_metadata =
  am_acceptance_id :: string
  am_preparation_id :: string
  am_canonical_hash :: string
  am_receipt_id :: string
  am_accepted_at :: string

record accepted_page =
  ap_namespace_utf8 :: bytes
  ap_items :: "accepted_metadata list"
  ap_next_cursor :: "string option"

record envelope_data =
  env_kind :: string
  env_document_digest :: string
  env_document_utf8 :: bytes

record acceptance_data =
  ad_acceptance_id :: string
  ad_preparation_id :: string
  ad_accepted_at :: string
  ad_signature_sha256 :: string
  ad_challenge_sha256 :: string
  ad_requester_utf8 :: bytes
  ad_operator_utf8 :: bytes
  ad_challenge_utf8 :: bytes

record receipt_data =
  rd_receipt_id :: string
  rd_acceptance_id :: string
  rd_preparation_id :: string
  rd_canonical_hash :: string
  rd_signature_sha256 :: string
  rd_challenge_sha256 :: string
  rd_accepted_at :: string
  rd_receipt_utf8 :: bytes

record effect_data =
  namespace_utf8 :: bytes
  locator_utf8 :: bytes
  canonical_utf8 :: bytes
  canonical_hash :: string
  legacy_content_digest :: string
  ef_repository :: string
  source_run :: string
  parameters_utf8 :: bytes
  envelopes :: "envelope_data list"
  run_document_utf8 :: bytes
  work_document_utf8 :: bytes
  release_document_utf8 :: bytes
  acceptance_revision :: int
  ef_acceptance :: acceptance_data
  ef_receipt :: receipt_data

definition copy_max :: nat where "copy_max = 8 * 1024 * 1024"
definition list_max :: nat where "list_max = 128 * 1024"
definition document_max :: nat where "document_max = 2 * 1024 * 1024"
definition safe_int :: int where "safe_int = 2 ^ 53 - 1"

definition kinds :: "(string, string) dict" where
  "kinds = [(''protected-run-binding'', ''run''), (''protected-work-binding'', ''work''),
     (''protected-release-binding'', ''release''), (''protected-artifact-verification'', ''evidence'')]"

definition parameter_fields :: "string list" where
  "parameter_fields = [''item_id'', ''repository'', ''base_commit'', ''title'', ''rationale'', ''unified_diff'']"

subsection \<open>Elementary checks\<close>

definition closed_obj :: "json \<Rightarrow> string list \<Rightarrow> bool" where
  "closed_obj v fs \<longleftrightarrow> is_obj v \<and> set (keys v) = set fs"

definition text_upto :: "nat \<Rightarrow> bool \<Rightarrow> json \<Rightarrow> bool" where
  "text_upto limit blank v = (case v of JStr s \<Rightarrow> (blank \<or> s \<noteq> []) \<and> length s \<le> limit | _ \<Rightarrow> False)"

abbreviation text_ok :: "json \<Rightarrow> bool" where
  "text_ok \<equiv> text_upto 200 False"

definition integer_ok :: "bool \<Rightarrow> json \<Rightarrow> bool" where
  "integer_ok zero v = (case v of JInt i \<Rightarrow> (if zero then 0 else 1) \<le> i \<and> i \<le> safe_int | _ \<Rightarrow> False)"

definition digest_str :: "bool \<Rightarrow> string \<Rightarrow> bool" where
  "digest_str prefixed s =
    (if prefixed then (case eat ''sha256:'' s of None \<Rightarrow> False | Some h \<Rightarrow> hex_string 64 h) else hex_string 64 s)"

definition digest_ok :: "bool \<Rightarrow> json \<Rightarrow> bool" where
  "digest_ok prefixed v = (case v of JStr s \<Rightarrow> digest_str prefixed s | _ \<Rightarrow> False)"

definition hash_of :: "bool \<Rightarrow> bytes \<Rightarrow> string" where
  "hash_of prefixed raw = (if prefixed then ''sha256:'' else '''') @ hexdigest raw"

definition canonical :: "json \<Rightarrow> bytes" where
  "canonical v = utf8_encode (json_dumps False v)"

text \<open>
  \<open>_tree\<close>: at most 32 levels and integers within \<open>SAFE\<close>. The bound on the code points of a key and the
  encodability of a string hold for every \<open>string\<close>.
\<close>

primrec tree_ok :: "json \<Rightarrow> nat \<Rightarrow> bool" where
  "tree_ok JNull d \<longleftrightarrow> d \<le> 32"
| "tree_ok (JBool b) d \<longleftrightarrow> d \<le> 32"
| "tree_ok (JInt i) d \<longleftrightarrow> d \<le> 32 \<and> \<bar>i\<bar> \<le> safe_int"
| "tree_ok (JStr s) d \<longleftrightarrow> d \<le> 32"
| "tree_ok (JList xs) d \<longleftrightarrow> d \<le> 32 \<and> list_all (\<lambda>f. f (Suc d)) (map tree_ok xs)"
| "tree_ok (JObj kvs) d \<longleftrightarrow> d \<le> 32 \<and> list_all (\<lambda>(k, f). f (Suc d)) (map (map_prod id tree_ok) kvs)"

definition read_json :: "bytes \<Rightarrow> nat \<Rightarrow> json option" where
  "read_json raw maximum = do {
     ensure (0 < length raw \<and> length raw \<le> maximum);
     s \<leftarrow> utf8_decode raw;
     v \<leftarrow> json_loads hook_unique s;
     ensure (tree_ok v 0 \<and> is_obj v);
     Some v }"

definition read_upto :: "nat \<Rightarrow> bytes \<Rightarrow> json option" where
  "read_upto maximum raw = do {
     v \<leftarrow> read_json raw maximum;
     ensure (canonical v = raw);
     Some v }"

abbreviation read_doc :: "bytes \<Rightarrow> json option" where
  "read_doc \<equiv> read_upto document_max"

definition b64_field :: "nat \<Rightarrow> json \<Rightarrow> bytes option" where
  "b64_field maximum v = do {
     ensure (text_upto (4 * ((maximum + 2) div 3)) False v);
     s \<leftarrow> as_str v;
     raw \<leftarrow> b64decode s;
     ensure (length raw \<le> maximum \<and> b64encode raw = s);
     Some raw }"

definition namespace_ok :: "json \<Rightarrow> bool" where
  "namespace_ok v \<longleftrightarrow> closed_obj v [''authority_id'', ''workspace_id'', ''repo_id''] \<and>
     list_all (\<lambda>k. has v k text_ok) (keys v)"

definition namespace_bytes :: "bytes \<Rightarrow> json option" where
  "namespace_bytes raw = do { v \<leftarrow> read_doc raw; ensure (namespace_ok v); Some v }"

definition locator_ok :: "json \<Rightarrow> bool" where
  "locator_ok v \<longleftrightarrow> closed_obj v [''schema'', ''namespace'', ''intent_id'', ''intent_revision''] \<and>
     has v ''schema'' (\<lambda>x. x = JStr ''protected-effect-locator/v1'') \<and> has v ''namespace'' namespace_ok \<and>
     has v ''intent_id'' text_ok \<and> has v ''intent_revision'' (integer_ok False)"

definition parameters_ok :: "json \<Rightarrow> bool" where
  "parameters_ok v \<longleftrightarrow> closed_obj v parameter_fields \<and>
     has v ''item_id'' (integer_ok False) \<and> has v ''repository'' text_ok \<and>
     has v ''base_commit'' (\<lambda>x. case x of JStr s \<Rightarrow> hex_string 40 s \<or> hex_string 64 s | _ \<Rightarrow> False) \<and>
     has v ''title'' (text_upto 200 True) \<and> has v ''rationale'' (text_upto 8000 True) \<and>
     has v ''unified_diff'' (text_upto 1000000 True)"

text \<open>The dictionary display \<open>{**d, **e}\<close>.\<close>

definition merge :: "(string \<times> json) list \<Rightarrow> (string \<times> json) list \<Rightarrow> (string \<times> json) list" where
  "merge d e = foldl (\<lambda>d (k, v). dict_set k v d) d e"

definition legacy :: "json \<Rightarrow> string option" where
  "legacy parameters =
    (case parameters of
       JObj kvs \<Rightarrow> Some (hash_of False (canonical
         (JObj (merge [(''schema'', JStr ''sprintctl-effect-intent/v1'')] kvs))))
     | _ \<Rightarrow> None)"

definition origin_ok :: "json \<Rightarrow> bool" where
  "origin_ok v \<longleftrightarrow> closed_obj v [''run_id'', ''principal_id'', ''client_id'', ''grant_id''] \<and>
     has v ''run_id'' text_ok \<and> has v ''principal_id'' text_ok \<and>
     has v ''client_id'' (\<lambda>x. x = JNull \<or> text_ok x) \<and> has v ''grant_id'' (\<lambda>x. x = JNull \<or> text_ok x)"

definition claimed_ok :: "json \<Rightarrow> json \<Rightarrow> bool" where
  "claimed_ok v origin \<longleftrightarrow> closed_obj v [''principal_id'', ''provenance''] \<and>
     has origin ''principal_id'' (\<lambda>p. py_eq v
       (JObj [(''principal_id'', p), (''provenance'', JStr ''source-asserted'')]))"

definition check_map_ok :: "json \<Rightarrow> bool" where
  "check_map_ok v \<longleftrightarrow>
     (case v of
        JObj kvs \<Rightarrow> 1 \<le> length kvs \<and> length kvs \<le> 64 \<and>
          list_all (\<lambda>(name, revision). text_ok (JStr name) \<and> not_blank name \<and> digest_ok True revision) kvs
      | _ \<Rightarrow> False)"

definition getd :: "json \<Rightarrow> string \<Rightarrow> json \<Rightarrow> json" where
  "getd v k d = (case fld v k of None \<Rightarrow> d | Some x \<Rightarrow> x)"

definition is_bool :: "json \<Rightarrow> bool" where
  "is_bool v \<longleftrightarrow> v = JBool True \<or> v = JBool False"

definition label_ok :: "json \<Rightarrow> bool" where
  "label_ok v \<longleftrightarrow> text_ok v \<and> (case v of JStr s \<Rightarrow> not_blank s | _ \<Rightarrow> False)"

definition contract_ok :: "json \<Rightarrow> bool" where
  "contract_ok v \<longleftrightarrow> is_obj v \<and>
     set (keys v) \<subseteq> {''review_required'', ''verification_profile'', ''evidence_obligations'',
       ''effect_verification_required'', ''effect_check_revisions''} \<and>
     is_bool (getd v ''review_required'' (JBool False)) \<and>
     is_bool (getd v ''effect_verification_required'' (JBool False)) \<and>
     getd v ''verification_profile'' (JStr ''checked'') \<in> {JStr ''self-reported'', JStr ''checked''} \<and>
     (case getd v ''evidence_obligations'' (JList []) of
        JList labels \<Rightarrow> length labels \<le> 64 \<and> list_all label_ok labels \<and>
          (fld v ''verification_profile'' = Some (JStr ''self-reported'') \<longrightarrow> labels = [])
      | _ \<Rightarrow> False) \<and>
     (case fld v ''effect_check_revisions'' of None \<Rightarrow> True | Some m \<Rightarrow> check_map_ok m)"

subsection \<open>Revisions\<close>

definition uuid_char :: "char \<Rightarrow> bool" where
  "uuid_char c \<longleftrightarrow> is_hex c \<or> 65 \<le> ord_of c \<and> ord_of c \<le> 70 \<or> c = CHR ''-''"

text \<open>
  The pattern \<open>item:[0-9a-fA-F-]{36}@description:v[0-9]+@sha256:[0-9a-f]{64}\<close> at the start of a string: the
  identifier it names and what follows.
\<close>

definition match_edit :: "string \<Rightarrow> (string \<times> string) option" where
  "match_edit s = do {
     r1 \<leftarrow> eat ''item:'' s;
     ensure (length (take 36 r1) = 36 \<and> list_all uuid_char (take 36 r1));
     r2 \<leftarrow> eat ''@description:v'' (drop 36 r1);
     ensure (takeWhile is_digit r2 \<noteq> []);
     r3 \<leftarrow> eat ''@sha256:'' (dropWhile is_digit r2);
     ensure (hex_string 64 (take 64 r3));
     Some (take 36 r1, drop 64 r3) }"

definition edit_uuid :: "string \<Rightarrow> string option" where
  "edit_uuid s = (case match_edit s of Some (u, []) \<Rightarrow> Some (ascii_lower u) | _ \<Rightarrow> None)"

definition full_revision :: "json \<Rightarrow> string \<Rightarrow> string option" where
  "full_revision v aggregate_uuid = do {
     s \<leftarrow> as_str v;
     (u, rest) \<leftarrow> match_edit s;
     revise \<leftarrow> eat ''@revise:'' rest;
     ensure (revise \<noteq> [] \<and> list_all is_digit revise \<and> int (nat_of_digits 0 revise) \<le> safe_int \<and>
       ascii_lower u = aggregate_uuid);
     Some (take (length s - length rest) s) }"

definition ref_key :: "json \<Rightarrow> (string \<times> string \<times> string) option" where
  "ref_key ref = do {
     ensure (closed_obj ref [''ref_type'', ''url'', ''label'']);
     t \<leftarrow> str_fld ref ''ref_type''; u \<leftarrow> str_fld ref ''url''; l \<leftarrow> str_fld ref ''label'';
     Some (t, u, l) }"

definition release_fields :: "json \<Rightarrow> json \<Rightarrow> json \<Rightarrow> json \<Rightarrow> json \<Rightarrow> json \<Rightarrow> bool" where
  "release_fields work_id revision dgst contract refs aggregate \<longleftrightarrow>
     integer_ok False work_id \<and> digest_ok False dgst \<and> contract_ok contract \<and>
     (case (aggregate, as_list refs) of
        (JStr uuid, Some rs) \<Rightarrow>
          length uuid = 36 \<and> list_all (\<lambda>c. is_hex c \<or> c = CHR ''-'') uuid \<and>
          full_revision revision uuid \<noteq> None \<and> length rs \<le> 128 \<and>
          (case those (map ref_key rs) of None \<Rightarrow> False | Some ks \<Rightarrow> sorted ks) \<and>
          dgst = JStr (hash_of False (canonical (JObj
            [(''aggregate_uuid'', JStr (ascii_lower uuid)), (''item_revision'', revision),
             (''acceptance_contract'', contract), (''context_refs'', refs)])))
      | _ \<Rightarrow> False)"

subsection \<open>The documents of the envelopes\<close>

definition eq_fld :: "json \<Rightarrow> string \<Rightarrow> json \<Rightarrow> bool" where
  "eq_fld v k x = has v k (\<lambda>y. py_eq y x)"

definition run_document_ok :: "json \<Rightarrow> bool" where
  "run_document_ok v \<longleftrightarrow>
     closed_obj v [''schema'', ''namespace'', ''native_run'', ''claimed_proposer'', ''retrieval_profile_id'',
       ''retrieval_profile_revision''] \<and>
     has v ''native_run'' (\<lambda>og. origin_ok og \<and> has v ''claimed_proposer'' (\<lambda>c. claimed_ok c og)) \<and>
     has v ''retrieval_profile_id'' text_ok \<and> has v ''retrieval_profile_revision'' (digest_ok True)"

definition work_document_ok :: "json \<Rightarrow> bool" where
  "work_document_ok v \<longleftrightarrow>
     closed_obj v [''schema'', ''namespace'', ''proposal_source_run'', ''work_item_id'', ''edit_revision'',
       ''status_revision''] \<and>
     has v ''proposal_source_run'' text_ok \<and> has v ''work_item_id'' (integer_ok False) \<and>
     has v ''edit_revision'' (\<lambda>x. case x of JStr s \<Rightarrow> edit_uuid s \<noteq> None | _ \<Rightarrow> False) \<and>
     has v ''status_revision'' text_ok"

definition release_document_ok :: "json \<Rightarrow> bool" where
  "release_document_ok v \<longleftrightarrow>
     closed_obj v [''schema'', ''namespace'', ''proposal_source_run'', ''work_item_id'', ''item_revision'',
       ''release_digest'', ''effect_verification_required'', ''acceptance_contract_digest'', ''aggregate_uuid'',
       ''native_acceptance_contract'', ''native_context_refs'', ''expected_effect_check_revisions''] \<and>
     has v ''proposal_source_run'' text_ok \<and>
     has v ''native_acceptance_contract'' (\<lambda>contract.
       has v ''work_item_id'' (\<lambda>w. has v ''item_revision'' (\<lambda>r. has v ''release_digest'' (\<lambda>d.
         has v ''native_context_refs'' (\<lambda>refs. has v ''aggregate_uuid'' (\<lambda>a.
           release_fields w r d contract refs a))))) \<and>
       has v ''effect_verification_required'' (\<lambda>x. is_bool x \<and>
         py_eq x (getd contract ''effect_verification_required'' (JBool False))) \<and>
       eq_fld v ''expected_effect_check_revisions'' (getd contract ''effect_check_revisions'' JNull) \<and>
       eq_fld v ''acceptance_contract_digest'' (JStr (hash_of True (canonical contract))))"

definition projection_ok :: "json \<Rightarrow> json \<Rightarrow> json \<Rightarrow> json \<Rightarrow> bool" where
  "projection_ok v origin ns p \<longleftrightarrow>
     closed_obj p [''run_id'', ''item_id'', ''evidence_digest'', ''entry_digest'', ''verifier_principal'',
       ''workspace_id'', ''client_id'', ''grant_id'', ''receipt''] \<and>
     (case do {
        run_id \<leftarrow> fld origin ''run_id''; item_id \<leftarrow> fld v ''evidence_item_id'';
        ev \<leftarrow> fld v ''evidence_digest''; en \<leftarrow> fld v ''entry_digest'';
        principal \<leftarrow> fld origin ''principal_id''; ws \<leftarrow> fld ns ''workspace_id'';
        client \<leftarrow> fld origin ''client_id''; grant \<leftarrow> fld origin ''grant_id'';
        receipt \<leftarrow> fld p ''receipt'';
        Some (JObj [(''run_id'', run_id), (''item_id'', item_id), (''evidence_digest'', ev),
          (''entry_digest'', en), (''verifier_principal'', principal), (''workspace_id'', ws),
          (''client_id'', client), (''grant_id'', grant), (''receipt'', receipt)]) } of
        None \<Rightarrow> False
      | Some expected \<Rightarrow> py_eq p expected)"

definition evidence_entry :: "json \<Rightarrow> json option" where
  "evidence_entry v = do {
     item_id \<leftarrow> fld v ''evidence_item_id''; dgst \<leftarrow> fld v ''evidence_digest'';
     seq \<leftarrow> fld v ''chain_seq''; prev \<leftarrow> fld v ''chain_prev_digest'';
     Some (JObj [(''item_id'', item_id), (''digest'', dgst), (''chain_seq'', seq), (''chain_prev_digest'', prev)]) }"

definition evidence_document_ok :: "json \<Rightarrow> json \<Rightarrow> bool" where
  "evidence_document_ok v ns \<longleftrightarrow>
     closed_obj v [''schema'', ''namespace'', ''proposal_source_run'', ''work_item_id'', ''native_origin_run'',
       ''claimed_origin'', ''evidence_item_id'', ''evidence_kind'', ''evidence_digest'', ''entry_digest'',
       ''chain_seq'', ''chain_prev_digest'', ''artifact_domain'', ''artifact_digest'', ''intent_content_digest'',
       ''release_digest'', ''retrieval_profile_id'', ''retrieval_profile_revision'',
       ''owner_verification_projection'', ''native_claim''] \<and>
     has v ''proposal_source_run'' text_ok \<and> has v ''work_item_id'' (integer_ok False) \<and>
     has v ''native_origin_run'' (\<lambda>og. origin_ok og \<and> has v ''claimed_origin'' (\<lambda>c. claimed_ok c og)) \<and>
     list_all (\<lambda>k. has v k text_ok) [''evidence_item_id'', ''retrieval_profile_id''] \<and>
     list_all (\<lambda>k. has v k (digest_ok True))
       [''evidence_digest'', ''entry_digest'', ''artifact_digest'', ''retrieval_profile_revision''] \<and>
     list_all (\<lambda>k. has v k (digest_ok False)) [''intent_content_digest'', ''release_digest''] \<and>
     fld v ''evidence_kind'' = Some (JStr ''protected-artifact-verification'') \<and>
     fld v ''artifact_domain'' = Some (JStr ''utf8-unified-diff/v1'') \<and>
     has v ''chain_seq'' (integer_ok True) \<and>
     (fld v ''chain_seq'' = Some (JInt 0) \<longleftrightarrow> fld v ''chain_prev_digest'' = Some JNull) \<and>
     has v ''chain_prev_digest'' (\<lambda>d. d = JNull \<or> digest_ok True d) \<and>
     has v ''native_origin_run'' (\<lambda>og. has v ''owner_verification_projection'' (\<lambda>p.
       projection_ok v og ns p \<and>
       has p ''receipt'' (\<lambda>r. fld v ''evidence_digest'' = Some (JStr (hash_of True (canonical r)))))) \<and>
     (case evidence_entry v of
        None \<Rightarrow> False
      | Some entry \<Rightarrow>
          fld v ''entry_digest'' = Some (JStr (hash_of True (utf8_encode (json_dumps True entry)))) \<and>
          fld v ''entry_digest'' = Some (JStr (hash_of True (canonical entry))))"

definition document_ok :: "json \<Rightarrow> string \<Rightarrow> json \<Rightarrow> bool" where
  "document_ok v kind ns \<longleftrightarrow>
     fld v ''schema'' = Some (JStr (''protected-effect-'' @ kind @ ''-binding/v1'')) \<and>
     eq_fld v ''namespace'' ns \<and> has v ''namespace'' namespace_ok \<and>
     (if kind = ''run'' then run_document_ok v
      else if kind = ''work'' then work_document_ok v
      else if kind = ''release'' then release_document_ok v
      else evidence_document_ok v ns)"

subsection \<open>Joining evidence to the intent\<close>

definition check_entry :: "json \<Rightarrow> (string \<times> json) option" where
  "check_entry c = do {
     ensure (closed_obj c [''name'', ''revision'', ''status''] \<and> has c ''name'' label_ok \<and>
       fld c ''status'' = Some (JStr ''passed'') \<and> has c ''revision'' (digest_ok True));
     name \<leftarrow> str_fld c ''name''; revision \<leftarrow> fld c ''revision'';
     Some (name, revision) }"

definition checks_ok :: "json \<Rightarrow> json \<Rightarrow> bool" where
  "checks_ok checks required \<longleftrightarrow>
     (case as_list checks of
        None \<Rightarrow> False
      | Some cs \<Rightarrow> 1 \<le> length cs \<and> length cs \<le> 64 \<and>
          (case those (map check_entry cs) of
             None \<Rightarrow> False
           | Some revisions \<Rightarrow> distinct (map fst revisions) \<and>
               (case required of
                  JNull \<Rightarrow> True
                | JObj kvs \<Rightarrow> list_all (\<lambda>(k, v). case map_of revisions k of None \<Rightarrow> False | Some r \<Rightarrow> py_eq r v) kvs
                | _ \<Rightarrow> False)))"

definition evidence_join :: "json \<Rightarrow> json \<Rightarrow> json \<Rightarrow> json \<Rightarrow> bool" where
  "evidence_join evidence locator co release \<longleftrightarrow>
     (case do {
        claim \<leftarrow> fld evidence ''native_claim'';
        intent \<leftarrow> fld locator ''intent_id''; rev \<leftarrow> fld locator ''intent_revision'';
        proj \<leftarrow> fld evidence ''owner_verification_projection''; receipt \<leftarrow> fld proj ''receipt'';
        params \<leftarrow> fld co ''parameters''; leg \<leftarrow> legacy params; diff \<leftarrow> str_fld params ''unified_diff'';
        rel \<leftarrow> fld release ''release_digest''; checks \<leftarrow> fld receipt ''checks'';
        required \<leftarrow> fld release ''expected_effect_check_revisions'';
        Some (closed_obj claim [''claim_type'', ''subject'', ''grant_id'', ''confirms''] \<and>
          py_eq claim (JObj [(''claim_type'', JStr ''observation''), (''subject'', intent),
            (''grant_id'', JNull), (''confirms'', JNull)]) \<and>
          closed_obj receipt [''schema'', ''intent_id'', ''intent_revision'', ''canonical_intent_digest'',
            ''release_digest'', ''artifact'', ''checks''] \<and>
          has receipt ''intent_revision'' (integer_ok False) \<and>
          fld receipt ''schema'' = Some (JStr ''sprintctl-protected-artifact-verification/v1'') \<and>
          eq_fld receipt ''intent_id'' intent \<and> eq_fld receipt ''intent_revision'' rev \<and>
          fld receipt ''canonical_intent_digest'' = Some (JStr leg) \<and>
          fld evidence ''intent_content_digest'' = Some (JStr leg) \<and>
          eq_fld receipt ''release_digest'' rel \<and> eq_fld evidence ''release_digest'' rel \<and>
          eq_fld receipt ''artifact'' (JObj [(''domain'', JStr ''utf8-unified-diff/v1''),
            (''digest'', JStr (hash_of True (utf8_encode diff)))]) \<and>
          fld evidence ''artifact_digest'' = Some (JStr (hash_of True (utf8_encode diff))) \<and>
          checks_ok checks required) } of
        None \<Rightarrow> False
      | Some ok \<Rightarrow> ok)"

subsection \<open>The snapshot\<close>

definition ref_ok :: "json \<Rightarrow> bool" where
  "ref_ok ref \<longleftrightarrow> closed_obj ref [''kind'', ''uri'', ''digest''] \<and>
     has ref ''kind'' (\<lambda>k. case k of JStr s \<Rightarrow> map_of kinds s \<noteq> None | _ \<Rightarrow> False) \<and>
     has ref ''uri'' (text_upto 2048 False) \<and> has ref ''digest'' (digest_ok True)"

record snap_entry =
  se_envelope :: envelope_data
  se_kind :: string
  se_document :: json
  se_match :: bytes
  se_wrapper :: json

definition decode_envelope :: "json list \<Rightarrow> json \<Rightarrow> json \<Rightarrow> snap_entry option" where
  "decode_envelope refs ns e = do {
     ensure (closed_obj e [''kind'', ''document_digest'', ''canonical_utf8_b64'']);
     ek \<leftarrow> str_fld e ''kind'';
     kind \<leftarrow> map_of kinds ek;
     text \<leftarrow> fld e ''canonical_utf8_b64'';
     raw \<leftarrow> b64_field document_max text;
     document \<leftarrow> read_doc raw;
     dgst \<leftarrow> str_fld e ''document_digest'';
     ensure (dgst = hash_of True raw \<and> document_ok document kind ns);
     utf8 \<leftarrow> utf8_decode raw;
     (case filter (\<lambda>r. fld r ''kind'' = Some (JStr ek) \<and> fld r ''digest'' = Some (JStr dgst)) refs of
        [r] \<Rightarrow> Some \<lparr>se_envelope = \<lparr>env_kind = ek, env_document_digest = dgst, env_document_utf8 = raw\<rparr>,
                  se_kind = kind, se_document = document, se_match = canonical r,
                  se_wrapper = JObj [(''schema'', JStr ''protected-effect-envelope/v1''), (''kind'', JStr kind),
                    (''document'', document), (''canonical_utf8'', JStr utf8), (''document_digest'', JStr dgst)]\<rparr>
      | _ \<Rightarrow> None) }"

definition documents_of :: "string \<Rightarrow> snap_entry list \<Rightarrow> json list" where
  "documents_of kind es = map se_document (filter (\<lambda>e. se_kind e = kind) es)"

definition the_document :: "string \<Rightarrow> snap_entry list \<Rightarrow> json option" where
  "the_document kind es = (case documents_of kind es of [d] \<Rightarrow> Some d | _ \<Rightarrow> None)"

definition same_item :: "json \<Rightarrow> json \<Rightarrow> json \<Rightarrow> bool" where
  "same_item doc run_id item \<longleftrightarrow> eq_fld doc ''proposal_source_run'' run_id \<and> eq_fld doc ''work_item_id'' item"

definition evidence_place :: "json \<Rightarrow> (string \<times> string \<times> int) option" where
  "evidence_place ev = do {
     og \<leftarrow> fld ev ''native_origin_run''; r \<leftarrow> str_fld og ''run_id''; i \<leftarrow> str_fld ev ''evidence_item_id'';
     s \<leftarrow> fld ev ''chain_seq''; n \<leftarrow> as_int s; Some (r, i, n) }"

definition snapshot_joins :: "json \<Rightarrow> json \<Rightarrow> json \<Rightarrow> json \<Rightarrow> json \<Rightarrow> json list \<Rightarrow> bool option" where
  "snapshot_joins locator co run_doc work release evidences = do {
     params \<leftarrow> fld co ''parameters''; src \<leftarrow> fld co ''source_run''; item \<leftarrow> fld params ''item_id'';
     native \<leftarrow> fld run_doc ''native_run''; run_id \<leftarrow> fld native ''run_id'';
     rev \<leftarrow> fld release ''item_revision''; agg \<leftarrow> str_fld release ''aggregate_uuid'';
     edit \<leftarrow> str_fld work ''edit_revision''; uuid \<leftarrow> edit_uuid edit; redit \<leftarrow> full_revision rev agg;
     evr \<leftarrow> fld release ''effect_verification_required''; contract \<leftarrow> fld release ''native_acceptance_contract'';
     places \<leftarrow> those (map evidence_place evidences);
     Some (py_eq src run_id \<and>
       list_all (\<lambda>d. same_item d src item) (work # release # evidences) \<and>
       redit = edit \<and> uuid = agg \<and>
       (evr = JBool True \<or> fld contract ''effect_check_revisions'' \<noteq> None \<longrightarrow> evidences \<noteq> []) \<and>
       list_all (\<lambda>e. evidence_join e locator co release) evidences \<and>
       distinct (map (\<lambda>(r, i, n). (r, i)) places) \<and> distinct (map (\<lambda>(r, i, n). (r, n)) places)) }"

definition snapshot :: "json \<Rightarrow> json \<Rightarrow> json \<Rightarrow> string \<Rightarrow> (envelope_data list \<times> json \<times> json \<times> json) option" where
  "snapshot locator co raw_envelopes repository = do {
     ensure (closed_obj co [''schema'', ''intent_type'', ''parameters'', ''source_run'', ''evidence_refs''] \<and>
       fld co ''schema'' = Some (JStr ''credctl-intent-acceptance/v1'') \<and>
       fld co ''intent_type'' = Some (JStr ''sprintctl.effect.diff/v1'') \<and>
       has co ''parameters'' parameters_ok \<and> has co ''source_run'' text_ok \<and> text_ok (JStr repository) \<and>
       has co ''parameters'' (\<lambda>p. fld p ''repository'' = Some (JStr repository)));
     refs0 \<leftarrow> fld co ''evidence_refs''; refs \<leftarrow> as_list refs0;
     ensure (3 \<le> length refs \<and> length refs \<le> 32 \<and> list_all ref_ok refs \<and>
       sorted_wrt (<) (map canonical refs));
     raws \<leftarrow> as_list raw_envelopes;
     ensure (length raws = length refs);
     ns \<leftarrow> fld locator ''namespace'';
     es \<leftarrow> those (map (decode_envelope refs ns) raws);
     run_doc \<leftarrow> the_document ''run'' es;
     work \<leftarrow> the_document ''work'' es;
     release \<leftarrow> the_document ''release'' es;
     ensure (map se_match es = map canonical refs \<and>
       length (canonical (JList (map se_wrapper es))) \<le> document_max - 14 \<and>
       length (canonical (JObj [(''envelopes'', JList (map se_wrapper es))])) \<le> document_max);
     ok \<leftarrow> snapshot_joins locator co run_doc work release (documents_of ''evidence'' es);
     ensure ok;
     Some (map se_envelope es, run_doc, work, release) }"

subsection \<open>Timestamps and identifiers\<close>

definition slice :: "nat \<Rightarrow> nat \<Rightarrow> string \<Rightarrow> string" where
  "slice i n s = take n (drop i s)"

definition leap_year :: "nat \<Rightarrow> bool" where
  "leap_year y \<longleftrightarrow> y mod 4 = 0 \<and> (y mod 100 \<noteq> 0 \<or> y mod 400 = 0)"

definition days_in_month :: "nat \<Rightarrow> nat \<Rightarrow> nat" where
  "days_in_month y m = (if m = 2 then (if leap_year y then 29 else 28) else if m \<in> {4, 6, 9, 11} then 30 else 31)"

text \<open>\<open>datetime.toordinal\<close>.\<close>

definition day_number :: "nat \<Rightarrow> nat \<Rightarrow> nat \<Rightarrow> nat" where
  "day_number y m d = 365 * (y - 1) + (y - 1) div 4 - (y - 1) div 100 + (y - 1) div 400 +
     sum_list (map (days_in_month y) [1..<m]) + d"

text \<open>A timestamp \<open>YYYY-MM-DDTHH:MM:SS.ffffffZ\<close>, in microseconds.\<close>

definition timestamp :: "json \<Rightarrow> nat option" where
  "timestamp v = do {
     s \<leftarrow> as_str v;
     ensure (length s = 27 \<and> s ! 4 = CHR ''-'' \<and> s ! 7 = CHR ''-'' \<and> s ! 10 = CHR ''T'' \<and> s ! 13 = CHR '':'' \<and>
       s ! 16 = CHR '':'' \<and> s ! 19 = CHR ''.'' \<and> s ! 26 = CHR ''Z'');
     let fs = [slice 0 4 s, slice 5 2 s, slice 8 2 s, slice 11 2 s, slice 14 2 s, slice 17 2 s, slice 20 6 s];
     ensure (list_all (list_all is_digit) fs);
     (case map (nat_of_digits 0) fs of
        [y, mo, d, h, mi, sec, us] \<Rightarrow>
          do { ensure (1 \<le> y \<and> 1 \<le> mo \<and> mo \<le> 12 \<and> 1 \<le> d \<and> d \<le> days_in_month y mo \<and> h < 24 \<and> mi < 60 \<and> sec < 60);
               Some ((((day_number y mo d * 24 + h) * 60 + mi) * 60 + sec) * 1000000 + us) }
      | _ \<Rightarrow> None) }"

definition id_ok :: "string \<Rightarrow> json \<Rightarrow> bool" where
  "id_ok p v = (case v of JStr s \<Rightarrow> (case eat p s of None \<Rightarrow> False | Some h \<Rightarrow> hex_string 32 h) | _ \<Rightarrow> False)"

definition metadata :: "json \<Rightarrow> accepted_metadata option" where
  "metadata v = do {
     ensure (closed_obj v [''acceptance_id'', ''preparation_id'', ''canonical_hash'', ''receipt_id'', ''accepted_at''] \<and>
       has v ''acceptance_id'' (id_ok ''iac_'') \<and> has v ''preparation_id'' (id_ok ''ipr_'') \<and>
       has v ''receipt_id'' (id_ok ''iar_'') \<and> has v ''canonical_hash'' (digest_ok True) \<and>
       has v ''accepted_at'' (\<lambda>t. timestamp t \<noteq> None));
     a \<leftarrow> str_fld v ''acceptance_id''; p \<leftarrow> str_fld v ''preparation_id''; c \<leftarrow> str_fld v ''canonical_hash'';
     r \<leftarrow> str_fld v ''receipt_id''; t \<leftarrow> str_fld v ''accepted_at'';
     Some \<lparr>am_acceptance_id = a, am_preparation_id = p, am_canonical_hash = c, am_receipt_id = r,
           am_accepted_at = t\<rparr> }"

subsection \<open>Pages of accepted effects\<close>

definition url_char :: "char \<Rightarrow> bool" where
  "url_char c \<longleftrightarrow> is_alnum c \<or> c = CHR ''-'' \<or> c = CHR ''_''"

definition from_url :: "char \<Rightarrow> char" where
  "from_url c = (if c = CHR ''-'' then CHR ''+'' else if c = CHR ''_'' then CHR ''/'' else c)"

definition to_url :: "char \<Rightarrow> char" where
  "to_url c = (if c = CHR ''+'' then CHR ''-'' else if c = CHR ''/'' then CHR ''_'' else c)"

definition rstrip :: "char \<Rightarrow> string \<Rightarrow> string" where
  "rstrip c s = rev (dropWhile (\<lambda>x. x = c) (rev s))"

definition pad4 :: "string \<Rightarrow> string" where
  "pad4 s = replicate ((4 - length s mod 4) mod 4) (CHR ''='')"

definition cursor_pos :: "json \<Rightarrow> string \<Rightarrow> (string \<times> string) option" where
  "cursor_pos ns value = do {
     ensure (text_upto 2048 False (JStr value) \<and> list_all url_char value);
     raw \<leftarrow> b64decode (map from_url value @ pad4 value);
     ensure (length raw \<le> 1536 \<and> rstrip (CHR ''='') (map to_url (b64encode raw)) = value);
     c \<leftarrow> read_upto 1536 raw;
     ensure (closed_obj c [''schema'', ''namespace'', ''accepted_at'', ''acceptance_id''] \<and>
       fld c ''schema'' = Some (JStr ''cred-broker-protected-effect-list-cursor/v1'') \<and> eq_fld c ''namespace'' ns \<and>
       has c ''accepted_at'' (\<lambda>t. timestamp t \<noteq> None) \<and> has c ''acceptance_id'' (id_ok ''iac_''));
     t \<leftarrow> str_fld c ''accepted_at''; a \<leftarrow> str_fld c ''acceptance_id'';
     Some (t, a) }"

definition position :: "accepted_metadata \<Rightarrow> string \<times> string" where
  "position m = (am_accepted_at m, am_acceptance_id m)"

definition next_cursor :: "json \<Rightarrow> nat \<Rightarrow> accepted_metadata list \<Rightarrow> json \<Rightarrow> string option option" where
  "next_cursor ns limit items v =
    (case v of
       JNull \<Rightarrow> Some None
     | JStr c \<Rightarrow>
         (if length items = limit \<and> items \<noteq> [] \<and> cursor_pos ns c = Some (position (last items))
          then Some (Some c) else None)
     | _ \<Rightarrow> None)"

definition decode_accepted_page :: "bytes \<Rightarrow> bytes \<Rightarrow> nat \<Rightarrow> string option \<Rightarrow> accepted_page option" where
  "decode_accepted_page raw ns_utf8 requested_limit previous_cursor = do {
     ns \<leftarrow> namespace_bytes ns_utf8;
     ensure (1 \<le> requested_limit \<and> requested_limit \<le> 64);
     previous \<leftarrow> (case previous_cursor of None \<Rightarrow> Some None | Some c \<Rightarrow> map_option Some (cursor_pos ns c));
     page \<leftarrow> read_upto list_max raw;
     ensure (closed_obj page [''schema'', ''namespace'', ''items'', ''next_cursor''] \<and>
       fld page ''schema'' = Some (JStr ''cred-broker-protected-effect-list-accepted-response/v1'') \<and>
       eq_fld page ''namespace'' ns);
     items0 \<leftarrow> fld page ''items''; items1 \<leftarrow> as_list items0;
     ensure (length items1 \<le> requested_limit);
     items \<leftarrow> those (map metadata items1);
     ensure (sorted_wrt (<) (map position items) \<and>
       (case previous of None \<Rightarrow> True | Some p \<Rightarrow> list_all (\<lambda>m. p < position m) items) \<and>
       distinct (map am_acceptance_id items));
     c0 \<leftarrow> fld page ''next_cursor'';
     cursor \<leftarrow> next_cursor ns requested_limit items c0;
     Some \<lparr>ap_namespace_utf8 = ns_utf8, ap_items = items, ap_next_cursor = cursor\<rparr> }"

subsection \<open>A protected copy\<close>

definition requester_fields :: "string list" where
  "requester_fields = [''subject_id'', ''session_id'', ''host_id'']"

definition operator_fields :: "string list" where
  "operator_fields = [''identity_id'', ''identity_revision'', ''primary_fingerprint'', ''signing_fingerprint'',
     ''policy_revision'', ''operator_identity_revision'', ''operator_keyring_revision'']"

definition oid_ok :: "json \<Rightarrow> bool" where
  "oid_ok v = (case v of JStr s \<Rightarrow> hex_string 40 s \<or> hex_string 64 s | _ \<Rightarrow> False)"

definition acceptance_ok :: "json \<Rightarrow> string \<Rightarrow> bool" where
  "acceptance_ok a aid \<longleftrightarrow>
     closed_obj a [''acceptance_id'', ''preparation_id'', ''accepted_at'', ''signature_sha256'', ''challenge_sha256'',
       ''requester'', ''operator'', ''challenge''] \<and>
     fld a ''acceptance_id'' = Some (JStr aid) \<and> has a ''preparation_id'' (id_ok ''ipr_'') \<and>
     has a ''signature_sha256'' (digest_ok False) \<and> has a ''challenge_sha256'' (digest_ok False) \<and>
     has a ''requester'' (\<lambda>r. closed_obj r requester_fields \<and> list_all (\<lambda>k. has r k (text_upto 512 False)) (keys r)) \<and>
     has a ''operator'' (\<lambda>p. closed_obj p operator_fields \<and> list_all (\<lambda>k. has p k (text_upto 512 False)) (keys p) \<and>
       has p ''primary_fingerprint'' oid_ok \<and> has p ''signing_fingerprint'' oid_ok)"

definition eq_flds :: "json \<Rightarrow> string \<Rightarrow> json \<Rightarrow> string \<Rightarrow> bool" where
  "eq_flds v k w l = has w l (\<lambda>x. eq_fld v k x)"

definition challenge_ok :: "json \<Rightarrow> json \<Rightarrow> json \<Rightarrow> string \<Rightarrow> bool" where
  "challenge_ok response a c run_digest \<longleftrightarrow>
     closed_obj c [''schema'', ''preparation_id'', ''canonical_hash'', ''legacy_content_digest'', ''locator'',
       ''run_envelope_digest'', ''requester_subject_id'', ''requester_session_id'', ''requester_host_id'',
       ''policy_revision'', ''operator_identity_revision'', ''operator_keyring_revision'', ''nonce'',
       ''created_at'', ''expires_at''] \<and>
     length (canonical c) \<le> 16384 \<and>
     fld a ''challenge_sha256'' = Some (JStr (hash_of False (canonical c))) \<and>
     fld c ''schema'' = Some (JStr ''cred-broker-intent-acceptance-challenge/v1'') \<and>
     eq_flds c ''preparation_id'' a ''preparation_id'' \<and>
     list_all (\<lambda>k. eq_flds c k response k) [''locator'', ''canonical_hash'', ''legacy_content_digest''] \<and>
     has a ''requester'' (\<lambda>r. list_all (\<lambda>k. eq_flds c (''requester_'' @ k) r k) (keys r)) \<and>
     has a ''operator'' (\<lambda>p. list_all (\<lambda>k. eq_flds c k p k)
       [''policy_revision'', ''operator_identity_revision'', ''operator_keyring_revision'']) \<and>
     has c ''nonce'' (digest_ok False) \<and> fld c ''run_envelope_digest'' = Some (JStr run_digest)"

definition window_ok :: "json \<Rightarrow> json \<Rightarrow> bool" where
  "window_ok a c \<longleftrightarrow>
     (case do {
        t0 \<leftarrow> fld c ''created_at''; created \<leftarrow> timestamp t0;
        t1 \<leftarrow> fld c ''expires_at''; expires \<leftarrow> timestamp t1;
        t2 \<leftarrow> fld a ''accepted_at''; accepted \<leftarrow> timestamp t2;
        Some (created < expires \<and> expires - created \<le> 300 * 1000000 \<and> created \<le> accepted \<and> accepted < expires) } of
        None \<Rightarrow> False
      | Some ok \<Rightarrow> ok)"

definition receipt_ok :: "json \<Rightarrow> json \<Rightarrow> json \<Rightarrow> bool" where
  "receipt_ok response a r \<longleftrightarrow>
     closed_obj r [''schema'', ''receipt_id'', ''acceptance_id'', ''preparation_id'', ''canonical_hash'',
       ''signature_sha256'', ''challenge_sha256'', ''accepted_at''] \<and>
     fld r ''schema'' = Some (JStr ''cred-broker-intent-acceptance-receipt/v1'') \<and>
     has r ''receipt_id'' (id_ok ''iar_'') \<and>
     list_all (\<lambda>k. eq_flds r k a k)
       [''acceptance_id'', ''preparation_id'', ''signature_sha256'', ''challenge_sha256'', ''accepted_at''] \<and>
     eq_flds r ''canonical_hash'' response ''canonical_hash''"

definition acceptance_of :: "json \<Rightarrow> acceptance_data option" where
  "acceptance_of a = do {
     aid \<leftarrow> str_fld a ''acceptance_id''; prep \<leftarrow> str_fld a ''preparation_id''; tm \<leftarrow> str_fld a ''accepted_at'';
     sig \<leftarrow> str_fld a ''signature_sha256''; ch \<leftarrow> str_fld a ''challenge_sha256'';
     r \<leftarrow> fld a ''requester''; p \<leftarrow> fld a ''operator''; c \<leftarrow> fld a ''challenge'';
     Some \<lparr>ad_acceptance_id = aid, ad_preparation_id = prep, ad_accepted_at = tm, ad_signature_sha256 = sig,
           ad_challenge_sha256 = ch, ad_requester_utf8 = canonical r, ad_operator_utf8 = canonical p,
           ad_challenge_utf8 = canonical c\<rparr> }"

definition receipt_of :: "json \<Rightarrow> receipt_data option" where
  "receipt_of r = do {
     rid \<leftarrow> str_fld r ''receipt_id''; aid \<leftarrow> str_fld r ''acceptance_id''; prep \<leftarrow> str_fld r ''preparation_id'';
     hash \<leftarrow> str_fld r ''canonical_hash''; sig \<leftarrow> str_fld r ''signature_sha256'';
     ch \<leftarrow> str_fld r ''challenge_sha256''; tm \<leftarrow> str_fld r ''accepted_at'';
     Some \<lparr>rd_receipt_id = rid, rd_acceptance_id = aid, rd_preparation_id = prep, rd_canonical_hash = hash,
           rd_signature_sha256 = sig, rd_challenge_sha256 = ch, rd_accepted_at = tm,
           rd_receipt_utf8 = canonical r\<rparr> }"

definition copy_fields :: "string list" where
  "copy_fields = [''schema'', ''locator'', ''acceptance_revision'', ''canonical_hash'', ''legacy_content_digest'',
     ''canonical_utf8_b64'', ''envelopes'', ''acceptance'', ''receipt'']"

definition decode_protected_copy :: "bytes \<Rightarrow> bytes \<Rightarrow> string \<Rightarrow> string \<Rightarrow> accepted_metadata option \<Rightarrow>
    effect_data option" where
  "decode_protected_copy raw ns_utf8 aid repository listed = do {
     ns \<leftarrow> namespace_bytes ns_utf8;
     ensure (id_ok ''iac_'' (JStr aid));
     response \<leftarrow> read_upto copy_max raw;
     ensure (closed_obj response copy_fields \<and>
       fld response ''schema'' = Some (JStr ''cred-broker-protected-effect-read-copy-response/v1'') \<and>
       fld response ''acceptance_revision'' = Some (JInt 1));
     locator \<leftarrow> fld response ''locator'';
     ensure (locator_ok locator \<and> eq_fld locator ''namespace'' ns);
     b64 \<leftarrow> fld response ''canonical_utf8_b64'';
     can_utf8 \<leftarrow> b64_field document_max b64;
     co \<leftarrow> read_doc can_utf8;
     params \<leftarrow> fld co ''parameters''; leg \<leftarrow> legacy params;
     ensure (fld response ''canonical_hash'' = Some (JStr (hash_of True can_utf8)) \<and>
       fld response ''legacy_content_digest'' = Some (JStr leg));
     raw_envs \<leftarrow> fld response ''envelopes'';
     (envs, run_doc, work, release) \<leftarrow> snapshot locator co raw_envs repository;
     a \<leftarrow> fld response ''acceptance''; c \<leftarrow> fld a ''challenge'';
     run_env \<leftarrow> find (\<lambda>e. env_kind e = ''protected-run-binding'') envs;
     ensure (acceptance_ok a aid \<and> challenge_ok response a c (env_document_digest run_env) \<and> window_ok a c);
     r \<leftarrow> fld response ''receipt'';
     ensure (receipt_ok response a r);
     ad \<leftarrow> acceptance_of a; rd \<leftarrow> receipt_of r; src \<leftarrow> str_fld co ''source_run'';
     ensure (case listed of None \<Rightarrow> True
       | Some m \<Rightarrow> m = \<lparr>am_acceptance_id = aid, am_preparation_id = ad_preparation_id ad,
           am_canonical_hash = hash_of True can_utf8, am_receipt_id = rd_receipt_id rd,
           am_accepted_at = ad_accepted_at ad\<rparr>);
     Some \<lparr>namespace_utf8 = ns_utf8, locator_utf8 = canonical locator, canonical_utf8 = can_utf8,
       canonical_hash = hash_of True can_utf8, legacy_content_digest = leg, ef_repository = repository,
       source_run = src, parameters_utf8 = canonical params, envelopes = envs,
       run_document_utf8 = canonical run_doc, work_document_utf8 = canonical work,
       release_document_utf8 = canonical release, acceptance_revision = 1,
       ef_acceptance = ad, ef_receipt = rd\<rparr> }"

text \<open>\<open>_assert_effect_data\<close>: rebuild the response from the data and decode it again.\<close>

definition envelope_json :: "envelope_data \<Rightarrow> json" where
  "envelope_json e = JObj [(''kind'', JStr (env_kind e)), (''document_digest'', JStr (env_document_digest e)),
     (''canonical_utf8_b64'', JStr (b64encode (env_document_utf8 e)))]"

definition rebuild :: "effect_data \<Rightarrow> json option" where
  "rebuild e = do {
     locator \<leftarrow> read_doc (locator_utf8 e);
     requester \<leftarrow> read_doc (ad_requester_utf8 (ef_acceptance e));
     operator \<leftarrow> read_doc (ad_operator_utf8 (ef_acceptance e));
     challenge \<leftarrow> read_upto 16384 (ad_challenge_utf8 (ef_acceptance e));
     receipt \<leftarrow> read_doc (rd_receipt_utf8 (ef_receipt e));
     Some (JObj [(''schema'', JStr ''cred-broker-protected-effect-read-copy-response/v1''), (''locator'', locator),
       (''acceptance_revision'', JInt (acceptance_revision e)), (''canonical_hash'', JStr (canonical_hash e)),
       (''legacy_content_digest'', JStr (legacy_content_digest e)),
       (''canonical_utf8_b64'', JStr (b64encode (canonical_utf8 e))),
       (''envelopes'', JList (map envelope_json (envelopes e))),
       (''acceptance'', JObj [(''acceptance_id'', JStr (ad_acceptance_id (ef_acceptance e))),
          (''preparation_id'', JStr (ad_preparation_id (ef_acceptance e))),
          (''accepted_at'', JStr (ad_accepted_at (ef_acceptance e))),
          (''signature_sha256'', JStr (ad_signature_sha256 (ef_acceptance e))),
          (''challenge_sha256'', JStr (ad_challenge_sha256 (ef_acceptance e))),
          (''requester'', requester), (''operator'', operator), (''challenge'', challenge)]),
       (''receipt'', receipt)]) }"

definition assert_effect_data :: "effect_data \<Rightarrow> bool" where
  "assert_effect_data e \<longleftrightarrow>
     3 \<le> length (envelopes e) \<and> length (envelopes e) \<le> 32 \<and> length (canonical_utf8 e) \<le> document_max \<and>
     list_all (\<lambda>v. length (env_document_utf8 v) \<le> document_max) (envelopes e) \<and>
     (case rebuild e of
        None \<Rightarrow> False
      | Some response \<Rightarrow>
          decode_protected_copy (canonical response) (namespace_utf8 e) (ad_acceptance_id (ef_acceptance e))
            (ef_repository e) None = Some e)"

end
