(* ===== verification/Protected_Currentness.thy ===== *)
theory Protected_Currentness
  imports Protected_Codec
begin

text \<open>
  \<open>vuoro_reconciler/protected_currentness.py\<close>: decoding the current public basis of an effect and
  comparing it with the protected copy. A comparison only; it authorises nothing.
\<close>

record basis_data =
  cb_canonical_utf8 :: bytes
  cb_intent_utf8 :: bytes
  cb_run_utf8 :: bytes
  cb_work_utf8 :: bytes
  cb_release_utf8 :: "bytes option"
  cb_repo_id :: string
  cb_workspace_id :: string
  cb_status :: string

record currentness_result =
  cr_status :: string
  cr_reason :: string

text \<open>The display \<open>{key: v[key] for key in ks}\<close>.\<close>

definition pick :: "json \<Rightarrow> string list \<Rightarrow> json option" where
  "pick v ks = map_option (\<lambda>xs. JObj (zip ks xs)) (those (map (fld v) ks))"

definition intent_ok :: "json \<Rightarrow> bool" where
  "intent_ok intent \<longleftrightarrow>
     closed_obj intent [''intent_id'', ''revision'', ''state'', ''canonical_intent_digest'', ''release_digest'',
       ''item_id'', ''repository'', ''base_commit'', ''title'', ''rationale'', ''unified_diff'', ''run_id''] \<and>
     has intent ''intent_id'' text_ok \<and> has intent ''revision'' (integer_ok False) \<and> has intent ''run_id'' text_ok \<and>
     has intent ''state'' (\<lambda>s. s \<in> {JStr ''proposed'', JStr ''accepted'', JStr ''rejected'', JStr ''applied''}) \<and>
     has intent ''canonical_intent_digest'' (digest_ok False) \<and> has intent ''release_digest'' (digest_ok False) \<and>
     (case pick intent parameter_fields of
        None \<Rightarrow> False
      | Some params \<Rightarrow> parameters_ok params \<and>
          (case legacy params of None \<Rightarrow> False | Some l \<Rightarrow> fld intent ''canonical_intent_digest'' = Some (JStr l)))"

definition run_basis_ok :: "json \<Rightarrow> json \<Rightarrow> json \<Rightarrow> bool" where
  "run_basis_ok v intent r \<longleftrightarrow>
     closed_obj r [''run_id'', ''principal_id'', ''workspace_id'', ''client_id'', ''grant_id''] \<and>
     (case pick r [''run_id'', ''principal_id'', ''client_id'', ''grant_id''] of None \<Rightarrow> False | Some og \<Rightarrow> origin_ok og) \<and>
     eq_flds r ''run_id'' intent ''run_id'' \<and> eq_flds r ''workspace_id'' v ''workspace_id''"

definition work_basis_ok :: "json \<Rightarrow> json \<Rightarrow> bool" where
  "work_basis_ok intent w \<longleftrightarrow>
     closed_obj w [''work_item_id'', ''aggregate_uuid'', ''status'', ''edit_revision'', ''status_revision'',
       ''item_revision''] \<and>
     has w ''work_item_id'' (integer_ok False) \<and> eq_flds w ''work_item_id'' intent ''item_id'' \<and>
     has w ''status'' (\<lambda>s. s \<in> {JStr ''pending'', JStr ''active'', JStr ''blocked'', JStr ''done''}) \<and>
     has w ''status_revision'' text_ok \<and>
     has w ''aggregate_uuid'' (\<lambda>a. case a of
        JStr u \<Rightarrow> length u = 36 \<and> list_all (\<lambda>c. is_hex c \<or> c = CHR ''-'') u \<and>
          has w ''edit_revision'' (\<lambda>e. case e of
             JStr s \<Rightarrow> edit_uuid s \<noteq> None \<and> has w ''item_revision'' (\<lambda>i. full_revision i u = Some s)
           | _ \<Rightarrow> False)
      | _ \<Rightarrow> False)"

definition release_basis_ok :: "json \<Rightarrow> json \<Rightarrow> bool" where
  "release_basis_ok w release \<longleftrightarrow>
     closed_obj release [''work_item_id'', ''item_revision'', ''release_digest'', ''acceptance_contract'',
       ''context_refs''] \<and>
     eq_flds release ''work_item_id'' w ''work_item_id'' \<and>
     has release ''work_item_id'' (\<lambda>i. has release ''item_revision'' (\<lambda>r. has release ''release_digest'' (\<lambda>d.
       has release ''acceptance_contract'' (\<lambda>c. has release ''context_refs'' (\<lambda>refs.
         has w ''aggregate_uuid'' (\<lambda>a. release_fields i r d c refs a))))))"

definition decode_current_basis :: "bytes \<Rightarrow> effect_data \<Rightarrow> basis_data option" where
  "decode_current_basis raw effect = do {
     ensure (assert_effect_data effect);
     v \<leftarrow> read_json raw (4 * 1024 * 1024);
     ensure (length (canonical v) \<le> document_max \<and>
       closed_obj v [''schema'', ''repo_id'', ''workspace_id'', ''intent'', ''run'', ''work'', ''release''] \<and>
       fld v ''schema'' = Some (JStr ''sprintctl-effect-basis/v1'') \<and>
       has v ''repo_id'' text_ok \<and> has v ''workspace_id'' text_ok);
     intent \<leftarrow> fld v ''intent''; r \<leftarrow> fld v ''run''; w \<leftarrow> fld v ''work''; release \<leftarrow> fld v ''release'';
     ensure (intent_ok intent \<and> run_basis_ok v intent r \<and> work_basis_ok intent w \<and>
       (release = JNull \<or> release_basis_ok w release));
     repo \<leftarrow> str_fld v ''repo_id''; ws \<leftarrow> str_fld v ''workspace_id''; status \<leftarrow> str_fld w ''status'';
     Some \<lparr>cb_canonical_utf8 = canonical v, cb_intent_utf8 = canonical intent, cb_run_utf8 = canonical r,
       cb_work_utf8 = canonical w, cb_release_utf8 = (if release = JNull then None else Some (canonical release)),
       cb_repo_id = repo, cb_workspace_id = ws, cb_status = status\<rparr> }"

text \<open>The comparisons of \<open>evaluate_currentness\<close> before the selected release is looked at.\<close>

definition basis_matches :: "effect_data \<Rightarrow> basis_data \<Rightarrow> bool option" where
  "basis_matches effect basis = do {
     ns \<leftarrow> read_doc (namespace_utf8 effect);
     locator \<leftarrow> read_doc (locator_utf8 effect);
     run_copy \<leftarrow> read_doc (run_document_utf8 effect);
     work_copy \<leftarrow> read_doc (work_document_utf8 effect);
     release_copy \<leftarrow> read_doc (release_document_utf8 effect);
     intent \<leftarrow> read_doc (cb_intent_utf8 basis);
     r \<leftarrow> read_doc (cb_run_utf8 basis);
     w \<leftarrow> read_doc (cb_work_utf8 basis);
     params \<leftarrow> read_doc (parameters_utf8 effect);
     mine \<leftarrow> pick intent parameter_fields;
     native \<leftarrow> fld run_copy ''native_run'';
     theirs \<leftarrow> pick r (keys native);
     Some (fld ns ''repo_id'' = Some (JStr (cb_repo_id basis)) \<and>
       fld ns ''workspace_id'' = Some (JStr (cb_workspace_id basis)) \<and>
       eq_flds intent ''intent_id'' locator ''intent_id'' \<and>
       eq_flds intent ''revision'' locator ''intent_revision'' \<and> py_eq mine params \<and>
       fld intent ''canonical_intent_digest'' = Some (JStr (legacy_content_digest effect)) \<and>
       eq_flds intent ''release_digest'' release_copy ''release_digest'' \<and>
       fld intent ''run_id'' = Some (JStr (source_run effect)) \<and> py_eq theirs native \<and>
       eq_flds w ''work_item_id'' work_copy ''work_item_id'' \<and>
       eq_flds w ''aggregate_uuid'' release_copy ''aggregate_uuid'' \<and>
       eq_flds w ''edit_revision'' work_copy ''edit_revision'' \<and>
       eq_flds w ''item_revision'' release_copy ''item_revision'') }"

definition selected_release :: "json \<Rightarrow> json option" where
  "selected_release release_copy = do {
     i \<leftarrow> fld release_copy ''work_item_id''; r \<leftarrow> fld release_copy ''item_revision'';
     d \<leftarrow> fld release_copy ''release_digest''; c \<leftarrow> fld release_copy ''native_acceptance_contract'';
     x \<leftarrow> fld release_copy ''native_context_refs'';
     Some (JObj [(''work_item_id'', i), (''item_revision'', r), (''release_digest'', d),
       (''acceptance_contract'', c), (''context_refs'', x)]) }"

definition evaluate_currentness :: "effect_data \<Rightarrow> basis_data \<Rightarrow> currentness_result option" where
  "evaluate_currentness effect basis = do {
     ensure (decode_current_basis (cb_canonical_utf8 basis) effect = Some basis);
     matches \<leftarrow> basis_matches effect basis;
     if \<not> matches then Some \<lparr>cr_status = ''REFUSED'', cr_reason = ''effect-basis-changed''\<rparr>
     else case cb_release_utf8 basis of
       None \<Rightarrow> Some \<lparr>cr_status = ''REFUSED'', cr_reason = ''effect-basis-unavailable''\<rparr>
     | Some raw \<Rightarrow> do {
         selected \<leftarrow> read_doc raw;
         release_copy \<leftarrow> read_doc (release_document_utf8 effect);
         expected \<leftarrow> selected_release release_copy;
         if \<not> py_eq selected expected then Some \<lparr>cr_status = ''REFUSED'', cr_reason = ''effect-basis-changed''\<rparr>
         else if cb_status basis = ''blocked'' then Some \<lparr>cr_status = ''DEFERRED'', cr_reason = ''effect-work-blocked''\<rparr>
         else if cb_status basis = ''done'' then Some \<lparr>cr_status = ''REFUSED'', cr_reason = ''effect-work-settled''\<rparr>
         else do {
           ensure (cb_status basis = ''pending'' \<or> cb_status basis = ''active'');
           Some \<lparr>cr_status = ''READY'', cr_reason = ''effect-basis-matches''\<rparr> } } }"

end
