(* ===== verification/Execution_Journal.thy ===== *)
theory Execution_Journal
  imports Protected_Codec
begin

text \<open>
  The installed publication history of \<open>vuoro_reconciler/execution_journal.py\<close>. The SQLite tables are
  the fields of \<open>journal_db\<close>, keyed as their primary keys; the triggers that refuse updates and deletes
  correspond to the absence of such operations. A transaction validates the whole journal before and
  after its body and ends in a commit whose outcome the file system decides. File identity checks and
  locks, which only make calls mutually exclusive, are not modelled.
\<close>

subsection \<open>Events and records\<close>

datatype event_type =
    BOUND | LOCAL_READY | BRANCH_TRANSMISSION_POSSIBLE | PR_TRANSMISSION_POSSIBLE
  | BRANCH_OBSERVED | PR_OBSERVED | APPLIED | REFUSED | CONFLICT

datatype operation = BranchCreate | PrCreate

definition operation_event :: "operation \<Rightarrow> event_type" where
  "operation_event op = (case op of BranchCreate \<Rightarrow> BRANCH_TRANSMISSION_POSSIBLE | PrCreate \<Rightarrow> PR_TRANSMISSION_POSSIBLE)"

definition operation_name :: "operation \<Rightarrow> string" where
  "operation_name op = (case op of BranchCreate \<Rightarrow> ''branch-create'' | PrCreate \<Rightarrow> ''pr-create'')"

definition terminal :: "event_type list" where
  "terminal = [APPLIED, REFUSED, CONFLICT]"

record journal_event =
  ev_seq :: nat
  ev_type :: event_type
  ev_payload :: bytes

record journal_record =
  jr_effect_key :: string
  jr_binding_utf8 :: bytes
  jr_copy_utf8 :: bytes
  jr_events :: "journal_event list"
  jr_spent :: "(operation \<times> bytes) list"
  jr_outcome :: "bytes option"

datatype record_status = Unsettled | At event_type

definition status :: "journal_record \<Rightarrow> record_status" where
  "status r =
    (let l = ev_type (last (jr_events r))
     in if l \<in> set terminal then At l else if jr_spent r \<noteq> [] then Unsettled else At l)"

subsection \<open>The tables\<close>

record binding_row =
  bind_utf8 :: bytes
  bind_sha256 :: string
  copy_utf8 :: bytes
  copy_sha256 :: string

record rebind_row =
  rb_operation_id :: string
  rb_host_id :: string
  rb_profile_id :: string
  rb_old_utf8 :: bytes
  rb_old_sha256 :: string
  rb_new_utf8 :: bytes
  rb_new_sha256 :: string

record journal_db =
  db_host_id :: string
  db_registry_utf8 :: bytes
  db_registry_sha256 :: string
  effect_bindings :: "(string, binding_row) dict"
  journal_events :: "(string \<times> nat, event_type \<times> bytes \<times> string) dict"
  publication_spent :: "(string \<times> operation, bytes \<times> string) dict"
  applied_outcomes :: "(string, bytes \<times> string) dict"
  registry_rebinds :: "rebind_row list"

text \<open>An insertion fails when the primary key is taken.\<close>

definition insert_row :: "'k \<Rightarrow> 'v \<Rightarrow> ('k, 'v) dict \<Rightarrow> ('k, 'v) dict option" where
  "insert_row k v t = (if map_of t k = None then Some (t @ [(k, v)]) else None)"

subsection \<open>Fields of the payloads\<close>

definition binding_fields :: "string list" where
  "binding_fields = [''schema'', ''namespace'', ''intent_id'', ''intent_revision'', ''canonical_hash'',
     ''legacy_content_digest'', ''acceptance_id'', ''acceptance_revision'', ''preparation_id'', ''receipt_id'',
     ''accepted_at'', ''signature_sha256'', ''challenge_sha256'', ''frozen_reference_set_sha256'',
     ''registry_sha256'', ''provider_profile_sha256'', ''signing_profile_sha256'', ''publication_target'',
     ''signer_fingerprint'', ''public_key_sha256'']"

fun payload_fields :: "event_type \<Rightarrow> string list" where
  "payload_fields LOCAL_READY = [''schema'', ''commit_oid'', ''tree_oid'', ''base_parent_oid'', ''message_utf8_b64'',
     ''message_sha256'', ''signer_fingerprint'', ''public_key_sha256'', ''artifact_relative_path'', ''artifact_sha256'']"
| "payload_fields BRANCH_TRANSMISSION_POSSIBLE = [''schema'', ''effect_key'', ''binding_sha256'', ''repository'',
     ''branch'', ''commit_oid'', ''base_parent_oid'', ''provider_profile_sha256'']"
| "payload_fields PR_TRANSMISSION_POSSIBLE = [''schema'', ''effect_key'', ''binding_sha256'', ''repository'',
     ''head_repository'', ''branch'', ''commit_oid'', ''base_branch'', ''title'', ''body_utf8_b64'', ''body_sha256'',
     ''provider_profile_sha256'']"
| "payload_fields BRANCH_OBSERVED = [''schema'', ''effect_key'', ''binding_sha256'', ''request_sha256'', ''repository'',
     ''branch'', ''commit_oid'']"
| "payload_fields PR_OBSERVED = [''schema'', ''effect_key'', ''binding_sha256'', ''request_sha256'', ''repository'',
     ''head_repository'', ''branch'', ''commit_oid'', ''base_branch'', ''title'', ''body_utf8_b64'', ''body_sha256'',
     ''pr_number'', ''pr_url'', ''state'']"
| "payload_fields APPLIED = [''schema'', ''effect_key'', ''binding_sha256'', ''commit_oid'', ''branch_request_sha256'',
     ''pr_request_sha256'', ''pr_number'', ''pr_url'']"
| "payload_fields REFUSED = [''schema'', ''effect_key'', ''binding_sha256'', ''reason'', ''operation'', ''request_sha256'']"
| "payload_fields CONFLICT = [''schema'', ''effect_key'', ''binding_sha256'', ''reason'', ''operation'', ''request_sha256'']"
| "payload_fields BOUND = []"

fun payload_schema :: "event_type \<Rightarrow> string" where
  "payload_schema LOCAL_READY = ''vuoro-protected-local-ready/v1''"
| "payload_schema BRANCH_TRANSMISSION_POSSIBLE = ''vuoro-protected-branch-request/v1''"
| "payload_schema PR_TRANSMISSION_POSSIBLE = ''vuoro-protected-pr-request/v1''"
| "payload_schema BRANCH_OBSERVED = ''vuoro-protected-branch-observation/v1''"
| "payload_schema PR_OBSERVED = ''vuoro-protected-pr-observation/v1''"
| "payload_schema APPLIED = ''vuoro-protected-applied-outcome/v1''"
| "payload_schema REFUSED = ''vuoro-protected-journal-terminal/v1''"
| "payload_schema CONFLICT = ''vuoro-protected-journal-terminal/v1''"
| "payload_schema BOUND = ''''"

fun payload_limit :: "event_type \<Rightarrow> nat" where
  "payload_limit LOCAL_READY = 16384"
| "payload_limit BRANCH_TRANSMISSION_POSSIBLE = 16384"
| "payload_limit PR_TRANSMISSION_POSSIBLE = 65536"
| "payload_limit PR_OBSERVED = 65536"
| "payload_limit _ = 8192"

subsection \<open>Field checks\<close>

fun split_on :: "char \<Rightarrow> string \<Rightarrow> string list" where
  "split_on c [] = [[]]"
| "split_on c (x # xs) =
    (if x = c then [] # split_on c xs
     else case split_on c xs of [] \<Rightarrow> [[x]] | p # ps \<Rightarrow> (x # p) # ps)"

definition contains :: "string \<Rightarrow> string \<Rightarrow> bool" where
  "contains p s \<longleftrightarrow> list_ex (\<lambda>i. take (length p) (drop i s) = p) [0..<Suc (length s)]"

definition starts_with :: "string \<Rightarrow> string \<Rightarrow> bool" where
  "starts_with p s \<longleftrightarrow> take (length p) s = p"

definition ends_with :: "string \<Rightarrow> string \<Rightarrow> bool" where
  "ends_with p s \<longleftrightarrow> starts_with (rev p) (rev s)"

definition branch_ok :: "json \<Rightarrow> bool" where
  "branch_ok v \<longleftrightarrow> text_ok v \<and>
     (case v of
        JStr s \<Rightarrow> s \<notin> {''@'', ''HEAD''} \<and> \<not> starts_with ''/'' s \<and> \<not> starts_with ''-'' s \<and>
          \<not> ends_with ''/'' s \<and> \<not> ends_with ''.'' s \<and>
          list_all (\<lambda>c. 32 < ord_of c \<and> ord_of c \<noteq> 127 \<and> c \<notin> set ''~^:?*['' \<and> c \<noteq> bslash) s \<and>
          \<not> contains ''..'' s \<and> \<not> contains [CHR ''@'', CHR 0x7B] s \<and> \<not> contains ''//'' s \<and>
          list_all (\<lambda>p. \<not> starts_with ''.'' p \<and> \<not> ends_with ''.lock'' p) (split_on (CHR ''/'') s)
      | _ \<Rightarrow> False)"

definition b64_text :: "nat \<Rightarrow> json \<Rightarrow> bytes option" where
  "b64_text maximum v = do {
     ensure (text_upto (4 * ((maximum + 2) div 3)) True v);
     s \<leftarrow> as_str v;
     raw \<leftarrow> b64decode s;
     ensure (length raw \<le> maximum \<and> b64encode raw = s \<and> utf8_decode raw \<noteq> None);
     Some raw }"

definition path_char :: "char \<Rightarrow> bool" where
  "path_char c \<longleftrightarrow> is_alnum c \<or> c = CHR ''_'' \<or> c = CHR ''-''"

text \<open>\<open>[A-Za-z0-9_-][A-Za-z0-9_.-]*(/[A-Za-z0-9_-][A-Za-z0-9_.-]*)*\<close>\<close>

definition artifact_path_ok :: "string \<Rightarrow> bool" where
  "artifact_path_ok s \<longleftrightarrow> list_all (\<lambda>p. case p of [] \<Rightarrow> False
     | c # cs \<Rightarrow> path_char c \<and> list_all (\<lambda>x. path_char x \<or> x = CHR ''.'') cs) (split_on (CHR ''/'') s)"

text \<open>
  The conditions on a pull-request URL, for hosts that are not bracketed address literals: scheme
  \<open>https\<close>, a host, no user information, query or fragment, and no blank or control character.
\<close>

definition url_ok :: "string \<Rightarrow> bool" where
  "url_ok s \<longleftrightarrow>
     list_all (\<lambda>c. 32 < ord_of c \<and> ord_of c \<noteq> 127) s \<and>
     ascii_lower (take 6 s) = ''https:'' \<and>
     (case eat ''//'' (drop 6 s) of
        None \<Rightarrow> False
      | Some r \<Rightarrow>
          (let stop = (\<lambda>c. c \<in> set ''/?#''); netloc = takeWhile (\<lambda>c. \<not> stop c) r; rest = dropWhile (\<lambda>c. \<not> stop c) r;
               path = takeWhile (\<lambda>c. c \<noteq> CHR ''#'') rest
           in list_all (\<lambda>c. c \<notin> set ''@[]'') netloc \<and> takeWhile (\<lambda>c. c \<noteq> CHR '':'') netloc \<noteq> [] \<and>
              length rest - length path \<le> 1 \<and> length (dropWhile (\<lambda>c. c \<noteq> CHR ''?'') path) \<le> 1))"

definition decode_copy :: "bytes \<Rightarrow> effect_data option" where
  "decode_copy raw = do {
     copy \<leftarrow> read_upto copy_max raw;
     b64 \<leftarrow> str_fld copy ''canonical_utf8_b64''; can \<leftarrow> b64decode b64; co \<leftarrow> read_doc can;
     locator \<leftarrow> fld copy ''locator''; ns \<leftarrow> fld locator ''namespace'';
     a \<leftarrow> fld copy ''acceptance''; aid \<leftarrow> str_fld a ''acceptance_id'';
     params \<leftarrow> fld co ''parameters''; repository \<leftarrow> str_fld params ''repository'';
     decode_protected_copy raw (canonical ns) aid repository None }"

definition target_ok :: "effect_data \<Rightarrow> json \<Rightarrow> bool" where
  "target_ok effect t \<longleftrightarrow> closed_obj t [''schema'', ''repository'', ''head_repository'', ''base_branch''] \<and>
     fld t ''schema'' = Some (JStr ''vuoro-protected-publication-target/v1'') \<and>
     fld t ''repository'' = Some (JStr (ef_repository effect)) \<and>
     fld t ''head_repository'' = Some (JStr (ef_repository effect)) \<and> has t ''base_branch'' branch_ok"

definition binding_value :: "effect_data \<Rightarrow> json \<Rightarrow> json \<Rightarrow> json \<Rightarrow> json \<Rightarrow> json \<Rightarrow> json \<Rightarrow> json option" where
  "binding_value effect registry_hash provider_hash signing_hash target fingerprint public_key_hash = do {
     ensure (assert_effect_data effect \<and>
       list_all (digest_ok True) [registry_hash, provider_hash, signing_hash, public_key_hash] \<and>
       oid_ok fingerprint \<and> target_ok effect target);
     locator \<leftarrow> read_doc (locator_utf8 effect);
     ns \<leftarrow> fld locator ''namespace''; intent \<leftarrow> fld locator ''intent_id''; rev \<leftarrow> fld locator ''intent_revision'';
     co \<leftarrow> read_doc (canonical_utf8 effect); refs \<leftarrow> fld co ''evidence_refs'';
     Some (JObj [(''schema'', JStr ''vuoro-protected-journal-binding/v1''), (''namespace'', ns),
       (''intent_id'', intent), (''intent_revision'', rev), (''canonical_hash'', JStr (canonical_hash effect)),
       (''legacy_content_digest'', JStr (legacy_content_digest effect)),
       (''acceptance_id'', JStr (ad_acceptance_id (ef_acceptance effect))),
       (''acceptance_revision'', JInt (acceptance_revision effect)),
       (''preparation_id'', JStr (ad_preparation_id (ef_acceptance effect))),
       (''receipt_id'', JStr (rd_receipt_id (ef_receipt effect))),
       (''accepted_at'', JStr (ad_accepted_at (ef_acceptance effect))),
       (''signature_sha256'', JStr (ad_signature_sha256 (ef_acceptance effect))),
       (''challenge_sha256'', JStr (ad_challenge_sha256 (ef_acceptance effect))),
       (''frozen_reference_set_sha256'', JStr (hash_of True (canonical refs))),
       (''registry_sha256'', registry_hash), (''provider_profile_sha256'', provider_hash),
       (''signing_profile_sha256'', signing_hash), (''publication_target'', target),
       (''signer_fingerprint'', fingerprint), (''public_key_sha256'', public_key_hash)]) }"

definition effect_key :: "effect_data \<Rightarrow> string option" where
  "effect_key effect = do {
     ensure (assert_effect_data effect);
     locator \<leftarrow> read_doc (locator_utf8 effect);
     ns \<leftarrow> fld locator ''namespace''; intent \<leftarrow> fld locator ''intent_id''; rev \<leftarrow> fld locator ''intent_revision'';
     Some (hash_of False (canonical (JObj [(''schema'', JStr ''vuoro-protected-effect-key/v1''), (''namespace'', ns),
       (''intent_id'', intent), (''intent_revision'', rev)]))) }"

subsection \<open>Payloads\<close>

type_synonym seen = "(event_type, json) dict"

definition newline :: char where "newline = char_of (10::nat)"

definition public_binding :: "journal_record \<Rightarrow> json \<Rightarrow> json \<Rightarrow> effect_data \<Rightarrow> json option" where
  "public_binding record binding local effect = do {
     ch \<leftarrow> fld binding ''canonical_hash''; leg \<leftarrow> fld binding ''legacy_content_digest'';
     aid \<leftarrow> fld binding ''acceptance_id''; arev \<leftarrow> fld binding ''acceptance_revision'';
     rid \<leftarrow> fld binding ''receipt_id''; oid \<leftarrow> fld local ''commit_oid'';
     Some (JObj [(''schema'', JStr ''vuoro-protected-publication-binding/v1''),
       (''effect_key'', JStr (jr_effect_key record)), (''binding_sha256'', JStr (hash_of True (jr_binding_utf8 record))),
       (''locator_utf8_b64'', JStr (b64encode (locator_utf8 effect))), (''canonical_hash'', ch),
       (''legacy_content_digest'', leg), (''acceptance_id'', aid), (''acceptance_revision'', arev),
       (''receipt_id'', rid), (''source_run_utf8_b64'', JStr (b64encode (utf8_encode (source_run effect)))),
       (''commit_oid'', oid)]) }"

definition pr_body :: "string \<Rightarrow> bytes \<Rightarrow> bytes" where
  "pr_body rationale public = utf8_encode (rationale @ [newline, newline] @
     ''<!-- vuoro-protected-publication/v1 '' @ b64encode public @ '' -->'' @ [newline])"

definition local_ready_ok :: "json \<Rightarrow> json \<Rightarrow> json \<Rightarrow> bool" where
  "local_ready_ok v params binding \<longleftrightarrow>
     (case str_fld params ''base_commit'' of
        None \<Rightarrow> False
      | Some base \<Rightarrow>
          list_all (\<lambda>k. has v k (\<lambda>x. oid_ok x \<and> (case x of JStr s \<Rightarrow> length s = length base | _ \<Rightarrow> False)))
            [''commit_oid'', ''tree_oid'', ''base_parent_oid''] \<and>
          fld v ''base_parent_oid'' = Some (JStr base)) \<and>
     eq_flds v ''signer_fingerprint'' binding ''signer_fingerprint'' \<and>
     eq_flds v ''public_key_sha256'' binding ''public_key_sha256'' \<and>
     has v ''artifact_sha256'' (digest_ok True) \<and>
     has v ''artifact_relative_path'' (\<lambda>p. text_upto 1024 False p \<and>
       (case p of JStr s \<Rightarrow> artifact_path_ok s | _ \<Rightarrow> False)) \<and>
     has v ''message_utf8_b64'' (\<lambda>m. case b64_text 16384 m of None \<Rightarrow> False
       | Some message \<Rightarrow> fld v ''message_sha256'' = Some (JStr (hash_of True message)))"

definition request_digest :: "seen \<Rightarrow> event_type \<Rightarrow> json option" where
  "request_digest seen kind = map_option (\<lambda>r. JStr (hash_of True (canonical r))) (map_of seen kind)"

definition observed_state :: "seen \<Rightarrow> string option" where
  "observed_state seen = Option.bind (map_of seen PR_OBSERVED) (\<lambda>ob. str_fld ob ''state'')"

definition terminal_ok :: "json \<Rightarrow> event_type \<Rightarrow> seen \<Rightarrow> bool" where
  "terminal_ok v kind seen \<longleftrightarrow>
     (case str_fld v ''reason'' of
        None \<Rightarrow> False
      | Some reason \<Rightarrow>
          reason \<in> (if kind = REFUSED then {''original-pr-closed''}
            else {''original-branch-mismatch'', ''original-pr-mismatch'', ''original-artifact-mismatch''}) \<and>
          (if reason = ''original-artifact-mismatch''
           then fld v ''operation'' = Some JNull \<and> fld v ''request_sha256'' = Some JNull \<and>
             map_of seen LOCAL_READY \<noteq> None
           else (let op = (if reason = ''original-branch-mismatch'' then BranchCreate else PrCreate)
                 in fld v ''operation'' = Some (JStr (operation_name op)) \<and>
                    map_of seen (operation_event op) \<noteq> None \<and>
                    fld v ''request_sha256'' = request_digest seen (operation_event op)))) \<and>
     (kind = REFUSED \<longrightarrow> observed_state seen = Some ''closed'')"

text \<open>The checks on the fields shared by requests, observations and the outcome, where they are present.\<close>

definition opt_eq :: "json \<Rightarrow> string \<Rightarrow> json option \<Rightarrow> bool" where
  "opt_eq v k x = (case fld v k of None \<Rightarrow> True | Some y \<Rightarrow> (case x of None \<Rightarrow> False | Some z \<Rightarrow> py_eq y z))"

definition common_ok :: "journal_record \<Rightarrow> json \<Rightarrow> json \<Rightarrow> effect_data \<Rightarrow> json \<Rightarrow> bool" where
  "common_ok record v local effect binding \<longleftrightarrow>
     (let target = fld binding ''publication_target'' in
     eq_flds v ''commit_oid'' local ''commit_oid'' \<and>
     opt_eq v ''repository'' (Some (JStr (ef_repository effect))) \<and>
     opt_eq v ''branch'' (Some (JStr (''vuoro-protected/'' @ jr_effect_key record))) \<and>
     opt_eq v ''head_repository'' (Option.bind target (\<lambda>t. fld t ''head_repository'')) \<and>
     opt_eq v ''base_branch'' (Option.bind target (\<lambda>t. fld t ''base_branch'')) \<and>
     opt_eq v ''provider_profile_sha256'' (fld binding ''provider_profile_sha256''))"

definition pr_request_ok :: "journal_record \<Rightarrow> json \<Rightarrow> seen \<Rightarrow> json \<Rightarrow> effect_data \<Rightarrow> json \<Rightarrow> json \<Rightarrow> bool" where
  "pr_request_ok record v seen local effect binding params \<longleftrightarrow>
     map_of seen BRANCH_OBSERVED \<noteq> None \<and> eq_flds v ''title'' params ''title'' \<and>
     (case do { p \<leftarrow> public_binding record binding local effect; r \<leftarrow> str_fld params ''rationale'';
                b \<leftarrow> fld v ''body_utf8_b64''; body \<leftarrow> b64_text 32768 b; Some (canonical p, r, body) } of
        None \<Rightarrow> False
      | Some (public, rationale, body) \<Rightarrow> length public \<le> 8192 \<and> body = pr_body rationale public \<and>
          fld v ''body_sha256'' = Some (JStr (hash_of True body)))"

definition observation_ok :: "json \<Rightarrow> event_type \<Rightarrow> seen \<Rightarrow> bool" where
  "observation_ok v kind seen \<longleftrightarrow>
     (let request_type = (if kind = BRANCH_OBSERVED then BRANCH_TRANSMISSION_POSSIBLE else PR_TRANSMISSION_POSSIBLE)
      in case map_of seen request_type of
           None \<Rightarrow> False
         | Some request \<Rightarrow>
             fld v ''request_sha256'' = Some (JStr (hash_of True (canonical request))) \<and>
             list_all (\<lambda>k. k = ''schema'' \<or> eq_flds v k request k) (filter (\<lambda>k. k \<in> set (keys request)) (keys v)) \<and>
             (kind = PR_OBSERVED \<longrightarrow>
                has v ''pr_number'' (integer_ok False) \<and>
                has v ''pr_url'' (\<lambda>u. text_upto 2048 False u \<and> (case u of JStr s \<Rightarrow> url_ok s | _ \<Rightarrow> False)) \<and>
                has v ''state'' (\<lambda>s. s \<in> {JStr ''open'', JStr ''merged'', JStr ''closed''})))"

definition applied_ok :: "json \<Rightarrow> seen \<Rightarrow> bool" where
  "applied_ok v seen \<longleftrightarrow>
     (case map_of seen PR_OBSERVED of
        None \<Rightarrow> False
      | Some pr \<Rightarrow>
          has pr ''state'' (\<lambda>s. s \<in> {JStr ''open'', JStr ''merged''}) \<and>
          map_of seen BRANCH_TRANSMISSION_POSSIBLE \<noteq> None \<and> map_of seen PR_TRANSMISSION_POSSIBLE \<noteq> None \<and>
          fld v ''branch_request_sha256'' = request_digest seen BRANCH_TRANSMISSION_POSSIBLE \<and>
          fld v ''pr_request_sha256'' = request_digest seen PR_TRANSMISSION_POSSIBLE \<and>
          eq_flds v ''pr_number'' pr ''pr_number'' \<and> has v ''pr_number'' (\<lambda>n. as_int n \<noteq> None) \<and>
          eq_flds v ''pr_url'' pr ''pr_url'')"

definition payload :: "journal_record \<Rightarrow> event_type \<Rightarrow> bytes \<Rightarrow> seen \<Rightarrow> effect_data \<Rightarrow> json \<Rightarrow> json option" where
  "payload record kind raw seen effect binding = do {
     v \<leftarrow> read_upto (payload_limit kind) raw;
     ensure (kind \<noteq> BOUND \<and> closed_obj v (payload_fields kind) \<and>
       fld v ''schema'' = Some (JStr (payload_schema kind)));
     params \<leftarrow> read_doc (parameters_utf8 effect);
     if kind = LOCAL_READY then do { ensure (local_ready_ok v params binding); Some v }
     else do {
       ensure (fld v ''effect_key'' = Some (JStr (jr_effect_key record)) \<and>
         fld v ''binding_sha256'' = Some (JStr (hash_of True (jr_binding_utf8 record))));
       if kind \<in> {REFUSED, CONFLICT} then do { ensure (terminal_ok v kind seen); Some v }
       else do {
         local \<leftarrow> map_of seen LOCAL_READY;
         ensure (common_ok record v local effect binding);
         ensure (case kind of
             BRANCH_TRANSMISSION_POSSIBLE \<Rightarrow> eq_flds v ''base_parent_oid'' local ''base_parent_oid''
           | PR_TRANSMISSION_POSSIBLE \<Rightarrow> pr_request_ok record v seen local effect binding params
           | APPLIED \<Rightarrow> applied_ok v seen
           | _ \<Rightarrow> observation_ok v kind seen);
         Some v } } }"

subsection \<open>Loading and verifying a record\<close>

definition events_of :: "string \<Rightarrow> journal_db \<Rightarrow> ((string \<times> nat) \<times> event_type \<times> bytes \<times> string) list" where
  "events_of key db = sort_key (\<lambda>r. snd (fst r)) (filter (\<lambda>r. fst (fst r) = key) (journal_events db))"

definition spent_of :: "string \<Rightarrow> journal_db \<Rightarrow> ((string \<times> operation) \<times> bytes \<times> string) list" where
  "spent_of key db = filter (\<lambda>r. fst r = (key, BranchCreate)) (publication_spent db) @
     filter (\<lambda>r. fst r = (key, PrCreate)) (publication_spent db)"

text \<open>\<open>_load\<close>: the outer option is an exception, the inner one a missing row.\<close>

definition load :: "journal_db \<Rightarrow> string \<Rightarrow> journal_record option option" where
  "load db key =
    (case map_of (effect_bindings db) key of
       None \<Rightarrow> Some None
     | Some row \<Rightarrow> do {
         ensure (bind_sha256 row = hash_of True (bind_utf8 row) \<and> copy_sha256 row = hash_of True (copy_utf8 row) \<and>
           list_all (\<lambda>(_, _, raw, sha). sha = hash_of True raw) (events_of key db) \<and>
           list_all (\<lambda>(_, raw, sha). sha = hash_of True raw) (spent_of key db) \<and>
           (case map_of (applied_outcomes db) key of None \<Rightarrow> True | Some (raw, sha) \<Rightarrow> sha = hash_of True raw));
         Some (Some \<lparr>jr_effect_key = key, jr_binding_utf8 = bind_utf8 row, jr_copy_utf8 = copy_utf8 row,
           jr_events = map (\<lambda>((_, seq), kind, raw, _). \<lparr>ev_seq = seq, ev_type = kind, ev_payload = raw\<rparr>) (events_of key db),
           jr_spent = map (\<lambda>((_, op), raw, _). (op, raw)) (spent_of key db),
           jr_outcome = map_option fst (map_of (applied_outcomes db) key)\<rparr>) })"

definition has_terminal :: "seen \<Rightarrow> bool" where
  "has_terminal seen \<longleftrightarrow> list_ex (\<lambda>t. map_of seen t \<noteq> None) terminal"

definition admit :: "journal_record \<Rightarrow> effect_data \<Rightarrow> json \<Rightarrow> seen \<Rightarrow> event_type \<Rightarrow> bytes \<Rightarrow> json option" where
  "admit record effect binding seen kind raw = do {
     v \<leftarrow> payload record kind raw seen effect binding;
     ensure (kind = LOCAL_READY \<longrightarrow> map fst seen = [BOUND]);
     Some v }"

fun verify_events :: "journal_record \<Rightarrow> effect_data \<Rightarrow> json \<Rightarrow> nat \<Rightarrow> seen \<Rightarrow> journal_event list \<Rightarrow> seen option" where
  "verify_events record effect binding seq seen [] = Some seen"
| "verify_events record effect binding seq seen (e # es) = do {
     ensure (ev_seq e = seq \<and> map_of seen (ev_type e) = None \<and> \<not> has_terminal seen);
     v \<leftarrow> (if seq = 0 then do { ensure (ev_type e = BOUND \<and> ev_payload e = jr_binding_utf8 record); Some binding }
          else admit record effect binding seen (ev_type e) (ev_payload e));
     verify_events record effect binding (Suc seq) (seen @ [(ev_type e, v)]) es }"

text \<open>The checks of \<open>_verify\<close> on the binding and the protected copy, before the events.\<close>

definition verify_head :: "bytes \<Rightarrow> journal_record \<Rightarrow> (effect_data \<times> json) option" where
  "verify_head registry record = do {
     ensure (hex_string 64 (jr_effect_key record));
     binding \<leftarrow> read_upto 16384 (jr_binding_utf8 record);
     ensure (closed_obj binding binding_fields);
     effect \<leftarrow> decode_copy (jr_copy_utf8 record);
     key \<leftarrow> effect_key effect;
     provider \<leftarrow> fld binding ''provider_profile_sha256''; signing \<leftarrow> fld binding ''signing_profile_sha256'';
     target \<leftarrow> fld binding ''publication_target''; fingerprint \<leftarrow> fld binding ''signer_fingerprint'';
     public_key \<leftarrow> fld binding ''public_key_sha256'';
     expected \<leftarrow> binding_value effect (JStr (hash_of True registry)) provider signing target fingerprint public_key;
     ensure (jr_effect_key record = key \<and> jr_binding_utf8 record = canonical expected);
     Some (effect, binding) }"

definition verify :: "bytes \<Rightarrow> journal_record \<Rightarrow> (seen \<times> effect_data \<times> json) option" where
  "verify registry record = do {
     (effect, binding) \<leftarrow> verify_head registry record;
     ensure (jr_events record \<noteq> []);
     seen \<leftarrow> verify_events record effect binding 0 [] (jr_events record);
     ensure (list_all (\<lambda>op. map_of (jr_spent record) op = map_option canonical (map_of seen (operation_event op)))
       [BranchCreate, PrCreate]);
     ensure (jr_outcome record = map_option canonical (map_of seen APPLIED));
     Some (seen, effect, binding) }"

definition record_ok :: "bytes \<Rightarrow> journal_db \<Rightarrow> string \<Rightarrow> bool" where
  "record_ok registry db key \<longleftrightarrow>
     (case load db key of Some (Some r) \<Rightarrow> verify registry r \<noteq> None | _ \<Rightarrow> False)"

definition validate_all :: "bytes \<Rightarrow> journal_db \<Rightarrow> bool" where
  "validate_all registry db \<longleftrightarrow>
     (let ks = map fst (effect_bindings db) in
      list_all (\<lambda>r. fst (fst r) \<in> set ks) (journal_events db) \<and>
      list_all (\<lambda>r. fst (fst r) \<in> set ks) (publication_spent db) \<and>
      list_all (\<lambda>r. fst r \<in> set ks) (applied_outcomes db) \<and>
      list_all (record_ok registry db) ks)"

subsection \<open>Installation and registry rebinding\<close>

definition profile_id_ok :: "string \<Rightarrow> bool" where
  "profile_id_ok s \<longleftrightarrow> length s \<le> 64 \<and>
     (case s of [] \<Rightarrow> False | c # cs \<Rightarrow> is_alnum c \<and> list_all (\<lambda>x. path_char x \<or> x = CHR ''.'') cs)"

fun rebind_chain :: "(string \<times> string \<times> bytes) option \<Rightarrow> rebind_row list \<Rightarrow> bool" where
  "rebind_chain previous [] \<longleftrightarrow> True"
| "rebind_chain previous (r # rs) \<longleftrightarrow>
     hex_string 32 (rb_operation_id r) \<and> text_ok (JStr (rb_host_id r)) \<and> profile_id_ok (rb_profile_id r) \<and>
     read_upto 65536 (rb_old_utf8 r) \<noteq> None \<and> read_upto 65536 (rb_new_utf8 r) \<noteq> None \<and>
     rb_old_sha256 r = hash_of True (rb_old_utf8 r) \<and> rb_new_sha256 r = hash_of True (rb_new_utf8 r) \<and>
     rb_old_sha256 r \<noteq> rb_new_sha256 r \<and>
     (case previous of None \<Rightarrow> True | Some p \<Rightarrow> (rb_host_id r, rb_profile_id r, rb_old_utf8 r) = p) \<and>
     rebind_chain (Some (rb_host_id r, rb_profile_id r, rb_new_utf8 r)) rs"

definition validate_rebind_history :: "journal_db \<Rightarrow> bool" where
  "validate_rebind_history db \<longleftrightarrow> rebind_chain None (registry_rebinds db) \<and>
     (registry_rebinds db \<noteq> [] \<longrightarrow>
        db_host_id db = rb_host_id (last (registry_rebinds db)) \<and>
        db_registry_utf8 db = rb_new_utf8 (last (registry_rebinds db)) \<and>
        db_registry_sha256 db = hash_of True (db_registry_utf8 db))"

definition install_journal :: "string \<Rightarrow> bytes \<Rightarrow> journal_db option" where
  "install_journal host registry = do {
     ensure (text_ok (JStr host)); _ \<leftarrow> read_upto 65536 registry;
     Some \<lparr>db_host_id = host, db_registry_utf8 = registry, db_registry_sha256 = hash_of True registry,
       effect_bindings = [], journal_events = [], publication_spent = [], applied_outcomes = [],
       registry_rebinds = []\<rparr> }"

definition no_effects :: "journal_db \<Rightarrow> bool" where
  "no_effects db \<longleftrightarrow> effect_bindings db = [] \<and> journal_events db = [] \<and> publication_spent db = [] \<and>
     applied_outcomes db = []"

definition rebind_empty_journal :: "string \<Rightarrow> string \<Rightarrow> string \<Rightarrow> bytes \<Rightarrow> string \<Rightarrow> journal_db \<Rightarrow> journal_db option" where
  "rebind_empty_journal host profile expected_old new opid db = do {
     ensure (text_ok (JStr host) \<and> profile_id_ok profile \<and> digest_str True expected_old \<and> hex_string 32 opid);
     _ \<leftarrow> read_upto 65536 new;
     ensure (validate_rebind_history db \<and> db_host_id db = host);
     _ \<leftarrow> read_upto 65536 (db_registry_utf8 db);
     ensure (db_registry_sha256 db = hash_of True (db_registry_utf8 db) \<and> db_registry_sha256 db = expected_old \<and>
       hash_of True new \<noteq> db_registry_sha256 db \<and> no_effects db);
     ensure (registry_rebinds db = [] \<or>
       (rb_host_id (last (registry_rebinds db)), rb_profile_id (last (registry_rebinds db)),
        rb_new_utf8 (last (registry_rebinds db))) = (host, profile, db_registry_utf8 db));
     ensure (opid \<notin> set (map rb_operation_id (registry_rebinds db)));
     let db' = db\<lparr>registry_rebinds := registry_rebinds db @
            [\<lparr>rb_operation_id = opid, rb_host_id = host, rb_profile_id = profile, rb_old_utf8 = db_registry_utf8 db,
              rb_old_sha256 = db_registry_sha256 db, rb_new_utf8 = new, rb_new_sha256 = hash_of True new\<rparr>],
          db_registry_utf8 := new, db_registry_sha256 := hash_of True new\<rparr>;
     ensure (validate_rebind_history db' \<and> no_effects db');
     Some db' }"

subsection \<open>Transactions\<close>

text \<open>
  An open journal: the host and registry it was opened with, whether a commit failed (after which it
  refuses everything), and the database. A failed commit may or may not have reached the disk.
\<close>

record journal_state =
  js_host :: string
  js_registry :: bytes
  js_uncertain :: bool
  js_db :: journal_db

datatype commit = Committed | CommitLost | CommitKept

definition usable :: "journal_state \<Rightarrow> bool" where
  "usable st \<longleftrightarrow> \<not> js_uncertain st \<and> validate_rebind_history (js_db st) \<and>
     db_host_id (js_db st) = js_host st \<and> db_registry_utf8 (js_db st) = js_registry st \<and>
     db_registry_sha256 (js_db st) = hash_of True (js_registry st) \<and> validate_all (js_registry st) (js_db st)"

definition transaction :: "commit \<Rightarrow> (journal_db \<Rightarrow> ('a \<times> journal_db) option) \<Rightarrow> journal_state \<Rightarrow>
    'a option \<times> journal_state" where
  "transaction commit body st =
    (if \<not> usable st then (None, st)
     else case body (js_db st) of
       None \<Rightarrow> (None, st)
     | Some (a, db) \<Rightarrow>
         if \<not> validate_all (js_registry st) db then (None, st)
         else case commit of
           Committed \<Rightarrow> (Some a, st\<lparr>js_db := db\<rparr>)
         | CommitLost \<Rightarrow> (None, st\<lparr>js_uncertain := True\<rparr>)
         | CommitKept \<Rightarrow> (None, st\<lparr>js_uncertain := True, js_db := db\<rparr>))"

definition append_body :: "bytes \<Rightarrow> string \<Rightarrow> event_type \<Rightarrow> bytes \<Rightarrow> operation option \<Rightarrow> bool \<Rightarrow> journal_db \<Rightarrow>
    (bool \<times> journal_db) option" where
  "append_body registry key kind raw op outcome db = do {
     r0 \<leftarrow> load db key; record \<leftarrow> r0;
     (seen, effect, binding) \<leftarrow> verify registry record;
     (case map_of seen kind of
        Some v \<Rightarrow> do { ensure (canonical v = raw); Some (False, db) }
      | None \<Rightarrow> do {
          ensure (\<not> has_terminal seen);
          _ \<leftarrow> admit record effect binding seen kind raw;
          spent \<leftarrow> (case op of None \<Rightarrow> Some (publication_spent db)
            | Some p \<Rightarrow> insert_row (key, p) (raw, hash_of True raw) (publication_spent db));
          outcomes \<leftarrow> (if outcome then insert_row key (raw, hash_of True raw) (applied_outcomes db)
            else Some (applied_outcomes db));
          events \<leftarrow> insert_row (key, length (jr_events record)) (kind, raw, hash_of True raw) (journal_events db);
          Some (True, db\<lparr>publication_spent := spent, applied_outcomes := outcomes, journal_events := events\<rparr>) }) }"

definition journal_append :: "commit \<Rightarrow> string \<Rightarrow> event_type \<Rightarrow> bytes \<Rightarrow> operation option \<Rightarrow> bool \<Rightarrow> journal_state \<Rightarrow>
    bool option \<times> journal_state" where
  "journal_append commit key kind raw op outcome st =
     transaction commit (append_body (js_registry st) key kind raw op outcome) st"

definition journal_read :: "string \<Rightarrow> journal_state \<Rightarrow> journal_record option option" where
  "journal_read key st = do {
     ensure (hex_string 64 key \<and> usable st);
     load (js_db st) key }"

definition bind_body :: "string \<Rightarrow> bytes \<Rightarrow> bytes \<Rightarrow> journal_db \<Rightarrow> (journal_record \<times> journal_db) option" where
  "bind_body key binding copy db = do {
     cur \<leftarrow> load db key;
     db' \<leftarrow> (case cur of
       None \<Rightarrow> do {
         bs \<leftarrow> insert_row key \<lparr>bind_utf8 = binding, bind_sha256 = hash_of True binding, copy_utf8 = copy,
           copy_sha256 = hash_of True copy\<rparr> (effect_bindings db);
         es \<leftarrow> insert_row (key, 0) (BOUND, binding, hash_of True binding) (journal_events db);
         Some (db\<lparr>effect_bindings := bs, journal_events := es\<rparr>) }
     | Some r \<Rightarrow> do { ensure (jr_binding_utf8 r = binding \<and> jr_copy_utf8 r = copy); Some db });
     r0 \<leftarrow> load db' key; r \<leftarrow> r0;
     Some (r, db') }"

definition bind_data :: "bytes \<Rightarrow> effect_data \<Rightarrow> bytes \<Rightarrow> string \<Rightarrow> string \<Rightarrow> bytes \<Rightarrow> json \<Rightarrow> json \<Rightarrow>
    (string \<times> bytes) option" where
  "bind_data registry effect copy provider signing target_utf8 fingerprint public_key = do {
     e \<leftarrow> decode_copy copy;
     ensure (e = effect);
     target \<leftarrow> read_upto 16384 target_utf8;
     b \<leftarrow> binding_value effect (JStr (hash_of True registry)) (JStr provider) (JStr signing) target fingerprint public_key;
     ensure (length (canonical b) \<le> 16384);
     key \<leftarrow> effect_key effect;
     Some (key, canonical b) }"

definition journal_bind :: "commit \<Rightarrow> effect_data \<Rightarrow> bytes \<Rightarrow> string \<Rightarrow> string \<Rightarrow> bytes \<Rightarrow> json \<Rightarrow> json \<Rightarrow> journal_state \<Rightarrow>
    journal_record option \<times> journal_state" where
  "journal_bind commit effect copy provider signing target_utf8 fingerprint public_key st =
    (case bind_data (js_registry st) effect copy provider signing target_utf8 fingerprint public_key of
       None \<Rightarrow> (None, st)
     | Some (key, binding) \<Rightarrow> transaction commit (bind_body key binding copy) st)"

definition then_read :: "string \<Rightarrow> bool option \<times> journal_state \<Rightarrow> journal_record option option \<times> journal_state" where
  "then_read key p = (case p of (None, st) \<Rightarrow> (None, st) | (Some _, st) \<Rightarrow> (journal_read key st, st))"

definition record_local_ready :: "commit \<Rightarrow> string \<Rightarrow> bytes \<Rightarrow> journal_state \<Rightarrow>
    journal_record option option \<times> journal_state" where
  "record_local_ready commit key raw st = then_read key (journal_append commit key LOCAL_READY raw None False st)"

definition mark_spent :: "commit \<Rightarrow> string \<Rightarrow> operation \<Rightarrow> bytes \<Rightarrow> journal_state \<Rightarrow> bool option \<times> journal_state" where
  "mark_spent commit key op raw st = journal_append commit key (operation_event op) raw (Some op) False st"

definition record_observed :: "commit \<Rightarrow> string \<Rightarrow> event_type \<Rightarrow> bytes \<Rightarrow> journal_state \<Rightarrow>
    journal_record option option \<times> journal_state" where
  "record_observed commit key kind raw st =
    (if kind \<in> {BRANCH_OBSERVED, PR_OBSERVED, REFUSED, CONFLICT}
     then then_read key (journal_append commit key kind raw None False st) else (None, st))"

definition record_outcome :: "commit \<Rightarrow> string \<Rightarrow> bytes \<Rightarrow> journal_state \<Rightarrow>
    journal_record option option \<times> journal_state" where
  "record_outcome commit key raw st = then_read key (journal_append commit key APPLIED raw None True st)"

definition registry_rebind_receipt :: "string \<Rightarrow> journal_state \<Rightarrow>
    (string \<times> string \<times> string \<times> string \<times> string) option option" where
  "registry_rebind_receipt opid st = do {
     ensure (hex_string 32 opid \<and> usable st);
     Some (map_option (\<lambda>r. (rb_operation_id r, rb_host_id r, rb_profile_id r, rb_old_sha256 r, rb_new_sha256 r))
       (find (\<lambda>r. rb_operation_id r = opid) (registry_rebinds (js_db st)))) }"

subsection \<open>Reading back\<close>

lemma read_canonical: "read_upto m raw = Some v \<Longrightarrow> canonical v = raw"
  by (auto simp: read_upto_def bind_eq_Some_conv)

lemma payload_read: "payload r k raw seen e b = Some v \<Longrightarrow> canonical v = raw \<and> k \<noteq> BOUND"
  by (auto simp: payload_def bind_eq_Some_conv read_canonical split: if_splits)

lemma admit_read: "admit r e b seen k raw = Some v \<Longrightarrow> canonical v = raw \<and> k \<noteq> BOUND"
  by (auto simp: admit_def bind_eq_Some_conv dest!: payload_read)

lemma payload_cong:
  assumes "jr_effect_key r = jr_effect_key r'" "jr_binding_utf8 r = jr_binding_utf8 r'"
  shows "payload r = payload r'"
proof -
  have p: "public_binding r = public_binding r'" by (intro ext) (simp add: public_binding_def assms)
  have c: "common_ok r = common_ok r'" by (intro ext) (simp add: common_ok_def assms)
  have q: "pr_request_ok r = pr_request_ok r'" by (intro ext) (simp add: pr_request_ok_def p)
  show ?thesis by (intro ext) (simp only: payload_def assms c q)
qed

lemma verify_events_cong:
  assumes "jr_effect_key r = jr_effect_key r'" "jr_binding_utf8 r = jr_binding_utf8 r'"
  shows "verify_events r e b n seen es = verify_events r' e b n seen es"
  by (induction es arbitrary: n seen) (simp_all add: assms admit_def payload_cong [OF assms])

lemma verify_events_append:
  "verify_events r e b n seen (xs @ ys) =
    Option.bind (verify_events r e b n seen xs) (\<lambda>s. verify_events r e b (n + length xs) s ys)"
  by (induction xs arbitrary: n seen) (auto simp: Option.bind_assoc cong: Option.bind_cong)

lemma verify_events_shape:
  "verify_events r e b n seen es = Some seen' \<Longrightarrow>
    map fst seen' = map fst seen @ map ev_type es \<and> map ev_seq es = [n..<n + length es]"
proof (induction es arbitrary: n seen)
  case (Cons x es)
  then obtain v where "ev_seq x = n" "verify_events r e b (Suc n) (seen @ [(ev_type x, v)]) es = Some seen'"
    by (auto simp: bind_eq_Some_conv)
  with Cons.IH [OF this(2)] show ?case by (simp add: upt_conv_Cons del: upt_Suc)
qed simp

subsection \<open>Rows of other keys\<close>

lemma sort_key_snoc:
  assumes "\<forall>y \<in> set xs. f y \<le> f x"
  shows "sort_key f (xs @ [x]) = sort_key f xs @ [x]"
proof (rule properties_for_sort_key)
  show "mset (sort_key f xs @ [x]) = mset (xs @ [x])" by simp
  show "filter (\<lambda>y. f k = f y) (sort_key f xs @ [x]) = filter (\<lambda>y. f k = f y) (xs @ [x])" for k
    using sort_key_stable [of f "f k" xs] by (simp add: eq_commute)
  show "sorted (map f (sort_key f xs @ [x]))" using assms by (auto simp: sorted_append)
qed

lemma insert_row_Some: "insert_row k v t = Some t' \<longleftrightarrow> map_of t k = None \<and> t' = t @ [(k, v)]"
  by (auto simp: insert_row_def)

lemma spent_lookup:
  "map_of (map (\<lambda>((_, op), raw, _). (op, raw)) (spent_of key db)) op =
    map_option fst (map_of (publication_spent db) (key, op))"
proof -
  have "map_of (map (\<lambda>((_, op), raw, _). (op, raw)) (filter (\<lambda>r. fst r = (key, p)) t)) op =
      (if op = p then map_option fst (map_of t (key, op)) else None)" for p and t :: "((string \<times> operation) \<times> bytes \<times> string) list"
    by (induction t) auto
  then show ?thesis by (cases op) (auto simp: spent_of_def map_add_def split: option.splits)
qed

lemma verify_Some:
  "verify reg r = Some (seen, e, b) \<longleftrightarrow>
     verify_head reg r = Some (e, b) \<and> jr_events r \<noteq> [] \<and>
     verify_events r e b 0 [] (jr_events r) = Some seen \<and>
     (\<forall>op. map_of (jr_spent r) op = map_option canonical (map_of seen (operation_event op))) \<and>
     jr_outcome r = map_option canonical (map_of seen APPLIED)"
proof -
  have "(\<forall>op. P op) \<longleftrightarrow> P BranchCreate \<and> P PrCreate" for P by (metis operation.exhaust)
  then show ?thesis by (auto simp: verify_def bind_eq_Some_conv)
qed

lemma load_Some:
  "load db key = Some (Some r) \<Longrightarrow> jr_effect_key r = key \<and> (\<exists>row. map_of (effect_bindings db) key = Some row \<and>
     jr_binding_utf8 r = bind_utf8 row \<and> jr_copy_utf8 r = copy_utf8 row) \<and>
     jr_events r = map (\<lambda>((_, seq), kind, raw, _). \<lparr>ev_seq = seq, ev_type = kind, ev_payload = raw\<rparr>) (events_of key db) \<and>
     jr_spent r = map (\<lambda>((_, op), raw, _). (op, raw)) (spent_of key db) \<and>
     jr_outcome r = map_option fst (map_of (applied_outcomes db) key)"
  by (auto simp: load_def bind_eq_Some_conv split: option.splits)

definition op_ok :: "event_type \<Rightarrow> operation option \<Rightarrow> bool \<Rightarrow> bool" where
  "op_ok kind op outcome \<longleftrightarrow> (\<forall>p. op = Some p \<longleftrightarrow> kind = operation_event p) \<and> (outcome \<longleftrightarrow> kind = APPLIED)"

text \<open>What an append that adds an event does to the tables.\<close>

definition appended :: "string \<Rightarrow> event_type \<Rightarrow> bytes \<Rightarrow> operation option \<Rightarrow> bool \<Rightarrow> nat \<Rightarrow> journal_db \<Rightarrow> journal_db" where
  "appended key kind raw op outcome n db = db\<lparr>
     publication_spent := publication_spent db @ (case op of None \<Rightarrow> [] | Some p \<Rightarrow> [((key, p), raw, hash_of True raw)]),
     applied_outcomes := applied_outcomes db @ (if outcome then [(key, raw, hash_of True raw)] else []),
     journal_events := journal_events db @ [((key, n), kind, raw, hash_of True raw)]\<rparr>"

lemma append_body_cases:
  assumes "append_body reg key kind raw op outcome db = Some (b, db')"
  obtains rec seen e bnd where "load db key = Some (Some rec)" "verify reg rec = Some (seen, e, bnd)"
    "b = (map_of seen kind = None)"
    "\<not> b \<Longrightarrow> db' = db \<and> map_option canonical (map_of seen kind) = Some raw"
    "b \<Longrightarrow> \<not> has_terminal seen \<and> (\<exists>v. admit rec e bnd seen kind raw = Some v) \<and>
       db' = appended key kind raw op outcome (length (jr_events rec)) db \<and>
       (\<forall>p. op = Some p \<longrightarrow> map_of (publication_spent db) (key, p) = None) \<and>
       (outcome \<longrightarrow> map_of (applied_outcomes db) key = None)"
proof -
  obtain rec seen e bnd where r: "load db key = Some (Some rec)" "verify reg rec = Some (seen, e, bnd)"
    using assms by (auto simp: append_body_def bind_eq_Some_conv)
  show thesis
  proof (cases "map_of seen kind")
    case None
    show thesis
      by (rule that [OF r]) (use assms r None in \<open>auto simp: append_body_def bind_eq_Some_conv appended_def
          insert_row_Some split: option.splits if_splits\<close>)
  next
    case (Some v)
    show thesis by (rule that [OF r]) (use assms r Some in \<open>auto simp: append_body_def bind_eq_Some_conv\<close>)
  qed
qed

lemma load_appended_other: "k \<noteq> key \<Longrightarrow> load (appended key kind raw op outcome n db) k = load db k"
  by (auto simp: load_def appended_def events_of_def spent_of_def map_add_def split: option.splits)

lemma event_seqs:
  assumes "load db key = Some (Some r)" "verify reg r = Some (seen, e, b)"
  shows "map (\<lambda>x. snd (fst x)) (events_of key db) = [0..<length (jr_events r)]"
    "map fst seen = map ev_type (jr_events r)"
proof -
  have "map ev_seq (jr_events r) = [0..<length (jr_events r)] \<and> map fst seen = map ev_type (jr_events r)"
    using verify_events_shape [of r e b 0 "[]" "jr_events r" seen] assms(2) by (simp add: verify_Some)
  moreover have "map ev_seq (jr_events r) = map (\<lambda>x. snd (fst x)) (events_of key db)"
    using load_Some [OF assms(1)] by (auto simp: case_prod_beta comp_def)
  ultimately show "map (\<lambda>x. snd (fst x)) (events_of key db) = [0..<length (jr_events r)]"
    "map fst seen = map ev_type (jr_events r)" by auto
qed

lemma events_of_appended:
  assumes "load db key = Some (Some r)" "verify reg r = Some (seen, e, b)"
  shows "events_of key (appended key kind raw op outcome (length (jr_events r)) db) =
    events_of key db @ [((key, length (jr_events r)), kind, raw, hash_of True raw)]"
proof -
  let ?n = "length (jr_events r)"
  have "set (map (\<lambda>x. snd (fst x)) (events_of key db)) = {0..<?n}"
    unfolding event_seqs(1) [OF assms] by (rule set_upt)
  then have "\<forall>y \<in> set (events_of key db). snd (fst y) < ?n"
    by (metis (no_types, lifting) atLeastLessThan_iff image_eqI list.set_map)
  then have "\<forall>y \<in> set (filter (\<lambda>r. fst (fst r) = key) (journal_events db)).
      snd (fst y) \<le> snd (fst ((key, ?n), kind, raw, hash_of True raw))"
    by (auto simp: events_of_def less_imp_le)
  from sort_key_snoc [OF this] show ?thesis by (simp add: events_of_def appended_def)
qed

lemma load_appended:
  assumes "load db key = Some (Some r)" "verify reg r = Some (seen, e, b)"
    "\<forall>p. op = Some p \<longrightarrow> map_of (publication_spent db) (key, p) = None"
    "outcome \<longrightarrow> map_of (applied_outcomes db) key = None"
  shows "load (appended key kind raw op outcome (length (jr_events r)) db) key = Some (Some (r\<lparr>
    jr_events := jr_events r @ [\<lparr>ev_seq = length (jr_events r), ev_type = kind, ev_payload = raw\<rparr>],
    jr_spent := map (\<lambda>((_, op), raw, _). (op, raw))
      (spent_of key (appended key kind raw op outcome (length (jr_events r)) db)),
    jr_outcome := (if outcome then Some raw else jr_outcome r)\<rparr>))"
proof -
  let ?db = "appended key kind raw op outcome (length (jr_events r)) db"
  have es: "events_of key ?db = events_of key db @ [((key, length (jr_events r)), kind, raw, hash_of True raw)]"
    by (rule events_of_appended [OF assms(1,2)])
  have sp: "list_all (\<lambda>(_, raw, sha). sha = hash_of True raw) (spent_of key ?db) =
      list_all (\<lambda>(_, raw, sha). sha = hash_of True raw) (spent_of key db)"
    by (cases op) (simp_all add: spent_of_def appended_def)
  have oc: "map_of (applied_outcomes ?db) key = (if outcome then Some (raw, hash_of True raw) else map_of (applied_outcomes db) key)"
    using assms(4) by (auto simp: appended_def map_add_def split: option.splits)
  have bd: "effect_bindings ?db = effect_bindings db" by (simp add: appended_def)
  show ?thesis using assms(1) unfolding load_def es sp oc bd
    by (auto simp: bind_eq_Some_conv split: option.splits)
qed

lemma append_valid:
  assumes "validate_all reg db" "append_body reg key kind raw op outcome db = Some (b, db')" "op_ok kind op outcome"
  shows "validate_all reg db'"
proof (rule append_body_cases [OF assms(2)])
  fix r seen e bnd
  assume r: "load db key = Some (Some r)" "verify reg r = Some (seen, e, bnd)" "b = (map_of seen kind = None)"
    and same: "\<not> b \<Longrightarrow> db' = db \<and> map_option canonical (map_of seen kind) = Some raw"
    and new: "b \<Longrightarrow> \<not> has_terminal seen \<and> (\<exists>v. admit r e bnd seen kind raw = Some v) \<and>
       db' = appended key kind raw op outcome (length (jr_events r)) db \<and>
       (\<forall>p. op = Some p \<longrightarrow> map_of (publication_spent db) (key, p) = None) \<and>
       (outcome \<longrightarrow> map_of (applied_outcomes db) key = None)"
  show ?thesis
  proof (cases b)
    case False
    then show ?thesis using same assms(1) by simp
  next
    case True
    then obtain v where v: "admit r e bnd seen kind raw = Some v" "\<not> has_terminal seen"
      and db': "db' = appended key kind raw op outcome (length (jr_events r)) db"
      and fresh: "\<forall>p. op = Some p \<longrightarrow> map_of (publication_spent db) (key, p) = None"
        "outcome \<longrightarrow> map_of (applied_outcomes db) key = None"
      using new by blast
    have cv: "canonical v = raw" "kind \<noteq> BOUND" using admit_read [OF v(1)] by auto
    let ?seen = "seen @ [(kind, v)]"
    define r' where "r' = r\<lparr>jr_events := jr_events r @ [\<lparr>ev_seq = length (jr_events r), ev_type = kind, ev_payload = raw\<rparr>],
      jr_spent := map (\<lambda>((_, op), raw, _). (op, raw)) (spent_of key db'),
      jr_outcome := (if outcome then Some raw else jr_outcome r)\<rparr>"
    have load': "load db' key = Some (Some r')"
      using load_appended [OF r(1,2) fresh] db' by (simp add: r'_def)
    have old: "verify_head reg r = Some (e, bnd)" "jr_events r \<noteq> []"
      "verify_events r e bnd 0 [] (jr_events r) = Some seen"
      "\<forall>op. map_of (jr_spent r) op = map_option canonical (map_of seen (operation_event op))"
      "jr_outcome r = map_option canonical (map_of seen APPLIED)"
      using r(2) by (auto simp: verify_Some)
    have "verify_head reg r' = Some (e, bnd)" using old(1) by (simp add: verify_head_def r'_def)
    moreover have "verify_events r' e bnd 0 [] (jr_events r') = Some ?seen"
    proof -
      have c: "verify_events r' e bnd n s es = verify_events r e bnd n s es" for n s es
        by (rule verify_events_cong) (simp_all add: r'_def)
      show ?thesis unfolding c using old(2,3) v r(3) True
        by (simp add: r'_def verify_events_append)
    qed
    moreover have "map_of (jr_spent r') p = map_option canonical (map_of ?seen (operation_event p))" for p
    proof -
      have k: "jr_spent r = map (\<lambda>((_, op), raw, _). (op, raw)) (spent_of key db)" using load_Some [OF r(1)] by blast
      have o: "map_of (jr_spent r') p = map_option fst (map_of (publication_spent db') (key, p))"
        by (simp add: r'_def spent_lookup)
      have n: "map_of (jr_spent r) p = map_option fst (map_of (publication_spent db) (key, p))"
        unfolding k by (rule spent_lookup)
      show ?thesis
      proof (cases "kind = operation_event p")
        case True
        then have "op = Some p" using assms(3) by (simp add: op_ok_def)
        then show ?thesis using True r(3) \<open>b\<close> cv fresh(1) unfolding o db'
          by (simp add: appended_def map_add_def)
      next
        case False
        then have "op \<noteq> Some p" using assms(3) by (simp add: op_ok_def)
        then have "map_of (publication_spent db') (key, p) = map_of (publication_spent db) (key, p)"
          by (auto simp: db' appended_def map_add_def split: option.splits)
        moreover have "map_of ?seen (operation_event p) = map_of seen (operation_event p)"
          using False by (simp add: map_add_def split: option.split)
        ultimately show ?thesis using old(4) n unfolding o by metis
      qed
    qed
    moreover have "jr_outcome r' = map_option canonical (map_of ?seen APPLIED)"
      using old(5) assms(3) cv r(3) True by (auto simp: r'_def op_ok_def map_add_def split: option.splits)
    ultimately have "verify reg r' = Some (?seen, e, bnd)" by (simp add: verify_Some) (simp add: r'_def)
    then have "record_ok reg db' key" using load' by (simp add: record_ok_def)
    moreover have "record_ok reg db' k = record_ok reg db k" if "k \<noteq> key" for k
      using load_appended_other [OF that] by (simp add: record_ok_def db')
    ultimately have "\<forall>k \<in> fst ` set (effect_bindings db). record_ok reg db' k"
      using assms(1) unfolding validate_all_def Let_def list_all_iff by (metis list.set_map)
    moreover have key: "key \<in> fst ` set (effect_bindings db)"
      using load_Some [OF r(1)] by (auto dest: map_of_SomeD intro: rev_image_eqI)
    moreover have "effect_bindings db' = effect_bindings db"
      "\<forall>x \<in> set (journal_events db'). x \<in> set (journal_events db) \<or> fst (fst x) = key"
      "\<forall>x \<in> set (publication_spent db'). x \<in> set (publication_spent db) \<or> fst (fst x) = key"
      "\<forall>x \<in> set (applied_outcomes db'). x \<in> set (applied_outcomes db) \<or> fst x = key"
      by (auto simp: db' appended_def split: option.splits if_splits)
    ultimately show ?thesis using assms(1) unfolding validate_all_def Let_def list_all_iff list.set_map
      by metis
  qed
qed

subsection \<open>Calls as steps\<close>

datatype journal_op =
    OpBind effect_data bytes string string bytes json json
  | OpLocalReady string bytes
  | OpSpent string operation bytes
  | OpObserved string event_type bytes
  | OpOutcome string bytes
  | OpReopen
  | OpCloseFailed

datatype journal_answer = Refused | Marked bool | Recorded "journal_record option" | Reopened

definition answer_of :: "('a \<Rightarrow> journal_answer) \<Rightarrow> 'a option \<Rightarrow> journal_answer" where
  "answer_of f x = (case x of None \<Rightarrow> Refused | Some a \<Rightarrow> f a)"

text \<open>\<open>OpReopen\<close> is a new process opening the journal: it validates and starts without the uncertainty.
  \<open>OpCloseFailed\<close> is the end of a cycle whose lock or connection could not be released.\<close>

fun journal_exec :: "commit \<Rightarrow> journal_op \<Rightarrow> journal_state \<Rightarrow> journal_answer \<times> journal_state" where
  "journal_exec c (OpBind e copy p s t f k) st = apfst (answer_of (\<lambda>r. Recorded (Some r))) (journal_bind c e copy p s t f k st)"
| "journal_exec c (OpLocalReady key raw) st = apfst (answer_of Recorded) (record_local_ready c key raw st)"
| "journal_exec c (OpSpent key op raw) st = apfst (answer_of Marked) (mark_spent c key op raw st)"
| "journal_exec c (OpObserved key kind raw) st = apfst (answer_of Recorded) (record_observed c key kind raw st)"
| "journal_exec c (OpOutcome key raw) st = apfst (answer_of Recorded) (record_outcome c key raw st)"
| "journal_exec c OpReopen st =
     (if usable (st\<lparr>js_uncertain := False\<rparr>) then (Reopened, st\<lparr>js_uncertain := False\<rparr>) else (Refused, st))"
| "journal_exec c OpCloseFailed st = (Refused, st\<lparr>js_uncertain := True\<rparr>)"

inductive journal_step :: "journal_state \<Rightarrow> commit \<times> journal_op \<times> journal_answer \<Rightarrow> journal_state \<Rightarrow> bool" where
  "journal_exec c op st = (ans, st') \<Longrightarrow> journal_step st (c, op, ans) st'"

inductive_simps journal_step_iff: "journal_step st (c, op, ans) st'"

definition open_journal :: "string \<Rightarrow> bytes \<Rightarrow> journal_db \<Rightarrow> journal_state" where
  "open_journal host registry db = \<lparr>js_host = host, js_registry = registry, js_uncertain = False, js_db = db\<rparr>"

text \<open>Every call is one append, one bind, or leaves the database alone.\<close>

definition db_change :: "bytes \<Rightarrow> journal_db \<Rightarrow> journal_db \<Rightarrow> bool" where
  "db_change reg db db' \<longleftrightarrow> db' = db \<or>
     (\<exists>key kind raw op outcome b. append_body reg key kind raw op outcome db = Some (b, db') \<and> op_ok kind op outcome) \<or>
     (\<exists>key binding copy r. bind_body key binding copy db = Some (r, db') \<and> validate_all reg db')"

lemma transaction_db:
  assumes "transaction c body st = (a, st')"
  shows "js_host st' = js_host st \<and> js_registry st' = js_registry st \<and>
    (js_db st' = js_db st \<or> (\<exists>x. body (js_db st) = Some (x, js_db st') \<and> validate_all (js_registry st) (js_db st')))"
  using assms by (auto simp: transaction_def split: if_splits option.splits commit.splits)

lemma op_ok_simps [simp]:
  "op_ok LOCAL_READY None False" "op_ok APPLIED None True" "op_ok (operation_event p) (Some p) False"
  "kind \<in> {BRANCH_OBSERVED, PR_OBSERVED, REFUSED, CONFLICT} \<Longrightarrow> op_ok kind None False"
  by (auto simp: op_ok_def operation_event_def split: operation.splits)

lemma journal_append_db:
  assumes "journal_append c key kind raw op outcome st = (a, st')" "op_ok kind op outcome"
  shows "js_host st' = js_host st \<and> js_registry st' = js_registry st \<and> db_change (js_registry st) (js_db st) (js_db st')"
  using transaction_db [OF assms(1) [unfolded journal_append_def]] assms(2) by (fastforce simp: db_change_def)

lemma then_read_state: "snd (then_read key p) = snd p"
  by (auto simp: then_read_def split: prod.split option.split)

lemma journal_exec_db:
  assumes "journal_exec c op st = (a, st')"
  shows "js_host st' = js_host st \<and> js_registry st' = js_registry st \<and> db_change (js_registry st) (js_db st) (js_db st')"
proof -
  have st': "st' = snd (journal_exec c op st)" using assms by simp
  note app = journal_append_db [OF surjective_pairing]
  show ?thesis
  proof (cases op)
    case (OpBind e copy p s t f k)
    have "js_host (snd (journal_bind c e copy p s t f k st)) = js_host st \<and>
      js_registry (snd (journal_bind c e copy p s t f k st)) = js_registry st \<and>
      db_change (js_registry st) (js_db st) (js_db (snd (journal_bind c e copy p s t f k st)))"
      using transaction_db [OF surjective_pairing]
      by (auto simp: journal_bind_def db_change_def split: option.splits) blast+
    then show ?thesis using OpBind st' by simp
  qed (use st' app in \<open>auto simp: record_local_ready_def mark_spent_def record_observed_def record_outcome_def
        then_read_state db_change_def\<close>)
qed

definition journal_inv :: "journal_state \<Rightarrow> bool" where
  "journal_inv st \<longleftrightarrow> usable (st\<lparr>js_uncertain := False\<rparr>)"

lemma bind_body_cases:
  assumes "bind_body key binding copy db = Some (r, db')"
  shows "db' = db \<or> map_of (effect_bindings db) key = None \<and> db' = db\<lparr>
    effect_bindings := effect_bindings db @ [(key, \<lparr>bind_utf8 = binding, bind_sha256 = hash_of True binding,
      copy_utf8 = copy, copy_sha256 = hash_of True copy\<rparr>)],
    journal_events := journal_events db @ [((key, 0), BOUND, binding, hash_of True binding)]\<rparr>"
  using assms by (auto simp: bind_body_def bind_eq_Some_conv insert_row_Some split: option.splits)

lemma append_body_appended:
  assumes "append_body reg key kind raw op outcome db = Some (b, db')"
  shows "db' = db \<or> (\<exists>n. db' = appended key kind raw op outcome n db)"
  by (rule append_body_cases [OF assms]) blast

lemma db_change_rows:
  assumes "db_change reg db db'"
  shows "db_host_id db' = db_host_id db \<and> db_registry_utf8 db' = db_registry_utf8 db \<and>
    db_registry_sha256 db' = db_registry_sha256 db \<and> registry_rebinds db' = registry_rebinds db \<and>
    prefix (journal_events db) (journal_events db') \<and> prefix (publication_spent db) (publication_spent db') \<and>
    prefix (effect_bindings db) (effect_bindings db') \<and> prefix (applied_outcomes db) (applied_outcomes db')"
  using assms unfolding db_change_def
  by (elim disjE exE conjE)
    (auto dest!: append_body_appended bind_body_cases simp: appended_def)

lemma db_change_valid: "validate_all reg db \<Longrightarrow> db_change reg db db' \<Longrightarrow> validate_all reg db'"
  unfolding db_change_def using append_valid by blast

lemma journal_inv_step:
  assumes "journal_inv st" "journal_exec c op st = (a, st')"
  shows "journal_inv st'"
proof -
  note ch = journal_exec_db [OF assms(2)]
  then have d: "db_change (js_registry st) (js_db st) (js_db st')" by blast
  show ?thesis
    using assms(1) ch db_change_rows [OF d] db_change_valid [OF _ d]
    by (auto simp: journal_inv_def usable_def validate_rebind_history_def)
qed

interpretation journal_sys: step_invariant journal_step journal_inv
  by unfold_locales (auto elim!: journal_step.cases intro: journal_inv_step)

lemma journal_step_rows:
  assumes "journal_step st l st'"
  shows "prefix (journal_events (js_db st)) (journal_events (js_db st')) \<and>
    prefix (publication_spent (js_db st)) (publication_spent (js_db st')) \<and>
    prefix (effect_bindings (js_db st)) (effect_bindings (js_db st')) \<and>
    prefix (applied_outcomes (js_db st)) (applied_outcomes (js_db st'))"
  using assms by cases (use journal_exec_db db_change_rows in blast)

interpretation event_rows: append_only journal_step journal_inv "\<lambda>st. journal_events (js_db st)"
  by unfold_locales (use journal_step_rows in blast)

interpretation spent_rows: append_only journal_step journal_inv "\<lambda>st. publication_spent (js_db st)"
  by unfold_locales (use journal_step_rows in blast)

text \<open>The keys and operations a label marks as spent for the first time.\<close>

fun first_spent :: "commit \<times> journal_op \<times> journal_answer \<Rightarrow> (string \<times> operation) option" where
  "first_spent (c, OpSpent key op raw, Marked True) = Some (key, op)"
| "first_spent _ = None"

lemma first_spent_Some:
  "first_spent l = Some (key, op) \<longleftrightarrow> (\<exists>c raw. l = (c, OpSpent key op raw, Marked True))"
  by (cases l rule: first_spent.cases) auto

lemma mark_spent_True:
  assumes "mark_spent c key op raw st = (Some True, st')"
  shows "(key, op) \<notin> fst ` set (publication_spent (js_db st)) \<and> (key, op) \<in> fst ` set (publication_spent (js_db st'))"
proof -
  have t: "append_body (js_registry st) key (operation_event op) raw (Some op) False (js_db st) = Some (True, js_db st')"
    using assms by (auto simp: mark_spent_def journal_append_def transaction_def split: if_splits option.splits commit.splits)
  show ?thesis
    by (rule append_body_cases [OF t]) (auto simp: appended_def map_of_eq_None_iff)
qed

interpretation journal_spending: at_most_once journal_step journal_inv first_spent
    "\<lambda>st. fst ` set (publication_spent (js_db st))"
proof unfold_locales
  fix st l st' and k :: "string \<times> operation"
  assume s: "journal_step st l st'" and a: "first_spent l = Some k"
  obtain key op where k: "k = (key, op)" by fastforce
  then obtain c raw where l: "l = (c, OpSpent key op raw, Marked True)" using a by (auto simp: first_spent_Some)
  then have "mark_spent c key op raw st = (Some True, st')"
    using s by (auto simp: journal_step_iff answer_of_def apfst_def map_prod_def split: prod.splits option.splits)
  from mark_spent_True [OF this] show "k \<notin> fst ` set (publication_spent (js_db st))"
    "k \<in> fst ` set (publication_spent (js_db st'))" using k by auto
next
  fix st l st'
  assume "journal_step st l st'"
  then show "fst ` set (publication_spent (js_db st)) \<subseteq> fst ` set (publication_spent (js_db st'))"
    using journal_step_rows set_mono_prefix image_mono by blast
qed

end
