(* ===== verification/Journal_Safety.thy ===== *)
theory Journal_Safety
  imports Execution_Journal
begin

text \<open>
  What the execution journal guarantees over any sequence of calls, commit failures and restarts: a
  record only grows, its events follow the publication protocol, a publication is marked as spent at
  most once, and a terminal record never changes.
\<close>

subsection \<open>How a record grows\<close>

definition extends :: "journal_record \<Rightarrow> journal_record \<Rightarrow> bool" where
  "extends r r' \<longleftrightarrow> jr_effect_key r' = jr_effect_key r \<and> jr_binding_utf8 r' = jr_binding_utf8 r \<and>
     jr_copy_utf8 r' = jr_copy_utf8 r \<and> prefix (jr_events r) (jr_events r') \<and>
     map_of (jr_spent r) \<subseteq>\<^sub>m map_of (jr_spent r') \<and>
     (jr_outcome r = None \<or> jr_outcome r' = jr_outcome r)"

lemma extends_refl: "extends r r"
  by (simp add: extends_def)

lemma extends_trans: "extends r s \<Longrightarrow> extends s t \<Longrightarrow> extends r t"
  unfolding extends_def using map_le_trans prefix_order.trans by metis

definition settled :: "journal_record \<Rightarrow> bool" where
  "settled r \<longleftrightarrow> (\<exists>x \<in> set (jr_events r). ev_type x \<in> set terminal)"

lemma has_terminal_settled:
  assumes "load db key = Some (Some r)" "verify reg r = Some (seen, e, b)"
  shows "has_terminal seen \<longleftrightarrow> settled r"
proof -
  have "has_terminal seen \<longleftrightarrow> (\<exists>t \<in> set terminal. t \<in> set (map fst seen))"
    unfolding has_terminal_def list_ex_iff by (auto simp: map_of_eq_None_iff)
  then show ?thesis unfolding event_seqs(2) [OF assms] settled_def by (simp only: set_map) blast
qed

lemma bind_new_other:
  assumes "k \<noteq> key"
  shows "load (db\<lparr>effect_bindings := effect_bindings db @ [(key, row)],
    journal_events := journal_events db @ [((key, 0), ev)]\<rparr>) k = load db k"
  using assms by (auto simp: load_def events_of_def spent_of_def map_add_def split: option.splits)

lemma db_change_record:
  assumes "validate_all reg db" "db_change reg db db'" "load db k = Some (Some r)"
  shows "\<exists>r'. load db' k = Some (Some r') \<and> extends r r' \<and> (settled r \<longrightarrow> r' = r)"
  using assms(2) unfolding db_change_def
proof (elim disjE exE conjE)
  assume "db' = db"
  then show ?thesis using assms(3) extends_refl by blast
next
  fix key kind raw op outcome b
  assume body: "append_body reg key kind raw op outcome db = Some (b, db')" and ok: "op_ok kind op outcome"
  show ?thesis
  proof (rule append_body_cases [OF body])
    fix rec seen e bnd
    assume r: "load db key = Some (Some rec)" "verify reg rec = Some (seen, e, bnd)" "b = (map_of seen kind = None)"
      and same: "\<not> b \<Longrightarrow> db' = db \<and> map_option canonical (map_of seen kind) = Some raw"
      and new: "b \<Longrightarrow> \<not> has_terminal seen \<and> (\<exists>v. admit rec e bnd seen kind raw = Some v) \<and>
         db' = appended key kind raw op outcome (length (jr_events rec)) db \<and>
         (\<forall>p. op = Some p \<longrightarrow> map_of (publication_spent db) (key, p) = None) \<and>
         (outcome \<longrightarrow> map_of (applied_outcomes db) key = None)"
    show ?thesis
    proof (cases "b \<and> k = key")
      case False
      then show ?thesis using same new assms(3) extends_refl load_appended_other by metis
    next
      case True
      then have k: "r = rec" "b" "k = key" using r(1) assms(3) by auto
      note n = new [OF k(2)]
      let ?db = "appended key kind raw op outcome (length (jr_events rec)) db"
      let ?r = "rec\<lparr>jr_events := jr_events rec @ [\<lparr>ev_seq = length (jr_events rec), ev_type = kind, ev_payload = raw\<rparr>],
        jr_spent := map (\<lambda>((_, op), raw, _). (op, raw)) (spent_of key ?db),
        jr_outcome := (if outcome then Some raw else jr_outcome rec)\<rparr>"
      have l: "load ?db key = Some (Some ?r)" using load_appended [OF r(1,2)] n by blast
      have "map_of (jr_spent rec) \<subseteq>\<^sub>m map_of (jr_spent ?r)"
        using load_Some [OF r(1)] by (auto simp: map_le_def spent_lookup appended_def map_add_def split: option.splits)
      moreover have "jr_outcome rec = None \<or> jr_outcome ?r = jr_outcome rec"
        using load_Some [OF r(1)] n by auto
      ultimately have "extends rec ?r" by (auto simp: extends_def)
      moreover have "\<not> settled rec" using has_terminal_settled [OF r(1,2)] n by blast
      ultimately show ?thesis using l n k by metis
    qed
  qed
next
  fix key binding copy r0
  assume "bind_body key binding copy db = Some (r0, db')"
  from bind_body_cases [OF this] show ?thesis
  proof (elim disjE conjE)
    assume "db' = db"
    then show ?thesis using assms(3) extends_refl by blast
  next
    assume none: "map_of (effect_bindings db) key = None" and db': "db' = db\<lparr>
      effect_bindings := effect_bindings db @ [(key, \<lparr>bind_utf8 = binding, bind_sha256 = hash_of True binding,
        copy_utf8 = copy, copy_sha256 = hash_of True copy\<rparr>)],
      journal_events := journal_events db @ [((key, 0), BOUND, binding, hash_of True binding)]\<rparr>"
    have "k \<noteq> key" using none load_Some [OF assms(3)] by auto
    then have "load db' k = load db k" unfolding db' by (rule bind_new_other)
    then show ?thesis using assms(3) extends_refl by metis
  qed
qed

lemma journal_step_record:
  assumes "journal_step st l st'" "journal_inv st" "load (js_db st) k = Some (Some r)"
  shows "\<exists>r'. load (js_db st') k = Some (Some r') \<and> extends r r' \<and> (settled r \<longrightarrow> r' = r)"
  using assms(1)
proof cases
  case (1 c op ans)
  have "validate_all (js_registry st) (js_db st)" using assms(2) by (simp add: journal_inv_def usable_def)
  then show ?thesis using journal_exec_db [OF 1(2)] db_change_record assms(3) by blast
qed

lemma journal_run_record:
  "run journal_step st ls st' \<Longrightarrow> journal_inv st \<Longrightarrow> load (js_db st) k = Some (Some r) \<Longrightarrow>
    \<exists>r'. load (js_db st') k = Some (Some r') \<and> extends r r' \<and> (settled r \<longrightarrow> r' = r)"
proof (induction arbitrary: r rule: run.induct)
  case (run_nil s)
  then show ?case using extends_refl by blast
next
  case (run_cons s l s' ls s'')
  obtain r1 where r1: "load (js_db s') k = Some (Some r1)" "extends r r1" "settled r \<longrightarrow> r1 = r"
    using journal_step_record [OF run_cons.hyps(1) run_cons.prems] by blast
  moreover have "journal_inv s'" using journal_sys.inv_step run_cons.prems(1) run_cons.hyps(1) by blast
  ultimately obtain r2 where "load (js_db s'') k = Some (Some r2)" "extends r1 r2" "settled r1 \<longrightarrow> r2 = r1"
    using run_cons.IH by blast
  then show ?case using r1 extends_trans by metis
qed

subsection \<open>The publication protocol\<close>

definition main_path :: "event_type list" where
  "main_path = [BOUND, LOCAL_READY, BRANCH_TRANSMISSION_POSSIBLE, BRANCH_OBSERVED, PR_TRANSMISSION_POSSIBLE, PR_OBSERVED]"

definition protocol :: "event_type list \<Rightarrow> bool" where
  "protocol ts \<longleftrightarrow> (\<exists>n. 1 \<le> n \<and> n \<le> 6 \<and>
     (ts = take n main_path \<or> 2 \<le> n \<and> ts = take n main_path @ [CONFLICT] \<or>
      n = 6 \<and> (ts = main_path @ [APPLIED] \<or> ts = main_path @ [REFUSED])))"

text \<open>What an admitted event presupposes among the earlier ones.\<close>

fun presupposes :: "event_type list \<Rightarrow> event_type \<Rightarrow> bool" where
  "presupposes ts BOUND \<longleftrightarrow> False"
| "presupposes ts LOCAL_READY \<longleftrightarrow> ts = [BOUND]"
| "presupposes ts BRANCH_TRANSMISSION_POSSIBLE \<longleftrightarrow> LOCAL_READY \<in> set ts"
| "presupposes ts BRANCH_OBSERVED \<longleftrightarrow> BRANCH_TRANSMISSION_POSSIBLE \<in> set ts"
| "presupposes ts PR_TRANSMISSION_POSSIBLE \<longleftrightarrow> BRANCH_OBSERVED \<in> set ts"
| "presupposes ts PR_OBSERVED \<longleftrightarrow> PR_TRANSMISSION_POSSIBLE \<in> set ts"
| "presupposes ts APPLIED \<longleftrightarrow> PR_OBSERVED \<in> set ts"
| "presupposes ts REFUSED \<longleftrightarrow> PR_OBSERVED \<in> set ts"
| "presupposes ts CONFLICT \<longleftrightarrow> LOCAL_READY \<in> set ts \<or> BRANCH_TRANSMISSION_POSSIBLE \<in> set ts \<or> PR_TRANSMISSION_POSSIBLE \<in> set ts"

lemma in_seen: "map_of seen k \<noteq> None \<longleftrightarrow> k \<in> set (map fst seen)"
  by (simp add: map_of_eq_None_iff)

lemma observed_state_seen: "observed_state seen \<noteq> None \<Longrightarrow> map_of seen PR_OBSERVED \<noteq> None"
  by (cases "map_of seen PR_OBSERVED") (auto simp: observed_state_def)

lemma terminal_ok_seen:
  assumes "terminal_ok v kind seen"
  shows "if kind = REFUSED then PR_OBSERVED \<in> set (map fst seen)
    else LOCAL_READY \<in> set (map fst seen) \<or> BRANCH_TRANSMISSION_POSSIBLE \<in> set (map fst seen) \<or>
      PR_TRANSMISSION_POSSIBLE \<in> set (map fst seen)"
  unfolding in_seen [symmetric]
  using assms observed_state_seen [of seen]
  by (auto simp: terminal_ok_def operation_event_def Let_def split: option.splits if_splits)

lemma admit_presupposes:
  assumes "admit r e b seen kind raw = Some v"
  shows "presupposes (map fst seen) kind"
proof -
  obtain v where p: "payload r kind raw seen e b = Some v" "kind = LOCAL_READY \<longrightarrow> map fst seen = [BOUND]"
    using assms by (auto simp: admit_def bind_eq_Some_conv)
  show ?thesis
  proof (cases kind)
    case BOUND
    then show ?thesis using p by (simp add: payload_def bind_eq_Some_conv)
  next
    case REFUSED
    then have "terminal_ok v kind seen" using p by (auto simp: payload_def bind_eq_Some_conv)
    then show ?thesis using terminal_ok_seen REFUSED by fastforce
  next
    case PR_TRANSMISSION_POSSIBLE
    then have "map_of seen BRANCH_OBSERVED \<noteq> None"
      using p by (auto simp: payload_def bind_eq_Some_conv pr_request_ok_def)
    then show ?thesis using PR_TRANSMISSION_POSSIBLE unfolding in_seen by simp
  next
    case CONFLICT
    then have "terminal_ok v kind seen" using p by (auto simp: payload_def bind_eq_Some_conv)
    then show ?thesis using terminal_ok_seen CONFLICT by fastforce
  qed (use p in \<open>auto simp: payload_def bind_eq_Some_conv observation_ok_def applied_ok_def
      map_of_eq_None_iff Let_def split: option.splits dest!: map_of_SomeD intro!: rev_image_eqI\<close>)
qed

lemma protocol_snoc:
  assumes "protocol ts" "presupposes ts t" "t \<notin> set ts" "\<forall>x \<in> set ts. x \<notin> set terminal"
  shows "protocol (ts @ [t])"
proof -
  have n6: "(n::nat) \<le> 6 \<and> 1 \<le> n \<longleftrightarrow> n \<in> {1, 2, 3, 4, 5, 6}" for n by auto
  obtain n where n: "1 \<le> n" "n \<le> 6" "ts = take n main_path"
    using assms(1,4) by (auto simp: protocol_def terminal_def)
  have "n \<in> {1, 2, 3, 4, 5, 6}" using n by auto
  moreover have e: "take 1 main_path = [BOUND]" "take 2 main_path = [BOUND, LOCAL_READY]"
    "take 3 main_path = [BOUND, LOCAL_READY, BRANCH_TRANSMISSION_POSSIBLE]"
    "take 4 main_path = [BOUND, LOCAL_READY, BRANCH_TRANSMISSION_POSSIBLE, BRANCH_OBSERVED]"
    "take 5 main_path = [BOUND, LOCAL_READY, BRANCH_TRANSMISSION_POSSIBLE, BRANCH_OBSERVED, PR_TRANSMISSION_POSSIBLE]"
    "take 6 main_path = main_path"
    by (simp_all add: main_path_def)
  ultimately have "(ts @ [t] = take (n + 1) main_path \<and> n < 6) \<or> 2 \<le> n \<and> ts @ [t] = take n main_path @ [CONFLICT] \<or>
      n = 6 \<and> (ts @ [t] = main_path @ [APPLIED] \<or> ts @ [t] = main_path @ [REFUSED])"
    using n(3) assms(2,3) by (elim insertE emptyE; cases t) (auto simp: main_path_def)
  then show ?thesis
  proof (elim disjE conjE)
    assume "ts @ [t] = take (n + 1) main_path" "n < 6"
    then show ?thesis unfolding protocol_def by (intro exI [of _ "n + 1"]) auto
  next
    assume "2 \<le> n" "ts @ [t] = take n main_path @ [CONFLICT]"
    then show ?thesis unfolding protocol_def using n by (intro exI [of _ n]) simp
  next
    assume "ts @ [t] = main_path @ [APPLIED]"
    then show ?thesis unfolding protocol_def by (intro exI [of _ 6]) simp
  next
    assume "ts @ [t] = main_path @ [REFUSED]"
    then show ?thesis unfolding protocol_def by (intro exI [of _ 6]) simp
  qed
qed

lemma verify_events_protocol:
  "verify_events r e b 0 [] es = Some seen \<Longrightarrow> es \<noteq> [] \<Longrightarrow> protocol (map ev_type es)"
proof (induction es arbitrary: seen rule: rev_induct)
  case (snoc x es)
  then obtain s where s: "verify_events r e b 0 [] es = Some s" "verify_events r e b (length es) s [x] = Some seen"
    by (auto simp: verify_events_append bind_eq_Some_conv)
  show ?case
  proof (cases "es = []")
    case True
    then have "ev_type x = BOUND" using s by (auto simp: bind_eq_Some_conv)
    then show ?thesis using True by (auto simp: protocol_def main_path_def intro!: exI [of _ 1])
  next
    case False
    have t: "map fst s = map ev_type es" using verify_events_shape [OF s(1)] by simp
    have "\<exists>v. admit r e b s (ev_type x) (ev_payload x) = Some v" "map_of s (ev_type x) = None" "\<not> has_terminal s"
      using s(2) False by (auto simp: bind_eq_Some_conv)
    then have "presupposes (map ev_type es) (ev_type x)" "ev_type x \<notin> set (map ev_type es)"
      "\<forall>y \<in> set (map ev_type es). y \<notin> set terminal"
      unfolding t [symmetric] using admit_presupposes by (auto simp: has_terminal_def list_ex_iff map_of_eq_None_iff)
    then show ?thesis using protocol_snoc [of "map ev_type es" "ev_type x"] snoc.IH [OF s(1) False] by simp
  qed
qed simp

subsection \<open>The values of the events\<close>

text \<open>\<open>_events\<close> of the executor: the parsed payloads by type.\<close>

definition record_events :: "journal_record \<Rightarrow> seen option" where
  "record_events r = those (map (\<lambda>x. map_option (Pair (ev_type x)) (read_upto 65536 (ev_payload x))) (jr_events r))"

lemma read_upto_mono: "read_upto m raw = Some v \<Longrightarrow> m \<le> n \<Longrightarrow> read_upto n raw = Some v"
  by (auto simp: read_upto_def read_json_def bind_eq_Some_conv)

lemma admit_read_upto:
  assumes "admit r e b seen k raw = Some v"
  shows "read_upto 65536 raw = Some v"
proof -
  have "read_upto (payload_limit k) raw = Some v"
    using assms by (auto simp: admit_def payload_def bind_eq_Some_conv split: if_splits)
  then show ?thesis by (rule read_upto_mono) (cases k; simp)
qed

lemma those_snoc: "those xs = Some as \<Longrightarrow> those (xs @ [Some a]) = Some (as @ [a])"
  by (induction xs arbitrary: as) (auto split: option.splits)

lemma verify_events_values:
  assumes "read_upto 16384 (jr_binding_utf8 r) = Some b"
  shows "verify_events r e b 0 [] es = Some seen \<Longrightarrow>
    those (map (\<lambda>x. map_option (Pair (ev_type x)) (read_upto 65536 (ev_payload x))) es) = Some seen \<and>
    (\<forall>(k, v) \<in> set seen. k \<noteq> BOUND \<longrightarrow>
      (\<exists>s1 s2 raw. seen = s1 @ (k, v) # s2 \<and> admit r e b s1 k raw = Some v))"
proof (induction es arbitrary: seen rule: rev_induct)
  case (snoc x es)
  then obtain s where s: "verify_events r e b 0 [] es = Some s" "verify_events r e b (length es) s [x] = Some seen"
    by (auto simp: verify_events_append bind_eq_Some_conv)
  note ih = snoc.IH [OF s(1)]
  obtain v where v: "seen = s @ [(ev_type x, v)]"
    "if es = [] then ev_type x = BOUND \<and> ev_payload x = jr_binding_utf8 r \<and> v = b
     else admit r e b s (ev_type x) (ev_payload x) = Some v"
    using s(2) by (auto simp: bind_eq_Some_conv split: if_splits)
  have "read_upto 65536 (ev_payload x) = Some v"
    using v(2) assms read_upto_mono [of 16384 _ b 65536] admit_read_upto by (auto split: if_splits)
  moreover have "\<exists>s1 s2 raw. seen = s1 @ (k, w) # s2 \<and> admit r e b s1 k raw = Some w"
    if k: "(k, w) \<in> set seen" "k \<noteq> BOUND" for k w
  proof (cases "(k, w) \<in> set s")
    case True
    then show ?thesis using ih k v(1) by fastforce
  next
    case False
    then have "k = ev_type x" "w = v" using k v(1) by auto
    then show ?thesis using v k(2) by (auto split: if_splits)
  qed
  ultimately show ?case using ih v(1) by (auto simp: those_snoc)
qed simp

lemma verify_binding: "verify reg r = Some (seen, e, b) \<Longrightarrow> read_upto 16384 (jr_binding_utf8 r) = Some b"
  by (auto simp: verify_Some verify_head_def bind_eq_Some_conv)

lemma verify_record_events: "verify reg r = Some (seen, e, b) \<Longrightarrow> record_events r = Some seen"
  using verify_events_values [OF verify_binding] by (auto simp: verify_Some record_events_def)

lemma verify_entry:
  assumes "verify reg r = Some (seen, e, b)" "map_of seen k = Some v" "k \<noteq> BOUND"
  obtains s1 raw where "admit r e b s1 k raw = Some v" "map_of s1 \<subseteq>\<^sub>m map_of seen"
proof -
  have "(k, v) \<in> set seen" using assms(2) by (rule map_of_SomeD)
  then obtain s1 s2 raw where s: "seen = s1 @ (k, v) # s2" "admit r e b s1 k raw = Some v"
    using verify_events_values [OF verify_binding [OF assms(1)], of e "jr_events r" seen] assms(1,3)
    unfolding verify_Some by blast
  have "map_of s1 \<subseteq>\<^sub>m map_of seen" unfolding s(1) by (auto simp: map_le_def)
  then show thesis using that s(2) by blast
qed

lemma py_eq_JStr [simp]: "py_eq x (JStr s) \<longleftrightarrow> x = JStr s"
  by (cases x) auto

lemma status_applied:
  assumes "status r = At APPLIED" "verify reg r = Some (seen, e, b)"
  shows "APPLIED \<in> set (map fst seen)"
proof -
  have "jr_events r \<noteq> []" "map fst seen = map ev_type (jr_events r)"
    using assms(2) verify_events_shape [of r e b 0 "[]" "jr_events r" seen] by (auto simp: verify_Some)
  moreover have "ev_type (last (jr_events r)) = APPLIED"
    using assms(1) by (auto simp: status_def Let_def terminal_def split: if_splits)
  ultimately show ?thesis by (metis last_in_set last_map map_is_Nil_conv)
qed

lemma local_ready_oid:
  assumes "verify reg r = Some (seen, e, b)" "map_of seen LOCAL_READY = Some loc"
  obtains oid where "fld loc ''commit_oid'' = Some (JStr oid)"
proof -
  obtain s1 raw where "admit r e b s1 LOCAL_READY raw = Some loc" using verify_entry [OF assms] by blast
  then have "has loc ''commit_oid'' oid_ok"
    by (auto simp: admit_def payload_def local_ready_ok_def has_iff bind_eq_Some_conv split: option.splits)
  then obtain x where x: "fld loc ''commit_oid'' = Some x" "oid_ok x" by (auto simp: has_iff)
  then obtain oid where "x = JStr oid" by (cases x) (auto simp: oid_ok_def)
  then show thesis using that x(1) by simp
qed

lemma pr_observed_facts:
  assumes "verify reg r = Some (seen, e, b)" "map_of seen PR_OBSERVED = Some obs" "map_of seen LOCAL_READY = Some loc"
    "fld loc ''commit_oid'' = Some (JStr oid)"
  shows "fld obs ''commit_oid'' = Some (JStr oid) \<and>
    fld obs ''branch'' = Some (JStr (''vuoro-protected/'' @ jr_effect_key r))"
proof -
  obtain s1 raw where a: "admit r e b s1 PR_OBSERVED raw = Some obs" "map_of s1 \<subseteq>\<^sub>m map_of seen"
    using verify_entry [OF assms(1,2)] by blast
  then obtain l where l: "map_of s1 LOCAL_READY = Some l" "common_ok r obs l e b" "closed_obj obs (payload_fields PR_OBSERVED)"
    by (auto simp: admit_def payload_def bind_eq_Some_conv)
  then have "l = loc" using a(2) assms(3) map_le_Some by fastforce
  moreover have "''branch'' \<in> set (keys obs)" using l(3) by (simp add: closed_obj_def)
  then have "fld obs ''branch'' \<noteq> None" using l(3) by (cases obs) (auto simp: closed_obj_def map_of_eq_None_iff)
  ultimately show ?thesis using l(2) assms(4)
    by (auto simp: common_ok_def Let_def eq_flds_def eq_fld_def opt_eq_def has_iff split: option.splits)
qed

lemma applied_facts:
  assumes "verify reg r = Some (seen, e, b)" "status r = At APPLIED"
  shows "\<exists>v loc obs oid. map_of seen APPLIED = Some v \<and> jr_outcome r = Some (canonical v) \<and>
    map_of seen LOCAL_READY = Some loc \<and> map_of seen PR_OBSERVED = Some obs \<and>
    fld loc ''commit_oid'' = Some (JStr oid) \<and> fld v ''commit_oid'' = Some (JStr oid) \<and>
    fld obs ''commit_oid'' = Some (JStr oid) \<and>
    fld obs ''branch'' = Some (JStr (''vuoro-protected/'' @ jr_effect_key r)) \<and>
    (fld obs ''state'' = Some (JStr ''open'') \<or> fld obs ''state'' = Some (JStr ''merged'')) \<and>
    (\<exists>req. map_of (jr_spent r) BranchCreate = Some req \<and>
      fld v ''branch_request_sha256'' = Some (JStr (hash_of True req))) \<and>
    (\<exists>req. map_of (jr_spent r) PrCreate = Some req \<and> fld v ''pr_request_sha256'' = Some (JStr (hash_of True req)))"
proof -
  obtain v where v: "map_of seen APPLIED = Some v"
    using status_applied [OF assms(2,1)] unfolding in_seen [symmetric] by blast
  then obtain s1 raw where a: "admit r e b s1 APPLIED raw = Some v" "map_of s1 \<subseteq>\<^sub>m map_of seen"
    using verify_entry [OF assms(1)] by blast
  then obtain loc where loc: "map_of s1 LOCAL_READY = Some loc" "eq_flds v ''commit_oid'' loc ''commit_oid''"
    "applied_ok v s1"
    by (auto simp: admit_def payload_def common_ok_def bind_eq_Some_conv Let_def)
  obtain obs br pr where o: "map_of s1 PR_OBSERVED = Some obs" "has obs ''state'' (\<lambda>s. s \<in> {JStr ''open'', JStr ''merged''})"
    "map_of s1 BRANCH_TRANSMISSION_POSSIBLE = Some br" "map_of s1 PR_TRANSMISSION_POSSIBLE = Some pr"
    "fld v ''branch_request_sha256'' = Some (JStr (hash_of True (canonical br)))"
    "fld v ''pr_request_sha256'' = Some (JStr (hash_of True (canonical pr)))"
    using loc(3) by (auto simp: applied_ok_def request_digest_def split: option.splits)
  have up: "map_of s1 k = Some x \<Longrightarrow> map_of seen k = Some x" for k x
    using a(2) by (rule map_le_Some)
  note s = up [OF loc(1)] up [OF o(1)] up [OF o(3)] up [OF o(4)]
  obtain oid where oid: "fld loc ''commit_oid'' = Some (JStr oid)" using local_ready_oid [OF assms(1) s(1)] .
  have "fld v ''commit_oid'' = Some (JStr oid)"
    using loc(2) oid by (auto simp: eq_flds_def eq_fld_def has_iff)
  moreover have "map_of (jr_spent r) BranchCreate = Some (canonical br)" "map_of (jr_spent r) PrCreate = Some (canonical pr)"
    "jr_outcome r = Some (canonical v)"
    using assms(1) s(3,4) v by (auto simp: verify_Some operation_event_def)
  ultimately show ?thesis using v s(1,2) oid o pr_observed_facts [OF assms(1) s(2,1) oid] by (auto simp: has_iff)
qed

subsection \<open>Properties\<close>

lemma install_inv:
  "install_journal host registry = Some db \<Longrightarrow> journal_inv (open_journal host registry db)"
  by (auto simp: install_journal_def bind_eq_Some_conv journal_inv_def usable_def open_journal_def
      validate_rebind_history_def validate_all_def)

lemma journal_read_verified:
  assumes "install_journal host registry = Some db" "run journal_step (open_journal host registry db) ls st"
    "journal_read key st = Some (Some r)"
  obtains seen e b where "load (js_db st) key = Some (Some r)" "verify (js_registry st) r = Some (seen, e, b)"
proof -
  have l: "load (js_db st) key = Some (Some r)" using assms(3) by (simp add: journal_read_def bind_eq_Some_conv)
  have "journal_inv st" using journal_sys.inv_run [OF assms(2) install_inv [OF assms(1)]] .
  moreover have "key \<in> fst ` set (effect_bindings (js_db st))"
    using load_Some [OF l] by (auto dest: map_of_SomeD intro: rev_image_eqI)
  ultimately have "record_ok (js_registry st) (js_db st) key"
    by (auto simp: journal_inv_def usable_def validate_all_def Let_def list_all_iff)
  then show thesis using that l by (auto simp: record_ok_def)
qed

text \<open>A publication is transmitted on at most one marker: over any sequence of calls, commit failures and
  restarts of an installed journal, marking an operation of an effect as spent answers that it was the
  first time at most once.\<close>

theorem spent_at_most_once:
  assumes "install_journal host registry = Some db" "run journal_step (open_journal host registry db) ls st"
  shows "distinct (List.map_filter first_spent ls)"
  using journal_spending.accepted_distinct [OF assms(2) install_inv [OF assms(1)]] by blast

definition demo_registry :: bytes where
  "demo_registry = canonical (JObj [])"

lemma demo_registry_reads: "read_upto 65536 demo_registry = Some (JObj [])"
proof -
  have "json_loads hook_unique (json_dumps False (JObj [])) = Some (json_norm (JObj []))"
    by (rule json_roundtrip) (simp_all add: hook_unique_def)
  then show ?thesis
    by (simp add: read_upto_def read_json_def demo_registry_def canonical_def)
      (simp add: utf8_encode_def utf8_char_def Let_def)
qed

definition demo_db :: journal_db where
  "demo_db = \<lparr>db_host_id = ''host'', db_registry_utf8 = demo_registry, db_registry_sha256 = hash_of True demo_registry,
     effect_bindings = [], journal_events = [], publication_spent = [], applied_outcomes = [], registry_rebinds = []\<rparr>"

lemma demo_install: "install_journal ''host'' demo_registry = Some demo_db"
  by (simp add: install_journal_def demo_registry_reads demo_db_def text_upto_def)

lemma demo_refused:
  "run journal_step (open_journal ''host'' demo_registry demo_db) [(Committed, OpSpent ''k'' BranchCreate [1], Refused)]
    (open_journal ''host'' demo_registry demo_db)"
  by (auto simp: run_cons_iff journal_step_iff mark_spent_def journal_append_def transaction_def append_body_def load_def
      open_journal_def demo_db_def answer_of_def)

theorem spent_at_most_once_witness:
  "distinct (List.map_filter first_spent [(Committed, OpSpent ''k'' BranchCreate [1], Refused)])"
  by (rule spent_at_most_once [OF demo_install demo_refused])







text \<open>C16: The journal never locks itself out: in every reachable state the whole journal passes its own
  validation, so that a process that opens it can use it, and a call that passes the checks made before
  an event is inserted is never rolled back by the validation after it: with a commit that succeeds it
  takes effect.\<close>

theorem journal_never_locks_out:
  assumes "install_journal host registry = Some db" "run journal_step (open_journal host registry db) ls st"
  shows "usable (st\<lparr>js_uncertain := False\<rparr>) \<and>
    (\<forall>key kind raw op outcome b db'. op_ok kind op outcome \<and>
       append_body (js_registry st) key kind raw op outcome (js_db st) = Some (b, db') \<longrightarrow>
       journal_append Committed key kind raw op outcome (st\<lparr>js_uncertain := False\<rparr>) =
         (Some b, st\<lparr>js_uncertain := False, js_db := db'\<rparr>))"
proof -
  have inv: "journal_inv st" using journal_sys.inv_run [OF assms(2) install_inv [OF assms(1)]] .
  then have valid: "validate_all (js_registry st) (js_db st)" by (simp add: journal_inv_def usable_def)
  show ?thesis using inv append_valid [OF valid]
    by (auto simp: journal_inv_def journal_append_def transaction_def)
qed

theorem journal_never_locks_out_witness: "usable (open_journal ''host'' demo_registry demo_db)"
  using journal_never_locks_out [OF demo_install demo_refused] by (simp add: open_journal_def)

end
