(* ===== verification/Protected_Git.thy ===== *)
theory Protected_Git
  imports Journal_Safety
begin

text \<open>
  The data the signed Git artifact is built from and checked against: the pure parts of
  \<open>vuoro_reconciler/protected_git.py\<close>. What Git and GnuPG answer (the bytes of a commit, the status of
  a verification, the identifier of the tree that the approved change produces) are arguments.
\<close>

subsection \<open>Bytes\<close>

abbreviation lit :: "string \<Rightarrow> bytes" where
  "lit s \<equiv> utf8_encode s"

definition ascii_encode :: "string \<Rightarrow> bytes option" where
  "ascii_encode s = (if list_all (\<lambda>c. ord_of c < 128) s then Some (utf8_encode s) else None)"

definition ascii_decode :: "bytes \<Rightarrow> string option" where
  "ascii_decode bs = (if list_all (\<lambda>b. unat b < 128) bs then Some (map (\<lambda>b. char_of (unat b)) bs) else None)"

text \<open>\<open>bs.split(sep, 1)\<close> when it yields two parts.\<close>

fun split_once :: "bytes \<Rightarrow> bytes \<Rightarrow> (bytes \<times> bytes) option" where
  "split_once sep bs =
    (if take (length sep) bs = sep then Some ([], drop (length sep) bs)
     else case bs of [] \<Rightarrow> None | b # r \<Rightarrow> map_option (apfst (Cons b)) (split_once sep r))"

declare split_once.simps [simp del]

fun split_bytes :: "8 word \<Rightarrow> bytes \<Rightarrow> bytes list" where
  "split_bytes c [] = [[]]"
| "split_bytes c (x # xs) =
    (if x = c then [] # split_bytes c xs
     else case split_bytes c xs of [] \<Rightarrow> [[x]] | p # ps \<Rightarrow> (x # p) # ps)"

abbreviation nl :: "8 word" where "nl \<equiv> 10"
abbreviation sp :: "8 word" where "sp \<equiv> 32"

definition bytes_start :: "bytes \<Rightarrow> bytes \<Rightarrow> bool" where
  "bytes_start p bs \<longleftrightarrow> take (length p) bs = p"

definition bytes_end :: "bytes \<Rightarrow> bytes \<Rightarrow> bool" where
  "bytes_end p bs \<longleftrightarrow> bytes_start (rev p) (rev bs)"

subsection \<open>The signing profile\<close>

definition profile_fields :: "string list" where
  "profile_fields = [''schema'', ''repository'', ''signing_fingerprint'', ''public_key_sha256'', ''author_name'',
     ''author_email'', ''committer_name'', ''committer_email'', ''path_allowlist'', ''protected_path_patterns'']"

definition name_ok :: "json \<Rightarrow> bool" where
  "name_ok v \<longleftrightarrow> text_ok v \<and>
     (case v of JStr s \<Rightarrow> list_all (\<lambda>c. 32 \<le> ord_of c \<and> ord_of c \<noteq> 127 \<and> c \<notin> set ''<>'') s | _ \<Rightarrow> False)"

definition email_ok :: "json \<Rightarrow> bool" where
  "email_ok v \<longleftrightarrow> text_upto 254 False v \<and>
     (case v of
        JStr s \<Rightarrow> list_all (\<lambda>c. ord_of c < 128) s \<and> count_list s (CHR ''@'') = 1 \<and>
          list_all (\<lambda>c. 32 < ord_of c \<and> ord_of c \<noteq> 127 \<and> c \<notin> set ''<>'') s \<and>
          list_all (\<lambda>p. p \<noteq> []) (split_on (CHR ''@'') s)
      | _ \<Rightarrow> False)"

definition pattern_ok :: "json \<Rightarrow> bool" where
  "pattern_ok v \<longleftrightarrow> text_ok v \<and> (case v of JStr s \<Rightarrow> list_all (\<lambda>c. 32 \<le> ord_of c \<and> ord_of c \<noteq> 127) s | _ \<Rightarrow> False)"

definition patterns_ok :: "json \<Rightarrow> bool" where
  "patterns_ok v =
    (case as_list v of
       None \<Rightarrow> False
     | Some ps \<Rightarrow> length ps \<le> 64 \<and> list_all pattern_ok ps \<and>
         (case those (map as_str ps) of None \<Rightarrow> False | Some ss \<Rightarrow> sorted_wrt (<) ss))"

record git_profile =
  gp_signing_utf8 :: bytes
  gp_public_key :: bytes

definition git_profile_ok :: "git_profile \<Rightarrow> bool" where
  "git_profile_ok p \<longleftrightarrow>
     (case read_upto 16384 (gp_signing_utf8 p) of
        None \<Rightarrow> False
      | Some v \<Rightarrow>
          closed_obj v profile_fields \<and> fld v ''schema'' = Some (JStr ''vuoro-protected-git-signing-profile/v1'') \<and>
          has v ''repository'' text_ok \<and> has v ''signing_fingerprint'' oid_ok \<and>
          gp_public_key p \<noteq> [] \<and> length (gp_public_key p) \<le> 65536 \<and>
          fld v ''public_key_sha256'' = Some (JStr (hash_of True (gp_public_key p))) \<and>
          list_all (\<lambda>k. has v k name_ok) [''author_name'', ''committer_name''] \<and>
          list_all (\<lambda>k. has v k email_ok) [''author_email'', ''committer_email''] \<and>
          list_all (\<lambda>k. has v k patterns_ok) [''path_allowlist'', ''protected_path_patterns''])"

definition signing_profile_sha256 :: "git_profile \<Rightarrow> string" where
  "signing_profile_sha256 p = hash_of True (gp_signing_utf8 p)"

subsection \<open>The record an artifact is made for\<close>

definition expected_binding :: "effect_data \<Rightarrow> json \<Rightarrow> json \<Rightarrow> git_profile \<Rightarrow> json option" where
  "expected_binding effect binding registration profile = do {
     locator \<leftarrow> read_doc (locator_utf8 effect);
     ns \<leftarrow> fld locator ''namespace''; intent \<leftarrow> fld locator ''intent_id''; rev \<leftarrow> fld locator ''intent_revision'';
     co \<leftarrow> read_doc (canonical_utf8 effect); refs \<leftarrow> fld co ''evidence_refs'';
     registry \<leftarrow> fld binding ''registry_sha256''; provider \<leftarrow> fld binding ''provider_profile_sha256'';
     target \<leftarrow> fld binding ''publication_target'';
     fingerprint \<leftarrow> fld registration ''signing_fingerprint''; public_key \<leftarrow> fld registration ''public_key_sha256'';
     Some (JObj [(''schema'', JStr ''vuoro-protected-journal-binding/v1''), (''namespace'', ns),
       (''intent_id'', intent), (''intent_revision'', rev), (''canonical_hash'', JStr (canonical_hash effect)),
       (''legacy_content_digest'', JStr (legacy_content_digest effect)),
       (''acceptance_id'', JStr (ad_acceptance_id (ef_acceptance effect))),
       (''acceptance_revision'', JInt (acceptance_revision effect)),
       (''preparation_id'', JStr (ad_preparation_id (ef_acceptance effect))),
       (''receipt_id'', JStr (rd_receipt_id (ef_receipt effect))),
       (''accepted_at'', JStr (ad_accepted_at (ef_acceptance effect))),
       (''signature_sha256'', JStr (ad_signature_sha256 (ef_acceptance effect))),
       (''challenge_sha256'', JStr (ad_challenge_sha256 (ef_acceptance effect))),
       (''frozen_reference_set_sha256'', JStr (hash_of True (canonical refs))),
       (''registry_sha256'', registry), (''provider_profile_sha256'', provider),
       (''signing_profile_sha256'', JStr (signing_profile_sha256 profile)), (''publication_target'', target),
       (''signer_fingerprint'', fingerprint), (''public_key_sha256'', public_key)]) }"

definition git_record :: "effect_data \<Rightarrow> journal_record \<Rightarrow> git_profile \<Rightarrow> (json \<times> json) option" where
  "git_record effect record profile = do {
     ensure (assert_effect_data effect \<and> effect_key effect = Some (jr_effect_key record));
     decoded \<leftarrow> decode_protected_copy (jr_copy_utf8 record) (namespace_utf8 effect)
       (ad_acceptance_id (ef_acceptance effect)) (ef_repository effect) None;
     ensure (decoded = effect);
     binding \<leftarrow> read_upto 16384 (jr_binding_utf8 record);
     ensure (closed_obj binding binding_fields);
     registration \<leftarrow> read_upto 16384 (gp_signing_utf8 profile);
     ensure (fld registration ''repository'' = Some (JStr (ef_repository effect)) \<and>
       list_all (\<lambda>k. has binding k (digest_ok True)) [''registry_sha256'', ''provider_profile_sha256''] \<and>
       has binding ''publication_target'' (target_ok effect));
     expected \<leftarrow> expected_binding effect binding registration profile;
     ensure (jr_binding_utf8 record = canonical expected);
     (case jr_events record of
        [] \<Rightarrow> None
      | e # _ \<Rightarrow> do {
          ensure (ev_type e = BOUND \<and> ev_payload e = jr_binding_utf8 record \<and>
            map ev_seq (jr_events record) = [0..<length (jr_events record)] \<and>
            distinct (map ev_type (jr_events record)));
          Some (binding, registration) }) }"

subsection \<open>The commit\<close>

definition commit_message :: "effect_data \<Rightarrow> journal_record \<Rightarrow> json \<Rightarrow> bytes option" where
  "commit_message effect record binding = do {
     ch \<leftarrow> fld binding ''canonical_hash''; leg \<leftarrow> fld binding ''legacy_content_digest'';
     aid \<leftarrow> fld binding ''acceptance_id''; arev \<leftarrow> fld binding ''acceptance_revision'';
     rid \<leftarrow> fld binding ''receipt_id'';
     let public = JObj [(''schema'', JStr ''vuoro-protected-commit-binding/v1''),
       (''effect_key'', JStr (jr_effect_key record)), (''binding_sha256'', JStr (hash_of True (jr_binding_utf8 record))),
       (''locator_utf8_b64'', JStr (b64encode (locator_utf8 effect))), (''canonical_hash'', ch),
       (''legacy_content_digest'', leg), (''acceptance_id'', aid), (''acceptance_revision'', arev),
       (''receipt_id'', rid), (''source_run_utf8_b64'', JStr (b64encode (utf8_encode (source_run effect))))];
     params \<leftarrow> read_doc (parameters_utf8 effect);
     title \<leftarrow> str_fld params ''title''; rationale \<leftarrow> str_fld params ''rationale'';
     Some (utf8_encode title @ [nl, nl] @ utf8_encode rationale @ [nl, nl] @ lit ''Vuoro-Protected-Binding: '' @
       utf8_encode (b64encode (canonical public)) @ [nl]) }"

definition local_ready :: "effect_data \<Rightarrow> journal_record \<Rightarrow> json \<Rightarrow> string \<Rightarrow> string \<Rightarrow> bytes \<Rightarrow> string \<Rightarrow> bytes option" where
  "local_ready effect record registration commit_oid tree_oid message bundle_hash = do {
     params \<leftarrow> read_doc (parameters_utf8 effect); base \<leftarrow> fld params ''base_commit'';
     fingerprint \<leftarrow> fld registration ''signing_fingerprint''; public_key \<leftarrow> fld registration ''public_key_sha256'';
     let raw = canonical (JObj [(''schema'', JStr ''vuoro-protected-local-ready/v1''), (''commit_oid'', JStr commit_oid),
       (''tree_oid'', JStr tree_oid), (''base_parent_oid'', base),
       (''message_utf8_b64'', JStr (b64encode message)), (''message_sha256'', JStr (hash_of True message)),
       (''signer_fingerprint'', fingerprint), (''public_key_sha256'', public_key),
       (''artifact_relative_path'', JStr (''artifacts/'' @ jr_effect_key record @ ''/original.bundle'')),
       (''artifact_sha256'', JStr bundle_hash)]);
     ensure (length raw \<le> 16384);
     Some raw }"

definition identity_prefix :: "json \<Rightarrow> string \<Rightarrow> bytes option" where
  "identity_prefix registration p = do {
     name \<leftarrow> str_fld registration (p @ ''_name''); email0 \<leftarrow> str_fld registration (p @ ''_email'');
     email \<leftarrow> ascii_encode email0;
     Some (utf8_encode name @ lit '' <'' @ email @ lit ''> '') }"

definition unsigned_commit :: "nat \<Rightarrow> string \<Rightarrow> string \<Rightarrow> json \<Rightarrow> bytes \<Rightarrow> bytes option" where
  "unsigned_commit now tree parent registration message = do {
     ensure (int now \<le> safe_int);
     author \<leftarrow> identity_prefix registration ''author''; committer \<leftarrow> identity_prefix registration ''committer'';
     let stamp = lit (str_of_nat now) @ lit '' +0000'';
     Some (lit ''tree '' @ utf8_encode tree @ [nl] @ lit ''parent '' @ utf8_encode parent @
       [nl] @ lit ''author '' @ author @ stamp @ [nl] @ lit ''committer '' @ committer @ stamp @ [nl, nl] @ message) }"

definition pgp_begin :: bytes where "pgp_begin = lit ''-----BEGIN PGP SIGNATURE-----'' @ [nl]"
definition pgp_end :: bytes where "pgp_end = lit ''-----END PGP SIGNATURE-----'' @ [nl]"

definition signature_header :: "nat \<Rightarrow> bytes" where
  "signature_header width = (if width = 40 then lit ''gpgsig'' else lit ''gpgsig-sha256'')"

definition signed_commit :: "bytes \<Rightarrow> bytes \<Rightarrow> nat \<Rightarrow> bytes option" where
  "signed_commit commit signature width = do {
     ensure (signature \<noteq> [] \<and> length signature \<le> 16384 \<and> bytes_start pgp_begin signature \<and> bytes_end pgp_end signature \<and>
       list_all (\<lambda>c. 32 \<le> unat c \<and> unat c \<le> 126 \<or> c = nl) signature);
     (head, message) \<leftarrow> split_once [nl, nl] commit;
     (case split_bytes nl (butlast signature) of
        [] \<Rightarrow> None
      | l # ls \<Rightarrow> Some (head @ [nl] @ signature_header width @ [sp] @ l @ [nl] @
          concat (map (\<lambda>x. sp # x @ [nl]) ls) @ [nl] @ message)) }"

text \<open>The rows of a commit header: a line that starts with a blank continues a signature.\<close>

fun header_rows :: "(bytes \<times> bytes) list \<Rightarrow> bytes list \<Rightarrow> (bytes \<times> bytes) list option" where
  "header_rows rows [] = Some rows"
| "header_rows rows (l # ls) =
    (if bytes_start [sp] l then
       (if rows \<noteq> [] \<and> fst (last rows) \<in> {lit ''gpgsig'', lit ''gpgsig-sha256''}
        then header_rows (butlast rows @ [(fst (last rows), snd (last rows) @ [nl] @ tl l)]) ls else None)
     else case split_once [sp] l of None \<Rightarrow> None | Some r \<Rightarrow> header_rows (rows @ [r]) ls)"

text \<open>The time of an identity line \<open>name <email> seconds +0000\<close>.\<close>

definition identity_time :: "json \<Rightarrow> string \<Rightarrow> bytes \<Rightarrow> nat option" where
  "identity_time registration p row = do {
     expected \<leftarrow> identity_prefix registration p;
     ensure (bytes_start expected row);
     suffix \<leftarrow> ascii_decode (drop (length expected) row);
     let ds = takeWhile is_digit suffix;
     ensure (ds \<noteq> [] \<and> dropWhile is_digit suffix = '' +0000'' \<and> int (nat_of_digits 0 ds) \<le> safe_int);
     Some (nat_of_digits 0 ds) }"

definition parse_commit :: "bytes \<Rightarrow> string \<Rightarrow> effect_data \<Rightarrow> journal_record \<Rightarrow> json \<Rightarrow> json \<Rightarrow> (string \<times> bytes) option" where
  "parse_commit raw oid effect record binding registration = do {
     params \<leftarrow> read_doc (parameters_utf8 effect); base \<leftarrow> str_fld params ''base_commit'';
     ensure (oid_ok (JStr oid) \<and> length oid = length base);
     (header, message) \<leftarrow> split_once [nl, nl] raw;
     rows \<leftarrow> header_rows [] (split_bytes nl header);
     ensure (map fst rows = [lit ''tree'', lit ''parent'', lit ''author'', lit ''committer'', signature_header (length oid)]);
     tree \<leftarrow> ascii_decode (snd (rows ! 0)); parent \<leftarrow> ascii_decode (snd (rows ! 1));
     ensure (oid_ok (JStr tree) \<and> length tree = length oid \<and> parent = base);
     t1 \<leftarrow> identity_time registration ''author'' (snd (rows ! 2));
     t2 \<leftarrow> identity_time registration ''committer'' (snd (rows ! 3));
     expected \<leftarrow> commit_message effect record binding;
     ensure (t1 = t2 \<and> message = expected);
     Some (tree, message) }"

end
