(* ===== verification/Protected_Executor.thy ===== *)
theory Protected_Executor
  imports Protected_Currentness Protected_Git
begin

text \<open>
  The publication of one accepted effect: \<open>vuoro_reconciler/protected_executor.py\<close>, with the private
  reads of \<open>protected_ledger_source.py\<close> and \<open>protected_basis_source.py\<close> it starts from. The services the
  executor is composed with (the wire of the private reads, the Git artifact store, the provider, the
  commits of the journal) answer arbitrarily at every moment: a record of functions of a time that
  advances with every interaction. A coroutine returns, raises an exception or is cancelled, and leaves
  the calls it made, in order, with their answers.
\<close>

subsection \<open>Coroutines\<close>

datatype 'a outcome = Returned 'a | Raised | Cancelled

record provider_result =
  pv_operation :: string
  pv_effect_key :: string
  pv_binding_sha256 :: string
  pv_request_sha256 :: string
  pv_status :: string
  pv_observation :: "bytes option"

record git_artifact =
  ga_local_ready_utf8 :: bytes
  ga_bundle_path :: string

text \<open>The registered profiles the executor is composed with, as their attributes read at some moment.\<close>

record profiles =
  pf_profile_id :: string
  pf_registry_sha256 :: string
  pf_profile_sha256 :: string
  pf_profile_utf8 :: bytes
  pf_git :: git_profile
  pf_ledger_namespace :: bytes
  pf_ledger_repository :: string
  pf_basis_namespace :: bytes
  pf_basis_repository :: string

record services =
  sv_profiles :: "nat \<Rightarrow> profiles"
  sv_copy_wire :: "nat \<Rightarrow> string \<Rightarrow> bytes outcome"
  sv_basis_wire :: "nat \<Rightarrow> effect_data \<Rightarrow> (string \<times> bytes) outcome"
  sv_verify :: "nat \<Rightarrow> effect_data \<Rightarrow> journal_record \<Rightarrow> git_artifact outcome"
  sv_prepare :: "nat \<Rightarrow> effect_data \<Rightarrow> journal_record \<Rightarrow> git_artifact outcome"
  sv_lookup :: "nat \<Rightarrow> operation \<Rightarrow> journal_record \<Rightarrow> provider_result outcome"
  sv_capability :: "nat \<Rightarrow> journal_record \<Rightarrow> provider_result outcome"
  sv_create :: "nat \<Rightarrow> operation \<Rightarrow> journal_record \<Rightarrow> git_artifact \<Rightarrow> provider_result outcome"
  sv_commit :: "nat \<Rightarrow> commit"
  sv_cycle_enter :: "nat \<Rightarrow> bool"
  sv_cycle_leave :: "nat \<Rightarrow> bool"

datatype call =
    CallCopy string "bytes outcome"
  | CallBasis effect_data "(string \<times> bytes) outcome"
  | CallVerify effect_data journal_record "git_artifact outcome"
  | CallPrepare effect_data journal_record "git_artifact outcome"
  | CallLookup operation journal_record "provider_result outcome"
  | CallCapability journal_record "provider_result outcome"
  | CallCreate operation journal_record git_artifact "provider_result outcome"
  | CallJournal commit journal_op journal_answer

record world =
  w_time :: nat
  w_journal :: journal_state
  w_calls :: "call list"
  w_key :: "string option"
  w_possible :: bool

type_synonym 'a coroutine = "world \<Rightarrow> 'a outcome \<times> world"

definition ereturn :: "'a \<Rightarrow> 'a coroutine" where
  "ereturn a w = (Returned a, w)"

definition ebind :: "'a coroutine \<Rightarrow> ('a \<Rightarrow> 'b coroutine) \<Rightarrow> 'b coroutine" where
  "ebind m f w = (case m w of (Returned a, w') \<Rightarrow> f a w' | (Raised, w') \<Rightarrow> (Raised, w') | (Cancelled, w') \<Rightarrow> (Cancelled, w'))"

text \<open>\<open>try: m except CancelledError: raise except Exception: h\<close>\<close>

definition etry :: "'a coroutine \<Rightarrow> 'a coroutine \<Rightarrow> 'a coroutine" where
  "etry m h w = (case m w of (Returned a, w') \<Rightarrow> (Returned a, w') | (Raised, w') \<Rightarrow> h w' | (Cancelled, w') \<Rightarrow> (Cancelled, w'))"

definition eget :: "(world \<Rightarrow> 'a) \<Rightarrow> 'a coroutine" where
  "eget f w = (Returned (f w), w)"

definition eset :: "(world \<Rightarrow> world) \<Rightarrow> unit coroutine" where
  "eset f w = (Returned (), f w)"

definition esome :: "'a option \<Rightarrow> 'a coroutine" where
  "esome x w = (case x of None \<Rightarrow> (Raised, w) | Some a \<Rightarrow> (Returned a, w))"

definition eneed :: "bool \<Rightarrow> unit coroutine" where
  "eneed c = esome (ensure c)"

text \<open>Awaiting a service: it answers at the current time, and the call is recorded with its answer.\<close>

definition await :: "(nat \<Rightarrow> 'a outcome) \<Rightarrow> ('a outcome \<Rightarrow> call) \<Rightarrow> 'a coroutine" where
  "await f mk w = (let r = f (w_time w) in (r, w\<lparr>w_time := Suc (w_time w), w_calls := w_calls w @ [mk r]\<rparr>))"

definition journal_call :: "services \<Rightarrow> journal_op \<Rightarrow> journal_answer coroutine" where
  "journal_call sv op w =
    (let c = sv_commit sv (w_time w); (ans, st) = journal_exec c op (w_journal w)
     in (if ans = Refused then Raised else Returned ans,
         w\<lparr>w_time := Suc (w_time w), w_journal := st, w_calls := w_calls w @ [CallJournal c op ans]\<rparr>))"

fun recorded :: "journal_answer \<Rightarrow> journal_record option" where
  "recorded (Recorded r) = r"
| "recorded _ = None"

fun marked :: "journal_answer \<Rightarrow> bool" where
  "marked (Marked b) = b"
| "marked _ = False"

definition journal_record_call :: "services \<Rightarrow> journal_op \<Rightarrow> journal_record coroutine" where
  "journal_record_call sv op = ebind (journal_call sv op) (\<lambda>ans. esome (recorded ans))"

text \<open>\<open>journal.read\<close> of a key that has a record; without one the next attribute access raises.\<close>

definition journal_get :: "string \<Rightarrow> journal_record coroutine" where
  "journal_get key = ebind (eget w_journal) (\<lambda>st. esome (Option.bind (journal_read key st) id))"

subsection \<open>Requests and provider results\<close>

datatype provider_op = Create operation | Lookup operation | CapabilityCheck

fun provider_op_name :: "provider_op \<Rightarrow> string" where
  "provider_op_name (Create BranchCreate) = ''branch-create''"
| "provider_op_name (Create PrCreate) = ''pr-create''"
| "provider_op_name (Lookup BranchCreate) = ''branch-lookup''"
| "provider_op_name (Lookup PrCreate) = ''pr-lookup''"
| "provider_op_name CapabilityCheck = ''capability-check''"

definition common_fields :: "journal_record \<Rightarrow> effect_data \<Rightarrow> json \<Rightarrow> json \<Rightarrow> (string \<times> json) list option" where
  "common_fields record effect binding local = do {
     oid \<leftarrow> fld local ''commit_oid''; profile \<leftarrow> fld binding ''provider_profile_sha256'';
     Some [(''effect_key'', JStr (jr_effect_key record)), (''binding_sha256'', JStr (hash_of True (jr_binding_utf8 record))),
       (''repository'', JStr (ef_repository effect)), (''branch'', JStr (''vuoro-protected/'' @ jr_effect_key record)),
       (''commit_oid'', oid), (''provider_profile_sha256'', profile)] }"

definition branch_request :: "journal_record \<Rightarrow> effect_data \<Rightarrow> json \<Rightarrow> json \<Rightarrow> json option" where
  "branch_request record effect binding local = do {
     common \<leftarrow> common_fields record effect binding local; base \<leftarrow> fld local ''base_parent_oid'';
     Some (JObj ((''schema'', JStr ''vuoro-protected-branch-request/v1'') # common @ [(''base_parent_oid'', base)])) }"

definition pr_request :: "journal_record \<Rightarrow> effect_data \<Rightarrow> json \<Rightarrow> json \<Rightarrow> json option" where
  "pr_request record effect binding local = do {
     common \<leftarrow> common_fields record effect binding local;
     params \<leftarrow> read_doc (parameters_utf8 effect);
     public \<leftarrow> public_binding record binding local effect;
     rationale \<leftarrow> str_fld params ''rationale'';
     let body = pr_body rationale (canonical public);
     target \<leftarrow> fld binding ''publication_target''; head \<leftarrow> fld target ''head_repository'';
     base \<leftarrow> fld target ''base_branch''; title \<leftarrow> fld params ''title'';
     Some (JObj ((''schema'', JStr ''vuoro-protected-pr-request/v1'') # common @
       [(''head_repository'', head), (''base_branch'', base), (''title'', title),
        (''body_utf8_b64'', JStr (b64encode body)), (''body_sha256'', JStr (hash_of True body))])) }"

definition capability_request :: "journal_record \<Rightarrow> effect_data \<Rightarrow> json \<Rightarrow> json option" where
  "capability_request record effect binding = do {
     profile \<leftarrow> fld binding ''provider_profile_sha256'';
     Some (JObj [(''schema'', JStr ''vuoro-protected-provider-capability-request/v1''),
       (''effect_key'', JStr (jr_effect_key record)), (''binding_sha256'', JStr (hash_of True (jr_binding_utf8 record))),
       (''repository'', JStr (ef_repository effect)), (''provider_profile_sha256'', profile)]) }"

definition request :: "journal_record \<Rightarrow> effect_data \<Rightarrow> provider_op \<Rightarrow> bytes option" where
  "request record effect operation = do {
     seen \<leftarrow> record_events record;
     binding \<leftarrow> map_of seen BOUND; local \<leftarrow> map_of seen LOCAL_READY;
     _ \<leftarrow> common_fields record effect binding local;
     map_option canonical
       (case operation of
          CapabilityCheck \<Rightarrow> capability_request record effect binding
        | Create BranchCreate \<Rightarrow> branch_request record effect binding local
        | Lookup BranchCreate \<Rightarrow> branch_request record effect binding local
        | _ \<Rightarrow> pr_request record effect binding local) }"

definition allowed_status :: "provider_op \<Rightarrow> string list" where
  "allowed_status op =
    (case op of
       CapabilityCheck \<Rightarrow> [''CAPABILITY_PRESENT'', ''UNKNOWN'', ''REFUSED'']
     | Lookup _ \<Rightarrow> [''ABSENT'', ''OBSERVED'', ''UNKNOWN'', ''CONFLICT'', ''REFUSED'']
     | Create _ \<Rightarrow> [''TRANSMISSION_POSSIBLE'', ''UNKNOWN'', ''CONFLICT'', ''REFUSED''])"

definition observed_kind :: "operation \<Rightarrow> event_type" where
  "observed_kind op = (case op of BranchCreate \<Rightarrow> BRANCH_OBSERVED | PrCreate \<Rightarrow> PR_OBSERVED)"

definition observation_valid :: "journal_record \<Rightarrow> effect_data \<Rightarrow> operation \<Rightarrow> bool \<Rightarrow> bytes \<Rightarrow> bytes \<Rightarrow> bool" where
  "observation_valid record effect op preliminary req raw \<longleftrightarrow>
     (case do {
        seen0 \<leftarrow> record_events record;
        seen \<leftarrow> (if preliminary then map_option (\<lambda>r. dict_set (operation_event op) r seen0) (read_upto 65536 req)
          else Some seen0);
        binding \<leftarrow> read_doc (jr_binding_utf8 record);
        payload record (observed_kind op) raw seen effect binding } of None \<Rightarrow> False | Some _ \<Rightarrow> True)"

definition provider_result_ok :: "provider_result \<Rightarrow> journal_record \<Rightarrow> effect_data \<Rightarrow> provider_op \<Rightarrow> bool \<Rightarrow> bool" where
  "provider_result_ok res record effect operation preliminary \<longleftrightarrow>
     (case request record effect operation of
        None \<Rightarrow> False
      | Some req \<Rightarrow>
          pv_operation res = provider_op_name operation \<and> pv_effect_key res = jr_effect_key record \<and>
          pv_binding_sha256 res = hash_of True (jr_binding_utf8 record) \<and> pv_request_sha256 res = hash_of True req \<and>
          pv_status res \<in> set (allowed_status operation) \<and>
          (case (pv_status res = ''OBSERVED'', pv_observation res, operation) of
             (True, Some raw, Lookup op) \<Rightarrow> observation_valid record effect op preliminary req raw
           | (True, _, _) \<Rightarrow> False
           | (False, x, _) \<Rightarrow> x = None))"

subsection \<open>Private reads\<close>

text \<open>\<open>ProtectedLedgerSource.read_copy\<close> on the bytes the transport delivers.\<close>

definition ledger_read_copy :: "profiles \<Rightarrow> string \<Rightarrow> accepted_metadata option \<Rightarrow> bytes \<Rightarrow> (effect_data \<times> bytes) option" where
  "ledger_read_copy pf aid listed wire = do {
     effect \<leftarrow> decode_protected_copy wire (pf_ledger_namespace pf) aid (pf_ledger_repository pf) listed;
     Some (effect, wire) }"

definition ledger_list_accepted :: "profiles \<Rightarrow> string option \<Rightarrow> nat \<Rightarrow> bytes \<Rightarrow> accepted_page option" where
  "ledger_list_accepted pf cursor limit wire = decode_accepted_page wire (pf_ledger_namespace pf) limit cursor"

definition basis_admitted :: "profiles \<Rightarrow> effect_data \<Rightarrow> bool" where
  "basis_admitted pf effect \<longleftrightarrow> assert_effect_data effect \<and> namespace_utf8 effect = pf_basis_namespace pf \<and>
     ef_repository effect = pf_basis_repository pf"

definition basis_request :: "profiles \<Rightarrow> effect_data \<Rightarrow> string \<Rightarrow> bytes option" where
  "basis_request pf effect request_id = do {
     ensure (basis_admitted pf effect);
     ns \<leftarrow> read_doc (pf_basis_namespace pf); locator \<leftarrow> read_doc (locator_utf8 effect);
     intent \<leftarrow> fld locator ''intent_id''; rev \<leftarrow> fld locator ''intent_revision''; repo \<leftarrow> fld ns ''repo_id'';
     Some (canonical (JObj [(''schema_version'', JStr ''invocation/v1''), (''request_id'', JStr request_id),
       (''operation'', JStr ''work.effect.basis-v1''),
       (''arguments'', JObj [(''intent_id'', intent), (''intent_revision'', rev)]), (''repo_id'', repo),
       (''catalog_revision'', JNull), (''basis_revision'', JNull), (''idempotency_key'', JNull)])) }"

definition basis_unwrap :: "string \<Rightarrow> bytes \<Rightarrow> json option" where
  "basis_unwrap request_id raw = do {
     w \<leftarrow> read_json raw (4 * 1024 * 1024);
     ensure (closed_obj w [''schema_version'', ''request_id'', ''operation'', ''catalog_revision'', ''status'', ''result'', ''error''] \<and>
       fld w ''schema_version'' = Some (JStr ''invocation-result/v1'') \<and> fld w ''request_id'' = Some (JStr request_id) \<and>
       fld w ''operation'' = Some (JStr ''work.effect.basis-v1'') \<and> fld w ''status'' = Some (JStr ''accepted'') \<and>
       fld w ''error'' = Some JNull \<and> has w ''catalog_revision'' (text_upto 256 False));
     fld w ''result'' }"

text \<open>\<open>NativeBasisSource.read_basis\<close> on the answer to the request it made.\<close>

definition read_basis :: "profiles \<Rightarrow> effect_data \<Rightarrow> string \<Rightarrow> bytes \<Rightarrow> basis_data option" where
  "read_basis pf effect request_id raw = do {
     _ \<leftarrow> basis_request pf effect request_id;
     res \<leftarrow> basis_unwrap request_id raw;
     basis \<leftarrow> decode_current_basis (canonical res) effect;
     ns \<leftarrow> read_doc (pf_basis_namespace pf); locator \<leftarrow> read_doc (locator_utf8 effect);
     ensure (fld ns ''repo_id'' = Some (JStr (cb_repo_id basis)) \<and>
       fld ns ''workspace_id'' = Some (JStr (cb_workspace_id basis)));
     intent \<leftarrow> read_doc (cb_intent_utf8 basis); r \<leftarrow> read_doc (cb_run_utf8 basis);
     run_copy \<leftarrow> read_doc (run_document_utf8 effect); original_run \<leftarrow> fld run_copy ''native_run'';
     original_release \<leftarrow> read_doc (release_document_utf8 effect);
     mine \<leftarrow> pick intent parameter_fields; theirs \<leftarrow> pick r (keys original_run);
     ensure (eq_flds intent ''intent_id'' locator ''intent_id'' \<and>
       eq_flds intent ''revision'' locator ''intent_revision'' \<and> canonical mine = parameters_utf8 effect \<and>
       fld intent ''canonical_intent_digest'' = Some (JStr (legacy_content_digest effect)) \<and>
       eq_flds intent ''release_digest'' original_release ''release_digest'' \<and>
       fld intent ''run_id'' = Some (JStr (source_run effect)) \<and> canonical theirs = canonical original_run);
     Some basis }"

subsection \<open>The executor\<close>

record execution_result =
  er_status :: string
  er_reason :: string
  er_effect_key :: "string option"
  er_outcome_utf8 :: "bytes option"

text \<open>\<open>InstalledProviderProfile.data\<close>, \<open>signing\<close>, and the pins \<open>_registered\<close> computes from the profiles.\<close>

definition decode_b64 :: "nat \<Rightarrow> json \<Rightarrow> bytes option" where
  "decode_b64 maximum v = do {
     s \<leftarrow> as_str v;
     ensure (length s \<le> (maximum + 2) div 3 * 4);
     raw \<leftarrow> b64decode s;
     ensure (raw \<noteq> [] \<and> length raw \<le> maximum \<and> b64encode raw = s);
     Some raw }"

definition profile_data :: "profiles \<Rightarrow> json option" where
  "profile_data pf = read_upto 65536 (pf_profile_utf8 pf)"

definition profile_signing :: "profiles \<Rightarrow> git_profile option" where
  "profile_signing pf = do {
     v \<leftarrow> profile_data pf;
     s0 \<leftarrow> fld v ''signing_profile_utf8_b64''; s \<leftarrow> decode_b64 16384 s0;
     k0 \<leftarrow> fld v ''public_key_utf8_b64''; k \<leftarrow> decode_b64 65536 k0;
     ensure (git_profile_ok \<lparr>gp_signing_utf8 = s, gp_public_key = k\<rparr>);
     Some \<lparr>gp_signing_utf8 = s, gp_public_key = k\<rparr> }"

type_synonym pins = "string \<times> string \<times> string \<times> bytes \<times> git_profile \<times> bytes \<times> string"

definition registered :: "bytes \<Rightarrow> profiles \<Rightarrow> pins option" where
  "registered registry pf = do {
     data \<leftarrow> profile_data pf;
     ensure (hash_of True (pf_profile_utf8 pf) = pf_profile_sha256 pf \<and> hash_of True registry = pf_registry_sha256 pf);
     signing \<leftarrow> profile_signing pf;
     ensure (signing = pf_git pf \<and> pf_ledger_namespace pf = pf_basis_namespace pf \<and>
       pf_ledger_repository pf = pf_basis_repository pf \<and>
       fld data ''effect_repository'' = Some (JStr (pf_ledger_repository pf)) \<and> has data ''base_branch'' branch_ok);
     Some (pf_profile_id pf, pf_registry_sha256 pf, pf_profile_sha256 pf, pf_profile_utf8 pf, pf_git pf,
       pf_ledger_namespace pf, pf_ledger_repository pf) }"

definition profiles_now :: "services \<Rightarrow> profiles coroutine" where
  "profiles_now sv = eget (\<lambda>w. sv_profiles sv (w_time w))"

definition check_registered :: "services \<Rightarrow> pins \<Rightarrow> unit coroutine" where
  "check_registered sv pins = ebind (profiles_now sv) (\<lambda>pf. ebind (eget (\<lambda>w. js_registry (w_journal w))) (\<lambda>registry.
     eneed (registered registry pf = Some pins)))"

definition read_copy_call :: "services \<Rightarrow> pins \<Rightarrow> string \<Rightarrow> journal_record option \<Rightarrow> (effect_data \<times> bytes) coroutine" where
  "read_copy_call sv pins aid original =
     ebind (check_registered sv pins) (\<lambda>_.
     ebind (await (\<lambda>t. sv_copy_wire sv t aid) (CallCopy aid)) (\<lambda>wire.
     ebind (profiles_now sv) (\<lambda>pf.
     ebind (esome (ledger_read_copy pf aid None wire)) (\<lambda>delivery.
     ebind (eneed (decode_protected_copy (snd delivery) (pf_ledger_namespace pf) aid (pf_ledger_repository pf) None =
         Some (fst delivery))) (\<lambda>_.
     ebind (eneed (case original of None \<Rightarrow> True | Some r \<Rightarrow> snd delivery = jr_copy_utf8 r)) (\<lambda>_.
     ebind (check_registered sv pins) (\<lambda>_. ereturn delivery)))))))"

definition read_basis_call :: "services \<Rightarrow> effect_data \<Rightarrow> basis_data coroutine" where
  "read_basis_call sv effect =
     ebind (profiles_now sv) (\<lambda>pf.
     ebind (eneed (basis_admitted pf effect)) (\<lambda>_.
     ebind (await (\<lambda>t. sv_basis_wire sv t effect) (CallBasis effect)) (\<lambda>(request_id, raw).
     esome (read_basis pf effect request_id raw))))"

definition publication_target :: "effect_data \<Rightarrow> json \<Rightarrow> bytes" where
  "publication_target effect base = canonical (JObj [(''schema'', JStr ''vuoro-protected-publication-target/v1''),
     (''repository'', JStr (ef_repository effect)), (''head_repository'', JStr (ef_repository effect)), (''base_branch'', base)])"

definition bind_op :: "profiles \<Rightarrow> effect_data \<times> bytes \<Rightarrow> journal_op option" where
  "bind_op pf delivery = do {
     signing \<leftarrow> read_doc (gp_signing_utf8 (pf_git pf));
     data \<leftarrow> profile_data pf; base \<leftarrow> fld data ''base_branch'';
     fingerprint \<leftarrow> fld signing ''signing_fingerprint''; public_key \<leftarrow> fld signing ''public_key_sha256'';
     Some (OpBind (fst delivery) (snd delivery) (pf_profile_sha256 pf) (signing_profile_sha256 (pf_git pf))
       (publication_target (fst delivery) base) fingerprint public_key) }"

definition bind_call :: "services \<Rightarrow> effect_data \<times> bytes \<Rightarrow> journal_record coroutine" where
  "bind_call sv delivery =
     ebind (profiles_now sv) (\<lambda>pf. ebind (esome (bind_op pf delivery)) (\<lambda>op. journal_record_call sv op))"

definition ready :: "effect_data \<Rightarrow> basis_data \<Rightarrow> bool coroutine" where
  "ready effect basis = ebind (esome (evaluate_currentness effect basis)) (\<lambda>c. ereturn (cr_status c = ''READY''))"

definition lookup_call :: "services \<Rightarrow> journal_record \<Rightarrow> effect_data \<Rightarrow> operation \<Rightarrow> bool \<Rightarrow> provider_result coroutine" where
  "lookup_call sv record effect op preliminary =
     ebind (await (\<lambda>t. sv_lookup sv t op record) (CallLookup op record)) (\<lambda>res.
     ebind (eneed (provider_result_ok res record effect (Lookup op) preliminary)) (\<lambda>_. ereturn res))"

definition verify_call :: "services \<Rightarrow> effect_data \<Rightarrow> journal_record \<Rightarrow> git_artifact coroutine" where
  "verify_call sv effect record = await (\<lambda>t. sv_verify sv t effect record) (CallVerify effect record)"

definition gate_new_mutation :: "services \<Rightarrow> pins \<Rightarrow> string \<Rightarrow> journal_record \<Rightarrow> effect_data \<Rightarrow> git_artifact \<Rightarrow>
    git_artifact option coroutine" where
  "gate_new_mutation sv pins aid record effect artifact =
     ebind (read_copy_call sv pins aid (Some record)) (\<lambda>delivery.
     ebind (eneed (fst delivery = effect)) (\<lambda>_.
     ebind (read_basis_call sv effect) (\<lambda>basis.
     ebind (ready effect basis) (\<lambda>r.
     if \<not> r then ereturn None else
     ebind (await (\<lambda>t. sv_capability sv t record) (CallCapability record)) (\<lambda>cap.
     ebind (eneed (provider_result_ok cap record effect CapabilityCheck False)) (\<lambda>_.
     if pv_status cap \<noteq> ''CAPABILITY_PRESENT'' then ereturn None else
     ebind (check_registered sv pins) (\<lambda>_. ereturn (Some artifact))))))))"

fun event_name :: "event_type \<Rightarrow> string" where
  "event_name BOUND = ''BOUND''"
| "event_name LOCAL_READY = ''LOCAL_READY''"
| "event_name BRANCH_TRANSMISSION_POSSIBLE = ''BRANCH_TRANSMISSION_POSSIBLE''"
| "event_name PR_TRANSMISSION_POSSIBLE = ''PR_TRANSMISSION_POSSIBLE''"
| "event_name BRANCH_OBSERVED = ''BRANCH_OBSERVED''"
| "event_name PR_OBSERVED = ''PR_OBSERVED''"
| "event_name APPLIED = ''APPLIED''"
| "event_name REFUSED = ''REFUSED''"
| "event_name CONFLICT = ''CONFLICT''"

definition result_of :: "journal_record \<Rightarrow> string \<Rightarrow> execution_result coroutine" where
  "result_of record reason =
     (let finish = (\<lambda>s r. ereturn \<lparr>er_status = s, er_reason = r, er_effect_key = Some (jr_effect_key record),
            er_outcome_utf8 = jr_outcome record\<rparr>)
      in case status record of
           At APPLIED \<Rightarrow> finish ''APPLIED'' ''original-publication-proved''
         | At kind \<Rightarrow>
             if kind \<in> {REFUSED, CONFLICT} then
               ebind (esome (do { v \<leftarrow> read_doc (ev_payload (last (jr_events record))); str_fld v ''reason'' }))
                 (\<lambda>r. finish (event_name kind) r)
             else finish (if jr_spent record \<noteq> [] then ''UNSETTLED'' else ''DEFERRED'') reason
         | Unsettled \<Rightarrow> finish (if jr_spent record \<noteq> [] then ''UNSETTLED'' else ''DEFERRED'') reason)"

definition terminal_payload :: "journal_record \<Rightarrow> string \<Rightarrow> operation option \<Rightarrow> bytes option" where
  "terminal_payload record reason op = do {
     req \<leftarrow> (case op of None \<Rightarrow> Some JNull
       | Some p \<Rightarrow> map_option (\<lambda>raw. JStr (hash_of True raw)) (map_of (jr_spent record) p));
     Some (canonical (JObj [(''schema'', JStr ''vuoro-protected-journal-terminal/v1''),
       (''effect_key'', JStr (jr_effect_key record)), (''binding_sha256'', JStr (hash_of True (jr_binding_utf8 record))),
       (''reason'', JStr reason), (''operation'', case op of None \<Rightarrow> JNull | Some p \<Rightarrow> JStr (operation_name p)),
       (''request_sha256'', req)])) }"

definition terminal_call :: "services \<Rightarrow> journal_record \<Rightarrow> string \<Rightarrow> operation option \<Rightarrow> journal_record coroutine" where
  "terminal_call sv record reason op =
     ebind (esome (terminal_payload record reason op)) (\<lambda>raw.
     journal_record_call sv (OpObserved (jr_effect_key record)
       (if reason = ''original-pr-closed'' then REFUSED else CONFLICT) raw))"

definition applied_payload :: "journal_record \<Rightarrow> bytes option" where
  "applied_payload record = do {
     seen \<leftarrow> record_events record;
     local \<leftarrow> map_of seen LOCAL_READY; oid \<leftarrow> fld local ''commit_oid'';
     br \<leftarrow> map_of seen BRANCH_TRANSMISSION_POSSIBLE; pr \<leftarrow> map_of seen PR_TRANSMISSION_POSSIBLE;
     obs \<leftarrow> map_of seen PR_OBSERVED; number \<leftarrow> fld obs ''pr_number''; url \<leftarrow> fld obs ''pr_url'';
     Some (canonical (JObj [(''schema'', JStr ''vuoro-protected-applied-outcome/v1''),
       (''effect_key'', JStr (jr_effect_key record)), (''binding_sha256'', JStr (hash_of True (jr_binding_utf8 record))),
       (''commit_oid'', oid), (''branch_request_sha256'', JStr (hash_of True (canonical br))),
       (''pr_request_sha256'', JStr (hash_of True (canonical pr))), (''pr_number'', number), (''pr_url'', url)])) }"

definition applied_call :: "services \<Rightarrow> journal_record \<Rightarrow> journal_record coroutine" where
  "applied_call sv record =
     ebind (esome (applied_payload record)) (\<lambda>raw. journal_record_call sv (OpOutcome (jr_effect_key record) raw))"

definition finish_with :: "journal_record coroutine \<Rightarrow> string \<Rightarrow> execution_result coroutine" where
  "finish_with m reason = ebind m (\<lambda>record. result_of record reason)"

text \<open>
  One round of the loop over \<open>branch-create\<close> and \<open>pr-create\<close>, in three parts: transmitting when the
  marker is not yet in the journal, looking up what the provider has, and recording it. Each part
  returns the result of the whole run, or what the next part works on.
\<close>

definition send :: "services \<Rightarrow> effect_data \<Rightarrow> operation \<Rightarrow> journal_record \<Rightarrow> git_artifact \<Rightarrow> bytes \<Rightarrow>
    (execution_result + journal_record) coroutine" where
  "send sv effect op record artifact req =
     ebind (eset (\<lambda>w. w\<lparr>w_possible := True\<rparr>)) (\<lambda>_.
     ebind (journal_call sv (OpSpent (jr_effect_key record) op req)) (\<lambda>first.
     if \<not> marked first
     then ebind (finish_with (journal_get (jr_effect_key record)) ''marker-already-spent'') (\<lambda>r. ereturn (Inl r)) else
     ebind (journal_get (jr_effect_key record)) (\<lambda>record.
     ebind (etry
         (ebind (await (\<lambda>t. sv_create sv t op record artifact) (CallCreate op record artifact)) (\<lambda>res.
          eneed (provider_result_ok res record effect (Create op) False)))
         (ereturn ())) (\<lambda>_.
     ereturn (Inr record)))))"

definition gated_send :: "services \<Rightarrow> pins \<Rightarrow> string \<Rightarrow> effect_data \<Rightarrow> operation \<Rightarrow> journal_record \<Rightarrow> git_artifact \<Rightarrow>
    (execution_result + journal_record) coroutine" where
  "gated_send sv pins aid effect op record artifact =
     ebind (gate_new_mutation sv pins aid record effect artifact) (\<lambda>admitted.
     case admitted of
       None \<Rightarrow> ebind (result_of record ''publication-not-ready'') (\<lambda>r. ereturn (Inl r))
     | Some artifact \<Rightarrow>
         ebind (esome (request record effect (Create op))) (\<lambda>req. send sv effect op record artifact req))"

definition transmit :: "services \<Rightarrow> pins \<Rightarrow> string \<Rightarrow> effect_data \<Rightarrow> operation \<Rightarrow> journal_record \<Rightarrow>
    (execution_result + journal_record) coroutine" where
  "transmit sv pins aid effect op record =
     ebind (verify_call sv effect record) (\<lambda>artifact.
     ebind (lookup_call sv record effect op True) (\<lambda>preliminary.
     if pv_status preliminary \<noteq> ''ABSENT''
     then ebind (result_of record ''unrecorded-provider-state'') (\<lambda>r. ereturn (Inl r))
     else gated_send sv pins aid effect op record artifact))"

text \<open>What follows from the status the provider reports.\<close>

definition record_found :: "services \<Rightarrow> operation \<Rightarrow> journal_record \<Rightarrow> provider_result \<Rightarrow>
    (execution_result + journal_record) coroutine" where
  "record_found sv op record res =
     (if pv_status res = ''CONFLICT'' then
        (let reason = (case op of BranchCreate \<Rightarrow> ''original-branch-mismatch'' | PrCreate \<Rightarrow> ''original-pr-mismatch'')
         in ebind (finish_with (terminal_call sv record reason (Some op)) reason) (\<lambda>r. ereturn (Inl r)))
      else if pv_status res \<noteq> ''OBSERVED'' then
        ebind (result_of record ''publication-unsettled'') (\<lambda>r. ereturn (Inl r))
      else
        ebind (esome (record_events record)) (\<lambda>seen.
        ebind (esome (pv_observation res)) (\<lambda>raw.
        if map_of seen (observed_kind op) = None then
          ebind (journal_record_call sv (OpObserved (jr_effect_key record) (observed_kind op) raw)) (\<lambda>r. ereturn (Inr r))
        else
          ebind (eneed (op = BranchCreate \<longrightarrow>
            Some raw = map_option ev_payload (find (\<lambda>e. ev_type e = BRANCH_OBSERVED) (jr_events record)))) (\<lambda>_.
          ereturn (Inr record)))))"

definition observe :: "services \<Rightarrow> effect_data \<Rightarrow> operation \<Rightarrow> journal_record \<Rightarrow>
    (execution_result + journal_record) coroutine" where
  "observe sv effect op record =
     ebind (etry (ebind (lookup_call sv record effect op False) (\<lambda>res. ereturn (Some res))) (ereturn None)) (\<lambda>found.
     case found of
       None \<Rightarrow> ebind (result_of record ''provider-observation-unavailable'') (\<lambda>r. ereturn (Inl r))
     | Some res \<Rightarrow> record_found sv op record res)"

definition settle :: "services \<Rightarrow> journal_record \<Rightarrow> execution_result coroutine" where
  "settle sv record =
     ebind (esome (do { seen \<leftarrow> record_events record; obs \<leftarrow> map_of seen PR_OBSERVED; fld obs ''state'' })) (\<lambda>state.
     if state = JStr ''closed'' then
       finish_with (terminal_call sv record ''original-pr-closed'' (Some PrCreate)) ''original-pr-closed''
     else finish_with (applied_call sv record) ''original-publication-proved'')"

definition publish :: "services \<Rightarrow> pins \<Rightarrow> string \<Rightarrow> effect_data \<Rightarrow> bool \<Rightarrow> operation \<Rightarrow> string \<Rightarrow>
    (execution_result + journal_record) coroutine" where
  "publish sv pins aid effect is_ready op key =
     ebind (journal_get key) (\<lambda>record.
     ebind (esome (record_events record)) (\<lambda>seen.
     ebind (if map_of seen (operation_event op) \<noteq> None then ereturn (Inr record)
            else if \<not> is_ready then ebind (result_of record ''basis-not-ready'') (\<lambda>r. ereturn (Inl r))
            else transmit sv pins aid effect op record) (\<lambda>sent.
     case sent of Inl r \<Rightarrow> ereturn (Inl r) | Inr record \<Rightarrow> observe sv effect op record)))"

definition publish_all :: "services \<Rightarrow> pins \<Rightarrow> string \<Rightarrow> effect_data \<Rightarrow> bool \<Rightarrow> string \<Rightarrow> execution_result coroutine" where
  "publish_all sv pins aid effect is_ready key =
     ebind (publish sv pins aid effect is_ready BranchCreate key) (\<lambda>a.
     case a of
       Inl r \<Rightarrow> ereturn r
     | Inr record \<Rightarrow>
         ebind (publish sv pins aid effect is_ready PrCreate (jr_effect_key record)) (\<lambda>b.
         case b of Inl r \<Rightarrow> ereturn r | Inr record \<Rightarrow> settle sv record))"

definition original_artifact :: "services \<Rightarrow> effect_data \<Rightarrow> journal_record \<Rightarrow> seen \<Rightarrow>
    (execution_result + git_artifact option) coroutine" where
  "original_artifact sv effect record seen =
     (if map_of seen LOCAL_READY = None then ereturn (Inr None)
      else etry (ebind (verify_call sv effect record) (\<lambda>a. ereturn (Inr (Some a))))
        (ebind (finish_with (terminal_call sv record ''original-artifact-mismatch'' None) ''original-artifact-mismatch'')
          (\<lambda>r. ereturn (Inl r))))"

definition observed_pr_state :: "seen \<Rightarrow> json option" where
  "observed_pr_state seen = Option.bind (map_of seen PR_OBSERVED) (\<lambda>v. fld v ''state'')"

definition proceed :: "services \<Rightarrow> pins \<Rightarrow> string \<Rightarrow> effect_data \<Rightarrow> journal_record \<Rightarrow> git_artifact option \<Rightarrow>
    execution_result coroutine" where
  "proceed sv pins aid effect record artifact =
     ebind (read_basis_call sv effect) (\<lambda>basis.
     ebind (ready effect basis) (\<lambda>is_ready.
     case artifact of
       Some _ \<Rightarrow> publish_all sv pins aid effect is_ready (jr_effect_key record)
     | None \<Rightarrow>
         if \<not> is_ready then result_of record ''basis-not-ready''
         else
           ebind (await (\<lambda>t. sv_prepare sv t effect record) (CallPrepare effect record)) (\<lambda>a.
           ebind (journal_record_call sv (OpLocalReady (jr_effect_key record) (ga_local_ready_utf8 a))) (\<lambda>record.
           publish_all sv pins aid effect is_ready (jr_effect_key record)))))"

text \<open>\<open>_execute\<close> from the binding of the delivered copy on.\<close>

definition continue :: "services \<Rightarrow> pins \<Rightarrow> string \<Rightarrow> effect_data \<times> bytes \<Rightarrow> execution_result coroutine" where
  "continue sv pins aid delivery =
     ebind (bind_call sv delivery) (\<lambda>record.
     ebind (esome (record_events record)) (\<lambda>seen.
     if status record \<in> At ` {APPLIED, REFUSED, CONFLICT} then result_of record ''durable-terminal'' else
     ebind (original_artifact sv (fst delivery) record seen) (\<lambda>a.
     case a of
       Inl r \<Rightarrow> ereturn r
     | Inr artifact \<Rightarrow>
         if map_of seen BRANCH_OBSERVED \<noteq> None \<and> observed_pr_state seen \<in> {Some (JStr ''open''), Some (JStr ''merged'')}
         then finish_with (applied_call sv record) ''original-publication-proved''
         else if observed_pr_state seen = Some (JStr ''closed'')
         then finish_with (terminal_call sv record ''original-pr-closed'' (Some PrCreate)) ''original-pr-closed''
         else proceed sv pins aid (fst delivery) record artifact)))"

definition execute :: "services \<Rightarrow> pins \<Rightarrow> string \<Rightarrow> execution_result coroutine" where
  "execute sv pins aid =
     ebind (read_copy_call sv pins aid None) (\<lambda>delivery.
     ebind (esome (effect_key (fst delivery))) (\<lambda>key.
     ebind (eset (\<lambda>w. w\<lparr>w_key := Some key\<rparr>)) (\<lambda>_.
     ebind (ebind (eget w_journal) (\<lambda>st. esome (journal_read key st))) (\<lambda>previous.
     ebind (eset (\<lambda>w. case previous of None \<Rightarrow> w | Some r \<Rightarrow> w\<lparr>w_possible := (jr_spent r \<noteq> [])\<rparr>)) (\<lambda>_.
     continue sv pins aid delivery)))))"

text \<open>
  \<open>run\<close>, with the journal's \<open>cycle\<close>: it refuses to start when a commit of this journal is uncertain,
  and when releasing the lock fails it makes the journal uncertain and raises.
\<close>

definition cycle :: "services \<Rightarrow> 'a coroutine \<Rightarrow> 'a coroutine" where
  "cycle sv m w =
    (if js_uncertain (w_journal w) \<or> \<not> sv_cycle_enter sv (w_time w) then (Raised, w)
     else case m w of (r, w') \<Rightarrow>
       if sv_cycle_leave sv (w_time w') then (r, w')
       else (if r = Cancelled then Cancelled else Raised,
         w'\<lparr>w_journal := snd (journal_exec Committed OpCloseFailed (w_journal w')),
           w_calls := w_calls w' @ [CallJournal Committed OpCloseFailed Refused]\<rparr>))"

definition execution_unavailable :: "execution_result coroutine" where
  "execution_unavailable = eget (\<lambda>w. \<lparr>er_status = (if w_possible w then ''UNSETTLED'' else ''DEFERRED''),
     er_reason = ''execution-unavailable'', er_effect_key = w_key w, er_outcome_utf8 = None\<rparr>)"

definition executor_run :: "services \<Rightarrow> pins \<Rightarrow> string \<Rightarrow> execution_result coroutine" where
  "executor_run sv pins aid =
     ebind (eneed (text_ok (JStr aid))) (\<lambda>_.
     ebind (eset (\<lambda>w. w\<lparr>w_key := None, w_possible := False\<rparr>)) (\<lambda>_.
     etry (cycle sv (execute sv pins aid)) execution_unavailable))"

end
