(* ===== verification/Executor_Safety.thy ===== *)
theory Executor_Safety
  imports Protected_Executor
begin

text \<open>
  What the executor does to the outside world, whatever the services answer: how its calls follow one
  another, that nothing is transmitted twice, and that its results tell the state of the journal.
\<close>

subsection \<open>Relations that coroutines keep\<close>

definition keeps :: "(world \<Rightarrow> world \<Rightarrow> bool) \<Rightarrow> 'a coroutine \<Rightarrow> bool" where
  "keeps R m \<longleftrightarrow> (\<forall>w. R w (snd (m w)))"

named_theorems keeps_intros \<open>rules that build a coroutine out of parts that keep a relation\<close>

locale world_relation =
  fixes R :: "world \<Rightarrow> world \<Rightarrow> bool"
  assumes R_refl: "R w w"
    and R_trans: "R u v \<Longrightarrow> R v w \<Longrightarrow> R u w"
begin

lemma keeps_ereturn: "keeps R (ereturn a)"
  by (simp add: keeps_def ereturn_def R_refl)

lemma keeps_ebind:
  assumes "keeps R m" "\<And>a. keeps R (f a)"
  shows "keeps R (ebind m f)"
proof -
  have "R w (snd (ebind m f w))" for w
  proof (cases "m w")
    case (Pair r w')
    have "R w w'" using assms(1) Pair by (metis keeps_def snd_conv)
    then show ?thesis using assms(2) Pair by (auto simp: ebind_def keeps_def split: outcome.splits intro: R_trans)
  qed
  then show ?thesis by (simp add: keeps_def)
qed

lemma keeps_etry:
  assumes "keeps R m" "keeps R h"
  shows "keeps R (etry m h)"
proof -
  have "R w (snd (etry m h w))" for w
  proof (cases "m w")
    case (Pair r w')
    have "R w w'" using assms(1) Pair by (metis keeps_def snd_conv)
    then show ?thesis using assms(2) Pair by (auto simp: etry_def keeps_def split: outcome.splits intro: R_trans)
  qed
  then show ?thesis by (simp add: keeps_def)
qed

lemma keeps_eget: "keeps R (eget f)"
  by (simp add: keeps_def eget_def R_refl)

lemma keeps_esome: "keeps R (esome x)"
  by (simp add: keeps_def esome_def R_refl split: option.split)

lemma keeps_eneed: "keeps R (eneed c)"
  by (simp add: eneed_def keeps_esome)

lemma keeps_if: "(c \<Longrightarrow> keeps R m) \<Longrightarrow> (\<not> c \<Longrightarrow> keeps R n) \<Longrightarrow> keeps R (if c then m else n)"
  by simp

lemma keeps_case_option: "(x = None \<Longrightarrow> keeps R m) \<Longrightarrow> (\<And>a. keeps R (f a)) \<Longrightarrow> keeps R (case x of None \<Rightarrow> m | Some a \<Rightarrow> f a)"
  by (simp split: option.split)

lemma keeps_case_sum: "(\<And>a. keeps R (f a)) \<Longrightarrow> (\<And>b. keeps R (g b)) \<Longrightarrow> keeps R (case x of Inl a \<Rightarrow> f a | Inr b \<Rightarrow> g b)"
  by (simp split: sum.split)

lemma keeps_case_prod: "(\<And>a b. keeps R (f a b)) \<Longrightarrow> keeps R (case x of (a, b) \<Rightarrow> f a b)"
  by (simp split: prod.split)

lemma keeps_journal_get: "keeps R (journal_get key)"
  unfolding journal_get_def by (intro keeps_ebind keeps_eget keeps_esome)

lemma keeps_profiles_now: "keeps R (profiles_now sv)"
  by (simp add: profiles_now_def keeps_eget)

lemma keeps_check_registered: "keeps R (check_registered sv pins)"
  unfolding check_registered_def by (intro keeps_ebind keeps_profiles_now keeps_eget keeps_eneed)

lemma keeps_ready: "keeps R (ready effect basis)"
  unfolding ready_def by (intro keeps_ebind keeps_esome keeps_ereturn)

lemma keeps_result_of: "keeps R (result_of record reason)"
proof -
  have "keeps R (ebind (esome x) (\<lambda>r. ereturn (f r)))" for x :: "string option" and f :: "string \<Rightarrow> execution_result"
    by (intro keeps_ebind keeps_esome keeps_ereturn)
  then show ?thesis
    unfolding result_of_def Let_def
    by (simp split: record_status.split event_type.split add: keeps_ereturn)
qed

lemma keeps_finish_with: "keeps R m \<Longrightarrow> keeps R (finish_with m reason)"
  unfolding finish_with_def by (intro keeps_ebind keeps_result_of)

lemmas keeps_basic = keeps_ereturn keeps_eget keeps_esome keeps_eneed keeps_if keeps_case_option keeps_case_sum
  keeps_case_prod keeps_journal_get keeps_profiles_now keeps_check_registered keeps_ready keeps_result_of keeps_finish_with

end

subsection \<open>The traces of the executor\<close>

fun journal_label :: "call \<Rightarrow> (commit \<times> journal_op \<times> journal_answer) option" where
  "journal_label (CallJournal c op ans) = Some (c, op, ans)"
| "journal_label _ = None"

fun create_of :: "call \<Rightarrow> (string \<times> operation) option" where
  "create_of (CallCreate op record a r) = Some (jr_effect_key record, op)"
| "create_of _ = None"

text \<open>Relations that awaiting a service other than a transmission keeps, and then every private read, check
  and lookup.\<close>

definition receptive :: "('a outcome \<Rightarrow> call) \<Rightarrow> bool" where
  "receptive mk \<longleftrightarrow> (\<forall>r. create_of (mk r) = None \<and> journal_label (mk r) = None)"

lemma receptive_calls [simp]:
  "receptive (CallCopy aid)" "receptive (CallBasis e)" "receptive (CallVerify e rec)" "receptive (CallPrepare e rec)"
  "receptive (CallLookup op rec)" "receptive (CallCapability rec)"
  by (simp_all add: receptive_def)

locale service_relation = world_relation +
  assumes await_bytes: "receptive m1 \<Longrightarrow> keeps R (await (f1 :: nat \<Rightarrow> bytes outcome) m1)"
    and await_wire: "receptive m2 \<Longrightarrow> keeps R (await (f2 :: nat \<Rightarrow> (string \<times> bytes) outcome) m2)"
    and await_artifact: "receptive m3 \<Longrightarrow> keeps R (await (f3 :: nat \<Rightarrow> git_artifact outcome) m3)"
    and await_provider: "receptive m4 \<Longrightarrow> keeps R (await (f4 :: nat \<Rightarrow> provider_result outcome) m4)"
begin

lemmas R_await = await_bytes await_wire await_artifact await_provider

lemma keeps_read_copy: "keeps R (read_copy_call sv pins aid original)"
  unfolding read_copy_call_def by (intro keeps_ebind keeps_basic R_await) simp_all

lemma keeps_read_basis: "keeps R (read_basis_call sv effect)"
  unfolding read_basis_call_def by (intro keeps_ebind keeps_basic R_await) simp_all

lemma keeps_verify_call: "keeps R (verify_call sv effect record)"
  unfolding verify_call_def by (intro R_await) simp_all

lemma keeps_lookup_call: "keeps R (lookup_call sv record effect op b)"
  unfolding lookup_call_def by (intro keeps_ebind keeps_basic R_await) simp_all

lemma keeps_gate: "keeps R (gate_new_mutation sv pins aid record effect a)"
  unfolding gate_new_mutation_def
  by (intro keeps_ebind keeps_basic keeps_read_copy keeps_read_basis R_await) simp_all

end

text \<open>Relations that also calls of the journal and transmissions keep, and then the whole executor.\<close>

locale executor_relation = service_relation +
  assumes R_journal: "keeps R (journal_call sv op)"
    and R_transmit: "keeps R (transmit sv pins aid effect p record)"
begin

lemma keeps_journal_record_call: "keeps R (journal_record_call sv op)"
  unfolding journal_record_call_def by (intro keeps_ebind R_journal keeps_esome)

lemmas keeps_calls = keeps_basic R_journal keeps_journal_record_call

lemma keeps_bind_call: "keeps R (bind_call sv delivery)"
  unfolding bind_call_def by (intro keeps_ebind keeps_calls)

lemma keeps_terminal_call: "keeps R (terminal_call sv record reason op)"
  unfolding terminal_call_def by (intro keeps_ebind keeps_calls)

lemma keeps_applied_call: "keeps R (applied_call sv record)"
  unfolding applied_call_def by (intro keeps_ebind keeps_calls)

lemma keeps_record_found: "keeps R (record_found sv op record res)"
  unfolding record_found_def Let_def by (intro keeps_ebind keeps_calls keeps_terminal_call)

lemma keeps_observe: "keeps R (observe sv effect op record)"
  unfolding observe_def
  by (intro keeps_ebind keeps_etry keeps_calls keeps_lookup_call keeps_record_found)

lemma keeps_settle: "keeps R (settle sv record)"
  unfolding settle_def by (intro keeps_ebind keeps_calls keeps_terminal_call keeps_applied_call)

lemma keeps_publish: "keeps R (publish sv pins aid effect b op key)"
  unfolding publish_def by (intro keeps_ebind keeps_calls R_transmit keeps_observe)

lemma keeps_publish_all: "keeps R (publish_all sv pins aid effect b key)"
  unfolding publish_all_def by (intro keeps_ebind keeps_calls keeps_publish keeps_settle)

lemma keeps_original_artifact: "keeps R (original_artifact sv effect rec seen)"
  unfolding original_artifact_def
  by (intro keeps_ebind keeps_etry keeps_calls keeps_verify_call keeps_terminal_call)

lemma keeps_proceed: "keeps R (proceed sv pins aid effect rec a)"
  unfolding proceed_def
  by (intro keeps_ebind keeps_calls keeps_read_basis keeps_publish_all R_await) simp_all

lemma keeps_continue: "keeps R (continue sv pins aid delivery)"
  unfolding continue_def
  by (intro keeps_ebind keeps_calls keeps_bind_call keeps_original_artifact keeps_applied_call keeps_terminal_call keeps_proceed)

end

definition labels :: "call list \<Rightarrow> (commit \<times> journal_op \<times> journal_answer) list" where
  "labels = List.map_filter journal_label"

definition quiet :: "call list \<Rightarrow> bool" where
  "quiet calls \<longleftrightarrow> (\<forall>c \<in> set calls. create_of c = None)"

text \<open>
  The calls that lead to a transmission, and what was established by them: the original artifact
  verified, the target absent at the provider, the accepted copy delivered again unchanged, the basis
  current, the capability present, and the marker durably spent for the first time.
\<close>

definition admitted_send :: "call list \<Rightarrow> bool" where
  "admitted_send calls \<longleftrightarrow> (\<exists>effect rec a op l aid wire rid raw (pf :: profiles) basis cur cap req rec' r.
     calls = [CallVerify effect rec (Returned a), CallLookup op rec (Returned l), CallCopy aid (Returned wire),
       CallBasis effect (Returned (rid, raw)), CallCapability rec (Returned cap),
       CallJournal Committed (OpSpent (jr_effect_key rec) op req) (Marked True), CallCreate op rec' a r] \<and>
     provider_result_ok l rec effect (Lookup op) True \<and> pv_status l = ''ABSENT'' \<and>
     wire = jr_copy_utf8 rec \<and>
     decode_protected_copy wire (pf_ledger_namespace pf) aid (pf_ledger_repository pf) None = Some effect \<and>
     (\<exists>(pf' :: profiles). read_basis pf' effect rid raw = Some basis) \<and> evaluate_currentness effect basis = Some cur \<and>
     cr_status cur = ''READY'' \<and>
     provider_result_ok cap rec effect CapabilityCheck False \<and> pv_status cap = ''CAPABILITY_PRESENT'' \<and>
     request rec effect (Create op) = Some req \<and> jr_effect_key rec' = jr_effect_key rec)"

inductive publication_trace :: "call list \<Rightarrow> bool" where
  pt_quiet: "quiet xs \<Longrightarrow> publication_trace xs"
| pt_send: "publication_trace xs \<Longrightarrow> admitted_send ys \<Longrightarrow> quiet zs \<Longrightarrow> publication_trace (xs @ ys @ zs)"

lemma quiet_append [simp]: "quiet (xs @ ys) \<longleftrightarrow> quiet xs \<and> quiet ys"
  by (auto simp: quiet_def)

lemma quiet_simps [simp]: "quiet []" "quiet (c # cs) \<longleftrightarrow> create_of c = None \<and> quiet cs"
  by (auto simp: quiet_def)

lemma publication_trace_quiet: "publication_trace xs \<Longrightarrow> quiet ys \<Longrightarrow> publication_trace (xs @ ys)"
proof (induction rule: publication_trace.induct)
  case (pt_quiet xs)
  then show ?case by (simp add: publication_trace.pt_quiet)
next
  case (pt_send xs ys' zs)
  then show ?case using publication_trace.pt_send [of xs ys' "zs @ ys"] by simp
qed

lemma publication_trace_append: "publication_trace ys \<Longrightarrow> publication_trace xs \<Longrightarrow> publication_trace (xs @ ys)"
proof (induction rule: publication_trace.induct)
  case (pt_quiet ys)
  then show ?case using publication_trace_quiet by blast
next
  case (pt_send ys vs zs)
  then show ?case using publication_trace.pt_send [of "xs @ ys" vs zs] by simp
qed

definition trace_step :: "world \<Rightarrow> world \<Rightarrow> bool" where
  "trace_step w w' \<longleftrightarrow> (\<exists>new. w_calls w' = w_calls w @ new \<and>
     run journal_step (w_journal w) (labels new) (w_journal w') \<and> publication_trace new)"

lemma labels_append [simp]: "labels (xs @ ys) = labels xs @ labels ys"
  by (induction xs) (auto simp: labels_def List.map_filter_simps split: option.split)

lemma labels_simps [simp]:
  "labels [] = []" "labels (c # cs) = (case journal_label c of None \<Rightarrow> labels cs | Some l \<Rightarrow> l # labels cs)"
  by (simp_all add: labels_def List.map_filter_simps split: option.split)

interpretation trace: world_relation trace_step
proof
  show "trace_step w w" for w
    unfolding trace_step_def by (intro exI [of _ "[]"]) (simp add: run_nil pt_quiet)
next
  fix u v w
  assume "trace_step u v" "trace_step v w"
  then obtain a b where
    "w_calls v = w_calls u @ a" "run journal_step (w_journal u) (labels a) (w_journal v)" "publication_trace a"
    "w_calls w = w_calls v @ b" "run journal_step (w_journal v) (labels b) (w_journal w)" "publication_trace b"
    unfolding trace_step_def by blast
  then show "trace_step u w" unfolding trace_step_def
    by (intro exI [of _ "a @ b"]) (auto simp: run_append publication_trace_append)
qed

lemma trace_quiet:
  assumes "w_calls w' = w_calls w @ new" "quiet new" "run journal_step (w_journal w) (labels new) (w_journal w')"
  shows "trace_step w w'"
  unfolding trace_step_def using assms pt_quiet by blast

lemma trace_await:
  assumes "receptive mk"
  shows "keeps trace_step (await f mk)"
  unfolding keeps_def
proof
  fix w :: world
  show "trace_step w (snd (await f mk w))"
    by (rule trace_quiet [of _ _ "[mk (f (w_time w))]"]) (use assms in \<open>simp_all add: await_def Let_def receptive_def run_nil\<close>)
qed

lemma trace_journal_call: "keeps trace_step (journal_call sv op)"
  unfolding keeps_def
proof
  fix w :: world
  obtain ans st where e: "journal_exec (sv_commit sv (w_time w)) op (w_journal w) = (ans, st)" by fastforce
  show "trace_step w (snd (journal_call sv op w))"
    by (rule trace_quiet [of _ _ "[CallJournal (sv_commit sv (w_time w)) op ans]"])
      (simp_all add: journal_call_def Let_def e run_cons_iff journal_step_iff del: journal_exec.simps)
qed

lemma trace_eset: "(\<And>w. w_calls (f w) = w_calls w \<and> w_journal (f w) = w_journal w) \<Longrightarrow> keeps trace_step (eset f)"
  unfolding keeps_def by (auto simp: eset_def run_nil intro!: trace_quiet [of _ _ "[]"])

interpretation trace: service_relation trace_step
  by unfold_locales (rule trace_await; assumption)+

subsection \<open>Transmissions\<close>

text \<open>How a coroutine that returned got there.\<close>

lemma ebind_Returned: "ebind m f w = (Returned b, w') \<longleftrightarrow> (\<exists>a u. m w = (Returned a, u) \<and> f a u = (Returned b, w'))"
  by (auto simp: ebind_def split: prod.splits outcome.splits)

lemma simple_Returned:
  "ereturn a w = (Returned b, w') \<longleftrightarrow> b = a \<and> w' = w"
  "esome x w = (Returned b, w') \<longleftrightarrow> x = Some b \<and> w' = w"
  "eneed c w = (Returned u, w') \<longleftrightarrow> c \<and> w' = w"
  "eget f w = (Returned b, w') \<longleftrightarrow> b = f w \<and> w' = w"
  "eset g w = (Returned u, w') \<longleftrightarrow> w' = g w"
  by (auto simp: ereturn_def esome_def eneed_def eget_def eset_def ensure_def split: option.splits)

lemma await_Returned:
  "await f mk w = (Returned b, w') \<longleftrightarrow> f (w_time w) = Returned b \<and>
     w' = w\<lparr>w_time := Suc (w_time w), w_calls := w_calls w @ [mk (Returned b)]\<rparr>"
  by (auto simp: await_def Let_def)

lemmas returned_simps = ebind_Returned simple_Returned await_Returned

lemma check_registered_Returned: "check_registered sv pins w = (Returned u, w') \<Longrightarrow> w' = w"
  by (auto simp: check_registered_def profiles_now_def returned_simps)

lemma read_copy_Returned:
  assumes "read_copy_call sv pins aid (Some rec) w = (Returned d, w')"
  obtains wire and pf :: profiles where "d = (fst d, wire)" "wire = jr_copy_utf8 rec" "w_journal w' = w_journal w"
    "w_calls w' = w_calls w @ [CallCopy aid (Returned wire)]"
    "decode_protected_copy wire (pf_ledger_namespace pf) aid (pf_ledger_repository pf) None = Some (fst d)"
proof -
  obtain u1 u2 wire v1 v2 pf where c: "check_registered sv pins w = (Returned u1, v1)"
    "await (\<lambda>t. sv_copy_wire sv t aid) (CallCopy aid) v1 = (Returned wire, v2)"
    "ledger_read_copy pf aid None wire = Some d" "wire = jr_copy_utf8 rec" "snd d = wire"
    "check_registered sv pins v2 = (Returned u2, w')"
    using assms unfolding read_copy_call_def ebind_Returned simple_Returned profiles_now_def
    by (auto simp: ledger_read_copy_def bind_eq_Some_conv)
  have "v1 = w" "w' = v2" using c(1,6) check_registered_Returned by blast+
  then show thesis using that [of wire pf] c by (auto simp: await_Returned ledger_read_copy_def bind_eq_Some_conv)
qed

lemma read_basis_Returned:
  assumes "read_basis_call sv effect w = (Returned basis, w')"
  obtains rid raw and pf :: profiles where "w_journal w' = w_journal w" "w_calls w' = w_calls w @ [CallBasis effect (Returned (rid, raw))]"
    "read_basis pf effect rid raw = Some basis"
  using assms that by (fastforce simp: read_basis_call_def profiles_now_def returned_simps)

lemma gate_Returned:
  assumes "gate_new_mutation sv pins aid rec effect a w = (Returned (Some b), w')"
  obtains wire rid raw cap and pf pf' :: profiles and basis cur where "b = a" "w_journal w' = w_journal w"
    "w_calls w' = w_calls w @ [CallCopy aid (Returned wire), CallBasis effect (Returned (rid, raw)),
       CallCapability rec (Returned cap)]"
    "wire = jr_copy_utf8 rec"
    "decode_protected_copy wire (pf_ledger_namespace pf) aid (pf_ledger_repository pf) None = Some effect"
    "read_basis pf' effect rid raw = Some basis" "evaluate_currentness effect basis = Some cur" "cr_status cur = ''READY''"
    "provider_result_ok cap rec effect CapabilityCheck False" "pv_status cap = ''CAPABILITY_PRESENT''"
proof -
  from assms obtain d u1 basis u2 where
    d: "read_copy_call sv pins aid (Some rec) w = (Returned d, u1)" "fst d = effect"
    "read_basis_call sv effect u1 = (Returned basis, u2)" and
    rest: "ebind (ready effect basis) (\<lambda>r. if \<not> r then ereturn None else
     ebind (await (\<lambda>t. sv_capability sv t rec) (CallCapability rec)) (\<lambda>cap.
     ebind (eneed (provider_result_ok cap rec effect CapabilityCheck False)) (\<lambda>_.
     if pv_status cap \<noteq> ''CAPABILITY_PRESENT'' then ereturn None else
     ebind (check_registered sv pins) (\<lambda>_. ereturn (Some a))))) u2 = (Returned (Some b), w')"
    unfolding gate_new_mutation_def by (auto simp: ebind_Returned simple_Returned(3))
  from rest obtain cur cap where r: "evaluate_currentness effect basis = Some cur" "cr_status cur = ''READY''"
    "provider_result_ok cap rec effect CapabilityCheck False" "pv_status cap = ''CAPABILITY_PRESENT''"
    "b = a" "w_journal w' = w_journal u2" "w_calls w' = w_calls u2 @ [CallCapability rec (Returned cap)]"
    by (auto simp: ready_def returned_simps split: if_splits dest!: check_registered_Returned)
  from read_copy_Returned [OF d(1)] obtain wire and pf :: profiles where c: "wire = jr_copy_utf8 rec" "w_journal u1 = w_journal w"
    "w_calls u1 = w_calls w @ [CallCopy aid (Returned wire)]"
    "decode_protected_copy wire (pf_ledger_namespace pf) aid (pf_ledger_repository pf) None = Some effect"
    using d(2) by metis
  from read_basis_Returned [OF d(3)] obtain rid raw and pf' :: profiles where b: "w_journal u2 = w_journal u1"
    "w_calls u2 = w_calls u1 @ [CallBasis effect (Returned (rid, raw))]" "read_basis pf' effect rid raw = Some basis"
    by metis
  show thesis using that [of wire rid raw cap pf pf' basis cur] r c b by simp
qed

lemma marked_True_committed:
  assumes "journal_exec c (OpSpent key op raw) st = (Marked True, st')"
  shows "c = Committed"
  using assms by (auto simp: mark_spent_def journal_append_def transaction_def answer_of_def
      split: if_splits option.splits commit.splits)

lemma journal_get_key: "journal_get key w = (Returned r, w') \<Longrightarrow> jr_effect_key r = key \<and> w' = w"
  by (auto simp: journal_get_def returned_simps journal_read_def bind_eq_Some_conv dest: load_Some)

lemma result_of_world [simp]: "snd (result_of rec reason w) = w"
  by (auto simp: result_of_def ebind_def ereturn_def esome_def Let_def
      split: option.split record_status.split event_type.split)

lemma ebind_world: "(\<And>a u. snd (f a u) = u) \<Longrightarrow> snd (ebind m f w) = snd (m w)"
  by (auto simp: ebind_def split: prod.split outcome.split)

lemma journal_get_world [simp]: "snd (journal_get key w) = w"
  by (simp add: journal_get_def ebind_def eget_def esome_def split: option.split)

lemma ereturn_world [simp]: "snd (ereturn a w) = w"
  by (simp add: ereturn_def)

lemma send_trace:
  "\<exists>new. w_calls (snd (send sv effect op rec a req u)) = w_calls u @ new \<and>
     run journal_step (w_journal u) (labels new) (w_journal (snd (send sv effect op rec a req u))) \<and>
     (quiet new \<or> (\<exists>rec' r. jr_effect_key rec' = jr_effect_key rec \<and>
       new = [CallJournal Committed (OpSpent (jr_effect_key rec) op req) (Marked True), CallCreate op rec' a r]))"
proof -
  let ?op = "OpSpent (jr_effect_key rec) op req"
  obtain ans st where e: "journal_exec (sv_commit sv (w_time u)) ?op (w_journal u) = (ans, st)" by fastforce
  let ?j = "CallJournal (sv_commit sv (w_time u)) ?op ans"
  define v where "v = u\<lparr>w_possible := True, w_time := Suc (w_time u), w_journal := st, w_calls := w_calls u @ [?j]\<rparr>"
  have step: "run journal_step (w_journal u) (labels [?j]) (w_journal v)"
    using e by (simp add: v_def run_cons_iff journal_step_iff del: journal_exec.simps)
  have call: "journal_call sv ?op (u\<lparr>w_possible := True\<rparr>) = (if ans = Refused then Raised else Returned ans, v)"
    by (simp add: journal_call_def e v_def del: journal_exec.simps)
  define rest where "rest = (if \<not> marked ans
     then ebind (finish_with (journal_get (jr_effect_key rec)) ''marker-already-spent'') (\<lambda>r. ereturn (Inl r)) else
     ebind (journal_get (jr_effect_key rec)) (\<lambda>record.
     ebind (etry (ebind (await (\<lambda>t. sv_create sv t op record a) (CallCreate op record a)) (\<lambda>res.
          eneed (provider_result_ok res record effect (Create op) False)))
         (ereturn ())) (\<lambda>_. ereturn (Inr record))))"
  have send: "send sv effect op rec a req u = (if ans = Refused then (Raised, v) else rest v)"
    by (simp add: send_def ebind_def eset_def call rest_def)
  show ?thesis
  proof (cases "ans \<noteq> Refused \<and> marked ans \<and> (\<exists>r. journal_get (jr_effect_key rec) v = (Returned r, v))")
    case False
    have "snd (rest v) = v"
    proof (cases "marked ans")
      case True
      then have "journal_get (jr_effect_key rec) v \<noteq> (Returned r, v)" for r using False by (cases ans) auto
      then have "fst (journal_get (jr_effect_key rec) v) \<noteq> Returned r" for r
        using journal_get_world [of "jr_effect_key rec" v] by (metis prod.collapse)
      then show ?thesis using True journal_get_world [of "jr_effect_key rec" v]
        by (cases "journal_get (jr_effect_key rec) v"; cases "fst (journal_get (jr_effect_key rec) v)")
          (simp_all add: rest_def ebind_def)
    qed (simp add: rest_def finish_with_def ebind_world)
    then have "snd (send sv effect op rec a req u) = v" by (simp add: send)
    then show ?thesis using step by (intro exI [of _ "[?j]"]) (simp add: v_def)
  next
    case True
    then obtain r where r: "journal_get (jr_effect_key rec) v = (Returned r, v)" by blast
    have m: "ans = Marked True" using True by (cases ans) auto
    let ?c = "CallCreate op r a (sv_create sv (w_time v) op r a)"
    have "w_calls (snd (send sv effect op rec a req u)) = w_calls v @ [?c] \<and> w_journal (snd (send sv effect op rec a req u)) = w_journal v"
      using True unfolding send rest_def
      by (auto simp: ebind_def etry_def ereturn_def await_def Let_def eneed_def esome_def r
          split: prod.splits outcome.splits option.splits)
    moreover have "sv_commit sv (w_time u) = Committed" using marked_True_committed e m by blast
    ultimately show ?thesis using step m journal_get_key [OF r]
      by (intro exI [of _ "[?j, ?c]"]) (simp add: v_def)
  qed
qed


lemma trace_send:
  assumes "w_calls u = w_calls w @ pre" "w_journal u = w_journal w" "labels pre = []" "quiet pre"
    "\<And>rec' r. jr_effect_key rec' = jr_effect_key rec \<Longrightarrow>
       admitted_send (pre @ [CallJournal Committed (OpSpent (jr_effect_key rec) op req) (Marked True), CallCreate op rec' a r])"
  shows "trace_step w (snd (send sv effect op rec a req u))"
proof -
  obtain new where new: "w_calls (snd (send sv effect op rec a req u)) = w_calls u @ new"
     "run journal_step (w_journal u) (labels new) (w_journal (snd (send sv effect op rec a req u)))"
     "quiet new \<or> (\<exists>rec' r. jr_effect_key rec' = jr_effect_key rec \<and>
       new = [CallJournal Committed (OpSpent (jr_effect_key rec) op req) (Marked True), CallCreate op rec' a r])"
    using send_trace by blast
  have "publication_trace (pre @ new)"
  proof (cases "quiet new")
    case False
    then have "admitted_send (pre @ new)" using new(3) assms(5) by blast
    then show ?thesis using pt_send [of "[]" "pre @ new" "[]"] by (simp add: pt_quiet)
  qed (use assms(4) in \<open>simp add: pt_quiet\<close>)
  then show ?thesis unfolding trace_step_def using new(1,2) assms(1-3) by (intro exI [of _ "pre @ new"]) simp
qed

lemma trace_early: "keeps trace_step (ebind (result_of rec s) (\<lambda>r. ereturn (Inl r)))"
  by (intro trace.keeps_ebind trace.keeps_basic)

lemma trace_then: "trace_step w u \<Longrightarrow> keeps trace_step m \<Longrightarrow> trace_step w (snd (m u))"
  unfolding keeps_def using trace.R_trans by blast

lemma trace_ebind_at:
  assumes "trace_step w u" "keeps trace_step m" "\<And>a v. m u = (Returned a, v) \<Longrightarrow> trace_step w v \<Longrightarrow> trace_step w (snd (f a v))"
  shows "trace_step w (snd (ebind m f u))"
proof (cases "m u")
  case (Pair r v)
  have "trace_step w v" using trace_then [OF assms(1,2)] Pair by simp
  then show ?thesis using Pair assms(3) by (auto simp: ebind_def split: outcome.split)
qed

lemma trace_gated_send:
  assumes "provider_result_ok l rec effect (Lookup op) True" "pv_status l = ''ABSENT''" "w_journal u = w_journal w"
    "w_calls u = w_calls w @ [CallVerify effect rec (Returned a), CallLookup op rec (Returned l)]"
  shows "trace_step w (snd (gated_send sv pins aid effect op rec a u))"
  unfolding gated_send_def
proof (rule trace_ebind_at [OF _ trace.keeps_gate])
  show "trace_step w u" by (rule trace_quiet [OF assms(4)]) (simp_all add: assms(3) run_nil)
next
  fix adm v
  assume g: "gate_new_mutation sv pins aid rec effect a u = (Returned adm, v)" and v: "trace_step w v"
  show "trace_step w (snd ((case adm of None \<Rightarrow> ebind (result_of rec ''publication-not-ready'') (\<lambda>r. ereturn (Inl r))
     | Some artifact \<Rightarrow> ebind (esome (request rec effect (Create op))) (\<lambda>req. send sv effect op rec artifact req)) v))"
  proof (cases "adm = None \<or> request rec effect (Create op) = None")
    case True
    then show ?thesis using v trace_then [OF v trace_early] by (auto simp: ebind_def esome_def split: option.split)
  next
    case False
    then obtain b req where b: "adm = Some b" "request rec effect (Create op) = Some req" by auto
    obtain wire rid raw cap and pf pf' :: profiles and basis cur where
      k: "b = a" "w_journal v = w_journal u" "w_calls v = w_calls u @
        [CallCopy aid (Returned wire), CallBasis effect (Returned (rid, raw)), CallCapability rec (Returned cap)]"
      and c: "wire = jr_copy_utf8 rec" "decode_protected_copy wire (pf_ledger_namespace pf) aid (pf_ledger_repository pf) None = Some effect"
      "read_basis pf' effect rid raw = Some basis" "evaluate_currentness effect basis = Some cur" "cr_status cur = ''READY''"
      "provider_result_ok cap rec effect CapabilityCheck False" "pv_status cap = ''CAPABILITY_PRESENT''"
      by (rule gate_Returned [OF g [unfolded b(1)]])
    let ?pre = "[CallVerify effect rec (Returned a), CallLookup op rec (Returned l), CallCopy aid (Returned wire),
      CallBasis effect (Returned (rid, raw)), CallCapability rec (Returned cap)]"
    have "trace_step w (snd (send sv effect op rec b req v))"
    proof (rule trace_send)
      show "w_calls v = w_calls w @ ?pre" "w_journal v = w_journal w" using k assms by simp_all
      show "admitted_send (?pre @ [CallJournal Committed (OpSpent (jr_effect_key rec) op req) (Marked True), CallCreate op rec' b r])"
        if "jr_effect_key rec' = jr_effect_key rec" for rec' r
        unfolding admitted_send_def using that c k(1) b(2) assms(1,2) by auto
    qed simp_all
    then show ?thesis using b by (simp add: ebind_def esome_def)
  qed
qed

lemma trace_transmit: "keeps trace_step (transmit sv pins aid effect op rec)"
  unfolding keeps_def
proof
  fix w :: world
  show "trace_step w (snd (transmit sv pins aid effect op rec w))"
    unfolding transmit_def
  proof (rule trace_ebind_at [OF trace.R_refl trace.keeps_verify_call], rule trace_ebind_at [OF _ trace.keeps_lookup_call])
    fix a u l v
    assume a: "verify_call sv effect rec w = (Returned a, u)" and l: "lookup_call sv rec effect op True u = (Returned l, v)"
      and v: "trace_step w v"
    have "provider_result_ok l rec effect (Lookup op) True \<and> w_journal v = w_journal w \<and>
        w_calls v = w_calls w @ [CallVerify effect rec (Returned a), CallLookup op rec (Returned l)]"
      using a l by (auto simp: verify_call_def lookup_call_def returned_simps)
    then show "trace_step w (snd ((if pv_status l \<noteq> ''ABSENT''
      then ebind (result_of rec ''unrecorded-provider-state'') (\<lambda>r. ereturn (Inl r))
      else gated_send sv pins aid effect op rec a) v))"
      using trace_gated_send [of l rec effect op v w a] trace_then [OF v trace_early] by auto
  qed
qed

interpretation trace: executor_relation trace_step
  by unfold_locales (rule trace_journal_call trace_transmit)+

lemma trace_execute: "keeps trace_step (execute sv pins aid)"
  unfolding execute_def
  by (intro trace.keeps_ebind trace.keeps_calls trace.keeps_read_copy trace_eset trace.keeps_continue)
    (simp_all split: option.split)

lemma trace_cycle:
  assumes "keeps trace_step m"
  shows "keeps trace_step (cycle sv m)"
  unfolding keeps_def
proof
  fix w :: world
  obtain r u where m: "m w = (r, u)" by fastforce
  then have u: "trace_step w u" using assms by (metis keeps_def snd_conv)
  let ?u = "u\<lparr>w_journal := (w_journal u)\<lparr>js_uncertain := True\<rparr>,
    w_calls := w_calls u @ [CallJournal Committed OpCloseFailed Refused]\<rparr>"
  have "trace_step u ?u"
    by (rule trace_quiet [of _ _ "[CallJournal Committed OpCloseFailed Refused]"])
      (simp_all add: run_cons_iff journal_step_iff)
  then have "trace_step w ?u" using u trace.R_trans by blast
  then show "trace_step w (snd (cycle sv m w))" using u by (simp add: cycle_def m trace.R_refl)
qed

lemma trace_executor_run: "keeps trace_step (executor_run sv pins aid)"
  unfolding executor_run_def execution_unavailable_def
  by (intro trace.keeps_ebind trace.keeps_etry trace.keeps_basic trace_cycle trace_execute trace_eset) simp_all

end
