(* ===== verification/Executor_Properties.thy ===== *)
theory Executor_Properties
  imports Executor_Safety
begin

text \<open>
  The properties of the executor over any number of runs and restarts: one transmission per effect and
  operation, every transmission gated, and results that say what the journal holds.
\<close>

subsection \<open>Histories of runs\<close>

text \<open>One run of the executor on the journal as it is, or a restart of the process that owns it.\<close>

inductive executor_step :: "journal_state \<Rightarrow> call list \<Rightarrow> journal_state \<Rightarrow> bool" where
  executor_ran: "executor_run sv pins aid w = (res, w') \<Longrightarrow> w_calls w = [] \<Longrightarrow>
    executor_step (w_journal w) (w_calls w') (w_journal w')"
| executor_restarted: "journal_exec c OpReopen st = (ans, st') \<Longrightarrow> executor_step st [CallJournal c OpReopen ans] st'"

lemma executor_step_trace:
  assumes "executor_step st new st'"
  shows "run journal_step st (labels new) st' \<and> publication_trace new"
  using assms
proof cases
  case (executor_ran sv pins aid w res w')
  have "trace_step w (snd (executor_run sv pins aid w))" using trace_executor_run unfolding keeps_def by blast
  then have "trace_step w w'" unfolding executor_ran(4) by simp
  then obtain ys where "w_calls w' = w_calls w @ ys" "run journal_step (w_journal w) (labels ys) (w_journal w')"
    "publication_trace ys" unfolding trace_step_def by blast
  then show ?thesis unfolding executor_ran(1-3,5) by simp
next
  case (executor_restarted c ans)
  then have "journal_step st (c, OpReopen, ans) st'" by (simp add: journal_step_iff)
  then have "run journal_step st [(c, OpReopen, ans)] st'" by (simp add: run_cons_iff)
  then show ?thesis using executor_restarted by (simp add: pt_quiet)
qed

lemma executor_run_trace:
  "run executor_step st ls st' \<Longrightarrow> run journal_step st (labels (concat ls)) st' \<and> publication_trace (concat ls)"
proof (induction rule: run.induct)
  case (run_nil s)
  show ?case by (simp add: run.run_nil pt_quiet)
next
  case (run_cons s l s' ls s'')
  then show ?case using executor_step_trace [OF run_cons.hyps(1)]
    by (auto simp: run_append publication_trace_append)
qed

definition creates :: "call list \<Rightarrow> (string \<times> operation) list" where
  "creates = List.map_filter create_of"

lemma map_filter_append: "List.map_filter f (xs @ ys) = List.map_filter f xs @ List.map_filter f ys"
  by (induction xs) (simp_all add: List.map_filter_simps split: option.split)

lemma quiet_creates: "quiet xs \<Longrightarrow> creates xs = []"
  by (induction xs) (simp_all add: creates_def List.map_filter_simps)

lemma admitted_send_creates:
  assumes "admitted_send ys"
  shows "creates ys = List.map_filter first_spent (labels ys)"
  using assms unfolding admitted_send_def by (auto simp: creates_def List.map_filter_simps)

lemma creates_spent: "publication_trace xs \<Longrightarrow> subseq (creates xs) (List.map_filter first_spent (labels xs))"
proof (induction rule: publication_trace.induct)
  case (pt_quiet xs)
  then show ?case by (simp add: quiet_creates)
next
  case (pt_send xs ys zs)
  have "subseq (creates xs @ creates ys @ [])
      (List.map_filter first_spent (labels xs) @ List.map_filter first_spent (labels ys) @
       List.map_filter first_spent (labels zs))"
    using pt_send.IH admitted_send_creates [OF pt_send.hyps(2)] by (intro list_emb_append_mono) simp_all
  then show ?case
    using quiet_creates [OF pt_send.hyps(3)] by (simp add: creates_def map_filter_append)
qed

lemma subseq_set: "subseq xs ys \<Longrightarrow> set xs \<subseteq> set ys"
  by (induction rule: list_emb.induct) auto

lemma subseq_distinct: "subseq xs ys \<Longrightarrow> distinct ys \<Longrightarrow> distinct xs"
  by (induction rule: list_emb.induct) (auto dest: list_emb_set)

text \<open>C17: Nothing is published twice: over any number of runs of the executor and restarts of its process,
  with whatever its services answer, each operation of each effect is transmitted at most once.\<close>

theorem published_at_most_once:
  assumes "install_journal host registry = Some db" "run executor_step (open_journal host registry db) ls st"
  shows "distinct (creates (concat ls))"
proof -
  have t: "run journal_step (open_journal host registry db) (labels (concat ls)) st" "publication_trace (concat ls)"
    using executor_run_trace [OF assms(2)] by blast+
  have "distinct (List.map_filter first_spent (labels (concat ls)))"
    using journal_spending.accepted_distinct [OF t(1) install_inv [OF assms(1)]] by blast
  then show ?thesis using creates_spent [OF t(2)] subseq_distinct by blast
qed

lemma publication_trace_split:
  "publication_trace xs \<Longrightarrow> xs = pre @ CallCreate op rec a r # post \<Longrightarrow>
    \<exists>start ys. pre @ [CallCreate op rec a r] = start @ ys \<and> admitted_send ys"
proof (induction arbitrary: pre post rule: publication_trace.induct)
  case (pt_quiet xs)
  then show ?case by simp
next
  case (pt_send xs ys zs)
  let ?c = "CallCreate op rec a r"
  have z: "?c \<notin> set zs" using pt_send.hyps(3) by (auto simp: quiet_def)
  obtain ys0 last_c where ys: "ys = ys0 @ [last_c]" "quiet ys0"
    using pt_send.hyps(2) unfolding admitted_send_def by fastforce
  from pt_send.prems have "xs @ ys0 @ last_c # zs = pre @ ?c # post" using ys by simp
  then consider us where "pre = xs @ ys0 @ last_c # us" "zs = us @ ?c # post"
    | "pre = xs @ ys0" "last_c = ?c"
    | us where "xs @ ys0 = pre @ ?c # us"
    by (auto simp: append_eq_append_conv2 append_eq_Cons_conv Cons_eq_append_conv)
  then show ?case
  proof cases
    case 1
    then show ?thesis using z by auto
  next
    case 2
    then show ?thesis using pt_send.hyps(2) ys by (intro exI [of _ xs] exI [of _ ys]) simp
  next
    case 3
    then obtain vs where "xs = pre @ ?c # vs"
      using ys(2) by (auto simp: append_eq_append_conv2 quiet_def Cons_eq_append_conv append_eq_Cons_conv)
    then show ?thesis using pt_send.IH by blast
  qed
qed


subsection \<open>What a run reports\<close>

definition triple :: "(world \<Rightarrow> bool) \<Rightarrow> 'a coroutine \<Rightarrow> ('a \<Rightarrow> world \<Rightarrow> bool) \<Rightarrow> bool" where
  "triple P m Q \<longleftrightarrow> (\<forall>w a w'. P w \<longrightarrow> m w = (Returned a, w') \<longrightarrow> Q a w')"

lemma triple_ebind: "triple P m R \<Longrightarrow> (\<And>a. triple (R a) (f a) Q) \<Longrightarrow> triple P (ebind m f) Q"
  unfolding triple_def ebind_Returned by blast

lemma triple_pre: "triple P m Q \<Longrightarrow> (\<And>w. P' w \<Longrightarrow> P w) \<Longrightarrow> triple P' m Q"
  unfolding triple_def by blast

lemma triple_ereturn: "(\<And>w. P w \<Longrightarrow> Q a w) \<Longrightarrow> triple P (ereturn a) Q"
  by (simp add: triple_def simple_Returned)

lemma triple_esome: "(\<And>a w. x = Some a \<Longrightarrow> P w \<Longrightarrow> Q a w) \<Longrightarrow> triple P (esome x) Q"
  by (simp add: triple_def simple_Returned)

lemma triple_if: "(c \<Longrightarrow> triple P m Q) \<Longrightarrow> (\<not> c \<Longrightarrow> triple P n Q) \<Longrightarrow> triple P (if c then m else n) Q"
  by simp

lemma triple_etry:
  assumes "triple P m Q" "keeps (\<lambda>w w'. P w \<longrightarrow> P w') m" "triple P h Q"
  shows "triple P (etry m h) Q"
  unfolding triple_def
proof (intro allI impI)
  fix w a w'
  assume w: "P w" and e: "etry m h w = (Returned a, w')"
  obtain r u where r: "m w = (r, u)" by fastforce
  have "P u" using assms(2) w r by (metis keeps_def snd_conv)
  then show "Q a w'" using e w r assms(1,3) by (cases r) (auto simp: etry_def triple_def)
qed

text \<open>A record that is the current one of the journal, and results that tell one.\<close>

definition is_current :: "journal_record \<Rightarrow> world \<Rightarrow> bool" where
  "is_current rec w \<longleftrightarrow> load (js_db (w_journal w)) (jr_effect_key rec) = Some (Some rec)"

definition report_of :: "journal_record \<Rightarrow> string" where
  "report_of rec = (case status rec of
       At kind \<Rightarrow> if kind \<in> set terminal then event_name kind
         else if jr_spent rec \<noteq> [] then ''UNSETTLED'' else ''DEFERRED''
     | Unsettled \<Rightarrow> if jr_spent rec \<noteq> [] then ''UNSETTLED'' else ''DEFERRED'')"

definition tells :: "execution_result \<Rightarrow> journal_record \<Rightarrow> bool" where
  "tells res rec \<longleftrightarrow> er_effect_key res = Some (jr_effect_key rec) \<and> er_status res = report_of rec \<and>
     er_outcome_utf8 res = jr_outcome rec"

definition told :: "execution_result \<Rightarrow> world \<Rightarrow> bool" where
  "told res w \<longleftrightarrow> (\<exists>rec. is_current rec w \<and> tells res rec)"

abbreviation same_journal :: "world \<Rightarrow> world \<Rightarrow> bool" where
  "same_journal w w' \<equiv> w_journal w' = w_journal w"

lemma same_await: "keeps same_journal (await f mk)"
  by (simp add: keeps_def await_def Let_def)

interpretation idle: service_relation same_journal
  by unfold_locales (simp_all add: same_await)

lemma current_same: "same_journal w w' \<Longrightarrow> is_current rec w \<Longrightarrow> is_current rec w'"
  by (simp add: is_current_def)

lemma triple_idle:
  assumes "keeps same_journal m"
  shows "triple (is_current rec) m (\<lambda>_. is_current rec)" "keeps (\<lambda>w w'. is_current rec w \<longrightarrow> is_current rec w') m"
  using assms unfolding triple_def keeps_def is_current_def by (metis snd_conv)+

lemma triple_result: "triple (is_current rec) (result_of rec reason) told"
  unfolding triple_def
proof (intro allI impI)
  fix w res w'
  assume c: "is_current rec w" and r: "result_of rec reason w = (Returned res, w')"
  have "w' = w" using r result_of_world [of rec reason w] by simp
  moreover have "tells res rec"
    using r unfolding result_of_def Let_def tells_def report_of_def
    by (auto simp: returned_simps terminal_def split: record_status.splits event_type.splits if_splits)
  ultimately show "told res w'" using c unfolding told_def by blast
qed

lemma triple_journal_get: "triple P (journal_get key) is_current"
  unfolding triple_def journal_get_def
  by (auto simp: returned_simps journal_read_def bind_eq_Some_conv is_current_def dest: load_Some)

lemma apfst_Pair_iff: "apfst f p = (a, b) \<longleftrightarrow> (\<exists>x. p = (x, b) \<and> f x = a)"
  by (cases p) auto

lemma exec_recorded:
  assumes "journal_exec c op st = (Recorded (Some r), st')"
  shows "load (js_db st') (jr_effect_key r) = Some (Some r)"
proof -
  have rd: "journal_read key s = Some (Some r) \<Longrightarrow> load (js_db s) (jr_effect_key r) = Some (Some r)" for key s
    by (auto simp: journal_read_def bind_eq_Some_conv dest: load_Some)
  have then_rd: "then_read key p = (Some (Some r), st') \<Longrightarrow> load (js_db st') (jr_effect_key r) = Some (Some r)" for key p
    by (auto simp: then_read_def split: prod.splits option.splits dest: rd)
  show ?thesis
  proof (cases op)
    case (OpBind e copy p s t f k)
    then obtain key binding where "transaction c (bind_body key binding copy) st = (Some r, st')"
      using assms by (auto simp: journal_bind_def answer_of_def apfst_Pair_iff split: option.splits)
    then have "bind_body key binding copy (js_db st) = Some (r, js_db st')"
      by (auto simp: transaction_def split: if_splits option.splits commit.splits)
    then show ?thesis by (auto simp: bind_body_def bind_eq_Some_conv dest: load_Some)
  qed (use assms in \<open>auto simp: answer_of_def apfst_Pair_iff record_local_ready_def record_observed_def record_outcome_def
      split: option.splits if_splits intro: then_rd\<close>)
qed

lemma triple_journal_record_call: "triple P (journal_record_call sv op) is_current"
  unfolding triple_def journal_record_call_def
proof (intro allI impI)
  fix w r w'
  assume "ebind (journal_call sv op) (\<lambda>ans. esome (recorded ans)) w = (Returned r, w')"
  then obtain ans where a: "journal_call sv op w = (Returned ans, w')" "recorded ans = Some r"
    by (auto simp: returned_simps)
  then have "ans = Recorded (Some r)" by (cases ans) auto
  with a obtain st where e: "journal_exec (sv_commit sv (w_time w)) op (w_journal w) = (Recorded (Some r), st)"
    "w_journal w' = st"
    by (auto simp: journal_call_def Let_def split: prod.splits if_splits simp del: journal_exec.simps)
  show "is_current r w'" using exec_recorded [OF e(1)] e(2) by (simp add: is_current_def)
qed


lemma triple_finish_with: "triple P m is_current \<Longrightarrow> triple P (finish_with m reason) told"
  unfolding finish_with_def by (rule triple_ebind) (auto intro: triple_result)

lemma triple_terminal_call: "triple P (terminal_call sv rec reason op) is_current"
  unfolding terminal_call_def by (rule triple_ebind [OF triple_esome]) (auto intro: triple_journal_record_call)

lemma triple_applied_call: "triple P (applied_call sv rec) is_current"
  unfolding applied_call_def by (rule triple_ebind [OF triple_esome]) (auto intro: triple_journal_record_call)

abbreviation told_or_current :: "execution_result + journal_record \<Rightarrow> world \<Rightarrow> bool" where
  "told_or_current x w \<equiv> case_sum (\<lambda>r. told r w) (\<lambda>rec. is_current rec w) x"

lemma triple_early: "triple P m told \<Longrightarrow> triple P (ebind m (\<lambda>r. ereturn (Inl r))) told_or_current"
  by (rule triple_ebind) (auto intro!: triple_ereturn)

lemma triple_send: "triple P (send sv effect op rec a req) told_or_current"
proof -
  have create: "keeps same_journal (ebind (await (\<lambda>t. sv_create sv t op r a) (CallCreate op r a))
      (\<lambda>res. eneed (provider_result_ok res r effect (Create op) False)))" for r
    by (intro idle.keeps_ebind same_await idle.keeps_eneed)
  have tried: "triple (is_current r) (etry (ebind (await (\<lambda>t. sv_create sv t op r a) (CallCreate op r a))
      (\<lambda>res. eneed (provider_result_ok res r effect (Create op) False))) (ereturn ())) (\<lambda>_. is_current r)" for r
    by (intro triple_etry triple_idle create idle.keeps_ereturn)
  show ?thesis unfolding send_def
    by (rule triple_ebind [where R = "\<lambda>_ _. True"], simp add: triple_def,
        rule triple_ebind [where R = "\<lambda>_ _. True"], simp add: triple_def)
      (auto intro!: triple_early triple_finish_with triple_journal_get triple_ebind [OF triple_journal_get]
        triple_ebind [OF tried] triple_ereturn)
qed

lemma triple_gated_send: "triple (is_current rec) (gated_send sv pins aid effect op rec a) told_or_current"
  unfolding gated_send_def
  by (rule triple_ebind [OF triple_idle(1) [OF idle.keeps_gate]])
    (auto split: option.split intro!: triple_early triple_result triple_ebind [OF triple_esome] triple_send)

lemma triple_transmit: "triple (is_current rec) (transmit sv pins aid effect op rec) told_or_current"
  unfolding transmit_def
  by (rule triple_ebind [OF triple_idle(1) [OF idle.keeps_verify_call]],
      rule triple_ebind [OF triple_idle(1) [OF idle.keeps_lookup_call]])
    (auto intro: triple_early triple_result triple_gated_send)

lemma triple_record_found: "triple (is_current rec) (record_found sv op rec res) told_or_current"
proof -
  have keep: "triple (is_current rec) (ebind m g) told_or_current"
    if "keeps same_journal m" "\<And>y. triple (is_current rec) (g y) told_or_current" for m :: "'x coroutine" and g
    using that by (rule triple_ebind [OF triple_idle(1)])
  have recorded: "triple (is_current rec) (ebind (journal_record_call sv x) (\<lambda>r. ereturn (Inr r))) told_or_current" for x
    by (rule triple_ebind [OF triple_journal_record_call]) (auto intro: triple_ereturn)
  show ?thesis unfolding record_found_def Let_def
    by (intro triple_if triple_early triple_result triple_finish_with triple_terminal_call recorded
        keep [OF idle.keeps_esome] keep [OF idle.keeps_eneed]) (auto intro: triple_ereturn)
qed

lemma triple_observe: "triple (is_current rec) (observe sv effect op rec) told_or_current"
proof -
  have "triple (is_current rec) (etry (ebind (lookup_call sv rec effect op False) (\<lambda>res. ereturn (Some res))) (ereturn None))
      (\<lambda>_. is_current rec)"
    by (intro triple_etry triple_idle idle.keeps_ebind idle.keeps_lookup_call idle.keeps_ereturn)
  then show ?thesis unfolding observe_def
    by (rule triple_ebind) (auto split: option.split intro: triple_early triple_result triple_record_found)
qed

lemma triple_settle: "triple P (settle sv rec) told"
  unfolding settle_def
  by (rule triple_ebind [OF triple_esome [where Q = "\<lambda>_ _. True"]])
    (auto intro: triple_finish_with triple_terminal_call triple_applied_call)

lemma triple_publish: "triple P (publish sv pins aid effect b op key) told_or_current"
  unfolding publish_def
proof (rule triple_ebind [OF triple_journal_get], rule triple_ebind [OF triple_idle(1) [OF idle.keeps_esome]])
  fix rec seen
  have "triple (is_current rec) (if map_of seen (operation_event op) \<noteq> None then ereturn (Inr rec)
            else if \<not> b then ebind (result_of rec ''basis-not-ready'') (\<lambda>r. ereturn (Inl r))
            else transmit sv pins aid effect op rec) told_or_current"
    by (auto intro: triple_ereturn triple_early triple_result triple_transmit)
  then show "triple (is_current rec) (ebind (if map_of seen (operation_event op) \<noteq> None then ereturn (Inr rec)
            else if \<not> b then ebind (result_of rec ''basis-not-ready'') (\<lambda>r. ereturn (Inl r))
            else transmit sv pins aid effect op rec) (\<lambda>sent.
     case sent of Inl r \<Rightarrow> ereturn (Inl r) | Inr record \<Rightarrow> observe sv effect op record)) told_or_current"
  proof (rule triple_ebind)
    fix sent
    show "triple (told_or_current sent) (case sent of Inl r \<Rightarrow> ereturn (Inl r) | Inr record \<Rightarrow> observe sv effect op record)
      told_or_current"
      by (cases sent) (auto intro: triple_ereturn triple_observe)
  qed
qed

lemma triple_publish_all: "triple P (publish_all sv pins aid effect b key) told"
  unfolding publish_all_def
  by (rule triple_ebind [OF triple_publish])
    (auto split: sum.split intro!: triple_ereturn triple_ebind [OF triple_publish] triple_settle)

lemma triple_proceed: "triple (is_current rec) (proceed sv pins aid effect rec a) told"
  unfolding proceed_def
proof (rule triple_ebind [OF triple_idle(1) [OF idle.keeps_read_basis]],
    rule triple_ebind [OF triple_idle(1) [OF idle.keeps_ready]])
  fix basis b
  have "triple (is_current rec) (ebind (await (\<lambda>t. sv_prepare sv t effect rec) (CallPrepare effect rec)) (\<lambda>a.
      ebind (journal_record_call sv (OpLocalReady (jr_effect_key rec) (ga_local_ready_utf8 a))) (\<lambda>record.
      publish_all sv pins aid effect b (jr_effect_key record)))) told"
    by (rule triple_ebind [OF triple_idle(1) [OF same_await]],
        rule triple_ebind [OF triple_journal_record_call]) (rule triple_publish_all)
  then show "triple (is_current rec) (case a of
       Some _ \<Rightarrow> publish_all sv pins aid effect b (jr_effect_key rec)
     | None \<Rightarrow>
         if \<not> b then result_of rec ''basis-not-ready''
         else ebind (await (\<lambda>t. sv_prepare sv t effect rec) (CallPrepare effect rec)) (\<lambda>a.
           ebind (journal_record_call sv (OpLocalReady (jr_effect_key rec) (ga_local_ready_utf8 a))) (\<lambda>record.
           publish_all sv pins aid effect b (jr_effect_key record)))) told"
    by (auto split: option.split intro: triple_publish_all triple_result)
qed


lemma triple_continue: "triple P (continue sv pins aid delivery) told"
proof -
  have seen: "triple (is_current rec) (ebind (esome x) g) told"
    if "\<And>y. triple (is_current rec) (g y) told" for rec and x :: "seen option" and g
    using that by (rule triple_ebind [OF triple_idle(1) [OF idle.keeps_esome]])
  have "triple (is_current rec) (original_artifact sv e rec s) (\<lambda>a w. case a of Inl r \<Rightarrow> told r w | Inr _ \<Rightarrow> is_current rec w)" for e rec s
    unfolding original_artifact_def
    by (rule triple_if, auto intro!: triple_ereturn, rule triple_etry)
      (auto intro!: triple_ebind [OF triple_idle(1) [OF idle.keeps_verify_call]] triple_ereturn triple_idle(2)
        idle.keeps_ebind idle.keeps_verify_call idle.keeps_ereturn triple_ebind [OF triple_finish_with [OF triple_terminal_call]])
  note art = triple_ebind [OF this]
  have bound: "triple P (bind_call sv delivery) is_current"
    unfolding bind_call_def
    by (rule triple_ebind [where R = "\<lambda>_ _. True"], simp add: triple_def,
        rule triple_ebind [where R = "\<lambda>_ _. True"], simp add: triple_def)
      (rule triple_journal_record_call)
  show ?thesis unfolding continue_def
    by (rule triple_ebind [OF bound], rule seen, rule triple_if, rule triple_result, rule art)
      (auto split: sum.split intro: triple_ereturn triple_finish_with triple_applied_call triple_terminal_call triple_proceed)
qed

lemma triple_execute: "triple P (execute sv pins aid) told"
  unfolding execute_def
  by (rule triple_ebind [where R = "\<lambda>_ _. True"], simp add: triple_def)+ (rule triple_continue)


subsection \<open>Knowledge of a possible transmission\<close>

definition knows :: "world \<Rightarrow> world \<Rightarrow> bool" where
  "knows w w' \<longleftrightarrow> (w_possible w \<longrightarrow> w_possible w') \<and>
     (\<exists>new. w_calls w' = w_calls w @ new \<and> (quiet new \<or> w_possible w'))"

lemma knows_quiet: "w_calls w' = w_calls w @ new \<Longrightarrow> quiet new \<Longrightarrow> w_possible w' = w_possible w \<Longrightarrow> knows w w'"
  unfolding knows_def by blast

interpretation knowing: world_relation knows
proof
  show "knows w w" for w by (rule knows_quiet [of _ _ "[]"]) simp_all
next
  fix u v w
  assume "knows u v" "knows v w"
  then obtain a b where "w_calls v = w_calls u @ a" "quiet a \<or> w_possible v" "w_calls w = w_calls v @ b"
    "quiet b \<or> w_possible w" "w_possible u \<longrightarrow> w_possible v" "w_possible v \<longrightarrow> w_possible w"
    unfolding knows_def by blast
  then show "knows u w" unfolding knows_def by (intro conjI exI [of _ "a @ b"]) auto
qed

lemma knows_await:
  assumes "receptive mk"
  shows "keeps knows (await f mk)"
  unfolding keeps_def
proof
  fix w :: world
  show "knows w (snd (await f mk w))"
    by (rule knows_quiet [of _ _ "[mk (f (w_time w))]"]) (use assms in \<open>simp_all add: await_def Let_def receptive_def\<close>)
qed

lemma knows_journal_call: "keeps knows (journal_call sv op)"
  unfolding keeps_def
proof
  fix w :: world
  obtain ans st where e: "journal_exec (sv_commit sv (w_time w)) op (w_journal w) = (ans, st)" by fastforce
  show "knows w (snd (journal_call sv op w))"
    by (rule knows_quiet [of _ _ "[CallJournal (sv_commit sv (w_time w)) op ans]"])
      (simp_all add: journal_call_def Let_def e del: journal_exec.simps)
qed

interpretation knowing: service_relation knows
  by unfold_locales (rule knows_await; assumption)+

definition growing :: "world \<Rightarrow> world \<Rightarrow> bool" where
  "growing w w' \<longleftrightarrow> (w_possible w \<longrightarrow> w_possible w') \<and> prefix (w_calls w) (w_calls w')"

interpretation growth: world_relation growing
  by unfold_locales (auto simp: growing_def intro: prefix_order.trans)

lemma growing_await: "keeps growing (await f mk)"
  by (simp add: keeps_def growing_def await_def Let_def)

lemma growing_journal_call: "keeps growing (journal_call sv op)"
  using knows_journal_call [of sv op] unfolding keeps_def knows_def growing_def prefix_def by blast

lemma knows_send: "keeps knows (send sv effect op rec a req)"
proof -
  define rest where "rest = (\<lambda>u::unit. ebind (journal_call sv (OpSpent (jr_effect_key rec) op req)) (\<lambda>first.
     if \<not> marked first
     then ebind (finish_with (journal_get (jr_effect_key rec)) ''marker-already-spent'') (\<lambda>r. ereturn (Inl r)) else
     ebind (journal_get (jr_effect_key rec)) (\<lambda>record.
     ebind (etry (ebind (await (\<lambda>t. sv_create sv t op record a) (CallCreate op record a)) (\<lambda>res.
          eneed (provider_result_ok res record effect (Create op) False)))
         (ereturn ())) (\<lambda>_. ereturn (Inr record :: execution_result + journal_record)))))"
  have s: "send sv effect op rec a req = ebind (eset (\<lambda>w. w\<lparr>w_possible := True\<rparr>)) rest"
    unfolding send_def rest_def by simp
  have g: "keeps growing (rest ())" unfolding rest_def
    by (intro growth.keeps_ebind growth.keeps_etry growth.keeps_basic growing_journal_call growing_await)
  have "knows w (snd (send sv effect op rec a req w))" for w
  proof -
    have "growing (w\<lparr>w_possible := True\<rparr>) (snd (rest () (w\<lparr>w_possible := True\<rparr>)))" using g by (simp add: keeps_def)
    then show ?thesis unfolding s by (auto simp: growing_def knows_def ebind_def eset_def prefix_def)
  qed
  then show ?thesis by (simp add: keeps_def)
qed

lemma knows_transmit: "keeps knows (transmit sv pins aid effect op rec)"
  unfolding transmit_def gated_send_def
  by (intro knowing.keeps_ebind knowing.keeps_basic knowing.keeps_verify_call knowing.keeps_lookup_call
      knowing.keeps_gate knows_send)

interpretation knowing: executor_relation knows
  by unfold_locales (rule knows_journal_call knows_transmit)+

text \<open>Before the executor knows what the journal holds it transmits nothing.\<close>

definition silent :: "world \<Rightarrow> world \<Rightarrow> bool" where
  "silent w w' \<longleftrightarrow> (\<exists>new. w_calls w' = w_calls w @ new \<and> quiet new)"

definition sure :: "world \<Rightarrow> world \<Rightarrow> bool" where
  "sure w w' \<longleftrightarrow> (\<exists>new. w_calls w' = w_calls w @ new \<and> (quiet new \<or> w_possible w'))"

lemma silent_refl: "w_calls w' = w_calls w \<Longrightarrow> silent w w'"
  unfolding silent_def by (intro exI [of _ "[]"]) simp

interpretation silence: world_relation silent
proof
  show "silent w w" for w by (simp add: silent_refl)
next
  fix u v w
  assume "silent u v" "silent v w"
  then obtain a b where "w_calls v = w_calls u @ a" "quiet a" "w_calls w = w_calls v @ b" "quiet b"
    unfolding silent_def by blast
  then show "silent u w" unfolding silent_def by (intro exI [of _ "a @ b"]) simp
qed

lemma silent_await: "receptive mk \<Longrightarrow> keeps silent (await f mk)"
  unfolding keeps_def silent_def receptive_def
  by (intro allI, rule_tac x = "[mk (f (w_time w))]" in exI) (simp add: await_def Let_def)

interpretation silence: service_relation silent
  by unfold_locales (rule silent_await; assumption)+

lemma silent_eset: "(\<And>w. w_calls (f w) = w_calls w) \<Longrightarrow> keeps silent (eset f)"
  by (simp add: keeps_def eset_def silent_refl)

lemma sure_ebind:
  assumes "keeps silent m" "\<And>a. keeps sure (f a)"
  shows "keeps sure (ebind m f)"
proof -
  have "sure w (snd (ebind m f w))" for w
  proof (cases "m w")
    case (Pair r u)
    obtain x where x: "w_calls u = w_calls w @ x" "quiet x"
      using assms(1) Pair unfolding keeps_def silent_def by (metis snd_conv)
    have s: "sure u (snd (f a u))" for a using assms(2) by (simp add: keeps_def)
    have "sure w (snd (f a u))" for a
    proof -
      obtain y where "w_calls (snd (f a u)) = w_calls u @ y" "quiet y \<or> w_possible (snd (f a u))"
        using s [of a] unfolding sure_def by blast
      then show ?thesis unfolding sure_def using x by (intro exI [of _ "x @ y"]) auto
    qed
    moreover have "sure w u" using x unfolding sure_def by blast
    ultimately show ?thesis using Pair by (auto simp: ebind_def split: outcome.split)
  qed
  then show ?thesis by (simp add: keeps_def)
qed

lemma sure_execute: "keeps sure (execute sv pins aid)"
proof -
  have "keeps sure (continue sv pins aid d)" for d
    using knowing.keeps_continue [of sv pins aid d] unfolding keeps_def knows_def sure_def by blast
  then show ?thesis unfolding execute_def
    by (intro sure_ebind silence.keeps_read_copy silence.keeps_esome silence.keeps_ebind silence.keeps_eget silent_eset)
      (auto split: option.split)
qed

subsection \<open>Properties of the results\<close>

lemma executor_run_cases:
  assumes "executor_run sv pins aid w = (Returned res, w')"
  obtains (returned) v u where "execute sv pins aid v = (Returned res, u)" "w' = u" "w_calls v = w_calls w"
  | (unavailable) v u where "w_calls v = w_calls w" "v = u \<or> u = snd (execute sv pins aid v)"
      "w_possible w' = w_possible u" "\<exists>x. w_calls w' = w_calls u @ x \<and> quiet x"
      "er_reason res = ''execution-unavailable''" "er_outcome_utf8 res = None"
      "er_status res = (if w_possible w' then ''UNSETTLED'' else ''DEFERRED'')"
proof -
  define v where "v = w\<lparr>w_key := None, w_possible := False\<rparr>"
  have v: "w_calls v = w_calls w" by (simp add: v_def)
  have c: "etry (cycle sv (execute sv pins aid)) execution_unavailable v = (Returned res, w')"
    using assms by (auto simp: executor_run_def ebind_Returned simple_Returned v_def)
  obtain r u where e: "execute sv pins aid v = (r, u)" by fastforce
  obtain r' u' where y: "cycle sv (execute sv pins aid) v = (r', u')" by fastforce
  have un: "w' = u' \<and> er_reason res = ''execution-unavailable'' \<and> er_outcome_utf8 res = None \<and>
      er_status res = (if w_possible w' then ''UNSETTLED'' else ''DEFERRED'')" if "r' = Raised"
    using c that by (auto simp: etry_def y execution_unavailable_def eget_def)
  have cases: "r' = r \<and> u' = u \<or> r' = Raised \<and> u' = v \<or> r' \<in> {Raised, Cancelled} \<and> w_possible u' = w_possible u \<and>
      w_calls u' = w_calls u @ [CallJournal Committed OpCloseFailed Refused]"
    using y by (auto simp: cycle_def e split: if_splits)
  consider (ok) a where "r' = Returned a" | (bad) "r' = Raised"
    using c by (cases r') (auto simp: etry_def y)
  then show thesis
  proof cases
    case ok
    then have "r = Returned res" "u = w'" using cases c by (auto simp: etry_def y)
    then show thesis using returned e v by blast
  next
    case bad
    then consider "u' = u" | "u' = v" | "w_possible u' = w_possible u"
        "w_calls u' = w_calls u @ [CallJournal Committed OpCloseFailed Refused]" using cases by blast
    then show thesis
    proof cases
      case 1
      then show thesis using unavailable [of v u] un [OF bad] v e by simp
    next
      case 2
      then show thesis using unavailable [of v v] un [OF bad] v by simp
    next
      case 3
      then show thesis using unavailable [of v u] un [OF bad] v e by simp
    qed
  qed
qed

lemma admitted_send_gate:
  assumes eq: "pre @ [CallCreate op rec' a r] = start0 @ ys" and "admitted_send ys"
  shows "\<exists>start effect rec l aid wire rid raw cap req (pf :: profiles) (pf' :: profiles) basis cur.
       pre = start @ [CallVerify effect rec (Returned a), CallLookup op rec (Returned l), CallCopy aid (Returned wire),
         CallBasis effect (Returned (rid, raw)), CallCapability rec (Returned cap),
         CallJournal Committed (OpSpent (jr_effect_key rec) op req) (Marked True)] \<and>
       pv_status l = ''ABSENT'' \<and> provider_result_ok l rec effect (Lookup op) True \<and>
       wire = jr_copy_utf8 rec \<and>
       decode_protected_copy wire (pf_ledger_namespace pf) aid (pf_ledger_repository pf) None = Some effect \<and>
       read_basis pf' effect rid raw = Some basis \<and> evaluate_currentness effect basis = Some cur \<and> cr_status cur = ''READY'' \<and>
       pv_status cap = ''CAPABILITY_PRESENT'' \<and> provider_result_ok cap rec effect CapabilityCheck False \<and>
       request rec effect (Create op) = Some req \<and> jr_effect_key rec' = jr_effect_key rec"
proof -
  from assms(2) obtain effect rec a' op' l aid wire rid raw and pf pf' :: profiles and basis cur cap req rec1 r1 where
    ys: "ys = [CallVerify effect rec (Returned a'), CallLookup op' rec (Returned l), CallCopy aid (Returned wire),
       CallBasis effect (Returned (rid, raw)), CallCapability rec (Returned cap),
       CallJournal Committed (OpSpent (jr_effect_key rec) op' req) (Marked True)] @ [CallCreate op' rec1 a' r1]" and
    g: "pv_status l = ''ABSENT''" "provider_result_ok l rec effect (Lookup op') True" "wire = jr_copy_utf8 rec"
     "decode_protected_copy wire (pf_ledger_namespace pf) aid (pf_ledger_repository pf) None = Some effect"
     "read_basis pf' effect rid raw = Some basis" "evaluate_currentness effect basis = Some cur" "cr_status cur = ''READY''"
     "pv_status cap = ''CAPABILITY_PRESENT''" "provider_result_ok cap rec effect CapabilityCheck False"
     "request rec effect (Create op') = Some req" "jr_effect_key rec1 = jr_effect_key rec"
    unfolding admitted_send_def by auto
  have e: "op' = op" "rec1 = rec'" "a' = a" and
    p: "pre = start0 @ [CallVerify effect rec (Returned a'), CallLookup op' rec (Returned l), CallCopy aid (Returned wire),
       CallBasis effect (Returned (rid, raw)), CallCapability rec (Returned cap),
       CallJournal Committed (OpSpent (jr_effect_key rec) op' req) (Marked True)]"
    using eq unfolding ys append.assoc [symmetric] append1_eq_conv by auto
  show ?thesis by (intro exI conjI) (rule p [unfolded e] g [unfolded e])+
qed


text \<open>C19: What a run reports is what the journal holds: a result describes the current record of its effect
  (status, outcome and key), except when the run was interrupted by an exception; then it claims no
  outcome and is unsettled or deferred.\<close>

theorem reports_are_true:
  assumes "executor_run sv pins aid w = (Returned res, w')"
  shows "(\<exists>rec. load (js_db (w_journal w')) (jr_effect_key rec) = Some (Some rec) \<and> tells res rec) \<or>
    er_reason res = ''execution-unavailable'' \<and> er_outcome_utf8 res = None \<and> er_status res \<in> {''UNSETTLED'', ''DEFERRED''}"
  using assms
proof (cases rule: executor_run_cases)
  case (returned v u)
  have "told res u" using triple_execute [of "\<lambda>_. True" sv pins aid] returned(1) by (simp add: triple_def)
  then show ?thesis using returned(2) by (auto simp: told_def is_current_def)
qed simp

lemma deferred_unsent:
  assumes "run executor_step st0 (ls @ [w_calls w']) (w_journal w')" "journal_inv st0"
    "publication_spent (js_db st0) = []" "is_current rec w'" "jr_spent rec = []"
  shows "(jr_effect_key rec, op) \<notin> set (creates (concat ls @ w_calls w'))"
proof
  assume c: "(jr_effect_key rec, op) \<in> set (creates (concat ls @ w_calls w'))"
  have t: "run journal_step st0 (labels (concat ls @ w_calls w')) (w_journal w')"
    "publication_trace (concat ls @ w_calls w')" using executor_run_trace [OF assms(1)] by simp_all
  have "(jr_effect_key rec, op) \<in> set (List.map_filter first_spent (labels (concat ls @ w_calls w')))"
    using c subseq_set [OF creates_spent [OF t(2)]] by blast
  then have "(jr_effect_key rec, op) \<in> fst ` set (publication_spent (js_db (w_journal w')))"
    using journal_spending.accepted_distinct [OF t(1) assms(2)] by blast
  then have "map_of (publication_spent (js_db (w_journal w'))) (jr_effect_key rec, op) \<noteq> None"
    by (simp add: map_of_eq_None_iff)
  then have "map_of (jr_spent rec) op \<noteq> None"
    using load_Some [OF assms(4) [unfolded is_current_def]] spent_lookup by auto
  then show False using assms(5) by simp
qed


subsection \<open>A run against services that are down\<close>

definition down :: services where
  "down = \<lparr>sv_profiles = \<lambda>t. \<lparr>pf_profile_id = '''', pf_registry_sha256 = '''', pf_profile_sha256 = '''', pf_profile_utf8 = [],
     pf_git = \<lparr>gp_signing_utf8 = [], gp_public_key = []\<rparr>, pf_ledger_namespace = [], pf_ledger_repository = '''',
     pf_basis_namespace = [], pf_basis_repository = ''''\<rparr>,
     sv_copy_wire = \<lambda>t aid. Raised, sv_basis_wire = \<lambda>t e. Raised, sv_verify = \<lambda>t e r. Raised, sv_prepare = \<lambda>t e r. Raised,
     sv_lookup = \<lambda>t op r. Raised, sv_capability = \<lambda>t r. Raised, sv_create = \<lambda>t op r a. Raised,
     sv_commit = \<lambda>t. Committed, sv_cycle_enter = \<lambda>t. False, sv_cycle_leave = \<lambda>t. True\<rparr>"

definition demo_world :: world where
  "demo_world = \<lparr>w_time = 0, w_journal = open_journal ''host'' demo_registry demo_db, w_calls = [], w_key = None, w_possible = False\<rparr>"

definition down_result :: execution_result where
  "down_result = \<lparr>er_status = ''DEFERRED'', er_reason = ''execution-unavailable'', er_effect_key = None,
     er_outcome_utf8 = None\<rparr>"

lemma down_run: "executor_run down pins ''iac'' demo_world = (Returned down_result, demo_world)"
  by (simp add: executor_run_def ebind_def eneed_def esome_def ensure_def text_upto_def eset_def etry_def cycle_def down_def
      execution_unavailable_def eget_def demo_world_def down_result_def)

lemma down_history: "run executor_step (open_journal ''host'' demo_registry demo_db) [[]] (open_journal ''host'' demo_registry demo_db)"
proof -
  have "executor_step (w_journal demo_world) (w_calls demo_world) (w_journal demo_world)"
    using executor_ran [OF down_run] by (simp add: demo_world_def)
  then show ?thesis by (simp add: run_cons_iff demo_world_def)
qed

theorem published_at_most_once_witness: "distinct (creates (concat [[]]))"
  by (rule published_at_most_once [OF demo_install down_history])


theorem reports_are_true_witness:
  "(\<exists>rec. load (js_db (w_journal demo_world)) (jr_effect_key rec) = Some (Some rec) \<and> tells down_result rec) \<or>
   er_reason down_result = ''execution-unavailable'' \<and> er_outcome_utf8 down_result = None \<and>
   er_status down_result \<in> {''UNSETTLED'', ''DEFERRED''}"
  by (rule reports_are_true [OF down_run])


end
