(* ===== verification/Canonical_Form.thy ===== *)
theory Canonical_Form
  imports Protected_Codec
begin

text \<open>
  Canonical JSON as an exchange format: what is read has a normal form, what is written from a
  well-formed value is read back, and the text determines the value. Also that the fuel of the parser
  is always enough, so that it refuses exactly the texts that are not JSON.
\<close>

subsection \<open>Fuel\<close>

text \<open>More fuel never changes a result, and twice the length of the text is enough to decide it.\<close>

lemma skip_ws_length: "length (skip_ws s) \<le> length s"
  by (simp add: skip_ws_def length_dropWhile_le)

lemma after_length: "after c s = Some r \<Longrightarrow> length r < length s"
  by (auto simp: after_def split: list.splits if_splits)

lemma scan_string_length: "scan_string s = Some (t, r) \<Longrightarrow> length r < length s"
proof (induction s arbitrary: t r rule: scan_string.induct)
  case (2 c cs)
  show ?case
    using 2 by (fastforce split: if_splits list.splits option.splits simp: apfst_def map_prod_def)
qed simp

lemma scan_nat_length: "scan_nat s = Some (n, r) \<Longrightarrow> length r < length s"
proof -
  assume a: "scan_nat s = Some (n, r)"
  then obtain c cs where s: "s = c # cs" by (cases s) (auto simp: scan_nat_def)
  show ?thesis using a length_dropWhile_le [of is_digit cs] unfolding s
    by (auto simp: scan_nat_def split: if_splits)
qed

lemma scan_int_length: "scan_int s = Some (n, r) \<Longrightarrow> length r < length s"
  using scan_nat_length after_length
  by (fastforce simp: scan_int_def split: option.splits)

lemma parse_length:
  "parse_value hook f s = Some (v, r) \<Longrightarrow> length r < length s"
  "parse_elems hook f s = Some (vs, r) \<Longrightarrow> length r < length s"
  "parse_members hook f s = Some (kvs, r) \<Longrightarrow> length r < length s"
proof (induction hook f s and hook f s and hook f s arbitrary: v r and vs r and kvs r
    rule: parse_value_parse_elems_parse_members.induct)
  case (2 hook f s)
  then obtain c cs where s: "s = c # cs" by (cases s) auto
  have w: "length (skip_ws cs) < length s" using skip_ws_length [of cs] s by simp
  have t: "length (drop n s) < length s" if "0 < n" for n using that s by simp
  show ?case
    using 2 w t [of 4] t [of 5] scan_string_length [of cs] scan_int_length [of s] after_length [of _ "skip_ws cs"]
    unfolding s by (fastforce split: if_splits option.splits prod.splits dest: less_trans)
next
  case (4 hook f s)
  then obtain x r1 where x: "parse_value hook f s = Some (x, r1)" by (auto split: option.splits)
  then have l: "length r1 < length s" using 4 by blast
  have w: "length r1' < length s" if "after c (skip_ws r1) = Some r1'" for c r1'
    using after_length [OF that] skip_ws_length [of r1] l by linarith
  show ?case
  proof (cases "after (CHR '']'') (skip_ws r1)")
    case None
    then obtain r2 ys where r2: "after (CHR '','') (skip_ws r1) = Some r2" "parse_elems hook f (skip_ws r2) = Some (ys, r)"
      using 4(3) x by (auto split: option.splits)
    then have "length r < length (skip_ws r2)" using "4.IH"(2) x None by fastforce
    then show ?thesis using w [OF r2(1)] skip_ws_length [of r2] by linarith
  next
    case (Some r2)
    then show ?thesis using 4(3) x w by auto
  qed
next
  case (6 hook f s)
  then obtain cs k r0 r1 x r2 where s: "s = dquote # cs" "scan_string cs = Some (k, r0)"
    "after (CHR '':'') (skip_ws r0) = Some r1" "parse_value hook f (skip_ws r1) = Some (x, r2)"
    by (auto split: list.splits if_splits option.splits)
  have "length r2 < length (skip_ws r1)" using "6.IH"(1) s by fastforce
  then have l: "length r2 < length s"
    using scan_string_length [OF s(2)] after_length [OF s(3)] skip_ws_length [of r0] skip_ws_length [of r1] s(1) by simp
  have w: "length r2' < length s" if "after c (skip_ws r2) = Some r2'" for c r2'
    using after_length [OF that] skip_ws_length [of r2] l by linarith
  show ?case
  proof (cases "after (CHR ''}'') (skip_ws r2)")
    case None
    then obtain r3 ys where r3: "after (CHR '','') (skip_ws r2) = Some r3" "parse_members hook f (skip_ws r3) = Some (ys, r)"
      using 6(3) s by (auto split: option.splits)
    then have "length r < length (skip_ws r3)" using "6.IH"(2) s None by fastforce
    then show ?thesis using w [OF r3(1)] skip_ws_length [of r3] by linarith
  next
    case (Some r3)
    then show ?thesis using 6(3) s w by auto
  qed
qed simp_all

definition fuel_independent :: "pairs_hook \<Rightarrow> nat \<Rightarrow> bool" where
  "fuel_independent hook n \<longleftrightarrow> (\<forall>s f g. length s \<le> n \<longrightarrow>
     (2 * n + 1 \<le> f \<and> 2 * n + 1 \<le> g \<longrightarrow> parse_value hook f s = parse_value hook g s) \<and>
     (2 * n + 2 \<le> f \<and> 2 * n + 2 \<le> g \<longrightarrow> parse_elems hook f s = parse_elems hook g s \<and>
        parse_members hook f s = parse_members hook g s))"

lemma fuel_independent: "fuel_independent hook n"
proof (induction n)
  case 0
  then show ?case unfolding fuel_independent_def
    by (intro allI impI conjI; elim conjE; rename_tac s f g; case_tac f; case_tac g)
      (auto simp: scan_int_def scan_nat_def after_def split: option.split list.split, (case_tac nat; case_tac nata; simp)+)
next
  case (Suc n)
  have val: "parse_value hook (Suc f) s = parse_value hook (Suc g) s"
    if "length s \<le> Suc n" "2 * n + 2 \<le> f" "2 * n + 2 \<le> g" for s f g
  proof (cases s)
    case (Cons c cs)
    then have "length (skip_ws cs) \<le> n" using that(1) skip_ws_length [of cs] by simp
    then have "parse_elems hook f (skip_ws cs) = parse_elems hook g (skip_ws cs)"
      "parse_members hook f (skip_ws cs) = parse_members hook g (skip_ws cs)"
      using Suc that(2,3) unfolding fuel_independent_def by blast+
    then show ?thesis using Cons by (simp split: option.split)
  qed simp
  have el: "parse_elems hook (Suc f) s = parse_elems hook (Suc g) s"
    if "length s \<le> Suc n" "2 * n + 3 \<le> f" "2 * n + 3 \<le> g" for s f g
  proof -
    have v: "parse_value hook f s = parse_value hook g s"
      using val [of s "f - 1" "g - 1"] that by (cases f; cases g) auto
    have "parse_elems hook f (skip_ws r') = parse_elems hook g (skip_ws r')"
      if "parse_value hook g s = Some (x, r)" "after (CHR '','') (skip_ws r) = Some r'" for x r r'
    proof -
      have "length (skip_ws r') \<le> n"
        using parse_length(1) [OF that(1)] after_length [OF that(2)] skip_ws_length [of r] skip_ws_length [of r']
          \<open>length s \<le> Suc n\<close> by linarith
      then show ?thesis using Suc \<open>2 * n + 3 \<le> f\<close> \<open>2 * n + 3 \<le> g\<close> unfolding fuel_independent_def
        by (metis Suc_leD add_Suc_right numeral_2_eq_2 numeral_3_eq_3)
    qed
    then show ?thesis using v by (auto split: option.split)
  qed
  have mem: "parse_members hook (Suc f) s = parse_members hook (Suc g) s"
    if "length s \<le> Suc n" "2 * n + 3 \<le> f" "2 * n + 3 \<le> g" for s f g
  proof -
    have v: "parse_value hook f t = parse_value hook g t \<and> parse_members hook f t = parse_members hook g t"
      if "length t < length s" for t
    proof -
      have "length t \<le> n" "2 * n + 2 \<le> f" "2 * n + 2 \<le> g" "2 * n + 1 \<le> f" "2 * n + 1 \<le> g"
        using that \<open>length s \<le> Suc n\<close> \<open>2 * n + 3 \<le> f\<close> \<open>2 * n + 3 \<le> g\<close> by linarith+
      then show ?thesis using Suc unfolding fuel_independent_def by blast
    qed
    have l1: "length (skip_ws r1) < length s"
      if "s = c # cs" "scan_string cs = Some (k, r)" "after (CHR '':'') (skip_ws r) = Some r1" for c cs k r r1
      using scan_string_length [OF that(2)] after_length [OF that(3)] skip_ws_length [of r] skip_ws_length [of r1]
        that(1) by simp
    have l2: "length (skip_ws r3) < length s"
      if "length (skip_ws r1) < length s" "parse_value hook g (skip_ws r1) = Some (x, r2)"
        "after (CHR '','') (skip_ws r2) = Some r3" for r1 x r2 r3
      using that(1) parse_length(1) [OF that(2)] after_length [OF that(3)] skip_ws_length [of r2] skip_ws_length [of r3]
      by linarith
    show ?thesis using v l1 l2 by (fastforce split: list.split option.split)
  qed
  show ?case unfolding fuel_independent_def
  proof (intro allI impI conjI)
    fix s :: string and f g :: nat
    assume s: "length s \<le> Suc n"
    {
      assume fg: "2 * Suc n + 1 \<le> f \<and> 2 * Suc n + 1 \<le> g"
      then show "parse_value hook f s = parse_value hook g s" using val [of s "f - 1" "g - 1"] s by (cases f; cases g) auto
    }
    assume fg: "2 * Suc n + 2 \<le> f \<and> 2 * Suc n + 2 \<le> g"
    then show "parse_elems hook f s = parse_elems hook g s" "parse_members hook f s = parse_members hook g s"
      using el [of s "f - 1" "g - 1"] mem [of s "f - 1" "g - 1"] s by (cases f; cases g; auto)+
  qed
qed

text \<open>The JSON reader always comes to a decision: the fuel it starts with, twice the length of the text
  and two more, is enough, since with any larger amount it answers the same; what it leaves unread
  gets strictly shorter with every value it reads.\<close>

lemma json_reader_decides:
  shows "json_fuel s \<le> f \<Longrightarrow> parse_value hook f (skip_ws s) = parse_value hook (json_fuel s) (skip_ws s)"
  using fuel_independent [of hook "length s"] skip_ws_length [of s]
  unfolding fuel_independent_def json_fuel_def by (meson add_leD1 add_le_mono le_refl le_trans one_le_numeral)

subsection \<open>Normal forms\<close>

definition hook_keeps_wf :: "pairs_hook \<Rightarrow> bool" where
  "hook_keeps_wf hook \<longleftrightarrow> (\<forall>kvs v. hook kvs = Some v \<longrightarrow> list_all (\<lambda>kv. json_wf (snd kv)) kvs \<longrightarrow> json_wf v)"

lemma hook_unique_keeps_wf: "hook_keeps_wf hook_unique"
  by (auto simp: hook_keeps_wf_def hook_unique_def list_all_iff)

lemma parse_wf:
  "hook_keeps_wf hook \<Longrightarrow> parse_value hook f s = Some (v, r) \<Longrightarrow> json_wf v"
  "hook_keeps_wf hook \<Longrightarrow> parse_elems hook f s = Some (vs, r) \<Longrightarrow> list_all json_wf vs"
  "hook_keeps_wf hook \<Longrightarrow> parse_members hook f s = Some (kvs, r) \<Longrightarrow> list_all (\<lambda>kv. json_wf (snd kv)) kvs"
proof (induction hook f s and hook f s and hook f s arbitrary: v r and vs r and kvs r
    rule: parse_value_parse_elems_parse_members.induct)
  case (2 hook f s)
  then obtain c cs where s: "s = c # cs" by (cases s) auto
  have "hook kvs = Some x \<Longrightarrow> list_all (\<lambda>kv. json_wf (snd kv)) kvs \<Longrightarrow> json_wf x" for kvs x
    using 2 by (simp add: hook_keeps_wf_def)
  then show ?case
    using 2 unfolding s by (auto simp: list_all_iff apfst_def map_prod_def split: if_splits option.splits prod.splits)
next
  case (4 hook f s)
  then show ?case by (fastforce simp: apfst_def map_prod_def split: option.splits prod.splits)
next
  case (6 hook f s)
  then show ?case by (fastforce simp: apfst_def map_prod_def split: list.splits if_splits option.splits prod.splits)
qed simp_all

lemma loads_wf: "json_loads hook_unique s = Some v \<Longrightarrow> json_wf v"
  using parse_wf(1) [OF hook_unique_keeps_wf] by (auto simp: json_loads_def split: option.splits prod.splits if_splits)

lemma sort_key_idem [simp]: "sort_key f (sort_key f xs) = sort_key f xs"
  by (rule sort_key_id_if_sorted) (rule sorted_sort_key)

lemma json_norm_idem [simp]: "json_norm (json_norm v) = json_norm v"
proof (induction v)
  case (JObj kvs)
  have "map (map_prod id json_norm) (map (map_prod id json_norm) (sort_key fst kvs)) =
      map (map_prod id json_norm) (sort_key fst kvs)"
    using JObj by (auto simp: set_sort)
  then show ?case by (metis json_norm.simps(6) sort_key_idem sort_key_map_prod)
qed simp_all

lemma json_text_norm [simp]: "json_text sp a (json_norm v) = json_text sp a v"
proof (induction v)
  case (JObj kvs)
  have "map (member_text sp a) (map (map_prod id json_norm) (sort_key fst kvs)) = map (member_text sp a) (sort_key fst kvs)"
    using JObj by (auto simp: set_sort member_text_def)
  then show ?case
    by (simp only: json_dumps_obj json_norm.simps sort_key_map_prod [symmetric] sort_key_idem)
qed (simp_all add: comp_def cong: map_cong)

lemma canonical_norm [simp]: "canonical (json_norm v) = canonical v"
  by (simp add: canonical_def)

lemma tree_ok_norm [simp]: "tree_ok (json_norm v) d \<longleftrightarrow> tree_ok v d"
proof (induction v arbitrary: d)
  case (JObj kvs)
  then show ?case by (fastforce simp: list_all_iff set_sort)
qed (auto simp: list_all_iff)

lemma is_obj_norm [simp]: "is_obj (json_norm v) \<longleftrightarrow> is_obj v"
  by (cases v) simp_all

lemma canonical_nonempty: "0 < length (canonical v)"
proof -
  obtain c cs where "json_dumps False v = c # cs" by (rule json_dumps_head [of "[]" False v])
  then show ?thesis by (simp add: canonical_def utf8_encode_def utf8_char_def Let_def)
qed

text \<open>What is written from a well-formed object is read back, in normal form.\<close>

lemma canonical_reads:
  assumes "json_wf v" "tree_ok v 0" "is_obj v" "length (canonical v) \<le> m"
  shows "read_upto m (canonical v) = Some (json_norm v)"
proof -
  have "json_loads hook_unique (json_dumps False v) = Some (json_norm v)"
    using assms(1) by (rule json_roundtrip) (simp add: hook_unique_def)
  moreover have "utf8_decode (canonical v) = Some (json_dumps False v)" by (simp add: canonical_def)
  ultimately show ?thesis using assms canonical_nonempty [of v] canonical_norm [of v]
    by (simp add: read_upto_def read_json_def)
qed

text \<open>What is read is in normal form.\<close>

lemma read_json_facts:
  assumes "read_json raw m = Some v"
  shows "json_wf v" "tree_ok v 0" "is_obj v" "length raw \<le> m"
  using assms loads_wf by (auto simp: read_json_def bind_eq_Some_conv)

lemma read_facts:
  assumes "read_upto m raw = Some v"
  shows "json_wf v" "tree_ok v 0" "is_obj v" "length raw \<le> m" "canonical v = raw" "json_norm v = v"
proof -
  have r: "read_json raw m = Some v" "canonical v = raw" using assms by (auto simp: read_upto_def bind_eq_Some_conv)
  show f: "json_wf v" "tree_ok v 0" "is_obj v" "length raw \<le> m" "canonical v = raw"
    using read_json_facts [OF r(1)] r(2) by simp_all
  have "json_loads hook_unique (json_dumps False v) = Some v"
  proof -
    obtain s where s: "utf8_decode raw = Some s" "json_loads hook_unique s = Some v"
      using r(1) by (auto simp: read_json_def bind_eq_Some_conv)
    then have "s = json_dumps False v" using r(2) by (auto simp: canonical_def)
    then show ?thesis using s(2) by simp
  qed
  moreover have "json_loads hook_unique (json_dumps False v) = Some (json_norm v)"
    using f(1) by (rule json_roundtrip) (simp add: hook_unique_def)
  ultimately show "json_norm v = v" by simp
qed

lemma canonical_eq_iff:
  assumes "json_wf v" "json_wf w"
  shows "canonical v = canonical w \<longleftrightarrow> json_norm v = json_norm w"
proof
  assume "canonical v = canonical w"
  then show "json_norm v = json_norm w" using json_dumps_inj [OF assms, of False] by (simp add: canonical_def)
next
  assume "json_norm v = json_norm w"
  then show "canonical v = canonical w" by (metis canonical_norm)
qed

lemma dict_ok_sort: "dict_ok (sort_key fst kvs) \<longleftrightarrow> dict_ok kvs"
proof -
  have "mset (map fst (sort_key fst kvs)) = mset (map fst kvs)" by simp
  then show ?thesis by (rule mset_eq_imp_distinct_iff)
qed

lemma json_wf_norm [simp]: "json_wf v \<Longrightarrow> json_wf (json_norm v)"
proof (induction v)
  case (JObj kvs)
  have "distinct (map fst kvs)" "\<forall>kv \<in> set kvs. json_wf (snd kv)" using JObj.prems by (auto simp: list_all_iff)
  moreover have "map fst (map (map_prod id json_norm) (sort_key fst kvs)) = map fst (sort_key fst kvs)" by simp
  moreover have "distinct (map fst (sort_key fst kvs))" using JObj.prems by (simp add: dict_ok_sort)
  ultimately show ?case using JObj.IH by (auto simp: list_all_iff sort_key_map_prod set_sort simp del: map_map)
qed (auto simp: list_all_iff)

text \<open>C22: A text is accepted by the canonical reader exactly when it is the canonical text of the value it
  yields, that value being a well-formed object in normal form, of bounded depth and integers; so two
  different texts never mean the same value, and writing what was read gives the same bytes.\<close>

theorem canonical_reader_exact:
  "read_upto m raw = Some v \<longleftrightarrow>
    canonical v = raw \<and> json_wf v \<and> json_norm v = v \<and> tree_ok v 0 \<and> is_obj v \<and> length raw \<le> m"
  using read_facts [of m raw v] canonical_reads [of v m] by metis

subsection \<open>Objects with known fields\<close>

lemma sort_key_unique:
  assumes "dict_ok xs" "dict_ok ys" "set xs = set ys"
  shows "sort_key fst xs = sort_key fst ys"
proof (rule map_sorted_distinct_set_unique [of fst])
  show "inj_on fst (set (sort_key fst xs) \<union> set (sort_key fst ys))"
    using assms by (simp add: set_sort distinct_map)
qed (use assms in \<open>simp_all only: sorted_sort_key set_sort dict_ok_sort\<close>)

lemma obj_norm_eq:
  assumes "dict_ok kvs" "dict_ok ws" "\<And>k. map_option json_norm (map_of kvs k) = map_option json_norm (map_of ws k)"
  shows "json_norm (JObj kvs) = json_norm (JObj ws)"
proof -
  let ?n = "\<lambda>kvs. map (map_prod id json_norm) kvs"
  have m: "map_of (?n kvs) k = map_option json_norm (map_of kvs k)" for kvs k
    by (induction kvs) auto
  have d: "dict_ok (?n kvs)" if "dict_ok kvs" for kvs using that by (simp add: comp_def)
  have "set (?n kvs) = set (?n ws)"
    using d [OF assms(1)] d [OF assms(2)] assms(3) by (auto simp only: set_eq_iff split_paired_All dict_get_in m)
  then have "sort_key fst (?n kvs) = sort_key fst (?n ws)"
    using d [OF assms(1)] d [OF assms(2)] by (intro sort_key_unique)
  then show ?thesis by simp
qed

lemma norm_fld:
  assumes "dict_ok kvs"
  shows "fld (json_norm (JObj kvs)) k = map_option json_norm (map_of kvs k)"
proof -
  have "map_of (map (map_prod id json_norm) xs) k = map_option json_norm (map_of xs k)" for xs
    by (induction xs) auto
  moreover have "map_of (sort_key fst kvs) k = map_of kvs k"
    by (rule map_of_inject_set [THEN iffD2, THEN fun_cong]) (use assms dict_ok_sort in auto)
  ultimately show ?thesis by (simp add: sort_key_map_prod)
qed

lemma fld_wf:
  assumes "json_wf v" "fld v k = Some x"
  shows "json_wf x"
  using assms by (cases v) (auto simp: list_all_iff dest!: map_of_SomeD)

lemma tree_ok_less: "tree_ok v (Suc d) \<Longrightarrow> tree_ok v d"
proof (induction v arbitrary: d)
  case (JObj kvs)
  then show ?case by (fastforce simp: list_all_iff)
qed (auto simp: list_all_iff)

lemma fld_tree:
  assumes "tree_ok v 0" "fld v k = Some x"
  shows "tree_ok x 0"
proof -
  obtain kvs where v: "v = JObj kvs" "(k, x) \<in> set kvs" using assms(2) by (cases v) (auto dest: map_of_SomeD)
  then have "tree_ok x (Suc 0)" using assms(1) by (auto simp: list_all_iff)
  then show ?thesis by (rule tree_ok_less)
qed

lemma fld_norm:
  assumes "json_norm v = v" "json_wf v" "fld v k = Some x"
  shows "json_norm x = x"
proof -
  obtain kvs where v: "v = JObj kvs" "(k, x) \<in> set kvs" using assms(3) by (cases v) (auto dest: map_of_SomeD)
  have "kvs = sort_key fst (map (map_prod id json_norm) kvs)" using assms(1) v(1) by simp
  then have "(k, x) \<in> set (sort_key fst (map (map_prod id json_norm) kvs))" using v(2) by metis
  then obtain y where "(k, y) \<in> set kvs" "x = json_norm y" by (auto simp: set_sort)
  then show ?thesis by simp
qed

text \<open>Parts of a value that was read.\<close>

definition good :: "json \<Rightarrow> bool" where
  "good v \<longleftrightarrow> json_wf v \<and> json_norm v = v \<and> tree_ok v 0"

lemma good_read: "read_upto m raw = Some v \<Longrightarrow> good v"
  using read_facts by (auto simp: good_def)

lemma good_fld: "good v \<Longrightarrow> fld v k = Some x \<Longrightarrow> good x"
  unfolding good_def using fld_wf fld_norm fld_tree by blast

lemma good_reads: "good v \<Longrightarrow> is_obj v \<Longrightarrow> length (canonical v) \<le> m \<Longrightarrow> read_upto m (canonical v) = Some v"
  unfolding good_def using canonical_reads by metis

lemma good_elem: "good (JList xs) \<Longrightarrow> x \<in> set xs \<Longrightarrow> good x"
  using tree_ok_less by (auto simp: good_def list_all_iff map_idI dest: map_eq_conv [THEN iffD1, of _ _ id, simplified])

end
