(* ===== verification/Copy_Types.thy ===== *)
theory Copy_Types
  imports Canonical_Form
begin

text \<open>
  The data a protected copy is decoded to: bounds on what is written, and that the recheck of the data
  objects (\<open>_assert_effect_data\<close>) accepts exactly what the decoder produces.
\<close>

subsection \<open>Bounds on canonical texts\<close>

primrec json_size :: "json \<Rightarrow> nat" where
  "json_size JNull = 4"
| "json_size (JBool b) = 5"
| "json_size (JInt i) = 17"
| "json_size (JStr s) = 6 * length s + 2"
| "json_size (JList xs) = 2 + sum_list (map (\<lambda>n. n + 1) (map json_size xs))"
| "json_size (JObj kvs) = 2 + sum_list (map (\<lambda>(k, n). 6 * length k + n + 4) (map (map_prod id json_size) kvs))"

lemma utf8_append: "utf8_encode (s @ t) = utf8_encode s @ utf8_encode t"
  by (simp add: utf8_encode_def)

lemma utf8_Cons: "utf8_encode (c # t) = utf8_char c @ utf8_encode t"
  by (simp add: utf8_encode_def)

lemma utf8_Nil [simp]: "utf8_encode [] = []"
  by (simp add: utf8_encode_def)

lemma utf8_char_length: "length (utf8_char c) \<le> 2"
  by (simp add: utf8_char_def Let_def)

lemma utf8_char_ascii: "ord_of c < 128 \<Longrightarrow> length (utf8_char c) = 1"
  by (simp add: utf8_char_def Let_def)

lemma utf8_ascii_length: "list_all (\<lambda>c. ord_of c < 128) s \<Longrightarrow> length (utf8_encode s) = length s"
  by (induction s) (simp_all add: utf8_Cons utf8_char_ascii)

lemma hex_digit_range: "n < 16 \<Longrightarrow> ord_of (hex_digit n) < 128"
proof -
  assume "n < 16"
  then have "n \<in> set [0..<16]" by simp
  then show ?thesis unfolding hex_digit_def by (simp add: upt_rec numeral_eq_Suc) (elim disjE; simp)
qed

lemma escape_length: "length (utf8_encode (escape_char a c)) \<le> 6"
proof -
  have "ord_of c < 256" by simp
  then have "ord_of c div 16 < 16" "ord_of c mod 16 < 16" by (simp_all add: less_mult_imp_div_less)
  then have h: "ord_of (hex_digit (ord_of c div 16)) < 128" "ord_of (hex_digit (ord_of c mod 16)) < 128"
    by (simp_all add: hex_digit_range)
  show ?thesis
    using utf8_char_length [of c] h
    by (auto simp: escape_char_def utf8_Cons utf8_char_ascii)
qed

lemma quote_length: "length (utf8_encode (json_quote a s)) \<le> 6 * length s + 2"
proof -
  have "length (utf8_encode (concat (map (escape_char a) s) @ t)) \<le> 6 * length s + length (utf8_encode t)" for t
  proof (induction s)
    case (Cons c s)
    then show ?case using escape_length [of a c] by (simp add: utf8_append)
  qed simp
  from this [of "[dquote]"] show ?thesis by (simp add: json_quote_def utf8_Cons utf8_char_ascii)
qed

lemma str_of_nat_length: "n < 10 ^ Suc k \<Longrightarrow> length (str_of_nat n) \<le> Suc k"
proof (induction k arbitrary: n)
  case 0
  then show ?case by (simp add: str_of_nat.simps)
next
  case (Suc k)
  show ?case
  proof (cases "n < 10")
    case False
    have "n div 10 < 10 ^ Suc k" using Suc.prems by (simp add: less_mult_imp_div_less)
    then show ?thesis using Suc.IH [of "n div 10"] False by (subst str_of_nat.simps) simp
  qed (simp add: str_of_nat.simps)
qed

lemma str_of_int_length:
  assumes "\<bar>i\<bar> \<le> safe_int"
  shows "length (utf8_encode (str_of_int i)) \<le> 17"
proof -
  have n: "nat \<bar>i\<bar> < 10 ^ Suc 15" using assms by (simp add: safe_int_def)
  have d: "list_all (\<lambda>c. ord_of c < 128) (str_of_nat m)" for m
    using str_of_nat_digits [of m] by (auto simp: list_all_iff is_digit_def)
  have "length (str_of_nat (nat \<bar>i\<bar>)) \<le> 16" using str_of_nat_length [OF n] by simp
  then show ?thesis using d by (cases "i < 0") (simp_all add: str_of_int_def utf8_Cons utf8_char_ascii utf8_ascii_length)
qed

lemma join_length:
  "(\<And>x. x \<in> set xs \<Longrightarrow> length (utf8_encode (f x)) \<le> g x) \<Longrightarrow>
    length (utf8_encode (join '','' (map f xs))) \<le> sum_list (map (\<lambda>x. g x + 1) xs)"
proof (induction xs rule: induct_list012)
  case (3 x y zs)
  have "length (utf8_encode (join '','' (map f (y # zs)))) \<le> sum_list (map (\<lambda>x. g x + 1) (y # zs))"
    using 3 by auto
  then show ?case using 3(3) [of x] by (simp add: utf8_append utf8_Cons utf8_char_ascii)
qed fastforce+

lemma sum_sort: "sum_list (map f (sort_key g xs)) = sum_list (map (f :: 'a \<Rightarrow> nat) xs)"
proof -
  have "mset (map f (sort_key g xs)) = mset (map f xs)" by simp
  then show ?thesis by (metis sum_mset_sum_list)
qed

lemma canonical_length: "tree_ok v d \<Longrightarrow> length (canonical v) \<le> json_size v"
  unfolding canonical_def
proof (induction v arbitrary: d)
  case (JInt i)
  then show ?case using str_of_int_length [of i] by simp
next
  case (JStr s)
  then show ?case using quote_length [of False s] by simp
next
  case (JList xs)
  have "length (utf8_encode (join '','' (map (json_dumps False) xs))) \<le> sum_list (map (\<lambda>x. json_size x + 1) xs)"
    using JList by (intro join_length) (fastforce simp: list_all_iff)
  then show ?case by (simp add: utf8_append utf8_Cons utf8_char_ascii comp_def)
next
  case (JObj kvs)
  have m: "length (utf8_encode (member_text [] False kv)) \<le> 6 * length (fst kv) + json_size (snd kv) + 3" if "kv \<in> set kvs" for kv
  proof -
    have "tree_ok (snd kv) (Suc d)" using JObj.prems that by (cases kv) (auto simp: list_all_iff)
    then have "length (utf8_encode (json_dumps False (snd kv))) \<le> json_size (snd kv)"
      using JObj.IH [of kv "snd kv"] that by (cases kv) auto
    then show ?thesis using quote_length [of False "fst kv"]
      by (simp add: member_text_def utf8_append utf8_Cons utf8_char_ascii)
  qed
  have "length (utf8_encode (join '','' (map (member_text [] False) (sort_key fst kvs)))) \<le>
      sum_list (map (\<lambda>kv. 6 * length (fst kv) + json_size (snd kv) + 3 + 1) (sort_key fst kvs))"
    using m by (intro join_length) simp
  also have "\<dots> = sum_list (map (\<lambda>kv. 6 * length (fst kv) + json_size (snd kv) + 4) kvs)"
    by (simp add: sum_sort ac_simps)
  finally show ?case
    by (simp add: json_dumps_obj utf8_append utf8_Cons utf8_char_ascii comp_def case_prod_beta del: json_text.simps)
qed (simp_all add: utf8_Cons utf8_char_ascii)

subsection \<open>Sizes of closed objects\<close>

lemma sum_list_bound: "(\<And>x. x \<in> set xs \<Longrightarrow> f x \<le> (n::nat)) \<Longrightarrow> sum_list (map f xs) \<le> length xs * n"
  by (induction xs) fastforce+

lemma closed_size:
  assumes "closed_obj v fs" "json_wf v" "\<And>k x. fld v k = Some x \<Longrightarrow> json_size x \<le> b" "\<And>k. k \<in> set fs \<Longrightarrow> length k \<le> m"
  shows "json_size v \<le> 2 + length fs * (6 * m + b + 4)"
proof -
  obtain kvs where v: "v = JObj kvs" "set (map fst kvs) = set fs" "dict_ok kvs"
    using assms(1,2) by (cases v) (auto simp: closed_obj_def)
  have len: "length kvs \<le> length fs"
    using card_length [of fs] distinct_card [OF v(3)] v(2) by simp
  have "6 * length (fst kv) + json_size (snd kv) + 4 \<le> 6 * m + b + 4" if "kv \<in> set kvs" for kv
  proof -
    have "fld v (fst kv) = Some (snd kv)" using that v(1,3) by (simp add: dict_get_in [symmetric])
    then have "json_size (snd kv) \<le> b" using assms(3) by blast
    moreover have "length (fst kv) \<le> m" using assms(4) v(2) that by force
    ultimately show ?thesis by simp
  qed
  then have "sum_list (map (\<lambda>kv. 6 * length (fst kv) + json_size (snd kv) + 4) kvs) \<le> length kvs * (6 * m + b + 4)"
    by (intro sum_list_bound) auto
  also have "\<dots> \<le> length fs * (6 * m + b + 4)" using len by simp
  finally show ?thesis unfolding v(1) by (simp add: comp_def case_prod_beta)
qed

lemma text_size: "text_upto n b v \<Longrightarrow> json_size v \<le> 6 * n + 2"
  by (auto simp: text_upto_def split: json.splits)

lemma fld_keys: "fld v k = Some x \<Longrightarrow> k \<in> set (keys v)"
  by (cases v) (auto dest: map_of_SomeD intro: rev_image_eqI)

lemma texts_size:
  assumes "list_all (\<lambda>k. has v k (text_upto n False)) (keys v)" "fld v k = Some x"
  shows "json_size x \<le> 6 * n + 2"
  using assms fld_keys [OF assms(2)] text_size by (fastforce simp: list_all_iff has_iff)

lemma namespace_size:
  assumes "namespace_ok v" "json_wf v"
  shows "json_size v \<le> 4000"
proof -
  have "json_size v \<le> 2 + length [''authority_id'', ''workspace_id'', ''repo_id''] * (6 * 12 + (6 * 200 + 2) + 4)"
  proof (rule closed_size)
    show "json_size x \<le> 6 * 200 + 2" if "fld v k = Some x" for k x
      using texts_size [where n = 200, OF _ that] assms(1) by (simp only: namespace_ok_def)
  qed (use assms in \<open>auto simp: namespace_ok_def\<close>)
  then show ?thesis by simp
qed

lemma integer_size: "integer_ok b v \<Longrightarrow> json_size v = 17"
  by (auto simp: integer_ok_def split: json.splits)

lemma has_cases: "has v k P \<Longrightarrow> fld v k = Some x \<Longrightarrow> P x"
  by (simp add: has_iff)

lemma locator_size:
  assumes "locator_ok v" "json_wf v"
  shows "json_size v \<le> 20000"
proof -
  have "json_size v \<le> 2 + length [''schema'', ''namespace'', ''intent_id'', ''intent_revision''] * (6 * 15 + 4000 + 4)"
  proof (rule closed_size)
    fix k x assume k: "fld v k = Some x"
    have cl: "closed_obj v [''schema'', ''namespace'', ''intent_id'', ''intent_revision'']"
      "has v ''schema'' (\<lambda>x. x = JStr ''protected-effect-locator/v1'')" "has v ''namespace'' namespace_ok"
      "has v ''intent_id'' text_ok" "has v ''intent_revision'' (integer_ok False)" using assms(1) by (auto simp: locator_ok_def)
    then have "k \<in> {''schema'', ''namespace'', ''intent_id'', ''intent_revision''}"
      using fld_keys [OF k] by (simp add: closed_obj_def)
    then show "json_size x \<le> 4000"
    proof (elim insertE emptyE)
      assume "k = ''schema''"
      then show ?thesis using has_cases [OF cl(2)] k by auto
    next
      assume "k = ''namespace''"
      then show ?thesis using has_cases [OF cl(3)] k namespace_size fld_wf [OF assms(2)] by auto
    next
      assume "k = ''intent_id''"
      then show ?thesis using has_cases [OF cl(4)] k text_size by fastforce
    next
      assume "k = ''intent_revision''"
      then show ?thesis using has_cases [OF cl(5)] k integer_size by fastforce
    qed
  qed (use assms in \<open>auto simp: locator_ok_def\<close>)
  then show ?thesis by simp
qed

subsection \<open>The parts of a decoded copy are read back\<close>

lemma py_eq_str [simp]: "py_eq y (JStr s) \<longleftrightarrow> y = JStr s"
  by (cases y) auto

lemma good_closed_reads:
  assumes "good v" "closed_obj v fs" "\<And>k x. fld v k = Some x \<Longrightarrow> json_size x \<le> b" "\<And>k. k \<in> set fs \<Longrightarrow> length k \<le> m"
    "2 + length fs * (6 * m + b + 4) \<le> l"
  shows "read_upto l (canonical v) = Some v"
proof -
  have "length (canonical v) \<le> json_size v" using assms(1) canonical_length by (auto simp: good_def)
  also have "\<dots> \<le> 2 + length fs * (6 * m + b + 4)"
    using assms(1-4) by (intro closed_size) (auto simp: good_def)
  finally show ?thesis using assms(1,2,5) by (intro good_reads) (auto simp: closed_obj_def)
qed

lemma locator_reads: "locator_ok v \<Longrightarrow> good v \<Longrightarrow> read_doc (canonical v) = Some v"
  using locator_size [of v] canonical_length [of v 0]
  by (intro good_reads) (auto simp: good_def locator_ok_def closed_obj_def document_max_def)

lemma party_reads:
  assumes "good v" "closed_obj v fs" "list_all (\<lambda>k. has v k (text_upto 512 False)) (keys v)"
    "list_all (\<lambda>k. length k \<le> 30) fs" "length fs \<le> 100"
  shows "read_doc (canonical v) = Some v"
proof (rule good_closed_reads [OF assms(1,2)])
  show "json_size x \<le> 6 * 512 + 2" if "fld v k = Some x" for k x
    using texts_size [where n = 512, OF _ that] assms(3) by simp
  show "2 + length fs * (6 * 30 + (6 * 512 + 2) + 4) \<le> document_max"
    using assms(5) by (simp add: document_max_def)
qed (use assms in \<open>auto simp: list_all_iff\<close>)

lemma hex_string_length: "hex_string n s \<Longrightarrow> length s = n"
  by (simp add: hex_string_def)

lemma eat_length: "eat p s = Some r \<Longrightarrow> length s = length p + length r"
  by (auto simp: eat_Some)

lemma digest_size: "digest_ok b v \<Longrightarrow> json_size v \<le> 428"
  by (auto simp: digest_ok_def digest_str_def split: json.splits if_splits option.splits
      dest!: hex_string_length eat_length)

lemma id_size: "length p \<le> 30 \<Longrightarrow> id_ok p v \<Longrightarrow> json_size v \<le> 428"
  by (auto simp: id_ok_def split: json.splits option.splits dest!: hex_string_length eat_length)

lemma timestamp_size: "timestamp v = Some t \<Longrightarrow> json_size v \<le> 428"
  by (cases v) (auto simp: timestamp_def bind_eq_Some_conv)

lemma digest_is_str: "digest_ok b v \<Longrightarrow> \<exists>s. v = JStr s"
  by (simp add: digest_ok_def split: json.splits)

lemma id_is_str: "id_ok p v \<Longrightarrow> \<exists>s. v = JStr s"
  by (simp add: id_ok_def split: json.splits)

lemma eq_flds_str: "eq_flds r k a l \<Longrightarrow> fld a l = Some (JStr s) \<Longrightarrow> fld r k = Some (JStr s)"
  by (auto simp: eq_flds_def eq_fld_def has_iff)

lemma hash_of_length: "length (hash_of b raw) \<le> 71"
  by (simp add: hash_of_def)

lemma receipt_reads:
  assumes "receipt_ok response a r" "good r" "fld response ''canonical_hash'' = Some (JStr (hash_of True raw))"
    "fld a ''acceptance_id'' = Some (JStr aid)" "id_ok ''iac_'' (JStr aid)" "has a ''preparation_id'' (id_ok ''ipr_'')"
    "has a ''signature_sha256'' (digest_ok False)" "has a ''challenge_sha256'' (digest_ok False)"
    "fld a ''accepted_at'' = Some t" "timestamp t = Some n"
  shows "read_doc (canonical r) = Some r"
proof (rule good_closed_reads [OF assms(2)])
  let ?fs = "[''schema'', ''receipt_id'', ''acceptance_id'', ''preparation_id'', ''canonical_hash'',
       ''signature_sha256'', ''challenge_sha256'', ''accepted_at'']"
  show cl: "closed_obj r ?fs" using assms(1) by (simp add: receipt_ok_def)
  have copied: "json_size x \<le> 428"
    if "fld r k = Some x" "eq_flds r k a k" "fld a k = Some y" "\<exists>s. y = JStr s" "json_size y \<le> 428" for k x y
    using that eq_flds_str by fastforce
  have same: "eq_flds r ''acceptance_id'' a ''acceptance_id''" "eq_flds r ''preparation_id'' a ''preparation_id''"
    "eq_flds r ''signature_sha256'' a ''signature_sha256''" "eq_flds r ''challenge_sha256'' a ''challenge_sha256''"
    "eq_flds r ''accepted_at'' a ''accepted_at''"
    using assms(1) by (simp_all add: receipt_ok_def)
  obtain prep sg ch where f: "fld a ''preparation_id'' = Some prep" "id_ok ''ipr_'' prep"
    "fld a ''signature_sha256'' = Some sg" "digest_ok False sg" "fld a ''challenge_sha256'' = Some ch" "digest_ok False ch"
    using assms(6-8) by (auto simp: has_iff)
  have i: "json_size (JStr aid) \<le> 428" "json_size prep \<le> 428"
    using id_size [OF _ assms(5)] id_size [OF _ f(2)] by simp_all
  have t: "\<exists>s. t = JStr s" using assms(10) by (cases t) (auto simp: timestamp_def)
  show "json_size x \<le> 428" if k: "fld r k = Some x" for k x
  proof -
    have "k \<in> set ?fs" using fld_keys [OF k] cl by (simp add: closed_obj_def)
    then have "k \<in> {''schema'', ''receipt_id'', ''acceptance_id'', ''preparation_id'', ''canonical_hash'',
      ''signature_sha256'', ''challenge_sha256'', ''accepted_at''}" by simp
    then show ?thesis
    proof (elim insertE emptyE)
      assume "k = ''schema''"
      then show ?thesis using k assms(1) by (simp add: receipt_ok_def)
    next
      assume "k = ''receipt_id''"
      then show ?thesis using k assms(1) id_size [of "''iar_''" x] by (simp add: receipt_ok_def has_def)
    next
      assume c: "k = ''canonical_hash''"
      have "eq_flds r ''canonical_hash'' response ''canonical_hash''" using assms(1) by (simp add: receipt_ok_def)
      then have "x = JStr (hash_of True raw)" using c k eq_flds_str [OF _ assms(3)] by fastforce
      then show ?thesis using hash_of_length [of True raw] by simp
    next
      assume "k = ''acceptance_id''"
      then show ?thesis using copied [OF k] same assms(4) i by blast
    next
      assume "k = ''preparation_id''"
      then show ?thesis using copied [OF k] same f id_is_str i by blast
    next
      assume "k = ''signature_sha256''"
      then show ?thesis using copied [OF k] same f digest_is_str digest_size by blast
    next
      assume "k = ''challenge_sha256''"
      then show ?thesis using copied [OF k] same f digest_is_str digest_size by blast
    next
      assume "k = ''accepted_at''"
      then show ?thesis using copied [OF k] same assms(9) t timestamp_size [OF assms(10)] by blast
    qed
  qed
  have "list_all (\<lambda>k. length k \<le> 16) ?fs" by simp
  then show "length k \<le> 16" if "k \<in> set ?fs" for k using that by (simp only: list_all_iff)
  show "2 + length ?fs * (6 * 16 + 428 + 4) \<le> document_max" by (simp add: document_max_def)
qed

subsection \<open>What a decoded copy consists of\<close>

lemma b64_field_facts: "b64_field m v = Some raw \<longleftrightarrow>
    (\<exists>s. v = JStr s \<and> text_upto (4 * ((m + 2) div 3)) False v \<and> b64decode s = Some raw \<and>
      length raw \<le> m \<and> b64encode raw = s)"
  by (cases v) (auto simp: b64_field_def bind_eq_Some_conv)

lemma single_case: "(case xs of [r] \<Rightarrow> f r | _ \<Rightarrow> None) = Some y \<longleftrightarrow> (\<exists>r. xs = [r] \<and> f r = Some y)"
  by (auto split: list.splits)

lemma decode_envelope_facts:
  assumes "decode_envelope refs ns e = Some se"
  shows "closed_obj e [''kind'', ''document_digest'', ''canonical_utf8_b64'']"
    "fld e ''kind'' = Some (JStr (env_kind (se_envelope se)))"
    "fld e ''document_digest'' = Some (JStr (env_document_digest (se_envelope se)))"
    "fld e ''canonical_utf8_b64'' = Some (JStr (b64encode (env_document_utf8 (se_envelope se))))"
    "length (env_document_utf8 (se_envelope se)) \<le> document_max"
  using assms
  by (auto simp: decode_envelope_def bind_eq_Some_conv b64_field_facts str_fld_Some single_case)

lemma those_facts: "those xs = Some ys \<longleftrightarrow> xs = map Some ys"
proof (induction xs arbitrary: ys)
  case (Cons x xs)
  then show ?case by (cases ys) (auto split: option.splits)
qed auto

lemma snapshot_facts:
  assumes "snapshot locator co raws repository = Some (envs, run_doc, work, release)"
  obtains refs ns xs es where "raws = JList xs" "map (decode_envelope refs ns) xs = map Some es"
    "envs = map se_envelope es" "3 \<le> length envs" "length envs \<le> 32"
proof -
  obtain refs0 refs ns xs es where s: "as_list raws = Some xs" "those (map (decode_envelope refs ns) xs) = Some es"
    "envs = map se_envelope es" "3 \<le> length refs" "length refs \<le> 32" "length xs = length refs"
    using assms by (auto simp: snapshot_def bind_eq_Some_conv)
  have "length xs = length es" using s(2) by (metis length_map those_facts)
  then show ?thesis using s by (intro that [of xs refs ns es]) (cases raws; simp add: those_facts)+
qed

definition decoded_from :: "json \<Rightarrow> json \<Rightarrow> json \<Rightarrow> json \<Rightarrow> json \<Rightarrow> json \<Rightarrow> string \<Rightarrow> effect_data \<Rightarrow> bool" where
  "decoded_from response locator co a c r aid e \<longleftrightarrow>
    fld response ''locator'' = Some locator \<and> locator_ok locator \<and> locator_utf8 e = canonical locator \<and>
    fld response ''schema'' = Some (JStr ''cred-broker-protected-effect-read-copy-response/v1'') \<and>
    fld response ''acceptance_revision'' = Some (JInt 1) \<and> acceptance_revision e = 1 \<and>
    fld response ''canonical_utf8_b64'' = Some (JStr (b64encode (canonical_utf8 e))) \<and>
    length (canonical_utf8 e) \<le> document_max \<and> canonical_hash e = hash_of True (canonical_utf8 e) \<and>
    fld response ''canonical_hash'' = Some (JStr (canonical_hash e)) \<and>
    fld response ''legacy_content_digest'' = Some (JStr (legacy_content_digest e)) \<and>
    fld response ''acceptance'' = Some a \<and> fld a ''challenge'' = Some c \<and> acceptance_ok a aid \<and>
    length (canonical c) \<le> 16384 \<and> (\<exists>fs. closed_obj c fs) \<and> window_ok a c \<and>
    fld response ''receipt'' = Some r \<and> receipt_ok response a r \<and> acceptance_of a = Some (ef_acceptance e) \<and>
    receipt_of r = Some (ef_receipt e)"

lemma decode_copy_facts:
  assumes "decode_protected_copy raw ns_utf8 aid repository listed = Some e"
  obtains ns response locator co a c r raws run_doc work release
  where "read_upto copy_max raw = Some response" "closed_obj response copy_fields"
    "decoded_from response locator co a c r aid e" "id_ok ''iac_'' (JStr aid)" "fld response ''envelopes'' = Some raws"
    "snapshot locator co raws repository = Some (envelopes e, run_doc, work, release)"
    "namespace_utf8 e = ns_utf8" "ef_repository e = repository"
proof -
  obtain ns response locator b64 can_utf8 co params leg raws envs run_doc work release a c and run_env :: envelope_data
      and r ad rd src
    where s: "namespace_bytes ns_utf8 = Some ns" "id_ok ''iac_'' (JStr aid)" "read_upto copy_max raw = Some response"
      "closed_obj response copy_fields"
      "fld response ''schema'' = Some (JStr ''cred-broker-protected-effect-read-copy-response/v1'')"
      "fld response ''acceptance_revision'' = Some (JInt 1)"
      "fld response ''locator'' = Some locator" "locator_ok locator"
      "fld response ''canonical_utf8_b64'' = Some b64" "b64_field document_max b64 = Some can_utf8"
      "fld response ''canonical_hash'' = Some (JStr (hash_of True can_utf8))"
      "fld response ''legacy_content_digest'' = Some (JStr leg)"
      "fld response ''envelopes'' = Some raws"
      "snapshot locator co raws repository = Some (envs, run_doc, work, release)"
      "fld response ''acceptance'' = Some a" "fld a ''challenge'' = Some c"
      "acceptance_ok a aid" "challenge_ok response a c (env_document_digest run_env)" "window_ok a c"
      "fld response ''receipt'' = Some r" "receipt_ok response a r"
      "acceptance_of a = Some ad" "receipt_of r = Some rd"
      "e = \<lparr>namespace_utf8 = ns_utf8, locator_utf8 = canonical locator, canonical_utf8 = can_utf8,
       canonical_hash = hash_of True can_utf8, legacy_content_digest = leg, ef_repository = repository,
       source_run = src, parameters_utf8 = canonical params, envelopes = envs,
       run_document_utf8 = canonical run_doc, work_document_utf8 = canonical work,
       release_document_utf8 = canonical release, acceptance_revision = 1,
       ef_acceptance = ad, ef_receipt = rd\<rparr>"
    using assms by (clarsimp simp: decode_protected_copy_def bind_eq_Some_conv)
  have "closed_obj c [''schema'', ''preparation_id'', ''canonical_hash'', ''legacy_content_digest'', ''locator'',
       ''run_envelope_digest'', ''requester_subject_id'', ''requester_session_id'', ''requester_host_id'',
       ''policy_revision'', ''operator_identity_revision'', ''operator_keyring_revision'', ''nonce'',
       ''created_at'', ''expires_at'']" "length (canonical c) \<le> 16384"
    using s(18) by (simp_all add: challenge_ok_def)
  then have "decoded_from response locator co a c r aid e"
    using s unfolding decoded_from_def by (auto simp: b64_field_facts)
  then show thesis using s by (intro that [of response locator co a c r raws run_doc work release]) simp_all
qed

subsection \<open>Rebuilding the response\<close>

lemma closed_obj_norm_eq:
  assumes "closed_obj v fs" "json_wf v" "dict_ok ws" "set (map fst ws) = set fs"
    "\<And>k x y. fld v k = Some x \<Longrightarrow> map_of ws k = Some y \<Longrightarrow> json_norm y = json_norm x"
  shows "json_norm (JObj ws) = json_norm v"
proof -
  obtain kvs where v: "v = JObj kvs" "set (map fst kvs) = set fs" "dict_ok kvs"
    using assms(1,2) by (cases v) (auto simp: closed_obj_def)
  have "map_option json_norm (map_of ws k) = map_option json_norm (map_of kvs k)" for k
  proof (cases "k \<in> set fs")
    case True
    have "k \<in> fst ` set ws" "k \<in> fst ` set kvs" using True assms(4) v(2) by simp_all
    then obtain x y where "map_of ws k = Some y" "map_of kvs k = Some x"
      by (metis domD dom_map_of_conv_image_fst)
    then show ?thesis using assms(5) [of k x y] v(1) by simp
  next
    case False
    have "k \<notin> fst ` set ws" "k \<notin> fst ` set kvs" using False assms(4) v(2) by simp_all
    then have "map_of ws k = None" "map_of kvs k = None" by (simp_all add: map_of_eq_None_iff)
    then show ?thesis by simp
  qed
  then show ?thesis unfolding v(1) using assms(3) v(3) by (intro obj_norm_eq)
qed

lemma envelope_norm_eq:
  assumes "decode_envelope refs ns x = Some se" "json_wf x"
  shows "json_norm (envelope_json (se_envelope se)) = json_norm x"
  unfolding envelope_json_def
proof (rule closed_obj_norm_eq)
  fix k v w
  assume "fld x k = Some v" "map_of [(''kind'', JStr (env_kind (se_envelope se))),
    (''document_digest'', JStr (env_document_digest (se_envelope se))),
    (''canonical_utf8_b64'', JStr (b64encode (env_document_utf8 (se_envelope se))))] k = Some w"
  then show "json_norm w = json_norm v"
    using decode_envelope_facts [OF assms(1)] by (auto split: if_splits)
qed (use decode_envelope_facts [OF assms(1)] assms(2) in auto)

lemma envelopes_norm_eq:
  assumes "map (decode_envelope refs ns) xs = map Some es" "json_wf (JList xs)"
  shows "json_norm (JList (map envelope_json (map se_envelope es))) = json_norm (JList xs)"
  using assms
proof (induction xs arbitrary: es)
  case (Cons x xs)
  then obtain se es' where "es = se # es'" by (cases es) auto
  then show ?case using Cons envelope_norm_eq by fastforce
qed simp

definition acceptance_json :: "acceptance_data \<Rightarrow> json \<Rightarrow> json \<Rightarrow> json \<Rightarrow> json" where
  "acceptance_json ad rq op c = JObj [(''acceptance_id'', JStr (ad_acceptance_id ad)),
     (''preparation_id'', JStr (ad_preparation_id ad)), (''accepted_at'', JStr (ad_accepted_at ad)),
     (''signature_sha256'', JStr (ad_signature_sha256 ad)), (''challenge_sha256'', JStr (ad_challenge_sha256 ad)),
     (''requester'', rq), (''operator'', op), (''challenge'', c)]"

lemma acceptance_of_facts:
  assumes "acceptance_of a = Some ad"
  obtains rq op c where "fld a ''acceptance_id'' = Some (JStr (ad_acceptance_id ad))"
    "fld a ''preparation_id'' = Some (JStr (ad_preparation_id ad))"
    "fld a ''accepted_at'' = Some (JStr (ad_accepted_at ad))"
    "fld a ''signature_sha256'' = Some (JStr (ad_signature_sha256 ad))"
    "fld a ''challenge_sha256'' = Some (JStr (ad_challenge_sha256 ad))"
    "fld a ''requester'' = Some rq" "fld a ''operator'' = Some op" "fld a ''challenge'' = Some c"
    "ad_requester_utf8 ad = canonical rq" "ad_operator_utf8 ad = canonical op" "ad_challenge_utf8 ad = canonical c"
  using assms by (auto simp: acceptance_of_def bind_eq_Some_conv str_fld_Some)

lemma acceptance_parts_read:
  assumes "acceptance_of a = Some ad" "acceptance_ok a aid" "good a" "fld a ''challenge'' = Some c"
    "length (canonical c) \<le> 16384" "closed_obj c fs"
  obtains rq op where "read_doc (ad_requester_utf8 ad) = Some rq" "read_doc (ad_operator_utf8 ad) = Some op"
    "read_upto 16384 (ad_challenge_utf8 ad) = Some c" "json_norm (acceptance_json ad rq op c) = json_norm a"
    "ad_acceptance_id ad = aid"
proof -
  obtain rq op c' where f: "fld a ''acceptance_id'' = Some (JStr (ad_acceptance_id ad))"
    "fld a ''preparation_id'' = Some (JStr (ad_preparation_id ad))"
    "fld a ''accepted_at'' = Some (JStr (ad_accepted_at ad))"
    "fld a ''signature_sha256'' = Some (JStr (ad_signature_sha256 ad))"
    "fld a ''challenge_sha256'' = Some (JStr (ad_challenge_sha256 ad))"
    "fld a ''requester'' = Some rq" "fld a ''operator'' = Some op" "fld a ''challenge'' = Some c'"
    "ad_requester_utf8 ad = canonical rq" "ad_operator_utf8 ad = canonical op" "ad_challenge_utf8 ad = canonical c'"
    using assms(1) by (rule acceptance_of_facts)
  have ok: "closed_obj a [''acceptance_id'', ''preparation_id'', ''accepted_at'', ''signature_sha256'', ''challenge_sha256'',
       ''requester'', ''operator'', ''challenge'']" "ad_acceptance_id ad = aid"
      "closed_obj rq requester_fields" "list_all (\<lambda>k. has rq k (text_upto 512 False)) (keys rq)"
      "closed_obj op operator_fields" "list_all (\<lambda>k. has op k (text_upto 512 False)) (keys op)"
    using assms(2) f by (simp_all add: acceptance_ok_def has_def)
  have r: "read_doc (canonical rq) = Some rq"
    using ok(3,4) good_fld [OF assms(3) f(6)]
    by (intro party_reads [where fs = requester_fields]) (simp_all add: requester_fields_def)
  have o: "read_doc (canonical op) = Some op"
    using ok(5,6) good_fld [OF assms(3) f(7)]
    by (intro party_reads [where fs = operator_fields]) (simp_all add: operator_fields_def)
  have c: "read_upto 16384 (canonical c) = Some c"
    using assms(5,6) good_fld [OF assms(3,4)] by (intro good_reads) (simp_all add: closed_obj_def)
  have "json_norm (acceptance_json ad rq op c) = json_norm a"
    unfolding acceptance_json_def
  proof (rule closed_obj_norm_eq [OF ok(1)])
    show "json_wf a" using assms(3) by (simp add: good_def)
    show "json_norm w = json_norm v" if "fld a k = Some v" "map_of [(''acceptance_id'', JStr (ad_acceptance_id ad)),
     (''preparation_id'', JStr (ad_preparation_id ad)), (''accepted_at'', JStr (ad_accepted_at ad)),
     (''signature_sha256'', JStr (ad_signature_sha256 ad)), (''challenge_sha256'', JStr (ad_challenge_sha256 ad)),
     (''requester'', rq), (''operator'', op), (''challenge'', c)] k = Some w" for k v w
      using that f assms(4) by (simp split: if_splits)
  qed auto
  then show thesis using that r o c f(9-11) ok(2) f(8) assms(4) by auto
qed

lemma receipt_of_utf8: "receipt_of r = Some rd \<Longrightarrow> rd_receipt_utf8 rd = canonical r"
  by (auto simp: receipt_of_def bind_eq_Some_conv)

lemma rebuild_decoded:
  assumes "good response" "closed_obj response copy_fields" "decoded_from response locator co a c r aid e"
    "id_ok ''iac_'' (JStr aid)" "fld response ''envelopes'' = Some (JList xs)"
    "map (decode_envelope refs ns) xs = map Some es" "envelopes e = map se_envelope es"
  obtains response' where "rebuild e = Some response'" "json_norm response' = response"
    "ad_acceptance_id (ef_acceptance e) = aid"
proof -
  let ?ad = "ef_acceptance e"
  note d = assms(3) [unfolded decoded_from_def]
  obtain fs where fs: "closed_obj c fs" using d by blast
  have ga: "good a" using good_fld assms(1) d by blast
  obtain rq op where p: "read_doc (ad_requester_utf8 ?ad) = Some rq" "read_doc (ad_operator_utf8 ?ad) = Some op"
    "read_upto 16384 (ad_challenge_utf8 ?ad) = Some c" "json_norm (acceptance_json ?ad rq op c) = json_norm a"
    "ad_acceptance_id ?ad = aid"
    using acceptance_parts_read [of a ?ad aid c fs] d ga fs by blast
  have l: "read_doc (locator_utf8 e) = Some locator"
    using d locator_reads [of locator] good_fld [OF assms(1)] by auto
  have af: "fld a ''acceptance_id'' = Some (JStr aid)" "has a ''preparation_id'' (id_ok ''ipr_'')"
    "has a ''signature_sha256'' (digest_ok False)" "has a ''challenge_sha256'' (digest_ok False)"
    using d by (simp_all add: acceptance_ok_def)
  obtain t n where t: "fld a ''accepted_at'' = Some t" "timestamp t = Some n"
    using d by (auto simp: window_ok_def bind_eq_Some_conv split: option.splits)
  have "fld response ''canonical_hash'' = Some (JStr (hash_of True (canonical_utf8 e)))" using d by simp
  then have "read_doc (canonical r) = Some r"
    using receipt_reads [of response a r] d good_fld [OF assms(1)] af t assms(4) by blast
  moreover have "rd_receipt_utf8 (ef_receipt e) = canonical r"
    using d receipt_of_utf8 by blast
  ultimately have r: "read_doc (rd_receipt_utf8 (ef_receipt e)) = Some r" by simp
  define ws where "ws = [(''schema'', JStr ''cred-broker-protected-effect-read-copy-response/v1''), (''locator'', locator),
       (''acceptance_revision'', JInt (acceptance_revision e)), (''canonical_hash'', JStr (canonical_hash e)),
       (''legacy_content_digest'', JStr (legacy_content_digest e)),
       (''canonical_utf8_b64'', JStr (b64encode (canonical_utf8 e))),
       (''envelopes'', JList (map envelope_json (envelopes e))),
       (''acceptance'', acceptance_json ?ad rq op c), (''receipt'', r)]"
  have "rebuild e = Some (JObj ws)"
    using l p r by (simp add: rebuild_def ws_def acceptance_json_def)
  moreover have f: "fld response ''locator'' = Some locator" "fld response ''acceptance'' = Some a"
      "fld response ''schema'' = Some (JStr ''cred-broker-protected-effect-read-copy-response/v1'')"
      "fld response ''acceptance_revision'' = Some (JInt (acceptance_revision e))"
      "fld response ''canonical_utf8_b64'' = Some (JStr (b64encode (canonical_utf8 e)))"
      "fld response ''canonical_hash'' = Some (JStr (canonical_hash e))"
      "fld response ''legacy_content_digest'' = Some (JStr (legacy_content_digest e))"
      "fld response ''receipt'' = Some r"
      using d by simp_all
  moreover have "json_norm (JObj ws) = json_norm response"
  proof (rule closed_obj_norm_eq [OF assms(2)])
    show "json_wf response" using assms(1) by (simp add: good_def)
    show "dict_ok ws" "set (map fst ws) = set copy_fields" by (auto simp: ws_def copy_fields_def)
    have "json_norm (JList (map envelope_json (envelopes e))) = json_norm (JList xs)"
      unfolding assms(7) using assms(6) good_fld [OF assms(1,5)]
      by (intro envelopes_norm_eq) (simp_all only: good_def)
    then have "list_all (\<lambda>(k, w). map_option json_norm (fld response k) = Some (json_norm w)) ws"
      unfolding ws_def list.pred_inject prod.case f assms(5) option.map p(4) by (intro conjI refl TrueI) simp_all
    then show "json_norm w = json_norm v" if "fld response k = Some v" "map_of ws k = Some w" for k v w
      using that map_of_SomeD by (fastforce simp: list_all_iff)
  qed
  ultimately show thesis using that p(5) assms(1) by (simp add: good_def)
qed

text \<open>C21: The data objects the executor keeps are exactly those some protected copy decodes to: whatever the
  decoder produces passes the recheck that rebuilds the response from the data and decodes it again, so the
  recheck never refuses data that came from a copy and never accepts data that could not have.\<close>

theorem decoded_data_is_typed:
  "assert_effect_data e \<longleftrightarrow>
    (\<exists>raw ns_utf8 aid repository listed. decode_protected_copy raw ns_utf8 aid repository listed = Some e)"
proof
  assume "assert_effect_data e"
  then obtain response where "decode_protected_copy (canonical response) (namespace_utf8 e)
      (ad_acceptance_id (ef_acceptance e)) (ef_repository e) None = Some e"
    by (auto simp: assert_effect_data_def split: option.splits)
  then show "\<exists>raw ns_utf8 aid repository listed. decode_protected_copy raw ns_utf8 aid repository listed = Some e"
    by blast
next
  assume "\<exists>raw ns_utf8 aid repository listed. decode_protected_copy raw ns_utf8 aid repository listed = Some e"
  then obtain raw ns_utf8 aid repository listed
    where "decode_protected_copy raw ns_utf8 aid repository listed = Some e" by blast
  then have dec: "decode_protected_copy raw ns_utf8 aid repository None = Some e"
    by (auto simp: decode_protected_copy_def bind_eq_Some_conv)
  then obtain ns response locator co a c r raws run_doc work release
  where s: "read_upto copy_max raw = Some response" "closed_obj response copy_fields"
    "decoded_from response locator co a c r aid e" "id_ok ''iac_'' (JStr aid)" "fld response ''envelopes'' = Some raws"
    "snapshot locator co raws repository = Some (envelopes e, run_doc, work, release)"
    "namespace_utf8 e = ns_utf8" "ef_repository e = repository"
    by (rule decode_copy_facts)
  obtain refs ns xs es where x: "raws = JList xs" "map (decode_envelope refs ns) xs = map Some es"
    "envelopes e = map se_envelope es" "3 \<le> length (envelopes e)" "length (envelopes e) \<le> 32"
    using s(6) by (rule snapshot_facts)
  have g: "good response" using s(1) by (rule good_read)
  obtain response' where r: "rebuild e = Some response'" "json_norm response' = response"
    "ad_acceptance_id (ef_acceptance e) = aid"
    using rebuild_decoded [OF g s(2,3,4) _ x(2,3)] s(5) x(1) by blast
  have "canonical response' = raw" using r(2) read_facts(5) [OF s(1)] canonical_norm by metis
  moreover have "list_all (\<lambda>v. length (env_document_utf8 v) \<le> document_max) (envelopes e)"
  proof -
    have "length (env_document_utf8 (se_envelope se)) \<le> document_max" if "se \<in> set es" for se
    proof -
      have "Some se \<in> set (map (decode_envelope refs ns) xs)" using that x(2) by simp
      then show ?thesis using decode_envelope_facts(5) by (auto simp: image_iff)
    qed
    then show ?thesis by (simp add: x(3) list_all_iff)
  qed
  moreover have "length (canonical_utf8 e) \<le> document_max" using s(3) by (simp add: decoded_from_def)
  ultimately show "assert_effect_data e"
    using x(4,5) r s(7,8) dec by (simp add: assert_effect_data_def)
qed

end
