(* ===== verification/Py_Strings.thy ===== *)
theory Py_Strings
  imports Py_Data
begin

text \<open>
  The string methods and the \<open>fnmatch\<close> patterns the legacy reconciler uses, on the characters of the
  model (code points below 256).
\<close>

subsection \<open>Splitting\<close>

text \<open>\<open>s.split(sep)\<close> for a separator of one character or byte, and with a maximal number of splits.\<close>

fun split_on :: "'a \<Rightarrow> 'a list \<Rightarrow> 'a list list" where
  "split_on c [] = [[]]"
| "split_on c (x # xs) =
    (if x = c then [] # split_on c xs
     else case split_on c xs of [] \<Rightarrow> [[x]] | w # ws \<Rightarrow> (x # w) # ws)"

fun split_max :: "nat \<Rightarrow> 'a \<Rightarrow> 'a list \<Rightarrow> 'a list list" where
  "split_max 0 c xs = [xs]"
| "split_max (Suc n) c xs =
    (if c \<in> set xs then takeWhile (\<lambda>x. x \<noteq> c) xs # split_max n c (tl (dropWhile (\<lambda>x. x \<noteq> c) xs)) else [xs])"

text \<open>\<open>str.splitlines\<close>: a carriage return followed by a line feed is one line end.\<close>

definition line_end :: "char \<Rightarrow> bool" where
  "line_end c \<longleftrightarrow> ord_of c \<in> {10, 11, 12, 13, 28, 29, 30, 133}"

fun splitlines_from :: "string \<Rightarrow> string \<Rightarrow> string list" where
  "splitlines_from acc [] = (if acc = [] then [] else [rev acc])"
| "splitlines_from acc (c # s) =
    (if line_end c
     then rev acc # splitlines_from [] (if ord_of c = 13 \<and> take 1 s = [char_of (10::nat)] then tl s else s)
     else splitlines_from (c # acc) s)"

definition splitlines :: "string \<Rightarrow> string list" where
  "splitlines s = splitlines_from [] s"

definition strip :: "string \<Rightarrow> string" where
  "strip s = rev (dropWhile py_space (rev (dropWhile py_space s)))"

definition lstrip_char :: "char \<Rightarrow> string \<Rightarrow> string" where
  "lstrip_char c s = dropWhile (\<lambda>x. x = c) s"

definition rstrip_char :: "char \<Rightarrow> string \<Rightarrow> string" where
  "rstrip_char c s = rev (lstrip_char c (rev s))"

text \<open>\<open>s.split()\<close>: the words between runs of white space.\<close>

fun words_from :: "string \<Rightarrow> string \<Rightarrow> string list" where
  "words_from acc [] = (if acc = [] then [] else [rev acc])"
| "words_from acc (c # s) =
    (if py_space c then (if acc = [] then words_from [] s else rev acc # words_from [] s) else words_from (c # acc) s)"

definition words :: "string \<Rightarrow> string list" where
  "words s = words_from [] s"

definition starts_with :: "string \<Rightarrow> string \<Rightarrow> bool" where
  "starts_with s p \<longleftrightarrow> prefix p s"

definition ends_with :: "string \<Rightarrow> string \<Rightarrow> bool" where
  "ends_with s p \<longleftrightarrow> suffix p s"

definition remove_prefix :: "string \<Rightarrow> string \<Rightarrow> string" where
  "remove_prefix s p = (if prefix p s then drop (length p) s else s)"

subsection \<open>Case and printability\<close>

definition lower_char :: "char \<Rightarrow> char" where
  "lower_char c = (let n = ord_of c in
     if 65 \<le> n \<and> n \<le> 90 \<or> 192 \<le> n \<and> n \<le> 222 \<and> n \<noteq> 215 then char_of (n + 32) else c)"

definition lower :: "string \<Rightarrow> string" where
  "lower s = map lower_char s"

text \<open>\<open>str.upper\<close>; the two characters whose upper case is no code point below 256 are left alone.\<close>

definition upper_char :: "char \<Rightarrow> string" where
  "upper_char c = (let n = ord_of c in
     if n = 223 then ''SS''
     else if 97 \<le> n \<and> n \<le> 122 \<or> 224 \<le> n \<and> n \<le> 254 \<and> n \<noteq> 247 then [char_of (n - 32)] else [c])"

definition upper :: "string \<Rightarrow> string" where
  "upper s = concat (map upper_char s)"

definition printable_char :: "char \<Rightarrow> bool" where
  "printable_char c \<longleftrightarrow> 32 \<le> ord_of c \<and> ord_of c \<le> 126 \<or> 161 \<le> ord_of c \<and> ord_of c \<noteq> 173"

definition is_printable :: "string \<Rightarrow> bool" where
  "is_printable s \<longleftrightarrow> list_all printable_char s"

text \<open>\<open>repr\<close> of a string: in single quotes unless it contains one and no double quote.\<close>

definition repr_char :: "char \<Rightarrow> char \<Rightarrow> string" where
  "repr_char quote c =
    (if c = quote \<or> c = bslash then [bslash, c]
     else if ord_of c = 9 then [bslash, CHR ''t'']
     else if ord_of c = 10 then [bslash, CHR ''n'']
     else if ord_of c = 13 then [bslash, CHR ''r'']
     else if printable_char c then [c]
     else [bslash, CHR ''x'', hex_digit (ord_of c div 16), hex_digit (ord_of c mod 16)])"

definition str_repr :: "string \<Rightarrow> string" where
  "str_repr s =
    (let quote = (if CHR 0x27 \<in> set s \<and> dquote \<notin> set s then dquote else CHR 0x27)
     in [quote] @ concat (map (repr_char quote) s) @ [quote])"

subsection \<open>Patterns\<close>

text \<open>
  \<open>fnmatch.fnmatch\<close> on a POSIX system, where it is case-sensitive: \<open>*\<close> matches any characters, also
  \<open>/\<close>, \<open>?\<close> any one, and a bracket expression a set of characters, single ones and ranges. A bracket
  that is not closed stands for itself.
\<close>

datatype glob_item = Lit char | AnyChar | Star | Chars bool "(char \<times> char) list"

text \<open>The members of a bracket expression, as ranges.\<close>

fun bracket_ranges :: "string \<Rightarrow> (char \<times> char) list" where
  "bracket_ranges (a # b # c # s) =
    (if b = CHR ''-'' then (a, c) # bracket_ranges s else (a, a) # bracket_ranges (b # c # s))"
| "bracket_ranges (a # s) = (a, a) # bracket_ranges s"
| "bracket_ranges [] = []"

text \<open>The text between the brackets, and what follows: the first closing bracket that is not the first member.\<close>

definition bracket_body :: "string \<Rightarrow> (string \<times> string) option" where
  "bracket_body s =
    (let n = (if take 1 s = ''!'' then 1 else 0); m = (if take 1 (drop n s) = '']'' then Suc n else n);
         body = take m s @ takeWhile (\<lambda>c. c \<noteq> CHR '']'') (drop m s); rest = dropWhile (\<lambda>c. c \<noteq> CHR '']'') (drop m s)
     in case rest of [] \<Rightarrow> None | _ # r \<Rightarrow> Some (body, r))"

lemma bracket_body_length: "bracket_body s = Some (b, r) \<Longrightarrow> length r < length s"
proof -
  assume "bracket_body s = Some (b, r)"
  then obtain m c where "dropWhile (\<lambda>c. c \<noteq> CHR '']'') (drop m s) = c # r"
    by (auto simp: bracket_body_def Let_def split: list.splits)
  then have "length (c # r) \<le> length (drop m s)" by (metis length_dropWhile_le)
  then show ?thesis by simp
qed

definition bracket_item :: "string \<Rightarrow> glob_item" where
  "bracket_item body =
    (if take 1 body = ''!'' then Chars False (bracket_ranges (tl body)) else Chars True (bracket_ranges body))"

function glob_items :: "string \<Rightarrow> glob_item list" where
  "glob_items [] = []"
| "glob_items (c # s) =
    (if c = CHR ''*'' then Star # glob_items s
     else if c = CHR ''?'' then AnyChar # glob_items s
     else if c = CHR ''['' then
       (case bracket_body s of None \<Rightarrow> Lit c # glob_items s | Some (body, r) \<Rightarrow> bracket_item body # glob_items r)
     else Lit c # glob_items s)"
  by pat_completeness auto
termination
  by (relation "measure length") (auto dest: bracket_body_length)

fun glob_char :: "glob_item \<Rightarrow> char \<Rightarrow> bool" where
  "glob_char (Lit x) c \<longleftrightarrow> c = x"
| "glob_char (Chars b rs) c \<longleftrightarrow> (list_ex (\<lambda>(x, y). ord_of x \<le> ord_of c \<and> ord_of c \<le> ord_of y) rs \<longleftrightarrow> b)"
| "glob_char _ c \<longleftrightarrow> True"

fun glob_match :: "glob_item list \<Rightarrow> string \<Rightarrow> bool" where
  "glob_match [] s \<longleftrightarrow> s = []"
| "glob_match (Star # ps) [] \<longleftrightarrow> glob_match ps []"
| "glob_match (Star # ps) (c # s) \<longleftrightarrow> glob_match ps (c # s) \<or> glob_match (Star # ps) s"
| "glob_match (p # ps) [] \<longleftrightarrow> False"
| "glob_match (p # ps) (c # s) \<longleftrightarrow> glob_char p c \<and> glob_match ps s"

definition fnmatch :: "string \<Rightarrow> string \<Rightarrow> bool" where
  "fnmatch name pat \<longleftrightarrow> glob_match (glob_items pat) name"

text \<open>What the star means: any string in its place.\<close>

lemma glob_match_star: "glob_match (Star # ps) s \<longleftrightarrow> (\<exists>u v. s = u @ v \<and> glob_match ps v)"
proof (induction s)
  case (Cons c s)
  have "(\<exists>u v. c # s = u @ v \<and> glob_match ps v) \<longleftrightarrow>
      glob_match ps (c # s) \<or> (\<exists>u v. s = u @ v \<and> glob_match ps v)"
    by (auto simp: Cons_eq_append_conv)
  then show ?case using Cons by simp
qed simp

lemma glob_match_lits: "glob_match (map Lit p @ ps) s \<longleftrightarrow> (\<exists>v. s = p @ v \<and> glob_match ps v)"
proof (induction p arbitrary: s)
  case (Cons c p)
  then show ?case by (cases s) auto
qed simp

definition plain :: "string \<Rightarrow> bool" where
  "plain s \<longleftrightarrow> list_all (\<lambda>c. c \<notin> {CHR ''*'', CHR ''?'', CHR ''[''}) s"

lemma glob_items_plain: "plain p \<Longrightarrow> glob_items (p @ s) = map Lit p @ glob_items s"
  by (induction p) (auto simp: plain_def)

text \<open>A directory pattern covers exactly what is below the directory.\<close>

lemma fnmatch_below: "plain p \<Longrightarrow> fnmatch name (p @ ''*'') \<longleftrightarrow> prefix p name"
  by (auto simp: fnmatch_def glob_items_plain glob_match_lits glob_match_star prefix_def)

lemma fnmatch_plain: "plain p \<Longrightarrow> fnmatch name p \<longleftrightarrow> name = p"
  using glob_items_plain [of p "[]"] glob_match_lits [of p "[]"] by (auto simp: fnmatch_def)

subsection \<open>Facts about splitting\<close>

lemma split_on_nonempty [simp]: "split_on c xs \<noteq> []"
  by (induction xs) (auto split: list.splits)

lemma split_on_parts: "w \<in> set (split_on c xs) \<Longrightarrow> c \<notin> set w"
proof (induction xs arbitrary: w)
  case (Cons x xs)
  then show ?case by (cases "split_on c xs") (auto split: if_splits)
qed simp

lemma split_on_append: "c \<notin> set w \<Longrightarrow> split_on c (w @ c # xs) = w # split_on c xs"
  by (induction w) auto

lemma split_on_single: "c \<notin> set w \<Longrightarrow> split_on c w = [w]"
  by (induction w) auto

lemma split_max_append: "c \<notin> set w \<Longrightarrow> split_max (Suc n) c (w @ c # xs) = w # split_max n c xs"
  by (auto simp: takeWhile_tail dropWhile_append)

end
