(* ===== verification/Effect_Intents.thy ===== *)
theory Effect_Intents
  imports Protected_Codec Py_Strings
begin

text \<open>
  The intents of the legacy reconciler: \<open>vuoro_reconciler/intents.py\<close>, the forge's data of
  \<open>provider.py\<close>, the receipt check of \<open>verification.py\<close>, and the pure part of \<open>acceptance.py\<close>: the
  auto-accept configuration, when an acceptance is stale, and what a recorded scope admits.
\<close>

subsection \<open>Acceptors and intents\<close>

type_synonym mapping = "(string \<times> json) list"

datatype acceptor =
    OperatorAcceptor (op_subject: string)
  | PolicyAcceptor (pa_policy_id: string) (pa_version: int) (pa_scope: mapping) (pa_config_digest: string)

definition trailer_value :: "acceptor \<Rightarrow> string" where
  "trailer_value a =
    (case a of
       OperatorAcceptor subject \<Rightarrow> ''operator:'' @ subject
     | PolicyAcceptor pid version scope dgst \<Rightarrow> ''policy:'' @ pid @ ''@'' @ str_of_int version)"

definition acceptor_as_dict :: "acceptor \<Rightarrow> json" where
  "acceptor_as_dict a =
    (case a of
       OperatorAcceptor subject \<Rightarrow> JObj [(''kind'', JStr ''operator''), (''subject'', JStr subject)]
     | PolicyAcceptor pid version scope dgst \<Rightarrow>
         JObj [(''kind'', JStr ''policy''), (''policy_id'', JStr pid), (''version'', JInt version),
           (''scope'', JObj scope), (''config_digest'', JStr dgst)])"

record effect_intent =
  intent_id :: string
  in_run_id :: string
  in_repository :: string
  base_commit :: string
  in_title :: string
  rationale :: string
  unified_diff :: string
  in_workspace_id :: string
  proposer_principal :: string
  in_item_id :: int
  revision :: int
  canonical_intent_digest :: string
  acceptance :: "mapping option"
  effect_kind :: string
  in_acceptor :: "acceptor option"
  release_digest :: "string option"

record pull_request =
  pq_repository :: string
  pq_branch :: string
  pq_base_branch :: string
  pq_title :: string
  pq_body :: string

record pull_request_result =
  pr_url :: string
  pr_number :: "int option"
  pr_base_branch :: "string option"
  pr_head_sha :: "string option"
  pr_state :: string
  pr_head_ref :: "string option"

definition intent_parameters :: "effect_intent \<Rightarrow> mapping" where
  "intent_parameters i = [(''item_id'', JInt (in_item_id i)), (''repository'', JStr (in_repository i)),
     (''base_commit'', JStr (base_commit i)), (''title'', JStr (in_title i)), (''rationale'', JStr (rationale i)),
     (''unified_diff'', JStr (unified_diff i))]"

definition canonical_digest :: "effect_intent \<Rightarrow> string" where
  "canonical_digest i =
     hexdigest (utf8_encode (json_dumps False (JObj ((''schema'', JStr ''sprintctl-effect-intent/v1'') # intent_parameters i))))"

definition getkey :: "mapping \<Rightarrow> string \<Rightarrow> json" where
  "getkey m k = (case map_of m k of None \<Rightarrow> JNull | Some v \<Rightarrow> v)"

subsection \<open>The receipt of a protected verification\<close>

text \<open>
  \<open>set(value) == {...}\<close> for a value of any type: an object gives its keys, an array its elements (which
  raise when they are not hashable), a string its characters; the rest raises. Only an object can pass
  the lookups that follow, so a check fails on everything else.
\<close>

definition proof_fields :: "string list" where
  "proof_fields = [''run_id'', ''item_id'', ''evidence_digest'', ''entry_digest'', ''verifier_principal'',
     ''workspace_id'', ''client_id'', ''grant_id'', ''receipt'']"

definition receipt_fields :: "string list" where
  "receipt_fields = [''schema'', ''intent_id'', ''intent_revision'', ''canonical_intent_digest'', ''release_digest'',
     ''artifact'', ''checks'']"

definition nonempty_str :: "json \<Rightarrow> bool" where
  "nonempty_str v = (case v of JStr s \<Rightarrow> s \<noteq> [] | _ \<Rightarrow> False)"

definition null_or_str :: "json \<Rightarrow> bool" where
  "null_or_str v = (case v of JNull \<Rightarrow> True | JStr s \<Rightarrow> True | _ \<Rightarrow> False)"

text \<open>One round of the loop over the checks: the names seen so far, or nothing for a refusal.\<close>

definition check_row :: "json \<Rightarrow> string list \<Rightarrow> string list option" where
  "check_row check names = do {
     ensure (closed_obj check [''name'', ''revision'', ''status'']);
     name \<leftarrow> str_fld check ''name'';
     ensure (not_blank name \<and> length name \<le> 200 \<and> name \<notin> set names \<and> has check ''revision'' (digest_ok True) \<and>
       fld check ''status'' = Some (JStr ''passed''));
     Some (name # names) }"

fun check_rows :: "json list \<Rightarrow> string list \<Rightarrow> string list option" where
  "check_rows [] names = Some names"
| "check_rows (c # cs) names = do { names' \<leftarrow> check_row c names; check_rows cs names' }"

definition receipt_matches :: "effect_intent \<Rightarrow> string \<Rightarrow> json \<Rightarrow> bool" where
  "receipt_matches i release detail \<longleftrightarrow>
     closed_obj detail receipt_fields \<and>
     fld detail ''schema'' = Some (JStr ''sprintctl-protected-artifact-verification/v1'') \<and>
     fld detail ''intent_id'' = Some (JStr (intent_id i)) \<and>
     fld detail ''intent_revision'' = Some (JInt (revision i)) \<and>
     fld detail ''canonical_intent_digest'' = Some (JStr (canonical_intent_digest i)) \<and>
     fld detail ''release_digest'' = Some (JStr release) \<and>
     eq_fld detail ''artifact'' (JObj [(''domain'', JStr ''utf8-unified-diff/v1''),
       (''digest'', JStr (hash_of True (utf8_encode (unified_diff i))))]) \<and>
     has detail ''checks'' (\<lambda>v. case v of
       JList cs \<Rightarrow> 1 \<le> length cs \<and> length cs \<le> 64 \<and> check_rows cs [] \<noteq> None | _ \<Rightarrow> False)"

definition proof_ok :: "effect_intent \<Rightarrow> mapping \<Rightarrow> json \<Rightarrow> bool" where
  "proof_ok i acc prf \<longleftrightarrow>
     closed_obj prf proof_fields \<and>
     (case release_digest i of
        None \<Rightarrow> False
      | Some release \<Rightarrow>
          (case map_of acc ''acceptor_principal'' of None \<Rightarrow> False | Some p \<Rightarrow> eq_fld prf ''verifier_principal'' p) \<and>
          list_all (\<lambda>k. has prf k nonempty_str) [''run_id'', ''item_id'', ''workspace_id'', ''verifier_principal''] \<and>
          list_all (\<lambda>k. has prf k null_or_str) [''client_id'', ''grant_id''] \<and>
          list_all (\<lambda>k. has prf k (digest_ok True)) [''evidence_digest'', ''entry_digest''] \<and>
          has prf ''receipt'' (\<lambda>detail. receipt_matches i release detail \<and>
            fld prf ''evidence_digest'' = Some (JStr (hash_of True (canonical detail)))))"

text \<open>\<open>validate_verification\<close>: the refusal, if there is one.\<close>

definition validate_verification :: "effect_intent \<Rightarrow> bool \<Rightarrow> string option" where
  "validate_verification i required =
    (let acc = (case acceptance i of None \<Rightarrow> [] | Some a \<Rightarrow> a) in
     case getkey acc ''verification'' of
       JNull \<Rightarrow> if required then Some ''effect-verification-required'' else None
     | prf \<Rightarrow> if proof_ok i acc prf then None else Some ''effect-verification-refused'')"

subsection \<open>The auto-accept configuration\<close>

record policy =
  ap_id :: string
  ap_enabled :: bool
  ap_workspace_id :: string
  ap_effect_kinds :: "string list"
  ap_repository :: "string option"
  ap_path_globs :: "string list option"

record auto_config =
  ac_version :: "int option"
  ac_policies :: "policy list"
  ac_digest :: "string option"

definition json_opt_str :: "string option \<Rightarrow> json" where
  "json_opt_str x = (case x of None \<Rightarrow> JNull | Some s \<Rightarrow> JStr s)"

text \<open>The effect kinds are a set; \<open>sorted\<close> gives them in order, each once.\<close>

definition policy_scope :: "policy \<Rightarrow> mapping" where
  "policy_scope p = [(''workspace_id'', JStr (ap_workspace_id p)), (''repository'', json_opt_str (ap_repository p)),
     (''effect_kinds'', JList (map JStr (sort (remdups (ap_effect_kinds p))))),
     (''path_globs'', case ap_path_globs p of None \<Rightarrow> JNull | Some gs \<Rightarrow> JList (map JStr gs))]"

definition covers :: "policy \<Rightarrow> string \<Rightarrow> bool" where
  "covers p path = (case ap_path_globs p of None \<Rightarrow> True | Some gs \<Rightarrow> list_ex (fnmatch path) gs)"

definition str_list :: "json \<Rightarrow> string list option" where
  "str_list v = do {
     xs \<leftarrow> as_list v; ss \<leftarrow> those (map as_str xs);
     ensure (list_all (\<lambda>s. s \<noteq> []) ss);
     Some ss }"

definition opt_fld :: "json \<Rightarrow> string \<Rightarrow> json" where
  "opt_fld v k = getd v k JNull"

definition name_of :: "json \<Rightarrow> string option" where
  "name_of v = do { s \<leftarrow> as_str v; ensure (s \<noteq> []); Some s }"

definition parse_policy :: "json \<Rightarrow> policy option" where
  "parse_policy entry = do {
     ensure (is_obj entry \<and> set (keys entry) \<subseteq> {''id'', ''enabled'', ''workspace_id'', ''repository'', ''effect_kinds'', ''path_globs''});
     pid \<leftarrow> name_of (opt_fld entry ''id'');
     enabled \<leftarrow> (case opt_fld entry ''enabled'' of JBool b \<Rightarrow> Some b | _ \<Rightarrow> None);
     ws \<leftarrow> name_of (opt_fld entry ''workspace_id'');
     repository \<leftarrow> (if opt_fld entry ''repository'' = JNull then Some None
       else map_option Some (name_of (opt_fld entry ''repository'')));
     kinds \<leftarrow> str_list (opt_fld entry ''effect_kinds'');
     ensure (kinds \<noteq> []);
     globs \<leftarrow> (if opt_fld entry ''path_globs'' = JNull then Some None
       else do { gs \<leftarrow> str_list (opt_fld entry ''path_globs''); ensure (gs \<noteq> []); Some (Some gs) });
     ensure (repository \<noteq> None \<or> globs \<noteq> None);
     Some \<lparr>ap_id = pid, ap_enabled = enabled, ap_workspace_id = ws, ap_effect_kinds = kinds,
           ap_repository = repository, ap_path_globs = globs\<rparr> }"

text \<open>\<open>json.loads\<close> without a hook: a repeated key takes the last value.\<close>

definition hook_last :: pairs_hook where
  "hook_last kvs = Some (JObj (foldl (\<lambda>d (k, v). dict_set k v d) [] kvs))"

definition config_off :: auto_config where
  "config_off = \<lparr>ac_version = None, ac_policies = [], ac_digest = None\<rparr>"

definition byte_space :: "8 word \<Rightarrow> bool" where
  "byte_space b \<longleftrightarrow> unat b \<in> {9, 10, 11, 12, 13, 32}"

text \<open>\<open>AutoAcceptConfig.__init__\<close> on the bytes of the file, if there is one; \<open>None\<close> is the \<open>ValueError\<close>.\<close>

definition load_config :: "bytes option \<Rightarrow> auto_config option" where
  "load_config file =
    (case file of
       None \<Rightarrow> Some config_off
     | Some raw \<Rightarrow>
         if list_all byte_space raw then Some config_off
         else do {
           text \<leftarrow> utf8_decode raw;
           parsed \<leftarrow> json_loads hook_last text;
           ensure (is_obj parsed \<and> set (keys parsed) \<subseteq> {''version'', ''policies''});
           version \<leftarrow> as_int (opt_fld parsed ''version'');
           ensure (1 \<le> version);
           entries \<leftarrow> as_list (getd parsed ''policies'' (JList []));
           policies \<leftarrow> those (map parse_policy entries);
           ensure (distinct (map ap_id policies));
           Some \<lparr>ac_version = Some version, ac_policies = policies, ac_digest = Some (hexdigest raw)\<rparr> })"

definition config_active :: "auto_config \<Rightarrow> bool" where
  "config_active c \<longleftrightarrow> list_ex ap_enabled (ac_policies c)"

definition config_policy :: "auto_config \<Rightarrow> string \<Rightarrow> policy option" where
  "config_policy c pid = find (\<lambda>p. ap_id p = pid) (ac_policies c)"

definition stale_reason :: "auto_config \<Rightarrow> string \<Rightarrow> int \<Rightarrow> mapping \<Rightarrow> string \<Rightarrow> string option" where
  "stale_reason c pid version scope dgst =
    (case config_policy c pid of
       None \<Rightarrow> Some ''policy-not-found''
     | Some p \<Rightarrow>
         if \<not> ap_enabled p then Some ''policy-disabled''
         else if Some version \<noteq> ac_version c then Some ''policy-version-mismatch''
         else if Some dgst \<noteq> ac_digest c then Some ''policy-config-digest-mismatch''
         else if \<not> py_eq (JObj scope) (JObj (policy_scope p)) then Some ''policy-scope-mismatch''
         else None)"

text \<open>
  \<open>legacy_execution_excluded\<close>: repositories registered as protected and acceptances with any
  verification, well-formed or not.
\<close>

definition legacy_execution_excluded :: "effect_intent \<Rightarrow> string list \<Rightarrow> bool" where
  "legacy_execution_excluded i protected \<longleftrightarrow> in_repository i \<in> set protected \<or>
     (case acceptance i of None \<Rightarrow> False | Some a \<Rightarrow> getkey a ''verification'' \<noteq> JNull)"

subsection \<open>What a recorded scope admits\<close>

definition truthy_json :: "json \<Rightarrow> bool" where
  "truthy_json v = (case v of JNull \<Rightarrow> False | JBool b \<Rightarrow> b | JInt i \<Rightarrow> i \<noteq> 0 | JStr s \<Rightarrow> s \<noteq> [] | JList xs \<Rightarrow> xs \<noteq> []
     | JObj kvs \<Rightarrow> kvs \<noteq> [])"

text \<open>\<open>s in value\<close> for a string; \<open>None\<close> is the \<open>TypeError\<close>.\<close>

definition str_in :: "string \<Rightarrow> json \<Rightarrow> bool option" where
  "str_in s v =
    (case v of
       JList xs \<Rightarrow> Some (list_ex (\<lambda>x. py_eq x (JStr s)) xs)
     | JObj kvs \<Rightarrow> Some (s \<in> fst ` set kvs)
     | JStr t \<Rightarrow> Some (sublist s t)
     | _ \<Rightarrow> None)"

definition iterate :: "json \<Rightarrow> json list option" where
  "iterate v =
    (case v of JList xs \<Rightarrow> Some xs | JObj kvs \<Rightarrow> Some (map (\<lambda>kv. JStr (fst kv)) kvs)
     | JStr s \<Rightarrow> Some (map (\<lambda>c. JStr [c]) s) | _ \<Rightarrow> None)"

text \<open>\<open>any\<close> and \<open>all\<close> over checks that may raise.\<close>

fun any_opt :: "('a \<Rightarrow> bool option) \<Rightarrow> 'a list \<Rightarrow> bool option" where
  "any_opt P [] = Some False"
| "any_opt P (x # xs) = (case P x of None \<Rightarrow> None | Some True \<Rightarrow> Some True | Some False \<Rightarrow> any_opt P xs)"

fun all_opt :: "('a \<Rightarrow> bool option) \<Rightarrow> 'a list \<Rightarrow> bool option" where
  "all_opt P [] = Some True"
| "all_opt P (x # xs) = (case P x of None \<Rightarrow> None | Some False \<Rightarrow> Some False | Some True \<Rightarrow> all_opt P xs)"

definition scope_admits :: "mapping \<Rightarrow> effect_intent \<Rightarrow> string list \<Rightarrow> bool option" where
  "scope_admits scope i paths =
    (if \<not> py_eq (getkey scope ''workspace_id'') (JStr (in_workspace_id i)) then Some False
     else if getkey scope ''repository'' \<noteq> JNull \<and> \<not> py_eq (getkey scope ''repository'') (JStr (in_repository i)) then Some False
     else do {
       known \<leftarrow> (let kinds = getkey scope ''effect_kinds'' in
         str_in (effect_kind i) (if truthy_json kinds then kinds else JList []));
       if \<not> known then Some False
       else if getkey scope ''path_globs'' = JNull then Some True
       else all_opt (\<lambda>path. do {
         globs \<leftarrow> iterate (getkey scope ''path_globs'');
         any_opt (\<lambda>g. map_option (fnmatch path) (as_str g)) globs }) paths })"

end
