(* ===== verification/Legacy_World.thy ===== *)
theory Legacy_World
  imports Effect_Intents
begin

text \<open>
  The programs of the legacy reconciler and the world they act on. Git, the forge, the source of the
  intents and the clock answer arbitrarily at every moment; a program returns or raises, and leaves the
  calls it made, in order, with their answers.
\<close>

subsection \<open>Exceptions\<close>

text \<open>
  \<open>Other\<close> is any other \<open>Exception\<close>, with the name of its class; \<open>Interrupted\<close> is one that
  \<open>except Exception\<close> does not catch (a cancellation).
\<close>

datatype exn =
    Refused string
  | Unrecorded string string string
  | CredentialRejected
  | BranchAlreadyExists
  | PullRequestAlreadyExists
  | DiffPolicyViolation string
  | PreflightRefused string
  | CheckoutFailed string
  | DiffDoesNotApply string
  | AcceptanceRefused string
  | Other string
  | Interrupted

text \<open>\<open>type(error).__name__\<close>\<close>

fun exn_name :: "exn \<Rightarrow> string" where
  "exn_name (Refused r) = ''_Refused''"
| "exn_name (Unrecorded s r c) = ''_Unrecorded''"
| "exn_name CredentialRejected = ''ProviderCredentialRejected''"
| "exn_name BranchAlreadyExists = ''BranchAlreadyExists''"
| "exn_name PullRequestAlreadyExists = ''PullRequestAlreadyExists''"
| "exn_name (DiffPolicyViolation c) = ''DiffPolicyViolation''"
| "exn_name (PreflightRefused r) = ''PreflightRefused''"
| "exn_name (CheckoutFailed d) = ''CheckoutFailed''"
| "exn_name (DiffDoesNotApply d) = ''DiffDoesNotApply''"
| "exn_name (AcceptanceRefused d) = ''AcceptanceRefused''"
| "exn_name (Other n) = n"
| "exn_name Interrupted = ''CancelledError''"

text \<open>What a service can raise: the exceptions the reconciler keeps to itself are not among them.\<close>

datatype fault =
    CredentialFault
  | BranchExistsFault
  | PullRequestExistsFault
  | PreflightFault string
  | OtherFault string
  | InterruptFault

fun raise_fault :: "fault \<Rightarrow> exn" where
  "raise_fault CredentialFault = CredentialRejected"
| "raise_fault BranchExistsFault = BranchAlreadyExists"
| "raise_fault PullRequestExistsFault = PullRequestAlreadyExists"
| "raise_fault (PreflightFault r) = PreflightRefused r"
| "raise_fault (OtherFault n) = Other n"
| "raise_fault InterruptFault = Interrupted"

subsection \<open>Services and calls\<close>

text \<open>
  A process run to its end: its exit code and output. Text mode decodes the output; a process that
  cannot be started, or output that cannot be decoded, raises.
\<close>

record 'a completed =
  returncode :: int
  stdout :: 'a
  stderr :: string

text \<open>
  A call of git: its arguments, the directory it runs in, the standard input, the content of the
  temporary file named by one of the arguments, and the environment that \<open>gitenv\<close> hands it. The text of
  an exception, \<open>str(error)\<close>, is a service too.
\<close>

record git_call =
  gc_args :: "string list"
  gc_cwd :: "string option"
  gc_input :: "bytes option"
  gc_file :: "string option"
  gc_env :: "(string, string) dict"

type_synonym 'a answer = "(fault, 'a) result"

record forge =
  sv_git_text :: "nat \<Rightarrow> git_call \<Rightarrow> string completed answer"
  sv_git_raw :: "nat \<Rightarrow> git_call \<Rightarrow> bytes completed answer"
  sv_ssh_keygen :: "nat \<Rightarrow> string \<Rightarrow> string completed answer"
  sv_temp :: "nat \<Rightarrow> string"
  sv_environ :: "nat \<Rightarrow> (string, string) dict"
  sv_clock :: "nat \<Rightarrow> real"
  sv_text :: "exn \<Rightarrow> string"
  sv_source_file :: "nat \<Rightarrow> string \<Rightarrow> bytes answer"
  sv_clone_url :: "nat \<Rightarrow> string \<Rightarrow> string answer"
  sv_default_branch :: "nat \<Rightarrow> string \<Rightarrow> string answer"
  sv_find_branch :: "nat \<Rightarrow> string \<Rightarrow> string \<Rightarrow> string option answer"
  sv_find_pull_request :: "nat \<Rightarrow> string \<Rightarrow> string \<Rightarrow> pull_request_result option answer"
  sv_push_branch :: "nat \<Rightarrow> string \<Rightarrow> string \<Rightarrow> string \<Rightarrow> unit answer"
  sv_open_pull_request :: "nat \<Rightarrow> pull_request \<Rightarrow> pull_request_result answer"
  sv_poll_proposed :: "nat \<Rightarrow> effect_intent list answer"
  sv_poll_accepted :: "nat \<Rightarrow> effect_intent list answer"
  sv_accept :: "nat \<Rightarrow> string \<Rightarrow> acceptor \<Rightarrow> int \<Rightarrow> string \<Rightarrow> mapping option \<Rightarrow> unit answer"
  sv_reject :: "nat \<Rightarrow> string \<Rightarrow> acceptor \<Rightarrow> string \<Rightarrow> int \<Rightarrow> string \<Rightarrow> unit answer"
  sv_preflight :: "(nat \<Rightarrow> effect_intent \<Rightarrow> unit answer) option"
  sv_report_applied :: "nat \<Rightarrow> string \<Rightarrow> string \<Rightarrow> string \<Rightarrow> acceptor \<Rightarrow> int \<Rightarrow> string \<Rightarrow> unit answer"
  sv_report_failed :: "nat \<Rightarrow> string \<Rightarrow> string \<Rightarrow> unit answer"

datatype ev =
    GitText git_call "string completed answer"
  | GitRaw git_call "bytes completed answer"
  | Keygen string "string completed answer"
  | SourceFile string "bytes answer"
  | MakeTemp string
  | RemoveTree string
  | CloneUrl string "string answer"
  | DefaultBranch string "string answer"
  | FindBranch string string "string option answer"
  | FindPullRequest string string "pull_request_result option answer"
  | PushBranch string string string "unit answer"
  | OpenPullRequest pull_request "pull_request_result answer"
  | PollProposed "effect_intent list answer"
  | PollAccepted "effect_intent list answer"
  | Accept string acceptor int string "mapping option" "unit answer"
  | Reject string acceptor string int string "unit answer"
  | Preflight effect_intent "unit answer"
  | ReportApplied string string string acceptor int string "unit answer"
  | ReportFailed string string "unit answer"

text \<open>The deferrals and the reachable repositories are the reconciler's own, in memory.\<close>

record lworld =
  lw_time :: nat
  lw_calls :: "ev list"
  lw_deferrals :: "(string, real) dict"
  lw_reachable :: "string list"

subsection \<open>Programs\<close>

type_synonym 'a prog = "lworld \<Rightarrow> (exn, 'a) result \<times> lworld"

definition preturn :: "'a \<Rightarrow> 'a prog" where
  "preturn a w = (Inr a, w)"

definition praise :: "exn \<Rightarrow> 'a prog" where
  "praise e w = (Inl e, w)"

definition pbind :: "'a prog \<Rightarrow> ('a \<Rightarrow> 'b prog) \<Rightarrow> 'b prog" where
  "pbind m f w = (case m w of (Inl e, w') \<Rightarrow> (Inl e, w') | (Inr a, w') \<Rightarrow> f a w')"

text \<open>\<open>try: m except ... : h\<close>, where \<open>h\<close> gives the handler of an exception that is caught.\<close>

definition ptry :: "'a prog \<Rightarrow> (exn \<Rightarrow> 'a prog option) \<Rightarrow> 'a prog" where
  "ptry m h w =
    (case m w of
       (Inl e, w') \<Rightarrow> (case h e of None \<Rightarrow> (Inl e, w') | Some p \<Rightarrow> p w')
     | (Inr a, w') \<Rightarrow> (Inr a, w'))"

text \<open>\<open>try: m finally: f\<close>\<close>

definition pfinally :: "'a prog \<Rightarrow> unit prog \<Rightarrow> 'a prog" where
  "pfinally m f w =
    (case m w of (r, w') \<Rightarrow> (case f w' of (Inl e, w'') \<Rightarrow> (Inl e, w'') | (Inr _, w'') \<Rightarrow> (r, w'')))"

definition pget :: "(lworld \<Rightarrow> 'a) \<Rightarrow> 'a prog" where
  "pget f w = (Inr (f w), w)"

definition pmodify :: "(lworld \<Rightarrow> lworld) \<Rightarrow> unit prog" where
  "pmodify f w = (Inr (), f w)"

definition pneed :: "exn \<Rightarrow> bool \<Rightarrow> unit prog" where
  "pneed e c = (if c then preturn () else praise e)"

text \<open>\<open>isinstance(error, Exception)\<close>\<close>

definition is_exception :: "exn \<Rightarrow> bool" where
  "is_exception e \<longleftrightarrow> e \<noteq> Interrupted"

text \<open>A call of a service: it answers at the current time, and is recorded with its answer.\<close>

definition pcall :: "(nat \<Rightarrow> 'a answer) \<Rightarrow> ('a answer \<Rightarrow> ev) \<Rightarrow> 'a prog" where
  "pcall f mk w = (let r = f (lw_time w)
     in (map_sum raise_fault id r, w\<lparr>lw_time := Suc (lw_time w), lw_calls := lw_calls w @ [mk r]\<rparr>))"

text \<open>A reading that leaves no trace: the clock, the process environment, a fresh name.\<close>

definition pread :: "(nat \<Rightarrow> 'a) \<Rightarrow> 'a prog" where
  "pread f w = (Inr (f (lw_time w)), w\<lparr>lw_time := Suc (lw_time w)\<rparr>)"

text \<open>An event of the reconciler's own: a directory made or removed.\<close>

definition pnote :: "ev \<Rightarrow> unit prog" where
  "pnote e = pmodify (\<lambda>w. w\<lparr>lw_calls := lw_calls w @ [e]\<rparr>)"

fun peach :: "('a \<Rightarrow> 'b prog) \<Rightarrow> 'a list \<Rightarrow> 'b list prog" where
  "peach f [] = preturn []"
| "peach f (x # xs) = pbind (f x) (\<lambda>y. pbind (peach f xs) (\<lambda>ys. preturn (y # ys)))"

definition psome :: "exn \<Rightarrow> 'a option \<Rightarrow> 'a prog" where
  "psome e x = (case x of None \<Rightarrow> praise e | Some a \<Rightarrow> preturn a)"

subsection \<open>The environment of git\<close>

definition dropped_variables :: "string list" where
  "dropped_variables = [''HOME'', ''XDG_CONFIG_HOME'', ''GNUPGHOME'', ''SSH_AUTH_SOCK'', ''EMAIL'']"

definition dict_update :: "('k, 'v) dict \<Rightarrow> ('k, 'v) dict \<Rightarrow> ('k, 'v) dict" where
  "dict_update d e = foldl (\<lambda>d (k, v). dict_set k v d) d e"

definition isolation :: "string \<Rightarrow> (string, string) dict" where
  "isolation home = [(''HOME'', home), (''XDG_CONFIG_HOME'', home @ ''/.config''), (''GIT_CONFIG_GLOBAL'', ''/dev/null''),
     (''GIT_CONFIG_NOSYSTEM'', ''1''), (''GIT_ATTR_NOSYSTEM'', ''1''), (''GIT_TERMINAL_PROMPT'', ''0'')]"

definition scrubbed_env :: "(string, string) dict \<Rightarrow> string \<Rightarrow> (string, string) dict \<Rightarrow> (string, string) dict" where
  "scrubbed_env environ home extra_env =
    (let env = filter (\<lambda>(name, value). \<not> starts_with name ''GIT_'' \<and> name \<notin> set dropped_variables) environ;
         env = dict_update env (filter (\<lambda>(name, value). \<not> starts_with name ''GIT_'') extra_env)
     in dict_update env (isolation home))"

text \<open>\<open>run_git\<close> in its two modes: text, and bytes with a standard input.\<close>

definition git_call_for :: "forge \<Rightarrow> string list \<Rightarrow> string option \<Rightarrow> (string, string) dict \<Rightarrow> bytes option \<Rightarrow> string option \<Rightarrow>
    git_call prog" where
  "git_call_for sv args cwd extra inp file =
     pbind (pread (sv_temp sv)) (\<lambda>home. pbind (pread (sv_environ sv)) (\<lambda>environ.
     preturn \<lparr>gc_args = args, gc_cwd = cwd, gc_input = inp, gc_file = file,
       gc_env = scrubbed_env environ home extra\<rparr>))"

definition run_git :: "forge \<Rightarrow> string list \<Rightarrow> string option \<Rightarrow> (string, string) dict \<Rightarrow> string option \<Rightarrow> string completed prog" where
  "run_git sv args cwd extra file =
     pbind (git_call_for sv args cwd extra None file) (\<lambda>g. pcall (\<lambda>t. sv_git_text sv t g) (GitText g))"

definition run_git_raw :: "forge \<Rightarrow> string list \<Rightarrow> string option \<Rightarrow> bytes option \<Rightarrow> string option \<Rightarrow> bytes completed prog" where
  "run_git_raw sv args cwd inp file =
     pbind (git_call_for sv args cwd [] inp file) (\<lambda>g. pcall (\<lambda>t. sv_git_raw sv t g) (GitRaw g))"

end
