(* ===== verification/Diff_Policy.thy ===== *)
theory Diff_Policy
  imports Legacy_World
begin

text \<open>
  The reconciler's own diff policy, \<open>vuoro_reconciler/diff_policy.py\<close>: what the text of a patch may
  contain, which paths git says it names, what staging it changes, and what the staged blobs contain.
  Checks that raise are options or results with the code of the violation; those that ask git are
  programs.
\<close>

subsection \<open>Paths\<close>

definition ci_workflow_patterns :: "string list" where
  "ci_workflow_patterns = [''.github/workflows/*'', ''.forgejo/workflows/*'', ''.gitea/workflows/*'']"

definition git_info_files :: "string list" where
  "git_info_files = [''attributes'', ''exclude'', ''sparse-checkout'']"

definition is_git_control_path :: "string \<Rightarrow> bool" where
  "is_git_control_path path =
    (let parts = split_on (CHR ''/'') (lower path); name = last parts in
     if starts_with name ''.git'' \<and> name \<noteq> ''.gitkeep'' then True
     else if name = ''.mailmap'' then True
     else length parts \<ge> 2 \<and> parts ! (length parts - 2) = ''info'' \<and> name \<in> set git_info_files)"

definition is_unsupported_path :: "string \<Rightarrow> bool" where
  "is_unsupported_path path \<longleftrightarrow> CHR '':'' \<in> set path \<or> starts_with path ''-''"

definition is_path_safe :: "string \<Rightarrow> bool" where
  "is_path_safe path =
    (if path = [] \<or> starts_with path ''/'' \<or> CHR 0x00 \<in> set path then False
     else if \<not> is_printable path then False
     else \<not> list_ex (\<lambda>part. part \<in> {'''', ''.'', ''..'', ''.git''}) (split_on (CHR ''/'') path))"

record diff_policy =
  path_allowlist :: "string list"
  protected_path_patterns :: "string list"

definition is_allowlisted :: "diff_policy \<Rightarrow> string \<Rightarrow> bool" where
  "is_allowlisted p path \<longleftrightarrow> list_ex (fnmatch path) (path_allowlist p)"

definition is_protected :: "diff_policy \<Rightarrow> string \<Rightarrow> bool" where
  "is_protected p path \<longleftrightarrow> list_ex (fnmatch path) (ci_workflow_patterns @ protected_path_patterns p)"

subsection \<open>The text of a patch\<close>

definition binary_patch_lines :: "string list" where
  "binary_patch_lines = [''GIT binary patch'', ''literal '', ''delta '', ''Binary files '']"

text \<open>\<open>check_patch_text\<close>: the code of the violation, if there is one.\<close>

definition check_patch_text :: "string \<Rightarrow> string option" where
  "check_patch_text diff =
    (if CHR 0x00 \<in> set diff then Some ''binary-patch-refused''
     else if list_ex (\<lambda>line. list_ex (starts_with line) binary_patch_lines) (splitlines diff)
     then Some ''binary-patch-refused'' else None)"

text \<open>\<open>git\<close> prints rows with a NUL after each; a path is decoded with \<open>surrogateescape\<close>, here on the
  code points of the model.\<close>

fun decode_path :: "bytes \<Rightarrow> string" where
  "decode_path [] = []"
| "decode_path (b # bs) =
    (let n = unat b in
     if (n = 194 \<or> n = 195) \<and> bs \<noteq> [] \<and> 128 \<le> unat (hd bs) \<and> unat (hd bs) < 192
     then char_of ((n - 192) * 64 + (unat (hd bs) - 128)) # decode_path (tl bs)
     else char_of n # decode_path bs)"

type_synonym numstat_row = "bytes \<times> bytes \<times> string"

definition numstat_row :: "bytes \<Rightarrow> numstat_row option" where
  "numstat_row rec =
    (case split_max 2 9 rec of [added, deleted, path] \<Rightarrow> Some (added, deleted, decode_path path) | _ \<Rightarrow> None)"

definition numstat_rows :: "bytes \<Rightarrow> numstat_row list option" where
  "numstat_rows out = those (map numstat_row (filter (\<lambda>r. r \<noteq> []) (split_on 0 out)))"

definition dash :: bytes where
  "dash = [45]"

definition is_binary_row :: "numstat_row \<Rightarrow> bool" where
  "is_binary_row row = (case row of (added, deleted, path) \<Rightarrow> added = dash \<or> deleted = dash)"

definition value_error :: exn where
  "value_error = Other ''ValueError''"

definition numstat :: "forge \<Rightarrow> string \<Rightarrow> numstat_row list prog" where
  "numstat sv diff =
     pbind (pread (sv_temp sv)) (\<lambda>scratch.
     pbind (run_git_raw sv [''apply'', ''--numstat'', ''-z'', scratch @ ''/intent.patch''] (Some scratch) None (Some diff)) (\<lambda>res.
     pbind (pneed (DiffPolicyViolation ''diff-unparseable'') (returncode res = 0)) (\<lambda>_.
     psome value_error (numstat_rows (stdout res)))))"

definition check_patch_is_text :: "forge \<Rightarrow> string \<Rightarrow> unit prog" where
  "check_patch_is_text sv diff =
     pbind (numstat sv diff) (\<lambda>rows.
     pneed (DiffPolicyViolation ''binary-patch-refused'') (\<not> list_ex is_binary_row rows))"

definition rename_sources :: "string \<Rightarrow> string list" where
  "rename_sources line =
     concat (map (\<lambda>p. if starts_with line p then [drop (length p) line] else []) [''rename from '', ''copy from ''])"

definition patch_paths :: "forge \<Rightarrow> string \<Rightarrow> string list prog" where
  "patch_paths sv diff =
     pbind (numstat sv diff) (\<lambda>rows.
     preturn (rev (remdups (rev (map (\<lambda>(a, d, path). path) rows @ concat (map rename_sources (splitlines diff)))))))"

subsection \<open>What staging changes\<close>

record staged_change =
  sc_path :: string
  sc_status :: string
  sc_old_mode :: string
  sc_new_mode :: string
  sc_binary :: bool
  sc_new_sha :: string

text \<open>The rows of \<open>git diff --cached --raw -z\<close>, in pairs of a description and a path, up to an empty one.\<close>

definition raw_change :: "(string, bool) dict \<Rightarrow> bytes \<Rightarrow> bytes \<Rightarrow> (exn, staged_change) result" where
  "raw_change binary meta path =
    (case utf8_decode meta of
       None \<Rightarrow> Inl (Other ''UnicodeDecodeError'')
     | Some text \<Rightarrow>
         (case split_on (CHR '' '') (lstrip_char (CHR '':'') text) of
            [old_mode, new_mode, old_sha, new_sha, status] \<Rightarrow>
              Inr \<lparr>sc_path = decode_path path, sc_status = status, sc_old_mode = old_mode, sc_new_mode = new_mode,
                   sc_binary = (case map_of binary (decode_path path) of None \<Rightarrow> False | Some b \<Rightarrow> b),
                   sc_new_sha = new_sha\<rparr>
          | _ \<Rightarrow> Inl value_error))"

text \<open>A description without a path raises \<open>IndexError\<close>.\<close>

fun raw_changes :: "(string, bool) dict \<Rightarrow> bytes list \<Rightarrow> (exn, staged_change list) result" where
  "raw_changes binary (meta # path # tokens) =
    (if meta = [] then Inr []
     else rbind (raw_change binary meta path) (\<lambda>c. rbind (raw_changes binary tokens) (\<lambda>cs. Inr (c # cs))))"
| "raw_changes binary [meta] = (if meta = [] then Inr [] else Inl (Other ''IndexError''))"
| "raw_changes binary [] = Inr []"

definition panswer :: "(exn, 'a) result \<Rightarrow> 'a prog" where
  "panswer r w = (r, w)"

definition staged_changes :: "forge \<Rightarrow> string \<Rightarrow> staged_change list prog" where
  "staged_changes sv repo =
     pbind (run_git_raw sv [''diff'', ''--cached'', ''--raw'', ''-z'', ''--no-renames'', ''--no-abbrev''] (Some repo) None None) (\<lambda>raw.
     pbind (run_git_raw sv [''diff'', ''--cached'', ''--numstat'', ''-z'', ''--no-renames''] (Some repo) None None) (\<lambda>stat.
     pbind (pneed (DiffPolicyViolation ''diff-unreadable'') (returncode raw = 0 \<and> returncode stat = 0)) (\<lambda>_.
     pbind (psome value_error (numstat_rows (stdout stat))) (\<lambda>rows.
     panswer (raw_changes (foldl (\<lambda>d row. dict_set (snd (snd row)) (is_binary_row row) d) [] rows) (split_on 0 (stdout raw)))))))"

subsection \<open>Which changes are allowed\<close>

definition check_change :: "diff_policy \<Rightarrow> staged_change \<Rightarrow> string option" where
  "check_change policy c =
    (let path = sc_path c; modes = {sc_old_mode c, sc_new_mode c} in
     if is_unsupported_path path then Some ''unsupported-path''
     else if \<not> is_path_safe path then Some ''path-outside-repository''
     else if is_git_control_path path then Some ''git-control-file-refused''
     else if sc_binary c then Some ''binary-patch-refused''
     else if ''120000'' \<in> modes then Some ''symlink-refused''
     else if ''160000'' \<in> modes then Some ''submodule-refused''
     else if sc_status c = ''A'' \<and> sc_new_mode c \<noteq> ''100644'' then Some ''mode-change-refused''
     else if sc_status c \<in> {''M'', ''T''} \<and> sc_old_mode c \<noteq> sc_new_mode c then Some ''mode-change-refused''
     else if sc_status c \<notin> {''A'', ''D'', ''M''} then Some ''diff-not-supported''
     else if sc_status c = ''D'' \<and> \<not> is_allowlisted policy path then Some ''path-not-allowlisted''
     else if is_protected policy path \<and> \<not> is_allowlisted policy path then Some ''protected-path-refused''
     else if sc_new_mode c \<notin> {''100644'', ''100755'', ''000000''} then Some ''mode-change-refused''
     else None)"

fun first_violation :: "('a \<Rightarrow> string option) \<Rightarrow> 'a list \<Rightarrow> string option" where
  "first_violation f [] = None"
| "first_violation f (x # xs) = (case f x of None \<Rightarrow> first_violation f xs | Some code \<Rightarrow> Some code)"

definition check_changes :: "staged_change list \<Rightarrow> diff_policy \<Rightarrow> string option" where
  "check_changes changes policy =
    (if changes = [] then Some ''empty-diff'' else first_violation (check_change policy) changes)"

subsection \<open>What the staged blobs contain\<close>

text \<open>
  UTF-8 in full, to code points: a lead byte and its continuation bytes, no overlong form, no surrogate,
  nothing above \<open>0x10FFFF\<close>.
\<close>

definition continuation :: "8 word \<Rightarrow> bool" where
  "continuation b \<longleftrightarrow> 128 \<le> unat b \<and> unat b < 192"

fun code_points :: "bytes \<Rightarrow> nat list option" where
  "code_points [] = Some []"
| "code_points (a # s) =
    (let n = unat a in
     if n < 128 then map_option (Cons n) (code_points s)
     else if 194 \<le> n \<and> n < 224 then
       (case s of
          b # s' \<Rightarrow> if continuation b then map_option (Cons ((n - 192) * 64 + (unat b - 128))) (code_points s') else None
        | _ \<Rightarrow> None)
     else if 224 \<le> n \<and> n < 240 then
       (case s of
          b # c # s' \<Rightarrow>
            (let p = ((n - 224) * 64 + (unat b - 128)) * 64 + (unat c - 128) in
             if continuation b \<and> continuation c \<and> 2048 \<le> p \<and> \<not> (55296 \<le> p \<and> p < 57344)
             then map_option (Cons p) (code_points s') else None)
        | _ \<Rightarrow> None)
     else if 240 \<le> n \<and> n < 245 then
       (case s of
          b # c # d # s' \<Rightarrow>
            (let p = (((n - 240) * 64 + (unat b - 128)) * 64 + (unat c - 128)) * 64 + (unat d - 128) in
             if continuation b \<and> continuation c \<and> continuation d \<and> 65536 \<le> p \<and> p < 1114112
             then map_option (Cons p) (code_points s') else None)
        | _ \<Rightarrow> None)
     else None)"

text \<open>The scan of the decoded text: a carriage return is allowed before a line feed.\<close>

definition control_point :: "nat \<Rightarrow> bool" where
  "control_point n \<longleftrightarrow> n < 32 \<and> n \<noteq> 9 \<and> n \<noteq> 10 \<or> 127 \<le> n \<and> n \<le> 159"

fun control_free :: "nat list \<Rightarrow> bool" where
  "control_free [] \<longleftrightarrow> True"
| "control_free (n # s) \<longleftrightarrow> (n = 13 \<and> take 1 s = [10] \<or> \<not> control_point n) \<and> control_free s"

definition check_text :: "bytes \<Rightarrow> string option" where
  "check_text content =
    (if 0 \<in> set content then Some ''binary-content-refused''
     else case code_points content of
       None \<Rightarrow> Some ''non-utf8-content-refused''
     | Some text \<Rightarrow> if control_free text then None else Some ''control-character-content-refused'')"

definition object_id_ok :: "string \<Rightarrow> bool" where
  "object_id_ok s \<longleftrightarrow> hex_string 40 s \<or> hex_string 64 s"

text \<open>\<open>re.match\<close> with a pattern that ends in \<open>$\<close> also accepts a line feed at the end.\<close>

definition object_id_line :: "string \<Rightarrow> bool" where
  "object_id_line s \<longleftrightarrow> object_id_ok s \<or> s \<noteq> [] \<and> ord_of (last s) = 10 \<and> object_id_ok (butlast s)"

definition all_zero :: "string \<Rightarrow> bool" where
  "all_zero s \<longleftrightarrow> list_all (\<lambda>c. c = CHR ''0'') s"

text \<open>
  The output of \<open>git cat-file --batch\<close>: for every object, in order, a header line \<open><oid> blob <size>\<close>,
  the content and a line feed; anything else is a refusal.
\<close>

definition byte_digit :: "8 word \<Rightarrow> bool" where
  "byte_digit b \<longleftrightarrow> 48 \<le> unat b \<and> unat b \<le> 57"

definition byte_number :: "bytes \<Rightarrow> nat" where
  "byte_number bs = foldl (\<lambda>n b. 10 * n + (unat b - 48)) 0 bs"

fun read_blobs_from :: "bytes \<Rightarrow> string list \<Rightarrow> (string, bytes) dict \<Rightarrow> (exn, (string, bytes) dict) result" where
  "read_blobs_from out [] blobs =
    (if out = [] then Inr blobs else Inl (DiffPolicyViolation ''diff-unreadable''))"
| "read_blobs_from out (oid # oids) blobs =
    (if 10 \<notin> set out then Inl (DiffPolicyViolation ''diff-unreadable'')
     else
       (let header = split_on 32 (takeWhile (\<lambda>b. b \<noteq> 10) out); rest = tl (dropWhile (\<lambda>b. b \<noteq> 10) out)
        in case header of
             [name, kind, digits] \<Rightarrow>
               if name \<noteq> utf8_encode oid \<or> kind \<noteq> utf8_encode ''blob'' then Inl (DiffPolicyViolation ''blob-missing'')
               else if digits = [] \<or> \<not> list_all byte_digit digits then Inl (DiffPolicyViolation ''diff-unreadable'')
               else
                 (let n = byte_number digits in
                  if length rest < n + 1 \<or> rest ! n \<noteq> 10 then Inl (DiffPolicyViolation ''diff-unreadable'')
                  else read_blobs_from (drop (n + 1) rest) oids (dict_set oid (take n rest) blobs))
           | _ \<Rightarrow> Inl (DiffPolicyViolation ''blob-missing'')))"

definition read_blobs :: "forge \<Rightarrow> string \<Rightarrow> string list \<Rightarrow> (string, bytes) dict prog" where
  "read_blobs sv repo oids =
    (if oids = [] then preturn []
     else
       pbind (run_git_raw sv [''cat-file'', ''--batch''] (Some repo)
         (Some (utf8_encode (concat (map (\<lambda>oid. oid @ [char_of (10::nat)]) oids)))) None) (\<lambda>res.
       pbind (pneed (DiffPolicyViolation ''diff-unreadable'') (returncode res = 0)) (\<lambda>_.
       panswer (read_blobs_from (stdout res) oids []))))"

definition staged_blob_ok :: "staged_change \<Rightarrow> bool" where
  "staged_blob_ok c \<longleftrightarrow> object_id_line (sc_new_sha c) \<and> \<not> all_zero (sc_new_sha c)"

text \<open>The content of a staged change; the keys of the blobs are those that were asked for.\<close>

definition staged_text :: "(string, bytes) dict \<Rightarrow> staged_change \<Rightarrow> string option" where
  "staged_text blobs c = (case map_of blobs (sc_new_sha c) of None \<Rightarrow> None | Some content \<Rightarrow> check_text content)"

definition check_staged_content :: "forge \<Rightarrow> string \<Rightarrow> staged_change list \<Rightarrow> unit prog" where
  "check_staged_content sv repo changes =
    (let wanted = filter (\<lambda>c. sc_status c \<noteq> ''D'') changes in
     pbind (pneed (DiffPolicyViolation ''blob-missing'') (list_all staged_blob_ok wanted)) (\<lambda>_.
     pbind (read_blobs sv repo (rev (remdups (rev (map sc_new_sha wanted))))) (\<lambda>blobs.
     case first_violation (staged_text blobs) wanted of
       None \<Rightarrow> preturn ()
     | Some code \<Rightarrow> praise (DiffPolicyViolation code))))"

end
