(* ===== verification/Acceptance.thy ===== *)
theory Acceptance
  imports Diff_Policy
begin

text \<open>
  Accepting intents: the parts of \<open>vuoro_reconciler/acceptance.py\<close> that ask git, the source of the
  intents or an operator.
\<close>

subsection \<open>Auto-accept\<close>

definition policy_matches :: "forge \<Rightarrow> policy \<Rightarrow> effect_intent \<Rightarrow> bool prog" where
  "policy_matches sv p i =
    (if \<not> ap_enabled p then preturn False
     else if in_workspace_id i \<noteq> ap_workspace_id p then preturn False
     else if ap_repository p \<noteq> None \<and> Some (in_repository i) \<noteq> ap_repository p then preturn False
     else if effect_kind i \<notin> set (ap_effect_kinds p) then preturn False
     else if ap_path_globs p = None then preturn True
     else
       ptry
         (pbind (patch_paths sv (unified_diff i)) (\<lambda>paths.
          preturn (paths \<noteq> [] \<and> list_all (covers p) paths)))
         (\<lambda>e. case e of DiffPolicyViolation code \<Rightarrow> Some (preturn False) | _ \<Rightarrow> None))"

fun first_match :: "forge \<Rightarrow> effect_intent \<Rightarrow> policy list \<Rightarrow> policy option prog" where
  "first_match sv i [] = preturn None"
| "first_match sv i (p # ps) = pbind (policy_matches sv p i) (\<lambda>m. if m then preturn (Some p) else first_match sv i ps)"

definition evaluate :: "forge \<Rightarrow> auto_config \<Rightarrow> effect_intent \<Rightarrow> acceptor option prog" where
  "evaluate sv c i =
    (case (ac_version c, ac_digest c) of
       (Some version, Some dgst) \<Rightarrow>
         if \<not> config_active c then preturn None
         else pbind (first_match sv i (ac_policies c)) (\<lambda>m.
           preturn (map_option (\<lambda>p. PolicyAcceptor (ap_id p) version (policy_scope p) dgst) m))
     | _ \<Rightarrow> preturn None)"

definition accept_call :: "forge \<Rightarrow> string \<Rightarrow> acceptor \<Rightarrow> int \<Rightarrow> string \<Rightarrow> mapping option \<Rightarrow> unit prog" where
  "accept_call sv iid a r dgst ref = pcall (\<lambda>t. sv_accept sv t iid a r dgst ref) (Accept iid a r dgst ref)"

text \<open>\<open>except Exception\<close>: anything but an interruption is swallowed.\<close>

definition swallow :: "'a prog \<Rightarrow> exn \<Rightarrow> 'a prog option" where
  "swallow h e = (if is_exception e then Some h else None)"

definition auto_accept_one :: "forge \<Rightarrow> auto_config \<Rightarrow> string list \<Rightarrow> effect_intent \<Rightarrow> (string \<times> acceptor) list prog" where
  "auto_accept_one sv c protected i =
     ptry
       (if legacy_execution_excluded i protected then preturn []
        else
          pbind (evaluate sv c i) (\<lambda>a.
          case a of
            None \<Rightarrow> preturn []
          | Some acc \<Rightarrow>
              pbind (accept_call sv (intent_id i) acc (revision i) (canonical_intent_digest i) None) (\<lambda>_.
              preturn [(intent_id i, acc)])))
       (swallow (preturn []))"

definition apply_auto_accept :: "forge \<Rightarrow> auto_config option \<Rightarrow> string list \<Rightarrow> (string \<times> acceptor) list prog" where
  "apply_auto_accept sv config protected =
    (case config of
       None \<Rightarrow> preturn []
     | Some c \<Rightarrow>
         if \<not> config_active c then preturn []
         else
           pbind (ptry (pbind (pcall (sv_poll_proposed sv) PollProposed) (\<lambda>is. preturn (Some is))) (swallow (preturn None))) (\<lambda>polled.
           case polled of
             None \<Rightarrow> preturn []
           | Some proposed \<Rightarrow>
               pbind (peach (auto_accept_one sv c protected) proposed) (\<lambda>rs. preturn (concat rs))))"

subsection \<open>Operators\<close>

definition pending :: "forge \<Rightarrow> string \<Rightarrow> effect_intent prog" where
  "pending sv iid =
     pbind (pcall (sv_poll_proposed sv) PollProposed) (\<lambda>proposed.
     psome (AcceptanceRefused (''no proposed intent '' @ str_repr iid)) (find (\<lambda>i. intent_id i = iid) proposed))"

definition reviewed :: "effect_intent \<Rightarrow> int \<Rightarrow> string \<Rightarrow> unit prog" where
  "reviewed i expected_revision expected_digest =
     pneed (AcceptanceRefused ''intent differs from the operator reviewed revision and digest'')
       (revision i = expected_revision \<and> canonical_intent_digest i = expected_digest)"

definition require_subject :: "string \<Rightarrow> unit prog" where
  "require_subject subject = pneed (AcceptanceRefused ''an operator subject is required'') (not_blank subject)"

definition accept_interactive :: "forge \<Rightarrow> string \<Rightarrow> string \<Rightarrow> int \<Rightarrow> string \<Rightarrow> mapping option \<Rightarrow> acceptor prog" where
  "accept_interactive sv iid subject expected_revision expected_digest verification_ref =
     pbind (pending sv iid) (\<lambda>i.
     pbind (reviewed i expected_revision expected_digest) (\<lambda>_.
     pbind (require_subject subject) (\<lambda>_.
     pbind (pneed (AcceptanceRefused ''the proposing principal cannot accept its own intent'') (subject \<noteq> proposer_principal i)) (\<lambda>_.
     pbind (accept_call sv iid (OperatorAcceptor subject) expected_revision expected_digest verification_ref) (\<lambda>_.
     preturn (OperatorAcceptor subject))))))"

definition reject_interactive :: "forge \<Rightarrow> string \<Rightarrow> string \<Rightarrow> string \<Rightarrow> int \<Rightarrow> string \<Rightarrow> acceptor prog" where
  "reject_interactive sv iid subject reason expected_revision expected_digest =
     pbind (pending sv iid) (\<lambda>i.
     pbind (reviewed i expected_revision expected_digest) (\<lambda>_.
     pbind (require_subject subject) (\<lambda>_.
     pbind (pneed (AcceptanceRefused ''a rejection needs a reason'') (not_blank reason)) (\<lambda>_.
     pbind (pcall (\<lambda>t. sv_reject sv t iid (OperatorAcceptor subject) reason expected_revision expected_digest)
       (Reject iid (OperatorAcceptor subject) reason expected_revision expected_digest)) (\<lambda>_.
     preturn (OperatorAcceptor subject))))))"

end
