(* ===== verification/Local_Git.thy ===== *)
theory Local_Git
  imports Legacy_World
begin

text \<open>
  Local git operations and commit signing: \<open>vuoro_reconciler/git_ops.py\<close> and \<open>signing.py\<close>. Every one
  is a sequence of git commands in the scrubbed environment; what git does with them is the services'.
\<close>

subsection \<open>Signing keys\<close>

record signing_key =
  key_format :: string
  sk_signing_key :: string
  committer_name :: string
  committer_email :: string
  allowed_signers_file :: "string option"
  sk_env :: "(string, string) dict"

definition isolation_variables :: "string list" where
  "isolation_variables = [''HOME'', ''XDG_CONFIG_HOME'']"

definition hex_any :: "char \<Rightarrow> bool" where
  "hex_any c \<longleftrightarrow> is_hex c \<or> 65 \<le> ord_of c \<and> ord_of c \<le> 70"

definition openpgp_key_ok :: "string \<Rightarrow> bool" where
  "openpgp_key_ok s =
    (let body = (if take 2 s \<in> {''0x'', ''0X''} then drop 2 s else s);
         plain_ok = (\<lambda>h. length h \<in> {16, 40, 64} \<and> list_all hex_any h);
         body_ok = (\<lambda>h. plain_ok h \<or> h \<noteq> [] \<and> last h = CHR ''!'' \<and> plain_ok (butlast h))
     in body_ok body \<or> body_ok s)"

text \<open>\<open>SigningKey.__post_init__\<close>\<close>

definition signing_key_ok :: "signing_key \<Rightarrow> bool" where
  "signing_key_ok key \<longleftrightarrow>
     list_all (\<lambda>(name, value). \<not> starts_with name ''GIT_'' \<and> name \<notin> set isolation_variables) (sk_env key) \<and>
     (key_format key = ''openpgp'' \<longrightarrow> openpgp_key_ok (strip (sk_signing_key key))) \<and>
     (key_format key = ''ssh'' \<longrightarrow> strip (sk_signing_key key) \<noteq> [])"

definition key_git :: "forge \<Rightarrow> string \<Rightarrow> string list \<Rightarrow> signing_key \<Rightarrow> string completed prog" where
  "key_git sv repo args key = run_git sv ([''-C'', repo] @ args) None (sk_env key) None"

text \<open>With \<open>check=True\<close>, a non-zero exit raises \<open>CalledProcessError\<close>.\<close>

definition key_config :: "forge \<Rightarrow> string \<Rightarrow> signing_key \<Rightarrow> string \<Rightarrow> string \<Rightarrow> unit prog" where
  "key_config sv repo key name value =
     pbind (key_git sv repo [''config'', ''--'', name, value] key) (\<lambda>res.
     pneed (Other ''CalledProcessError'') (returncode res = 0))"

definition configure_signing :: "forge \<Rightarrow> string \<Rightarrow> signing_key \<Rightarrow> unit prog" where
  "configure_signing sv repo key =
     pbind (key_config sv repo key ''user.name'' (committer_name key)) (\<lambda>_.
     pbind (key_config sv repo key ''user.email'' (committer_email key)) (\<lambda>_.
     pbind (key_config sv repo key ''commit.gpgsign'' ''true'') (\<lambda>_.
     pbind (key_config sv repo key ''gpg.format'' (key_format key)) (\<lambda>_.
     pbind (key_config sv repo key ''user.signingkey'' (sk_signing_key key)) (\<lambda>_.
     if key_format key = ''ssh'' then
       (case allowed_signers_file key of
          Some file \<Rightarrow> if file = [] then praise (Other ''ValueError'')
            else key_config sv repo key ''gpg.ssh.allowedSignersFile'' file
        | None \<Rightarrow> praise (Other ''ValueError''))
     else preturn ())))))"

text \<open>\<open>_ssh_fingerprint\<close>: of a file, or of a literal key, which is written to a temporary file.\<close>

definition ssh_fingerprint :: "forge \<Rightarrow> string \<Rightarrow> string option prog" where
  "ssh_fingerprint sv signing_key =
     pbind (if starts_with (strip signing_key) ''key::'' then pread (sv_temp sv) else preturn signing_key) (\<lambda>path.
     ptry
       (pbind (pcall (\<lambda>t. sv_ssh_keygen sv t path) (Keygen path)) (\<lambda>res.
        preturn (let fs = words (stdout res) in if returncode res = 0 \<and> length fs > 1 then Some (fs ! 1) else None)))
       (\<lambda>e. if e = Other ''OSError'' then Some (preturn None) else None))"

text \<open>The five lines of \<open>git log --format=%G?%n%GF%n%GP%n%GK%n%GS\<close>, missing ones empty.\<close>

definition five_lines :: "string \<Rightarrow> string list" where
  "five_lines out = take 5 (split_on (char_of (10::nat)) out @ replicate 5 [])"

definition openpgp_signer_ok :: "string \<Rightarrow> string list \<Rightarrow> bool" where
  "openpgp_signer_ok signing_key reported =
    (let wanted = rstrip_char (CHR ''!'') (remove_prefix (upper (strip signing_key)) ''0X'');
         candidates = map (\<lambda>v. upper (strip v)) (filter (\<lambda>v. strip v \<noteq> []) reported)
     in wanted \<noteq> [] \<and> list_ex (\<lambda>c. c = wanted \<or> length wanted \<ge> 16 \<and> ends_with c wanted) candidates)"

definition verify_commit :: "forge \<Rightarrow> string \<Rightarrow> string \<Rightarrow> signing_key \<Rightarrow> bool prog" where
  "verify_commit sv repo ref key =
     pbind (key_git sv repo [''verify-commit'', ''--end-of-options'', ref] key) (\<lambda>res.
     if returncode res \<noteq> 0 then preturn False else
     pbind (key_git sv repo [''log'', ''-1'', ''--format=%G?%n%GF%n%GP%n%GK%n%GS'', ref, ''--''] key) (\<lambda>shown.
     if returncode shown \<noteq> 0 then preturn False else
     (case five_lines (stdout shown) of
        [status, fingerprint, primary, key_id, signer] \<Rightarrow>
          if status \<notin> {''G'', ''U''} then preturn False
          else if key_format key = ''ssh'' then
            pbind (ssh_fingerprint sv (sk_signing_key key)) (\<lambda>expected.
            preturn (expected = Some (strip fingerprint) \<and> signer = committer_email key))
          else preturn (openpgp_signer_ok (sk_signing_key key) [fingerprint, primary, key_id])
      | _ \<Rightarrow> preturn False)))"

subsection \<open>Checkout, apply, commit\<close>

definition object_id :: "string \<Rightarrow> bool" where
  "object_id s \<longleftrightarrow> hex_string 40 s \<or> hex_string 64 s"

definition plain_git :: "forge \<Rightarrow> string list \<Rightarrow> string option \<Rightarrow> string completed prog" where
  "plain_git sv args file = run_git sv args None [] file"

definition checkout_at :: "forge \<Rightarrow> string \<Rightarrow> string \<Rightarrow> string \<Rightarrow> unit prog" where
  "checkout_at sv clone_url base dest =
     pbind (pneed (CheckoutFailed (''base_commit '' @ str_repr base @ '' is not a full object id'')) (object_id base)) (\<lambda>_.
     pbind (plain_git sv [''clone'', ''-c'', ''core.hooksPath=/dev/null'', ''--no-local'', ''--'', clone_url, dest] None) (\<lambda>cloned.
     pbind (pneed (CheckoutFailed (''git clone failed: '' @ strip (stderr cloned))) (returncode cloned = 0)) (\<lambda>_.
     pbind (plain_git sv [''-C'', dest, ''checkout'', ''--detach'', base, ''--''] None) (\<lambda>checked_out.
     pneed (CheckoutFailed (''base_commit '' @ str_repr base @ '' could not be checked out'')) (returncode checked_out = 0)))))"

definition or_default :: "string \<Rightarrow> string \<Rightarrow> string" where
  "or_default s d = (if s = [] then d else s)"

definition try_apply_diff :: "forge \<Rightarrow> string \<Rightarrow> string \<Rightarrow> unit prog" where
  "try_apply_diff sv repo diff =
     pbind (pread (sv_temp sv)) (\<lambda>patch.
     pbind (plain_git sv [''-C'', repo, ''apply'', ''--check'', ''--'', patch] (Some diff)) (\<lambda>checked.
     pbind (pneed (DiffDoesNotApply (or_default (strip (stderr checked)) ''git apply --check failed'')) (returncode checked = 0)) (\<lambda>_.
     pbind (plain_git sv [''-C'', repo, ''apply'', ''--'', patch] (Some diff)) (\<lambda>applied.
     pneed (DiffDoesNotApply (or_default (strip (stderr applied)) ''git apply failed'')) (returncode applied = 0)))))"

definition trailer :: "string \<Rightarrow> string \<Rightarrow> acceptor option \<Rightarrow> string" where
  "trailer run_id iid acc =
     join [char_of (10::nat)] ([''Vuoro-Run: '' @ run_id, ''Vuoro-Intent: '' @ iid] @
       (case acc of None \<Rightarrow> [] | Some a \<Rightarrow> [''Vuoro-Accepted-By: '' @ trailer_value a]))"

definition stage_all :: "forge \<Rightarrow> string \<Rightarrow> unit prog" where
  "stage_all sv repo =
     pbind (plain_git sv [''-C'', repo, ''add'', ''-A''] None) (\<lambda>added.
     pneed (Other ''RuntimeError'') (returncode added = 0))"

definition commit_text :: "string \<Rightarrow> string \<Rightarrow> string \<Rightarrow> string \<Rightarrow> acceptor \<Rightarrow> string" where
  "commit_text title why run_id iid acc =
    (let nl = char_of (10::nat) in title @ [nl, nl] @ why @ [nl, nl] @ trailer run_id iid (Some acc) @ [nl])"

definition commit_signed :: "forge \<Rightarrow> string \<Rightarrow> string \<Rightarrow> string \<Rightarrow> string \<Rightarrow> string \<Rightarrow> acceptor \<Rightarrow> signing_key \<Rightarrow> string prog" where
  "commit_signed sv repo title why run_id iid acc key =
     pbind (configure_signing sv repo key) (\<lambda>_.
     pbind (key_git sv repo [''add'', ''-A''] key) (\<lambda>added.
     pbind (pneed (Other ''RuntimeError'') (returncode added = 0)) (\<lambda>_.
     pbind (pread (sv_temp sv)) (\<lambda>file.
     pbind (run_git sv [''-C'', repo, ''commit'', ''--no-verify'', ''-S'', ''--file'', file] None (sk_env key)
       (Some (commit_text title why run_id iid acc))) (\<lambda>committed.
     pbind (pneed (Other ''RuntimeError'') (returncode committed = 0)) (\<lambda>_.
     pbind (key_git sv repo [''rev-parse'', ''HEAD''] key) (\<lambda>sha.
     preturn (strip (stdout sha)))))))))"

definition remote_branch_tip :: "forge \<Rightarrow> string \<Rightarrow> string \<Rightarrow> string option prog" where
  "remote_branch_tip sv repo branch =
     pbind (plain_git sv [''-C'', repo, ''rev-parse'', ''--verify'', ''--quiet'', ''--end-of-options'',
       ''refs/remotes/origin/'' @ branch @ ''^{commit}''] None) (\<lambda>tip.
     preturn (if returncode tip = 0 then Some (strip (stdout tip)) else None))"

definition commit_present :: "forge \<Rightarrow> string \<Rightarrow> string \<Rightarrow> bool prog" where
  "commit_present sv repo sha =
     pbind (plain_git sv [''-C'', repo, ''cat-file'', ''-e'', ''--end-of-options'', sha @ ''^{commit}''] None) (\<lambda>res.
     preturn (returncode res = 0))"

definition ensure_commit :: "forge \<Rightarrow> string \<Rightarrow> string \<Rightarrow> string \<Rightarrow> bool prog" where
  "ensure_commit sv repo sha ref =
    (if \<not> object_id sha then preturn False
     else
       pbind (commit_present sv repo sha) (\<lambda>there.
       if there then preturn True
       else if \<not> starts_with ref ''refs/'' then preturn False
       else
         pbind (plain_git sv [''check-ref-format'', ref] None) (\<lambda>res.
         if returncode res \<noteq> 0 then preturn False
         else
           pbind (plain_git sv [''-C'', repo, ''fetch'', ''--no-tags'', ''--quiet'', ''origin'', ''--'',
             ''+'' @ ref @ '':refs/vuoro-recovery/head''] None) (\<lambda>_.
           commit_present sv repo sha))))"

definition commit_shape :: "forge \<Rightarrow> string \<Rightarrow> string \<Rightarrow> (string \<times> string \<times> string) prog" where
  "commit_shape sv repo ref =
     pbind (plain_git sv [''-C'', repo, ''rev-parse'', ''--end-of-options'', ref @ ''^{tree}''] None) (\<lambda>tree.
     pbind (plain_git sv [''-C'', repo, ''rev-list'', ''--parents'', ''-n'', ''1'', ref, ''--''] None) (\<lambda>parents.
     pbind (plain_git sv [''-C'', repo, ''log'', ''-1'', ''--format=%B'', ref, ''--''] None) (\<lambda>message.
     preturn (strip (stdout tree), join '' '' (tl (words (stdout parents))), stdout message))))"

definition same_change :: "forge \<Rightarrow> string \<Rightarrow> string \<Rightarrow> string \<Rightarrow> bool prog" where
  "same_change sv repo existing candidate =
     pbind (commit_shape sv repo existing) (\<lambda>a. pbind (commit_shape sv repo candidate) (\<lambda>b. preturn (a = b)))"

definition refuse_if_protected :: "string \<Rightarrow> string list \<Rightarrow> bool" where
  "refuse_if_protected branch protected_branches \<longleftrightarrow> branch \<in> set protected_branches"

text \<open>\<open>push_branch\<close>, the helper for providers that push with plain git.\<close>

definition git_push_branch :: "forge \<Rightarrow> string \<Rightarrow> string \<Rightarrow> string \<Rightarrow> string list \<Rightarrow> unit prog" where
  "git_push_branch sv repo remote_url branch protected_branches =
    (if refuse_if_protected branch protected_branches then praise (Other ''ValueError'')
     else
       pbind (plain_git sv [''-C'', repo, ''push'', ''--'', remote_url, ''HEAD:refs/heads/'' @ branch] None) (\<lambda>pushed.
       pneed (Other ''RuntimeError'') (returncode pushed = 0)))"

end
