(* ===== verification/Reconciler.thy ===== *)
theory Reconciler
  imports Acceptance Local_Git
begin

text \<open>
  \<open>vuoro_reconciler/reconciler.py\<close>: polling accepted intents, checking each again, applying it to a
  clean checkout, signing, pushing, opening the pull request and reporting, with what an interrupted or
  concurrent run left behind.
\<close>

subsection \<open>Configuration and outcomes\<close>

record reconciler_config =
  repository_allowlist :: "string list"
  protected_branches :: "string list"
  branch_prefix :: string
  diff_policies :: "(string, diff_policy) dict"
  max_lookup_deferral_seconds :: real
  protected_repositories :: "string list"

record reconciler =
  rc_signing_key :: signing_key
  rc_config :: reconciler_config
  rc_auto_accept :: "auto_config option"

record run_outcome =
  oc_intent_id :: string
  oc_state :: string
  oc_commit_sha :: "string option"
  oc_pr_url :: "string option"
  oc_reason :: "string option"
  oc_acceptor :: "acceptor option"

definition branch_for :: "reconciler_config \<Rightarrow> effect_intent \<Rightarrow> string" where
  "branch_for c i = branch_prefix c @ ''/'' @ intent_id i"

definition diff_policy_for :: "reconciler_config \<Rightarrow> string \<Rightarrow> diff_policy" where
  "diff_policy_for c repository =
    (case map_of (diff_policies c) repository of
       None \<Rightarrow> \<lparr>path_allowlist = [], protected_path_patterns = []\<rparr> | Some p \<Rightarrow> p)"

definition id_char :: "char \<Rightarrow> bool" where
  "id_char c \<longleftrightarrow> is_alnum c \<or> c = CHR ''_''"

definition intent_id_ok :: "string \<Rightarrow> bool" where
  "intent_id_ok s \<longleftrightarrow> s \<noteq> [] \<and> id_char (hd s) \<and> list_all (\<lambda>c. id_char c \<or> c = CHR ''-'') (tl s) \<and> length (tl s) \<le> 127"

subsection \<open>Preparing the commit\<close>

text \<open>\<open>except DiffPolicyViolation\<close>, as a refusal.\<close>

definition policy_refusal :: "exn \<Rightarrow> 'a prog option" where
  "policy_refusal e = (case e of DiffPolicyViolation code \<Rightarrow> Some (praise (Refused (''diff-policy-refused: '' @ code))) | _ \<Rightarrow> None)"

definition no_violation :: "string option \<Rightarrow> unit prog" where
  "no_violation v = (case v of None \<Rightarrow> preturn () | Some code \<Rightarrow> praise (DiffPolicyViolation code))"

definition patch_path_violation :: "string \<Rightarrow> string option" where
  "patch_path_violation path =
    (if is_unsupported_path path then Some ''unsupported-path''
     else if is_git_control_path path then Some ''git-control-file-refused'' else None)"

definition prepare_checkout :: "forge \<Rightarrow> reconciler \<Rightarrow> effect_intent \<Rightarrow> string \<Rightarrow> staged_change list prog" where
  "prepare_checkout sv rc i workdir =
     pbind (ptry
       (pbind (no_violation (check_patch_text (unified_diff i))) (\<lambda>_.
        pbind (check_patch_is_text sv (unified_diff i)) (\<lambda>_.
        pbind (patch_paths sv (unified_diff i)) (\<lambda>paths.
        no_violation (first_violation patch_path_violation paths)))))
       policy_refusal) (\<lambda>_.
     pbind (ptry
       (pbind (pcall (\<lambda>t. sv_clone_url sv t (in_repository i)) (CloneUrl (in_repository i))) (\<lambda>url.
        checkout_at sv url (base_commit i) workdir))
       (\<lambda>e. case e of CheckoutFailed d \<Rightarrow> Some (praise (Refused (''checkout-failed: '' @ d))) | _ \<Rightarrow> None)) (\<lambda>_.
     pbind (ptry (try_apply_diff sv workdir (unified_diff i))
       (\<lambda>e. case e of DiffDoesNotApply d \<Rightarrow> Some (praise (Refused (''diff-does-not-apply: '' @ d))) | _ \<Rightarrow> None)) (\<lambda>_.
     pbind (stage_all sv workdir) (\<lambda>_.
     ptry
       (pbind (staged_changes sv workdir) (\<lambda>changes.
        pbind (no_violation (check_changes changes (diff_policy_for (rc_config rc) (in_repository i)))) (\<lambda>_.
        pbind (check_staged_content sv workdir changes) (\<lambda>_.
        preturn changes))))
       policy_refusal))))"

text \<open>A scope check that raises is a \<open>TypeError\<close>.\<close>

definition scope_check :: "mapping \<Rightarrow> effect_intent \<Rightarrow> string list \<Rightarrow> unit prog" where
  "scope_check scope i paths =
     pbind (psome (Other ''TypeError'') (scope_admits scope i paths)) (\<lambda>ok. pneed (Refused ''outside-policy-scope'') ok)"

definition prepare_commit :: "forge \<Rightarrow> reconciler \<Rightarrow> effect_intent \<Rightarrow> acceptor \<Rightarrow> string \<Rightarrow> string prog" where
  "prepare_commit sv rc i acc workdir =
     pbind (prepare_checkout sv rc i workdir) (\<lambda>changes.
     pbind (case acc of PolicyAcceptor pid version scope dgst \<Rightarrow> scope_check scope i (map sc_path changes)
       | OperatorAcceptor s \<Rightarrow> preturn ()) (\<lambda>_.
     ptry (commit_signed sv workdir (in_title i) (rationale i) (in_run_id i) (intent_id i) acc (rc_signing_key rc))
       (\<lambda>e. if is_exception e then Some (praise (Refused (''commit-failed: '' @ sv_text sv e))) else None)))"

subsection \<open>Verifying a proposal\<close>

definition checked_sources :: "string list" where
  "checked_sources = [''reconciler.py'', ''diff_policy.py'', ''git_ops.py'', ''gitenv.py'']"

definition source_digest :: "forge \<Rightarrow> string \<Rightarrow> (string \<times> json) prog" where
  "source_digest sv name =
     pbind (pcall (\<lambda>t. sv_source_file sv t name) (SourceFile name)) (\<lambda>content. preturn (name, JStr (hexdigest content)))"

definition sorted_set :: "string list \<Rightarrow> json" where
  "sorted_set xs = JList (map JStr (sort (remdups xs)))"

definition check_revision_basis :: "forge \<Rightarrow> reconciler \<Rightarrow> string \<Rightarrow> json prog" where
  "check_revision_basis sv rc repository =
    (let policy = diff_policy_for (rc_config rc) repository in
     pbind (peach (source_digest sv) checked_sources) (\<lambda>sources.
     pbind (plain_git sv [''--version''] None) (\<lambda>version.
     pbind (pneed (PreflightRefused ''git-version-unavailable'') (returncode version = 0)) (\<lambda>_.
     preturn (JObj [(''schema'', JStr ''vuoro-reconciler-artifact-checks/v1''), (''sources'', JObj sources),
       (''git_version'', JStr (strip (stdout version))),
       (''policy'', JObj [(''path_allowlist'', sorted_set (path_allowlist policy)),
          (''protected_path_patterns'', sorted_set (protected_path_patterns policy))])])))))"

definition check_revision :: "forge \<Rightarrow> reconciler \<Rightarrow> string \<Rightarrow> string prog" where
  "check_revision sv rc repository =
     pbind (check_revision_basis sv rc repository) (\<lambda>basis. preturn (hash_of True (utf8_encode (json_dumps True basis))))"

definition check_names :: "string list" where
  "check_names = [''patch-text-and-path-safety'', ''clean-checkout-and-patch-application'', ''staged-content-and-diff-policy'']"

definition verify_proposed :: "forge \<Rightarrow> reconciler \<Rightarrow> effect_intent \<Rightarrow> json list prog" where
  "verify_proposed sv rc i =
     pbind (pneed (PreflightRefused ''repository-not-allowlisted'') (in_repository i \<in> set (repository_allowlist (rc_config rc)))) (\<lambda>_.
     pbind (pneed (PreflightRefused ''invalid-proposed-intent'')
       (in_acceptor i = None \<and> acceptance i = None \<and> canonical_digest i = canonical_intent_digest i)) (\<lambda>_.
     pbind (check_revision sv rc (in_repository i)) (\<lambda>before.
     pbind (ptry
         (pbind (pread (sv_temp sv)) (\<lambda>workdir. pbind (pnote (MakeTemp workdir)) (\<lambda>_.
          pfinally (pbind (prepare_checkout sv rc i workdir) (\<lambda>_. preturn ())) (pnote (RemoveTree workdir)))))
         (\<lambda>e. case e of Refused r \<Rightarrow> Some (praise (PreflightRefused r)) | _ \<Rightarrow> None)) (\<lambda>_.
     pbind (check_revision sv rc (in_repository i)) (\<lambda>now.
     pbind (pneed (PreflightRefused ''check-revision-changed'') (now = before)) (\<lambda>_.
     preturn (map (\<lambda>name. JObj [(''name'', JStr name), (''revision'', JStr before), (''status'', JStr ''passed'')])
       check_names)))))))"

subsection \<open>Publishing\<close>

text \<open>\<open>_preflight\<close>; a source without the check may not carry a protected binding.\<close>

definition preflight :: "forge \<Rightarrow> effect_intent \<Rightarrow> unit prog" where
  "preflight sv i =
    (case validate_verification i False of
       Some reason \<Rightarrow> praise (Refused reason)
     | None \<Rightarrow>
         (case sv_preflight sv of
            None \<Rightarrow>
              (if release_digest i \<noteq> None then praise (Refused ''protected-preflight-unavailable'')
               else case acceptance i of
                 None \<Rightarrow> praise (Other ''AttributeError'')
               | Some a \<Rightarrow> pneed (Refused ''protected-preflight-unavailable'') (getkey a ''verification'' = JNull))
          | Some check \<Rightarrow>
              ptry (pcall (\<lambda>t. check t i) (Preflight i))
                (\<lambda>e. case e of PreflightRefused r \<Rightarrow> Some (praise (Refused r)) | _ \<Rightarrow> None)))"

definition lookup :: "string \<Rightarrow> 'a prog \<Rightarrow> 'a prog" where
  "lookup repository m =
     pbind (ptry m (\<lambda>e.
       if e = CredentialRejected then Some (praise CredentialRejected)
       else if is_exception e then Some (praise (Unrecorded ''deferred'' ''provider-lookup-failed'' (exn_name e)))
       else None)) (\<lambda>res.
     pbind (pmodify (\<lambda>w. w\<lparr>lw_reachable := List.insert repository (lw_reachable w)\<rparr>)) (\<lambda>_.
     preturn res))"

definition find_branch :: "forge \<Rightarrow> string \<Rightarrow> string \<Rightarrow> string option prog" where
  "find_branch sv repo branch = lookup repo (pcall (\<lambda>t. sv_find_branch sv t repo branch) (FindBranch repo branch))"

definition find_pull_request :: "forge \<Rightarrow> string \<Rightarrow> string \<Rightarrow> pull_request_result option prog" where
  "find_pull_request sv repo branch =
     lookup repo (pcall (\<lambda>t. sv_find_pull_request sv t repo branch) (FindPullRequest repo branch))"

definition require_own_commit :: "forge \<Rightarrow> reconciler \<Rightarrow> string \<Rightarrow> string \<Rightarrow> string \<Rightarrow> string \<Rightarrow> unit prog" where
  "require_own_commit sv rc workdir ref sha candidate =
     pbind (ensure_commit sv workdir sha ref) (\<lambda>there.
     if \<not> there then praise (Refused ''branch-exists-with-different-change'') else
     pbind (verify_commit sv workdir sha (rc_signing_key rc)) (\<lambda>ours.
     if \<not> ours then praise (Refused ''branch-exists-with-different-change'') else
     pbind (same_change sv workdir sha candidate) (\<lambda>same.
     pneed (Refused ''branch-exists-with-different-change'') same)))"

definition or_str :: "string option \<Rightarrow> string \<Rightarrow> string" where
  "or_str x d = (case x of None \<Rightarrow> d | Some s \<Rightarrow> if s = [] then d else s)"

text \<open>A pull request somebody closed: ours is a rejection, anything else a mismatch.\<close>

definition refuse_closed :: "forge \<Rightarrow> reconciler \<Rightarrow> string \<Rightarrow> string \<Rightarrow> pull_request_result \<Rightarrow> string \<Rightarrow> 'a prog" where
  "refuse_closed sv rc workdir branch pr commit_sha =
     pbind (ptry (require_own_commit sv rc workdir (or_str (pr_head_ref pr) (''refs/heads/'' @ branch))
         (or_str (pr_head_sha pr) []) commit_sha)
       (\<lambda>e. case e of Refused r \<Rightarrow> Some (praise (Refused ''pull-request-mismatch'')) | _ \<Rightarrow> None)) (\<lambda>_.
     praise (Refused ''pull-request-closed''))"

text \<open>The commit an earlier run left behind, on the branch or on a merged pull request.\<close>

definition adopt :: "forge \<Rightarrow> reconciler \<Rightarrow> string \<Rightarrow> string \<Rightarrow> string \<Rightarrow> string option \<Rightarrow> pull_request_result option \<Rightarrow>
    string \<Rightarrow> string prog" where
  "adopt sv rc workdir branch default_branch existing pr commit_sha =
    (case existing of
       Some tip \<Rightarrow>
         pbind (require_own_commit sv rc workdir (''refs/heads/'' @ branch) tip commit_sha) (\<lambda>_. preturn tip)
     | None \<Rightarrow>
         (case pr of
            Some p \<Rightarrow>
              if pr_state p = ''merged'' \<and> or_str (pr_head_sha p) [] \<noteq> [] then
                pbind (require_own_commit sv rc workdir (or_str (pr_head_ref p) (''refs/heads/'' @ default_branch))
                  (or_str (pr_head_sha p) []) commit_sha) (\<lambda>_.
                preturn (or_str (pr_head_sha p) []))
              else preturn commit_sha
          | None \<Rightarrow> preturn commit_sha))"

definition push_new :: "forge \<Rightarrow> effect_intent \<Rightarrow> string \<Rightarrow> string \<Rightarrow> unit prog" where
  "push_new sv i branch workdir =
     pbind (preflight sv i) (\<lambda>_.
     pbind (ptry (pcall (\<lambda>t. sv_push_branch sv t (in_repository i) branch workdir) (PushBranch (in_repository i) branch workdir))
       (\<lambda>e. if e = BranchAlreadyExists then Some (praise (Unrecorded ''duplicate'' ''concurrent-consumer'' ''-''))
            else if e = CredentialRejected then Some (praise CredentialRejected)
            else if is_exception e then Some (praise (Refused ''push-failed'')) else None)) (\<lambda>_.
     pbind (find_pull_request sv (in_repository i) branch) (\<lambda>found.
     pneed (Unrecorded ''duplicate'' ''concurrent-consumer'' ''-'') (found = None))))"

definition open_new :: "forge \<Rightarrow> effect_intent \<Rightarrow> string \<Rightarrow> string \<Rightarrow> pull_request_result prog" where
  "open_new sv i branch default_branch =
    (let rq = \<lparr>pq_repository = in_repository i, pq_branch = branch, pq_base_branch = default_branch,
         pq_title = in_title i, pq_body = rationale i\<rparr>
     in pbind (preflight sv i) (\<lambda>_.
        ptry (pcall (\<lambda>t. sv_open_pull_request sv t rq) (OpenPullRequest rq))
          (\<lambda>e. if e = PullRequestAlreadyExists then Some (praise (Unrecorded ''duplicate'' ''concurrent-consumer'' ''-''))
               else if e = CredentialRejected then Some (praise CredentialRejected)
               else if is_exception e then Some (praise (Refused ''pull-request-failed'')) else None)))"

definition publish_intent :: "forge \<Rightarrow> reconciler \<Rightarrow> effect_intent \<Rightarrow> string \<Rightarrow> string \<Rightarrow> string \<Rightarrow> string \<Rightarrow>
    (string \<times> pull_request_result) prog" where
  "publish_intent sv rc i branch default_branch commit_sha workdir =
     pbind (find_branch sv (in_repository i) branch) (\<lambda>existing.
     pbind (find_pull_request sv (in_repository i) branch) (\<lambda>pr.
     if (case pr of None \<Rightarrow> False | Some p \<Rightarrow> pr_state p = ''closed'')
     then refuse_closed sv rc workdir branch (the pr) commit_sha else
     pbind (adopt sv rc workdir branch default_branch existing pr commit_sha) (\<lambda>sha.
     case pr of
       Some p \<Rightarrow>
         pbind (pneed (Refused ''pull-request-mismatch'') (pr_state p \<in> {''open'', ''merged''})) (\<lambda>_.
         pbind (pneed (Refused ''pull-request-mismatch'') (pr_base_branch p = Some default_branch \<and> pr_head_sha p = Some sha)) (\<lambda>_.
         preturn (sha, p)))
     | None \<Rightarrow>
         pbind (if existing = None then push_new sv i branch workdir else preturn ()) (\<lambda>_.
         pbind (open_new sv i branch default_branch) (\<lambda>opened.
         preturn (sha, opened))))))"

subsection \<open>One intent\<close>

text \<open>The checks before anything is read or done: the reason of the refusal, or nothing.\<close>

definition acceptance_fld :: "mapping \<Rightarrow> string \<Rightarrow> json \<Rightarrow> bool" where
  "acceptance_fld a k v \<longleftrightarrow> py_eq (getkey a k) v"

definition digest_matches :: "effect_intent \<Rightarrow> bool" where
  "digest_matches i \<longleftrightarrow>
    (case acceptance i of
       None \<Rightarrow> False
     | Some a \<Rightarrow>
         hex_string 64 (canonical_intent_digest i) \<and> canonical_digest i = canonical_intent_digest i \<and>
         acceptance_fld a ''canonical_intent_digest'' (JStr (canonical_digest i)) \<and>
         acceptance_fld a ''intent_id'' (JStr (intent_id i)) \<and> acceptance_fld a ''intent_revision'' (JInt (revision i)))"

definition principal_matches :: "effect_intent \<Rightarrow> acceptor \<Rightarrow> bool" where
  "principal_matches i acc \<longleftrightarrow>
    (case acc of
       PolicyAcceptor pid version scope dgst \<Rightarrow> True
     | OperatorAcceptor subject \<Rightarrow>
         (case acceptance i of None \<Rightarrow> False | Some a \<Rightarrow> acceptance_fld a ''acceptor_principal'' (JStr subject)))"

definition check_acceptor :: "reconciler \<Rightarrow> effect_intent \<Rightarrow> acceptor \<Rightarrow> unit prog" where
  "check_acceptor rc i acc =
    (case acc of
       OperatorAcceptor subject \<Rightarrow> pneed (Refused ''acceptor-is-proposer'') (subject \<noteq> proposer_principal i)
     | PolicyAcceptor pid version scope dgst \<Rightarrow>
         (case rc_auto_accept rc of
            None \<Rightarrow> praise (Refused ''policy-acceptor-stale: auto-accept-not-configured'')
          | Some c \<Rightarrow>
              (case stale_reason c pid version scope dgst of
                 Some reason \<Rightarrow> praise (Refused (''policy-acceptor-stale: '' @ reason))
               | None \<Rightarrow> scope_check scope i [])))"

definition admit_intent :: "reconciler \<Rightarrow> effect_intent \<Rightarrow> acceptor prog" where
  "admit_intent rc i =
     pbind (psome (Refused ''no-acceptor'') (in_acceptor i)) (\<lambda>acc.
     pbind (check_acceptor rc i acc) (\<lambda>_.
     pbind (pneed (Refused ''invalid-intent-id'') (intent_id_ok (intent_id i))) (\<lambda>_.
     pbind (pneed (Refused ''acceptance-digest-mismatch'') (digest_matches i)) (\<lambda>_.
     pbind (pneed (Refused ''acceptance-principal-mismatch'') (principal_matches i acc)) (\<lambda>_.
     pbind (pneed (Refused ''effect-kind-not-supported'') (effect_kind i = ''diff'')) (\<lambda>_.
     pbind (pneed (Refused ''repository-not-allowlisted'') (in_repository i \<in> set (repository_allowlist (rc_config rc)))) (\<lambda>_.
     preturn acc)))))))"

definition new_outcome :: "effect_intent \<Rightarrow> string \<Rightarrow> string option \<Rightarrow> acceptor option \<Rightarrow> run_outcome" where
  "new_outcome i state reason acc = \<lparr>oc_intent_id = intent_id i, oc_state = state, oc_commit_sha = None,
     oc_pr_url = None, oc_reason = reason, oc_acceptor = acc\<rparr>"

text \<open>The attempt inside the working directory, which is removed however it ends.\<close>

definition attempt :: "forge \<Rightarrow> reconciler \<Rightarrow> effect_intent \<Rightarrow> acceptor \<Rightarrow> string \<Rightarrow> string \<Rightarrow> string \<Rightarrow>
    (string \<times> pull_request_result) prog" where
  "attempt sv rc i acc branch default_branch workdir =
     pfinally
       (pbind (prepare_commit sv rc i acc workdir) (\<lambda>commit_sha.
        ptry
          (pbind (preflight sv i) (\<lambda>_. publish_intent sv rc i branch default_branch commit_sha workdir))
          (\<lambda>e. if e = CredentialRejected then Some (praise (Refused ''provider-credential-rejected'')) else None)))
       (pnote (RemoveTree workdir))"

definition report_applied :: "forge \<Rightarrow> effect_intent \<Rightarrow> acceptor \<Rightarrow> string \<Rightarrow> string \<Rightarrow> unit prog" where
  "report_applied sv i acc sha url =
     ptry (pcall (\<lambda>t. sv_report_applied sv t (intent_id i) sha url acc (revision i) (canonical_intent_digest i))
       (ReportApplied (intent_id i) sha url acc (revision i) (canonical_intent_digest i)))
       (swallow (preturn ()))"

definition make_temp :: "forge \<Rightarrow> string prog" where
  "make_temp sv = pbind (pread (sv_temp sv)) (\<lambda>d. pbind (pnote (MakeTemp d)) (\<lambda>_. preturn d))"

definition process :: "forge \<Rightarrow> reconciler \<Rightarrow> effect_intent \<Rightarrow> run_outcome prog" where
  "process sv rc i =
    (if legacy_execution_excluded i (protected_repositories (rc_config rc))
     then preturn (new_outcome i ''excluded'' (Some ''protected-executor-required'') None)
     else
       pbind (admit_intent rc i) (\<lambda>acc.
       pbind (preflight sv i) (\<lambda>_.
       pbind (pcall (\<lambda>t. sv_default_branch sv t (in_repository i)) (DefaultBranch (in_repository i))) (\<lambda>default_branch.
       pbind (pneed (Refused ''branch-is-protected'')
         (\<not> refuse_if_protected (branch_for (rc_config rc) i) (default_branch # protected_branches (rc_config rc)))) (\<lambda>_.
       pbind (make_temp sv) (\<lambda>workdir.
       pbind (attempt sv rc i acc (branch_for (rc_config rc) i) default_branch workdir) (\<lambda>(sha, pr).
       pbind (report_applied sv i acc sha (pr_url pr)) (\<lambda>_.
       preturn \<lparr>oc_intent_id = intent_id i, oc_state = ''applied'', oc_commit_sha = Some sha,
         oc_pr_url = Some (pr_url pr), oc_reason = None, oc_acceptor = Some acc\<rparr>))))))))"

subsection \<open>One poll\<close>

definition fail :: "forge \<Rightarrow> effect_intent \<Rightarrow> string \<Rightarrow> run_outcome prog" where
  "fail sv i reason =
     pbind (ptry (pcall (\<lambda>t. sv_report_failed sv t (intent_id i) reason) (ReportFailed (intent_id i) reason))
       (swallow (preturn ()))) (\<lambda>_.
     preturn (new_outcome i ''failed'' (Some reason) (in_acceptor i)))"

text \<open>The clock is read for the default of \<open>setdefault\<close> and again for the log line.\<close>

definition unrecorded :: "forge \<Rightarrow> effect_intent \<Rightarrow> string \<Rightarrow> string \<Rightarrow> run_outcome prog" where
  "unrecorded sv i state reason =
     pbind (if state = ''deferred'' then
         pbind (pread (sv_clock sv)) (\<lambda>now.
         pbind (pmodify (\<lambda>w. w\<lparr>lw_deferrals := dict_setdefault (intent_id i) now (lw_deferrals w)\<rparr>)) (\<lambda>_.
         pbind (pread (sv_clock sv)) (\<lambda>_. preturn ())))
       else preturn ()) (\<lambda>_.
     preturn (new_outcome i state (Some reason) (in_acceptor i)))"

definition drop_deferral :: "effect_intent \<Rightarrow> unit prog" where
  "drop_deferral i = pmodify (\<lambda>w. w\<lparr>lw_deferrals := dict_del (intent_id i) (lw_deferrals w)\<rparr>)"

definition reconcile_one :: "forge \<Rightarrow> reconciler \<Rightarrow> effect_intent \<Rightarrow> run_outcome prog" where
  "reconcile_one sv rc i =
     pbind (ptry (process sv rc i)
       (\<lambda>e. case e of
          Refused reason \<Rightarrow> Some (fail sv i reason)
        | Unrecorded state reason cause \<Rightarrow> Some (unrecorded sv i state reason)
        | _ \<Rightarrow> if is_exception e then Some (fail sv i (''internal-error: '' @ exn_name e)) else None)) (\<lambda>oc.
     pbind (if oc_state oc \<noteq> ''deferred'' then drop_deferral i else preturn ()) (\<lambda>_.
     preturn oc))"

definition deferral_expired :: "forge \<Rightarrow> reconciler \<Rightarrow> effect_intent \<Rightarrow> bool prog" where
  "deferral_expired sv rc i =
     pbind (pget (\<lambda>w. map_of (lw_deferrals w) (intent_id i))) (\<lambda>first.
     case first of
       None \<Rightarrow> preturn False
     | Some t0 \<Rightarrow>
         pbind (pread (sv_clock sv)) (\<lambda>now.
         pbind (pget lw_reachable) (\<lambda>reachable.
         preturn (now - t0 \<ge> max_lookup_deferral_seconds (rc_config rc) \<and> in_repository i \<in> set reachable))))"

definition expire_one :: "forge \<Rightarrow> reconciler \<Rightarrow> effect_intent \<times> run_outcome \<Rightarrow> run_outcome prog" where
  "expire_one sv rc io =
    (case io of (i, oc) \<Rightarrow>
       pbind (if oc_state oc = ''deferred'' then deferral_expired sv rc i else preturn False) (\<lambda>expired.
       if expired then pbind (drop_deferral i) (\<lambda>_. fail sv i (or_str (oc_reason oc) ''provider-lookup-failed''))
       else preturn oc))"

definition run_once :: "forge \<Rightarrow> reconciler \<Rightarrow> run_outcome list prog" where
  "run_once sv rc =
     pbind (apply_auto_accept sv (rc_auto_accept rc) (protected_repositories (rc_config rc))) (\<lambda>_.
     pbind (pcall (sv_poll_accepted sv) PollAccepted) (\<lambda>intents.
     pbind (pmodify (\<lambda>w. w\<lparr>lw_reachable := []\<rparr>)) (\<lambda>_.
     pbind (peach (reconcile_one sv rc) intents) (\<lambda>outcomes.
     pbind (peach (expire_one sv rc) (zip intents outcomes)) (\<lambda>final.
     pbind (pmodify (\<lambda>w. w\<lparr>lw_deferrals := filter (\<lambda>(k, t). k \<in> intent_id ` set intents) (lw_deferrals w)\<rparr>)) (\<lambda>_.
     preturn final))))))"

end
