(* ===== verification/Program_Logic.thy ===== *)
theory Program_Logic
  imports Reconciler
begin

text \<open>
  A program logic for the programs of the legacy reconciler: \<open>spec m Q\<close> says that from every world, \<open>m\<close>
  appends calls to the history whose list, with the result, satisfies \<open>Q\<close>. The rules follow the shape of
  the program, as weakest preconditions.
\<close>

subsection \<open>Specifications\<close>

definition spec :: "'a prog \<Rightarrow> ((exn, 'a) result \<Rightarrow> ev list \<Rightarrow> bool) \<Rightarrow> bool" where
  "spec m Q \<longleftrightarrow> (\<forall>w. \<exists>ls. lw_calls (snd (m w)) = lw_calls w @ ls \<and> Q (fst (m w)) ls)"

named_theorems spec_rules \<open>rules that reduce a specification of a program to its parts\<close>

lemma spec_preturn [spec_rules]: "Q (Inr a) [] \<Longrightarrow> spec (preturn a) Q"
  by (simp add: spec_def preturn_def)

lemma spec_praise [spec_rules]: "Q (Inl e) [] \<Longrightarrow> spec (praise e) Q"
  by (simp add: spec_def praise_def)

lemma spec_panswer [spec_rules]:
  "(\<And>a. r = Inr a \<Longrightarrow> Q (Inr a) []) \<Longrightarrow> (\<And>e. r = Inl e \<Longrightarrow> Q (Inl e) []) \<Longrightarrow> spec (panswer r) Q"
  unfolding spec_def panswer_def by (cases r) auto

lemma spec_pget [spec_rules]: "(\<And>a. Q (Inr a) []) \<Longrightarrow> spec (pget f) Q"
  by (simp add: spec_def pget_def)

lemma spec_pread [spec_rules]: "(\<And>a. Q (Inr a) []) \<Longrightarrow> spec (pread f) Q"
  by (simp add: spec_def pread_def)

lemma spec_pmodify: "(\<And>w. lw_calls (f w) = lw_calls w) \<Longrightarrow> Q (Inr ()) [] \<Longrightarrow> spec (pmodify f) Q"
  by (simp add: spec_def pmodify_def)

lemma spec_pnote [spec_rules]: "Q (Inr ()) [e] \<Longrightarrow> spec (pnote e) Q"
  by (simp add: spec_def pnote_def pmodify_def)

lemma spec_pcall [spec_rules]: "(\<And>a. Q (Inr a) [mk (Inr a)]) \<Longrightarrow> (\<And>e. Q (Inl (raise_fault e)) [mk (Inl e)]) \<Longrightarrow> spec (pcall f mk) Q"
  unfolding spec_def pcall_def Let_def by (auto simp: map_sum_def split: sum.split)

lemma spec_pneed [spec_rules]: "(c \<Longrightarrow> Q (Inr ()) []) \<Longrightarrow> (\<not> c \<Longrightarrow> Q (Inl e) []) \<Longrightarrow> spec (pneed e c) Q"
  by (simp add: pneed_def spec_preturn spec_praise)

lemma spec_psome [spec_rules]:
  "(\<And>a. x = Some a \<Longrightarrow> Q (Inr a) []) \<Longrightarrow> (x = None \<Longrightarrow> Q (Inl e) []) \<Longrightarrow> spec (psome e x) Q"
  by (cases x) (simp_all add: psome_def spec_preturn spec_praise)

lemma spec_pbind [spec_rules]:
  assumes "spec m (\<lambda>r ls. case r of Inl e \<Rightarrow> Q (Inl e) ls | Inr a \<Rightarrow> spec (f a) (\<lambda>r' ls'. Q r' (ls @ ls')))"
  shows "spec (pbind m f) Q"
  unfolding spec_def
proof
  fix w
  obtain ls where ls: "lw_calls (snd (m w)) = lw_calls w @ ls"
    "case fst (m w) of Inl e \<Rightarrow> Q (Inl e) ls | Inr a \<Rightarrow> spec (f a) (\<lambda>r' ls'. Q r' (ls @ ls'))"
    using assms by (auto simp: spec_def)
  then show "\<exists>ls. lw_calls (snd (pbind m f w)) = lw_calls w @ ls \<and> Q (fst (pbind m f w)) ls"
  proof (cases "m w")
    case (Pair r w')
    show ?thesis
    proof (cases r)
      case (Inr a)
      then have "spec (f a) (\<lambda>r' ls'. Q r' (ls @ ls'))" using ls Pair by simp
      then obtain ls' where "lw_calls (snd (f a w')) = lw_calls w' @ ls'" "Q (fst (f a w')) (ls @ ls')"
        by (auto simp: spec_def)
      then show ?thesis using Inr Pair ls by (auto simp: pbind_def)
    qed (use ls Pair in \<open>auto simp: pbind_def\<close>)
  qed
qed

lemma spec_ptry [spec_rules]:
  assumes "spec m (\<lambda>r ls. case r of Inr a \<Rightarrow> Q (Inr a) ls
      | Inl e \<Rightarrow> (case h e of None \<Rightarrow> Q (Inl e) ls | Some p \<Rightarrow> spec p (\<lambda>r' ls'. Q r' (ls @ ls'))))"
  shows "spec (ptry m h) Q"
  unfolding spec_def
proof
  fix w
  obtain ls where ls: "lw_calls (snd (m w)) = lw_calls w @ ls"
    "case fst (m w) of Inr a \<Rightarrow> Q (Inr a) ls
      | Inl e \<Rightarrow> (case h e of None \<Rightarrow> Q (Inl e) ls | Some p \<Rightarrow> spec p (\<lambda>r' ls'. Q r' (ls @ ls')))"
    using assms by (auto simp: spec_def)
  obtain r w' where m: "m w = (r, w')" by fastforce
  show "\<exists>ls. lw_calls (snd (ptry m h w)) = lw_calls w @ ls \<and> Q (fst (ptry m h w)) ls"
  proof (cases "case r of Inl e \<Rightarrow> h e | Inr a \<Rightarrow> None")
    case None
    then show ?thesis using ls m by (auto simp: ptry_def split: sum.splits option.splits)
  next
    case (Some p)
    then obtain e where e: "r = Inl e" "h e = Some p" by (auto split: sum.splits)
    then have "spec p (\<lambda>r' ls'. Q r' (ls @ ls'))" using ls m by simp
    then obtain ls' where "lw_calls (snd (p w')) = lw_calls w' @ ls'" "Q (fst (p w')) (ls @ ls')"
      by (auto simp: spec_def)
    then show ?thesis using e m ls by (auto simp: ptry_def)
  qed
qed

lemma spec_pfinally [spec_rules]:
  assumes "spec m (\<lambda>r ls. spec f (\<lambda>r' ls'. case r' of Inl e \<Rightarrow> Q (Inl e) (ls @ ls') | Inr _ \<Rightarrow> Q r (ls @ ls')))"
  shows "spec (pfinally m f) Q"
  unfolding spec_def
proof
  fix w
  obtain ls where ls: "lw_calls (snd (m w)) = lw_calls w @ ls"
    "spec f (\<lambda>r' ls'. case r' of Inl e \<Rightarrow> Q (Inl e) (ls @ ls') | Inr _ \<Rightarrow> Q (fst (m w)) (ls @ ls'))"
    using assms unfolding spec_def [of m] by blast
  obtain r w' where m: "m w = (r, w')" by fastforce
  obtain ls' where "lw_calls (snd (f w')) = lw_calls w' @ ls'"
    "case fst (f w') of Inl e \<Rightarrow> Q (Inl e) (ls @ ls') | Inr _ \<Rightarrow> Q r (ls @ ls')"
    using ls(2) unfolding spec_def m fst_conv by blast
  then show "\<exists>ls. lw_calls (snd (pfinally m f w)) = lw_calls w @ ls \<and> Q (fst (pfinally m f w)) ls"
    using ls m by (auto simp: pfinally_def split: prod.splits sum.splits)
qed

lemma spec_if [spec_rules]: "(c \<Longrightarrow> spec m Q) \<Longrightarrow> (\<not> c \<Longrightarrow> spec n Q) \<Longrightarrow> spec (if c then m else n) Q"
  by simp

lemma spec_option [spec_rules]:
  "(x = None \<Longrightarrow> spec m Q) \<Longrightarrow> (\<And>a. x = Some a \<Longrightarrow> spec (f a) Q) \<Longrightarrow> spec (case x of None \<Rightarrow> m | Some a \<Rightarrow> f a) Q"
  by (simp split: option.split)

lemma spec_prod [spec_rules]: "(\<And>a b. x = (a, b) \<Longrightarrow> spec (f a b) Q) \<Longrightarrow> spec (case x of (a, b) \<Rightarrow> f a b) Q"
  by (simp split: prod.split)

lemma spec_weaken: "spec m Q \<Longrightarrow> (\<And>r ls. Q r ls \<Longrightarrow> Q' r ls) \<Longrightarrow> spec m Q'"
  unfolding spec_def by blast

lemma spec_conj: "spec m Q \<Longrightarrow> spec m Q' \<Longrightarrow> spec m (\<lambda>r ls. Q r ls \<and> Q' r ls)"
  unfolding spec_def by (metis same_append_eq)

lemma specD: "spec m Q \<Longrightarrow> m w = (r, w') \<Longrightarrow> \<exists>ls. lw_calls w' = lw_calls w @ ls \<and> Q r ls"
  unfolding spec_def by (metis fst_conv snd_conv)

subsection \<open>Programs whose calls are all of one kind\<close>

definition emits :: "(ev \<Rightarrow> bool) \<Rightarrow> 'a prog \<Rightarrow> bool" where
  "emits P m \<longleftrightarrow> spec m (\<lambda>r ls. list_all P ls)"

named_theorems emits_rules \<open>rules for the calls of a program\<close>

lemma emits_preturn [emits_rules]: "emits P (preturn a)"
  by (simp add: emits_def spec_preturn)

lemma emits_praise [emits_rules]: "emits P (praise e)"
  by (simp add: emits_def spec_praise)

lemma emits_panswer [emits_rules]: "emits P (panswer r)"
  by (simp add: emits_def spec_panswer)

lemma emits_pget [emits_rules]: "emits P (pget f)"
  by (simp add: emits_def spec_pget)

lemma emits_pread [emits_rules]: "emits P (pread f)"
  by (simp add: emits_def spec_pread)

lemma emits_pneed [emits_rules]: "emits P (pneed e c)"
  by (simp add: emits_def spec_pneed)

lemma emits_psome [emits_rules]: "emits P (psome e x)"
  by (simp add: emits_def spec_psome)

lemma emits_pnote: "P e \<Longrightarrow> emits P (pnote e)"
  by (simp add: emits_def spec_pnote)

lemma emits_pcall: "(\<And>r. P (mk r)) \<Longrightarrow> emits P (pcall f mk)"
  by (simp add: emits_def spec_pcall)

lemma emits_pmodify: "(\<And>w. lw_calls (f w) = lw_calls w) \<Longrightarrow> emits P (pmodify f)"
  by (simp add: emits_def spec_pmodify)

lemma emits_pbind [emits_rules]: "emits P m \<Longrightarrow> (\<And>a. emits P (f a)) \<Longrightarrow> emits P (pbind m f)"
  unfolding emits_def by (intro spec_pbind) (auto elim!: spec_weaken split: sum.splits)

lemma emits_ptry [emits_rules]:
  "emits P m \<Longrightarrow> (\<And>e p. h e = Some p \<Longrightarrow> emits P p) \<Longrightarrow> emits P (ptry m h)"
  unfolding emits_def by (intro spec_ptry) (fastforce elim!: spec_weaken split: sum.splits option.splits)

lemma emits_pfinally [emits_rules]: "emits P m \<Longrightarrow> emits P f \<Longrightarrow> emits P (pfinally m f)"
  unfolding emits_def by (intro spec_pfinally) (auto elim!: spec_weaken split: sum.splits)

lemma emits_if [emits_rules]: "(c \<Longrightarrow> emits P m) \<Longrightarrow> (\<not> c \<Longrightarrow> emits P n) \<Longrightarrow> emits P (if c then m else n)"
  by simp

lemma emits_option [emits_rules]:
  "(x = None \<Longrightarrow> emits P m) \<Longrightarrow> (\<And>a. x = Some a \<Longrightarrow> emits P (f a)) \<Longrightarrow> emits P (case x of None \<Rightarrow> m | Some a \<Rightarrow> f a)"
  by (simp split: option.split)

lemma emits_prod [emits_rules]: "(\<And>a b. emits P (f a b)) \<Longrightarrow> emits P (case x of (a, b) \<Rightarrow> f a b)"
  by (simp split: prod.split)

lemma emits_peach [emits_rules]: "(\<And>x. emits P (f x)) \<Longrightarrow> emits P (peach f xs)"
  by (induction xs) (auto intro!: emits_rules)

lemma emits_weaken: "emits P m \<Longrightarrow> (\<And>e. P e \<Longrightarrow> P' e) \<Longrightarrow> emits P' m"
  unfolding emits_def by (erule spec_weaken) (auto simp: list_all_iff)

lemma emits_spec: "emits P m \<Longrightarrow> (\<And>r ls. list_all P ls \<Longrightarrow> Q r ls) \<Longrightarrow> spec m Q"
  unfolding emits_def by (erule spec_weaken) blast

subsection \<open>Results\<close>

text \<open>What a program returns, and what it may raise, whatever it calls.\<close>

definition results :: "'a prog \<Rightarrow> ((exn, 'a) result \<Rightarrow> bool) \<Rightarrow> bool" where
  "results m Q \<longleftrightarrow> (\<forall>w. Q (fst (m w)))"

lemma resultsD: "results m Q \<Longrightarrow> m w = (r, w') \<Longrightarrow> Q r"
  by (metis fst_conv results_def)

subsection \<open>Local programs\<close>

text \<open>The calls that stay on this machine: git in the working directory, key fingerprints, directories.\<close>

fun local_ev :: "ev \<Rightarrow> bool" where
  "local_ev (GitText g r) \<longleftrightarrow> True"
| "local_ev (GitRaw g r) \<longleftrightarrow> True"
| "local_ev (Keygen p r) \<longleftrightarrow> True"
| "local_ev (SourceFile n r) \<longleftrightarrow> True"
| "local_ev (MakeTemp d) \<longleftrightarrow> True"
| "local_ev (RemoveTree d) \<longleftrightarrow> True"
| "local_ev (CloneUrl r a) \<longleftrightarrow> True"
| "local_ev _ \<longleftrightarrow> False"

lemma emits_run_git [emits_rules]: "emits local_ev (run_git sv args cwd extra file)"
  unfolding run_git_def git_call_for_def by (intro emits_rules emits_pcall) simp

lemma emits_run_git_raw [emits_rules]: "emits local_ev (run_git_raw sv args cwd inp file)"
  unfolding run_git_raw_def git_call_for_def by (intro emits_rules emits_pcall) simp

lemma emits_plain_git [emits_rules]: "emits local_ev (plain_git sv args file)"
  unfolding plain_git_def by (rule emits_rules)

lemma emits_key_git [emits_rules]: "emits local_ev (key_git sv repo args key)"
  unfolding key_git_def by (rule emits_rules)

lemma emits_numstat [emits_rules]: "emits local_ev (numstat sv diff)"
  unfolding numstat_def by (intro emits_rules)

lemma emits_patch_paths [emits_rules]: "emits local_ev (patch_paths sv diff)"
  unfolding patch_paths_def by (intro emits_rules)

lemma emits_check_patch_is_text [emits_rules]: "emits local_ev (check_patch_is_text sv diff)"
  unfolding check_patch_is_text_def by (intro emits_rules)

lemma emits_staged_changes [emits_rules]: "emits local_ev (staged_changes sv repo)"
  unfolding staged_changes_def by (intro emits_rules)

lemma emits_read_blobs [emits_rules]: "emits local_ev (read_blobs sv repo oids)"
  unfolding read_blobs_def by (intro emits_rules)

lemma emits_check_staged_content [emits_rules]: "emits local_ev (check_staged_content sv repo changes)"
  unfolding check_staged_content_def Let_def by (intro emits_rules)

lemma emits_checkout_at [emits_rules]: "emits local_ev (checkout_at sv url base dest)"
  unfolding checkout_at_def by (intro emits_rules)

lemma emits_try_apply_diff [emits_rules]: "emits local_ev (try_apply_diff sv repo diff)"
  unfolding try_apply_diff_def by (intro emits_rules)

lemma emits_stage_all [emits_rules]: "emits local_ev (stage_all sv repo)"
  unfolding stage_all_def by (intro emits_rules)

lemma emits_key_config [emits_rules]: "emits local_ev (key_config sv repo key name value)"
  unfolding key_config_def by (intro emits_rules)

lemma emits_configure_signing [emits_rules]: "emits local_ev (configure_signing sv repo key)"
  unfolding configure_signing_def by (intro emits_rules)

lemma emits_commit_signed [emits_rules]: "emits local_ev (commit_signed sv repo title why run_id iid acc key)"
  unfolding commit_signed_def by (intro emits_rules)

lemma emits_ssh_fingerprint [emits_rules]: "emits local_ev (ssh_fingerprint sv k)"
  unfolding ssh_fingerprint_def
  by (intro emits_rules emits_pcall) (auto split: if_splits intro: emits_rules)

lemma emits_verify_commit [emits_rules]: "emits local_ev (verify_commit sv repo ref key)"
  unfolding verify_commit_def by (intro emits_rules) (auto split: list.split intro!: emits_rules)

lemma emits_commit_present [emits_rules]: "emits local_ev (commit_present sv repo sha)"
  unfolding commit_present_def by (intro emits_rules)

lemma emits_ensure_commit [emits_rules]: "emits local_ev (ensure_commit sv repo sha ref)"
  unfolding ensure_commit_def by (intro emits_rules)

lemma emits_same_change [emits_rules]: "emits local_ev (same_change sv repo a b)"
  unfolding same_change_def commit_shape_def by (intro emits_rules)

lemma emits_require_own_commit [emits_rules]: "emits local_ev (require_own_commit sv rc workdir ref sha candidate)"
  unfolding require_own_commit_def by (intro emits_rules)

lemma emits_no_violation [emits_rules]: "emits P (no_violation v)"
  unfolding no_violation_def by (intro emits_rules)

lemma policy_refusal_emits: "policy_refusal e = Some p \<Longrightarrow> emits P p"
  by (auto simp: policy_refusal_def split: exn.splits intro: emits_rules)

lemma emits_prepare_checkout [emits_rules]: "emits local_ev (prepare_checkout sv rc i workdir)"
  unfolding prepare_checkout_def
  by (intro emits_rules emits_pcall)
    (auto split: exn.splits intro: emits_rules policy_refusal_emits)

lemma emits_scope_check [emits_rules]: "emits P (scope_check scope i paths)"
  unfolding scope_check_def by (intro emits_rules)

lemma emits_prepare_commit [emits_rules]: "emits local_ev (prepare_commit sv rc i acc workdir)"
  unfolding prepare_commit_def
  by (intro emits_rules) (auto split: acceptor.split if_splits intro: emits_rules)

end
