(* ===== verification/Reconciler_Safety.thy ===== *)
theory Reconciler_Safety
  imports Program_Logic
begin

text \<open>
  What a poll of the legacy reconciler does to the forge and to the source of the intents, whatever git,
  the forge, the source and the clock answer.
\<close>

subsection \<open>Sequences\<close>

lemma spec_seq:
  assumes "spec m Q1" "\<And>e ls. Q1 (Inl e) ls \<Longrightarrow> Q (Inl e) ls"
    "\<And>a ls. Q1 (Inr a) ls \<Longrightarrow> spec (f a) (\<lambda>r ls'. Q r (ls @ ls'))"
  shows "spec (pbind m f) Q"
  by (rule spec_pbind, rule spec_weaken [OF assms(1)]) (use assms(2,3) in \<open>auto split: sum.split\<close>)

lemma spec_handle:
  assumes "spec m Q1" "\<And>a ls. Q1 (Inr a) ls \<Longrightarrow> Q (Inr a) ls"
    "\<And>e ls. Q1 (Inl e) ls \<Longrightarrow> h e = None \<Longrightarrow> Q (Inl e) ls"
    "\<And>e p ls. Q1 (Inl e) ls \<Longrightarrow> h e = Some p \<Longrightarrow> spec p (\<lambda>r ls'. Q r (ls @ ls'))"
  shows "spec (ptry m h) Q"
  by (rule spec_ptry, rule spec_weaken [OF assms(1)]) (use assms(2-4) in \<open>auto split: sum.split option.split\<close>)

lemma case_Inr [spec_rules]: "P a \<Longrightarrow> case_sum X P (Inr a)"
  by simp

lemma case_Inl [spec_rules]: "X e \<Longrightarrow> case_sum X P (Inl e)"
  by simp

lemma spec_use:
  assumes "spec m Q1" "\<And>e ls. Q1 (Inl e) ls \<Longrightarrow> Q (Inl e) ls" "\<And>a ls. Q1 (Inr a) ls \<Longrightarrow> Q (Inr a) ls"
  shows "spec m Q"
  by (rule spec_weaken [OF assms(1)]) (metis assms(2,3) old.sum.exhaust)

subsection \<open>Going through the intents\<close>

text \<open>The results and calls of a loop: each intent's own, up to the first that is interrupted.\<close>

inductive each :: "('a \<Rightarrow> (exn, 'b) result \<Rightarrow> ev list \<Rightarrow> bool) \<Rightarrow> 'a list \<Rightarrow> (exn, 'b list) result \<Rightarrow> ev list \<Rightarrow> bool"
  for Q where
  each_nil: "each Q [] (Inr []) []"
| each_ok: "Q x (Inr y) l \<Longrightarrow> each Q xs (Inr ys) ls \<Longrightarrow> each Q (x # xs) (Inr (y # ys)) (l @ ls)"
| each_later: "Q x (Inr y) l \<Longrightarrow> each Q xs (Inl e) ls \<Longrightarrow> each Q (x # xs) (Inl e) (l @ ls)"
| each_raise: "Q x (Inl e) l \<Longrightarrow> each Q (x # xs) (Inl e) l"

lemma spec_peach:
  assumes "\<And>x. spec (f x) (Q x)"
  shows "spec (peach f xs) (each Q xs)"
proof (induction xs)
  case Nil
  show ?case by (simp add: spec_preturn each_nil)
next
  case (Cons x xs)
  have "spec (pbind (peach f xs) (\<lambda>ys. preturn (y # ys))) (\<lambda>r ls. each Q (x # xs) r (l @ ls))" if "Q x (Inr y) l" for y l
    using that by (intro spec_seq [OF Cons.IH]) (auto intro!: spec_preturn intro: each_ok each_later)
  then show ?case by (simp del: each.simps) (rule spec_seq [OF assms], rule each_raise)
qed

lemma each_events:
  "each Q xs r ls \<Longrightarrow> e \<in> set ls \<Longrightarrow> \<exists>x \<in> set xs. \<exists>r' l. Q x r' l \<and> e \<in> set l \<and> set l \<subseteq> set ls"
  by (induction rule: each.induct) (auto, blast+)

lemma each_weaken: "each Q xs r ls \<Longrightarrow> (\<And>x r l. x \<in> set xs \<Longrightarrow> Q x r l \<Longrightarrow> Q' x r l) \<Longrightarrow> each Q' xs r ls"
  by (induction rule: each.induct) (auto intro: each.intros)

lemma each_results: "each Q xs r ls \<Longrightarrow> r = Inr ys \<Longrightarrow> list_all2 (\<lambda>x y. \<exists>l. Q x (Inr y) l) xs ys"
  by (induction arbitrary: ys rule: each.induct) auto

lemma each_raises: "each Q xs r ls \<Longrightarrow> r = Inl e \<Longrightarrow> \<exists>x \<in> set xs. \<exists>l. Q x (Inl e) l"
  by (induction rule: each.induct) auto

subsection \<open>Mutations of the forge, and reports\<close>

fun mutation :: "ev \<Rightarrow> (string \<times> string) option" where
  "mutation (PushBranch repo branch dir r) = Some (repo, branch)"
| "mutation (OpenPullRequest q r) = Some (pq_repository q, pq_branch q)"
| "mutation e = None"

fun is_report :: "ev \<Rightarrow> bool" where
  "is_report (ReportApplied i sha url a r d ans) \<longleftrightarrow> True"
| "is_report (ReportFailed i reason ans) \<longleftrightarrow> True"
| "is_report _ \<longleftrightarrow> False"

text \<open>Calls that read: nothing outside this machine changes.\<close>

fun reads :: "ev \<Rightarrow> bool" where
  "reads (PushBranch repo branch dir r) \<longleftrightarrow> False"
| "reads (OpenPullRequest q r) \<longleftrightarrow> False"
| "reads (Accept i a v d p ans) \<longleftrightarrow> False"
| "reads (Reject i a reason v d ans) \<longleftrightarrow> False"
| "reads (ReportApplied i sha url a r d ans) \<longleftrightarrow> False"
| "reads (ReportFailed i reason ans) \<longleftrightarrow> False"
| "reads _ \<longleftrightarrow> True"

fun verb :: "string list \<Rightarrow> string" where
  "verb (x # y # z # args) = (if x = ''-C'' then z else x)"
| "verb (x # args) = x"
| "verb [] = []"

text \<open>Git commands other than those that put a commit or a patch into the working tree.\<close>

fun keeps_tree :: "ev \<Rightarrow> bool" where
  "keeps_tree (GitText g r) \<longleftrightarrow> verb (gc_args g) \<notin> {''clone'', ''checkout'', ''apply''}"
| "keeps_tree e \<longleftrightarrow> True"

text \<open>Calls that neither change anything outside this machine nor touch the working tree.\<close>

definition quiet :: "ev \<Rightarrow> bool" where
  "quiet e \<longleftrightarrow> reads e \<and> keeps_tree e"

lemma local_reads: "local_ev e \<Longrightarrow> reads e"
  by (cases e) auto

lemma reads_neutral: "reads e \<Longrightarrow> mutation e = None \<and> \<not> is_report e"
  by (cases e) auto

lemmas emits_reads = emits_weaken [OF _ local_reads]

lemma emits_check_acceptor: "emits P (check_acceptor rc i acc)"
  unfolding check_acceptor_def
  by (auto split: acceptor.split option.split intro!: emits_rules)

lemma emits_admit: "emits P (admit_intent rc i)"
  unfolding admit_intent_def by (intro emits_rules emits_check_acceptor)

subsection \<open>What an intent must be to reach the forge\<close>

definition accepted_by :: "reconciler \<Rightarrow> effect_intent \<Rightarrow> mapping \<Rightarrow> acceptor \<Rightarrow> bool" where
  "accepted_by rc i a acc =
    (case acc of
       OperatorAcceptor subject \<Rightarrow> subject \<noteq> proposer_principal i \<and> acceptance_fld a ''acceptor_principal'' (JStr subject)
     | PolicyAcceptor pid version scope dgst \<Rightarrow>
         (case rc_auto_accept rc of
            None \<Rightarrow> False
          | Some c \<Rightarrow> stale_reason c pid version scope dgst = None \<and> scope_admits scope i [] = Some True))"

definition authorised :: "reconciler \<Rightarrow> effect_intent \<Rightarrow> acceptor \<Rightarrow> bool" where
  "authorised rc i acc \<longleftrightarrow>
     in_repository i \<in> set (repository_allowlist (rc_config rc)) \<and>
     in_repository i \<notin> set (protected_repositories (rc_config rc)) \<and>
     effect_kind i = ''diff'' \<and> intent_id_ok (intent_id i) \<and> in_acceptor i = Some acc \<and>
     (\<exists>a. acceptance i = Some a \<and> getkey a ''verification'' = JNull \<and>
        acceptance_fld a ''canonical_intent_digest'' (JStr (canonical_digest i)) \<and>
        acceptance_fld a ''intent_id'' (JStr (intent_id i)) \<and>
        acceptance_fld a ''intent_revision'' (JInt (revision i)) \<and> accepted_by rc i a acc)"

lemma spec_check_acceptor:
  "spec (check_acceptor rc i acc) (\<lambda>r ls. ls = [] \<and> (r = Inr () \<longrightarrow>
     (case acc of OperatorAcceptor subject \<Rightarrow> subject \<noteq> proposer_principal i
      | PolicyAcceptor pid version scope dgst \<Rightarrow>
          (case rc_auto_accept rc of None \<Rightarrow> False
           | Some c \<Rightarrow> stale_reason c pid version scope dgst = None \<and> scope_admits scope i [] = Some True))))"
  unfolding check_acceptor_def scope_check_def
  by (auto split: acceptor.split option.split intro!: spec_rules)

lemma spec_admit:
  assumes "\<not> legacy_execution_excluded i (protected_repositories (rc_config rc))"
  shows "spec (admit_intent rc i) (\<lambda>r ls. ls = [] \<and> (case r of Inl e \<Rightarrow> True | Inr acc \<Rightarrow> authorised rc i acc))"
  using assms
  unfolding admit_intent_def
  by (intro spec_rules spec_use [OF spec_check_acceptor])
    (auto simp: accepted_by_def principal_matches_def digest_matches_def authorised_def legacy_execution_excluded_def
      split: acceptor.splits option.splits)

subsection \<open>What is read from the calls\<close>

definition git_answer :: "ev list \<Rightarrow> string list \<Rightarrow> string completed \<Rightarrow> bool" where
  "git_answer ls args res \<longleftrightarrow> (\<exists>g. GitText g (Inr res) \<in> set ls \<and> gc_args g = args)"

definition raw_answer :: "ev list \<Rightarrow> string list \<Rightarrow> string option \<Rightarrow> bytes option \<Rightarrow> bytes completed \<Rightarrow> bool" where
  "raw_answer ls args cwd inp res \<longleftrightarrow>
    (\<exists>g. GitRaw g (Inr res) \<in> set ls \<and> gc_args g = args \<and> gc_cwd g = cwd \<and> gc_input g = inp)"

lemma answer_mono: "git_answer ls args res \<Longrightarrow> set ls \<subseteq> set ls' \<Longrightarrow> git_answer ls' args res"
  "raw_answer ls args cwd inp raw \<Longrightarrow> set ls \<subseteq> set ls' \<Longrightarrow> raw_answer ls' args cwd inp raw"
  by (auto simp: git_answer_def raw_answer_def)

lemma spec_run_git:
  "spec (run_git sv args cwd extra file) (\<lambda>r ls. case r of Inl e \<Rightarrow> True | Inr res \<Rightarrow>
     git_answer ls args res \<and> (\<exists>g. GitText g (Inr res) \<in> set ls \<and> gc_args g = args \<and> gc_file g = file))"
  unfolding run_git_def git_call_for_def git_answer_def by (intro spec_rules) auto

lemma spec_run_git_raw:
  "spec (run_git_raw sv args cwd inp file) (\<lambda>r ls. case r of Inl e \<Rightarrow> True | Inr res \<Rightarrow> raw_answer ls args cwd inp res)"
  unfolding run_git_raw_def git_call_for_def raw_answer_def by (intro spec_rules) auto

lemma raw_appended:
  "raw_answer ls args cwd inp raw \<Longrightarrow> raw_answer (ls @ ls') args cwd inp raw"
  "raw_answer ls' args cwd inp raw \<Longrightarrow> raw_answer (ls @ ls') args cwd inp raw"
  by (auto simp: raw_answer_def)

lemma git_appended:
  "git_answer ls args res \<Longrightarrow> git_answer (ls @ ls') args res"
  "git_answer ls' args res \<Longrightarrow> git_answer (ls @ ls') args res"
  by (auto simp: git_answer_def)

text \<open>The staged changes were read, allowed by the policy, and every blob they add was read and is text.\<close>

definition wanted :: "staged_change list \<Rightarrow> staged_change list" where
  "wanted changes = filter (\<lambda>c. sc_status c \<noteq> ''D'') changes"

definition wanted_ids :: "staged_change list \<Rightarrow> string list" where
  "wanted_ids changes = rev (remdups (rev (map sc_new_sha (wanted changes))))"

definition raw_args :: "string list" where
  "raw_args = [''diff'', ''--cached'', ''--raw'', ''-z'', ''--no-renames'', ''--no-abbrev'']"

definition stat_args :: "string list" where
  "stat_args = [''diff'', ''--cached'', ''--numstat'', ''-z'', ''--no-renames'']"

definition batch_args :: "string list" where
  "batch_args = [''cat-file'', ''--batch'']"

definition batch_input :: "string list \<Rightarrow> bytes" where
  "batch_input oids = utf8_encode (concat (map (\<lambda>oid. oid @ [char_of (10::nat)]) oids))"

definition staged_read :: "string \<Rightarrow> staged_change list \<Rightarrow> ev list \<Rightarrow> bool" where
  "staged_read dir changes ls \<longleftrightarrow>
    (\<exists>raw stat rows.
       raw_answer ls raw_args (Some dir) None raw \<and>
       raw_answer ls stat_args (Some dir) None stat \<and>
       returncode raw = 0 \<and> returncode stat = 0 \<and> numstat_rows (stdout stat) = Some rows \<and>
       raw_changes (foldl (\<lambda>d row. dict_set (snd (snd row)) (is_binary_row row) d) [] rows) (split_on 0 (stdout raw)) = Inr changes)"

definition content_read :: "string \<Rightarrow> staged_change list \<Rightarrow> ev list \<Rightarrow> bool" where
  "content_read dir changes ls \<longleftrightarrow>
     list_all staged_blob_ok (wanted changes) \<and>
     (\<exists>blobs. first_violation (staged_text blobs) (wanted changes) = None \<and>
       (wanted_ids changes = [] \<or>
        (\<exists>res. raw_answer ls batch_args (Some dir) (Some (batch_input (wanted_ids changes))) res \<and>
          returncode res = 0 \<and> read_blobs_from (stdout res) (wanted_ids changes) [] = Inr blobs)))"

definition vetted :: "diff_policy \<Rightarrow> string \<Rightarrow> staged_change list \<Rightarrow> ev list \<Rightarrow> bool" where
  "vetted policy dir changes ls \<longleftrightarrow>
     staged_read dir changes ls \<and> check_changes changes policy = None \<and> content_read dir changes ls"

lemma staged_read_mono: "staged_read dir changes ls \<Longrightarrow> set ls \<subseteq> set ls' \<Longrightarrow> staged_read dir changes ls'"
  unfolding staged_read_def using answer_mono(2) by blast

lemma content_read_mono: "content_read dir changes ls \<Longrightarrow> set ls \<subseteq> set ls' \<Longrightarrow> content_read dir changes ls'"
  unfolding content_read_def using answer_mono(2) by blast

lemma vetted_mono: "vetted policy dir changes ls \<Longrightarrow> set ls \<subseteq> set ls' \<Longrightarrow> vetted policy dir changes ls'"
  unfolding vetted_def using staged_read_mono content_read_mono by blast

lemma staged_readI:
  assumes "raw_answer ls raw_args (Some dir) None raw"
    "raw_answer ls' stat_args (Some dir) None stat"
    "returncode raw = 0 \<and> returncode stat = 0" "numstat_rows (stdout stat) = Some rows"
    "raw_changes (foldl (\<lambda>d row. dict_set (snd (snd row)) (is_binary_row row) d) [] rows) (split_on 0 (stdout raw)) = Inr changes"
  shows "staged_read dir changes (ls @ ls' @ l)"
  unfolding staged_read_def using assms raw_appended by blast

lemma spec_staged_changes:
  "spec (staged_changes sv dir) (\<lambda>r ls. case r of Inl e \<Rightarrow> True | Inr changes \<Rightarrow> staged_read dir changes ls)"
  unfolding staged_changes_def raw_args_def [symmetric] stat_args_def [symmetric]
  by (intro spec_rules spec_use [OF spec_run_git_raw] TrueI) (simp only: sum.case append_Nil, erule staged_readI)

lemma spec_check_staged_content:
  "spec (check_staged_content sv dir changes) (\<lambda>r ls. case r of Inl e \<Rightarrow> True | Inr u \<Rightarrow> content_read dir changes ls)"
proof -
  have ids: "wanted_ids changes = [] \<Longrightarrow> wanted changes = []" by (simp add: wanted_ids_def)
  show ?thesis
    unfolding check_staged_content_def read_blobs_def Let_def wanted_def [symmetric] wanted_ids_def [symmetric]
      batch_args_def [symmetric] batch_input_def [symmetric]
    by (intro spec_rules spec_use [OF spec_run_git_raw] TrueI)
      (auto simp: content_read_def ids intro: raw_appended)
qed

lemma spec_no_violation [spec_rules]:
  "(v = None \<Longrightarrow> Q (Inr ()) []) \<Longrightarrow> (\<And>code. v = Some code \<Longrightarrow> Q (Inl (DiffPolicyViolation code)) []) \<Longrightarrow>
    spec (no_violation v) Q"
  by (cases v) (simp_all add: no_violation_def spec_preturn spec_praise)

text \<open>Handlers that only turn one exception into another.\<close>

definition rethrows :: "(exn \<Rightarrow> 'a prog option) \<Rightarrow> bool" where
  "rethrows h \<longleftrightarrow> (\<forall>e p. h e = Some p \<longrightarrow> (\<exists>e'. p = praise e'))"

lemma spec_rethrow:
  assumes "spec m (\<lambda>r ls. case r of Inl e \<Rightarrow> \<forall>e'. Q (Inl e') ls | Inr a \<Rightarrow> Q (Inr a) ls)" "rethrows h"
  shows "spec (ptry m h) Q"
proof (rule spec_handle [OF assms(1)])
  fix e p ls
  assume q: "case Inl e of Inl e \<Rightarrow> \<forall>e'. Q (Inl e') ls | Inr a \<Rightarrow> Q (Inr a) ls" and h: "h e = Some p"
  obtain e' where "p = praise e'" using assms(2) h by (auto simp: rethrows_def)
  then show "spec p (\<lambda>r ls'. Q r (ls @ ls'))" using q by (simp add: spec_praise)
qed simp_all

lemma rethrows_refusals: "rethrows (policy_refusal :: exn \<Rightarrow> 'a prog option)"
  "rethrows (\<lambda>e. case e of CheckoutFailed d \<Rightarrow> Some (praise (Refused (f d))) | _ \<Rightarrow> None)"
  "rethrows (\<lambda>e. case e of DiffDoesNotApply d \<Rightarrow> Some (praise (Refused (f d))) | _ \<Rightarrow> None)"
  "rethrows (\<lambda>e. case e of PreflightRefused d \<Rightarrow> Some (praise (Refused d)) | _ \<Rightarrow> None)"
  "rethrows (\<lambda>e. case e of Refused d \<Rightarrow> Some (praise (Refused x)) | _ \<Rightarrow> None)"
  "rethrows (\<lambda>e. if is_exception e then Some (praise (Refused (g e))) else None)"
  "rethrows (\<lambda>e. if e = CredentialRejected then Some (praise (Refused x)) else None)"
  by (auto simp: rethrows_def policy_refusal_def split: exn.splits)

lemma spec_any:
  "emits P m \<Longrightarrow> (\<And>e ls. list_all P ls \<Longrightarrow> Q (Inl e) ls) \<Longrightarrow> (\<And>a ls. list_all P ls \<Longrightarrow> Q (Inr a) ls) \<Longrightarrow> spec m Q"
  unfolding emits_def by (rule spec_use)

lemma spec_prepare_checkout:
  "spec (prepare_checkout sv rc i dir) (\<lambda>r ls. case r of Inl e \<Rightarrow> True
     | Inr changes \<Rightarrow> vetted (diff_policy_for (rc_config rc) (in_repository i)) dir changes ls)"
proof -
  have last: "spec (ptry (pbind (staged_changes sv dir) (\<lambda>changes.
        pbind (no_violation (check_changes changes (diff_policy_for (rc_config rc) (in_repository i)))) (\<lambda>_.
        pbind (check_staged_content sv dir changes) (\<lambda>_. preturn changes)))) policy_refusal)
      (\<lambda>r ls. case r of Inl e \<Rightarrow> True | Inr changes \<Rightarrow> vetted (diff_policy_for (rc_config rc) (in_repository i)) dir changes ls)"
    by (intro spec_rethrow rethrows_refusals spec_rules spec_use [OF spec_staged_changes]
        spec_use [OF spec_check_staged_content] allI TrueI)
      (auto simp: vetted_def elim: staged_read_mono content_read_mono)
  have lift: "spec m (\<lambda>r ls. case r of Inl e \<Rightarrow> True | Inr changes \<Rightarrow> vetted p dir changes (l @ ls))"
    if "spec m (\<lambda>r ls. case r of Inl e \<Rightarrow> True | Inr changes \<Rightarrow> vetted p dir changes ls)" for m l p
    using that by (rule spec_weaken) (auto split: sum.splits elim: vetted_mono)
  have skip: "spec (pbind m f) (\<lambda>r ls. case r of Inl e \<Rightarrow> True | Inr changes \<Rightarrow> vetted p dir changes ls)"
    if "emits local_ev (m :: 'b prog)" "\<And>a. spec (f a) (\<lambda>r ls. case r of Inl e \<Rightarrow> True | Inr changes \<Rightarrow> vetted p dir changes ls)"
    for m and f :: "'b \<Rightarrow> staged_change list prog" and p
    by (rule spec_seq [OF that(1) [unfolded emits_def]]) (simp_all add: lift [OF that(2)])
  show ?thesis
    unfolding prepare_checkout_def
    by (intro skip last)
      (auto intro!: emits_rules emits_pcall split: exn.splits dest: policy_refusal_emits)
qed

subsection \<open>The commit\<close>

definition committed :: "effect_intent \<Rightarrow> acceptor \<Rightarrow> string \<Rightarrow> string \<Rightarrow> ev list \<Rightarrow> bool" where
  "committed i acc dir sha ls \<longleftrightarrow>
    (\<exists>g made named. GitText g (Inr made) \<in> set ls \<and> returncode made = 0 \<and>
       take 5 (gc_args g) = [''-C'', dir, ''commit'', ''--no-verify'', ''-S''] \<and>
       gc_file g = Some (commit_text (in_title i) (rationale i) (in_run_id i) (intent_id i) acc) \<and>
       git_answer ls [''-C'', dir, ''rev-parse'', ''HEAD''] named \<and> sha = strip (stdout named))"

lemma committed_mono: "committed i acc dir sha ls \<Longrightarrow> set ls \<subseteq> set ls' \<Longrightarrow> committed i acc dir sha ls'"
  unfolding committed_def using answer_mono(1) by blast

lemma committedI:
  assumes "gc_args g = [''-C'', dir, ''commit'', ''--no-verify'', ''-S'', ''--file'', file]" "GitText g (Inr made) \<in> set l"
    "gc_file g = Some (commit_text (in_title i) (rationale i) (in_run_id i) (intent_id i) acc)"
    "returncode made = 0" "git_answer l' [''-C'', dir, ''rev-parse'', ''HEAD''] named" "set l \<subseteq> set ls" "set l' \<subseteq> set ls"
  shows "committed i acc dir (strip (stdout named)) ls"
proof -
  have "take 5 (gc_args g) = [''-C'', dir, ''commit'', ''--no-verify'', ''-S'']" using assms(1) by simp
  moreover have "git_answer ls [''-C'', dir, ''rev-parse'', ''HEAD''] named" using assms(5,7) by (rule answer_mono)
  ultimately show ?thesis unfolding committed_def using assms(2,3,4,6) by blast
qed

lemma spec_commit_signed:
  "spec (commit_signed sv dir (in_title i) (rationale i) (in_run_id i) (intent_id i) acc key)
     (\<lambda>r ls. case r of Inl e \<Rightarrow> True | Inr sha \<Rightarrow> committed i acc dir sha ls)"
  unfolding commit_signed_def key_git_def
  by (intro spec_rules spec_any [OF emits_configure_signing] spec_use [OF spec_run_git] TrueI)
    (auto split: sum.split intro!: spec_rules TrueI spec_use [OF spec_run_git], erule (4) committedI, auto)

lemma emits_tree_run_git: "verb args \<notin> {''clone'', ''checkout'', ''apply''} \<Longrightarrow> emits keeps_tree (run_git sv args cwd extra file)"
  unfolding run_git_def git_call_for_def emits_def by (intro spec_rules) simp_all

lemma emits_tree_commit: "emits keeps_tree (commit_signed sv dir title why rid iid acc key)"
  unfolding commit_signed_def configure_signing_def key_config_def key_git_def
  by (intro emits_rules emits_tree_run_git) simp_all

lemma emits_tree_own: "emits keeps_tree (require_own_commit sv rc dir ref sha candidate)"
  unfolding require_own_commit_def ensure_commit_def commit_present_def verify_commit_def same_change_def
    commit_shape_def key_git_def plain_git_def ssh_fingerprint_def
  by (intro emits_rules emits_tree_run_git emits_pcall)
    (auto intro!: emits_rules emits_pcall split: list.split if_splits)

lemma emits_quiet_own: "emits quiet (require_own_commit sv rc dir ref sha candidate)"
  unfolding emits_def
  by (rule spec_weaken [OF spec_conj [OF emits_require_own_commit [unfolded emits_def] emits_tree_own [unfolded emits_def]]])
    (auto simp: list_all_iff quiet_def local_reads)

lemma emits_preflight: "emits quiet (preflight sv i)"
  unfolding preflight_def by (intro emits_rules emits_pcall) (auto simp: quiet_def split: exn.splits intro: emits_rules)

lemma emits_lookup: "emits quiet m \<Longrightarrow> emits quiet (lookup repo m)"
  unfolding lookup_def by (intro emits_rules emits_pmodify) (auto split: if_splits intro: emits_rules)

lemma emits_finds: "emits quiet (find_branch sv repo branch)" "emits quiet (find_pull_request sv repo branch)"
  unfolding find_branch_def find_pull_request_def by (intro emits_lookup emits_pcall; simp add: quiet_def)+

lemma emits_refuse_closed: "emits quiet (refuse_closed sv rc workdir branch pr sha)"
  unfolding refuse_closed_def
  by (intro emits_rules emits_quiet_own) (auto split: exn.splits intro: emits_rules)

lemma emits_adopt: "emits quiet (adopt sv rc workdir branch d existing pr sha)"
  unfolding adopt_def by (intro emits_rules emits_quiet_own)

subsection \<open>A commit that is the reconciler's own\<close>

definition signer_matches :: "signing_key \<Rightarrow> ev list \<Rightarrow> string list \<Rightarrow> bool" where
  "signer_matches key ls reported \<longleftrightarrow>
    (if key_format key = ''ssh'' then
       reported ! 4 = committer_email key \<and>
       (\<exists>path res. Keygen path (Inr res) \<in> set ls \<and> returncode res = 0 \<and> length (words (stdout res)) > 1 \<and>
          words (stdout res) ! 1 = strip (reported ! 1))
     else openpgp_signer_ok (sk_signing_key key) [reported ! 1, reported ! 2, reported ! 3])"

definition signed_by :: "signing_key \<Rightarrow> string \<Rightarrow> string \<Rightarrow> ev list \<Rightarrow> bool" where
  "signed_by key dir sha ls \<longleftrightarrow>
    (\<exists>res. git_answer ls [''-C'', dir, ''verify-commit'', ''--end-of-options'', sha] res \<and> returncode res = 0) \<and>
    (\<exists>res. git_answer ls [''-C'', dir, ''log'', ''-1'', ''--format=%G?%n%GF%n%GP%n%GK%n%GS'', sha, ''--''] res \<and>
       returncode res = 0 \<and> five_lines (stdout res) ! 0 \<in> {''G'', ''U''} \<and> signer_matches key ls (five_lines (stdout res)))"

definition shape_read :: "string \<Rightarrow> string \<Rightarrow> string \<times> string \<times> string \<Rightarrow> ev list \<Rightarrow> bool" where
  "shape_read dir ref shape ls \<longleftrightarrow>
    (\<exists>tree parents message.
       git_answer ls [''-C'', dir, ''rev-parse'', ''--end-of-options'', ref @ ''^{tree}''] tree \<and>
       git_answer ls [''-C'', dir, ''rev-list'', ''--parents'', ''-n'', ''1'', ref, ''--''] parents \<and>
       git_answer ls [''-C'', dir, ''log'', ''-1'', ''--format=%B'', ref, ''--''] message \<and>
       shape = (strip (stdout tree), join '' '' (tl (words (stdout parents))), stdout message))"

definition own_commit :: "signing_key \<Rightarrow> string \<Rightarrow> string \<Rightarrow> string \<Rightarrow> ev list \<Rightarrow> bool" where
  "own_commit key dir sha candidate ls \<longleftrightarrow>
     object_id sha \<and> signed_by key dir sha ls \<and>
     (\<exists>shape. shape_read dir sha shape ls \<and> shape_read dir candidate shape ls)"

lemma signer_matches_mono: "signer_matches key ls reported \<Longrightarrow> set ls \<subseteq> set ls' \<Longrightarrow> signer_matches key ls' reported"
  unfolding signer_matches_def by (auto split: if_splits)

lemma signed_by_mono: "signed_by key dir sha ls \<Longrightarrow> set ls \<subseteq> set ls' \<Longrightarrow> signed_by key dir sha ls'"
  unfolding signed_by_def using answer_mono(1) signer_matches_mono by blast

lemma shape_read_mono: "shape_read dir ref shape ls \<Longrightarrow> set ls \<subseteq> set ls' \<Longrightarrow> shape_read dir ref shape ls'"
  unfolding shape_read_def using answer_mono(1) by blast

lemma own_commit_mono: "own_commit key dir sha candidate ls \<Longrightarrow> set ls \<subseteq> set ls' \<Longrightarrow> own_commit key dir sha candidate ls'"
  unfolding own_commit_def using signed_by_mono shape_read_mono by blast

lemma five_lines_nth: "five_lines out = [a, b, c, d, e] \<Longrightarrow>
    a = five_lines out ! 0 \<and> b = five_lines out ! 1 \<and> c = five_lines out ! 2 \<and> d = five_lines out ! 3 \<and> e = five_lines out ! 4"
  by simp

lemma spec_five [spec_rules]:
  "(\<And>a b c d e. xs = [a, b, c, d, e] \<Longrightarrow> spec (f a b c d e) Q) \<Longrightarrow> spec m Q \<Longrightarrow>
    spec (case xs of [a, b, c, d, e] \<Rightarrow> f a b c d e | _ \<Rightarrow> m) Q"
  by (auto split: list.split)

lemma spec_ssh_fingerprint:
  "spec (ssh_fingerprint sv k) (\<lambda>r ls. case r of Inl e \<Rightarrow> True | Inr found \<Rightarrow>
     (\<forall>fp. found = Some fp \<longrightarrow> (\<exists>path res. Keygen path (Inr res) \<in> set ls \<and> returncode res = 0 \<and>
        length (words (stdout res)) > 1 \<and> words (stdout res) ! 1 = fp)))"
  unfolding ssh_fingerprint_def Let_def
  by (intro spec_rules) (auto split: if_splits intro!: spec_preturn)

lemma git_in: "git_answer ls args res \<Longrightarrow> set ls \<subseteq> set ls' \<Longrightarrow> git_answer ls' args res"
  by (rule answer_mono)

lemma spec_verify_commit:
  "spec (verify_commit sv dir sha key) (\<lambda>r ls. r = Inr True \<longrightarrow> signed_by key dir sha ls)"
proof -
  have ssh: "signed_by key dir sha (l1 @ l2 @ l3)"
    if "git_answer l1 [''-C'', dir, ''verify-commit'', ''--end-of-options'', sha] r1" "returncode r1 = 0"
      "git_answer l2 [''-C'', dir, ''log'', ''-1'', ''--format=%G?%n%GF%n%GP%n%GK%n%GS'', sha, ''--''] r2" "returncode r2 = 0"
      "five_lines (stdout r2) = [status, fp, pr, kid, signer]" "status \<in> {''G'', ''U''}"
      "signer_matches key l3 (five_lines (stdout r2))"
    for l1 l2 l3 r1 r2 status fp pr kid signer
  proof -
    have "git_answer (l1 @ l2 @ l3) [''-C'', dir, ''verify-commit'', ''--end-of-options'', sha] r1"
      by (rule git_in [OF that(1)]) simp
    moreover have "git_answer (l1 @ l2 @ l3) [''-C'', dir, ''log'', ''-1'', ''--format=%G?%n%GF%n%GP%n%GK%n%GS'', sha, ''--''] r2"
      by (rule git_in [OF that(3)]) auto
    moreover have "signer_matches key (l1 @ l2 @ l3) (five_lines (stdout r2))"
      by (rule signer_matches_mono [OF that(7)]) auto
    moreover have "five_lines (stdout r2) ! 0 = status" using that(5) by simp
    ultimately show ?thesis unfolding signed_by_def using that(2,4,6) by blast
  qed
  note pgp = ssh [where ?l3.0 = "[]", unfolded append_Nil2]
  show ?thesis
    unfolding verify_commit_def key_git_def
    by (intro spec_rules spec_use [OF spec_run_git] spec_use [OF spec_ssh_fingerprint])
      (auto, ((erule (4) ssh | erule (4) pgp); force simp: signer_matches_def)+)
qed

lemma spec_commit_shape:
  "spec (commit_shape sv dir ref) (\<lambda>r ls. case r of Inl e \<Rightarrow> True | Inr shape \<Rightarrow> shape_read dir ref shape ls)"
proof -
  have "shape_read dir ref (strip (stdout t), join '' '' (tl (words (stdout p))), stdout m) (l1 @ l2 @ l3 @ [])"
    if "git_answer l1 [''-C'', dir, ''rev-parse'', ''--end-of-options'', ref @ ''^{tree}''] t"
      "git_answer l2 [''-C'', dir, ''rev-list'', ''--parents'', ''-n'', ''1'', ref, ''--''] p"
      "git_answer l3 [''-C'', dir, ''log'', ''-1'', ''--format=%B'', ref, ''--''] m" for l1 l2 l3 t p m
    unfolding shape_read_def using that git_appended by (metis append_Nil2)
  then show ?thesis
    unfolding commit_shape_def plain_git_def
    by (intro spec_rules spec_use [OF spec_run_git] TrueI) simp_all
qed

lemma spec_require_own_commit:
  "spec (require_own_commit sv rc dir ref sha candidate) (\<lambda>r ls. r = Inr () \<longrightarrow> own_commit (rc_signing_key rc) dir sha candidate ls)"
proof -
  have ensure: "spec (ensure_commit sv dir sha ref) (\<lambda>r ls. r = Inr True \<longrightarrow> object_id sha)"
  proof (cases "object_id sha")
    case True
    then show ?thesis by (intro emits_spec [OF emits_ensure_commit]) simp
  qed (simp add: ensure_commit_def spec_preturn)
  have own: "own_commit key dir sha candidate (l1 @ l2 @ (l3 @ l4 @ []) @ [])"
    if "object_id sha" "signed_by key dir sha l2" "shape_read dir sha shape l3" "shape_read dir candidate shape l4" for key shape l1 l2 l3 l4
  proof -
    have "signed_by key dir sha (l1 @ l2 @ (l3 @ l4 @ []) @ [])" by (rule signed_by_mono [OF that(2)]) auto
    moreover have "shape_read dir sha shape (l1 @ l2 @ (l3 @ l4 @ []) @ [])" by (rule shape_read_mono [OF that(3)]) auto
    moreover have "shape_read dir candidate shape (l1 @ l2 @ (l3 @ l4 @ []) @ [])" by (rule shape_read_mono [OF that(4)]) auto
    ultimately show ?thesis unfolding own_commit_def using that(1) by blast
  qed
  show ?thesis
    unfolding require_own_commit_def same_change_def
    by (intro spec_rules spec_use [OF ensure] spec_use [OF spec_verify_commit] spec_use [OF spec_commit_shape])
      (auto dest: own)
qed

subsection \<open>Publishing\<close>

text \<open>The calls an attempt for one intent may make.\<close>

fun own_ev :: "effect_intent \<Rightarrow> string \<Rightarrow> string \<Rightarrow> ev \<Rightarrow> bool" where
  "own_ev i branch dir (PushBranch r b d ans) \<longleftrightarrow> r = in_repository i \<and> b = branch \<and> d = dir"
| "own_ev i branch dir (OpenPullRequest q ans) \<longleftrightarrow> pq_repository q = in_repository i \<and> pq_branch q = branch"
| "own_ev i branch dir e \<longleftrightarrow> quiet e"

lemma quiet_own: "quiet e \<Longrightarrow> own_ev i branch dir e"
  by (cases e) (auto simp: quiet_def)

lemmas emits_own_reads = emits_weaken [OF _ quiet_own]

lemma emits_try_call:
  "(\<And>r. P (mk r)) \<Longrightarrow> rethrows h \<Longrightarrow> emits P (ptry (pcall f mk) h)"
  by (intro emits_ptry emits_pcall) (auto simp: rethrows_def intro: emits_praise)

lemma rethrows_if: "rethrows (\<lambda>e. if c e then Some (praise (k e)) else h e)" if "rethrows h"
  using that by (auto simp: rethrows_def)

lemma rethrows_None: "rethrows (\<lambda>e. None)"
  by (simp add: rethrows_def)

lemma emits_push_new: "emits (own_ev i branch dir) (push_new sv i branch dir)"
  unfolding push_new_def
  by (intro emits_rules emits_try_call rethrows_if rethrows_None emits_own_reads [OF emits_preflight]
      emits_own_reads [OF emits_finds(2)]) simp_all

lemma emits_open_new: "emits (own_ev i branch dir) (open_new sv i branch base)"
  unfolding open_new_def Let_def
  by (intro emits_rules emits_try_call rethrows_if rethrows_None emits_own_reads [OF emits_preflight]) simp_all

lemma emits_publish: "emits (own_ev i branch dir) (publish_intent sv rc i branch base sha dir)"
  unfolding publish_intent_def
  by (intro emits_rules emits_push_new emits_open_new emits_own_reads [OF emits_finds(1)] emits_own_reads [OF emits_finds(2)]
      emits_own_reads [OF emits_refuse_closed] emits_own_reads [OF emits_adopt])

text \<open>A pull request of the intent stands on the forge, at a commit that is new and pushed, or is our own.\<close>

definition pull_request_of :: "effect_intent \<Rightarrow> string \<Rightarrow> string \<Rightarrow> pull_request" where
  "pull_request_of i branch base = \<lparr>pq_repository = in_repository i, pq_branch = branch, pq_base_branch = base,
     pq_title = in_title i, pq_body = rationale i\<rparr>"

definition found_request :: "effect_intent \<Rightarrow> string \<Rightarrow> string \<Rightarrow> string \<Rightarrow> pull_request_result \<Rightarrow> ev list \<Rightarrow> bool" where
  "found_request i branch base sha pr ls \<longleftrightarrow>
     FindPullRequest (in_repository i) branch (Inr (Some pr)) \<in> set ls \<and> pr_state pr \<in> {''open'', ''merged''} \<and>
     pr_base_branch pr = Some base \<and> pr_head_sha pr = Some sha"

definition opened_request :: "effect_intent \<Rightarrow> string \<Rightarrow> string \<Rightarrow> pull_request_result \<Rightarrow> ev list \<Rightarrow> bool" where
  "opened_request i branch base pr ls \<longleftrightarrow> OpenPullRequest (pull_request_of i branch base) (Inr pr) \<in> set ls"

definition on_branch :: "reconciler \<Rightarrow> effect_intent \<Rightarrow> string \<Rightarrow> string \<Rightarrow> string \<Rightarrow> string \<Rightarrow> ev list \<Rightarrow> bool" where
  "on_branch rc i branch dir made sha ls \<longleftrightarrow>
     sha = made \<and> PushBranch (in_repository i) branch dir (Inr ()) \<in> set ls \<or>
     own_commit (rc_signing_key rc) dir sha made ls \<and> FindBranch (in_repository i) branch (Inr (Some sha)) \<in> set ls"

definition published :: "reconciler \<Rightarrow> effect_intent \<Rightarrow> string \<Rightarrow> string \<Rightarrow> string \<Rightarrow> string \<Rightarrow> string \<Rightarrow>
    pull_request_result \<Rightarrow> ev list \<Rightarrow> bool" where
  "published rc i branch base dir made sha pr ls \<longleftrightarrow>
     (sha = made \<or> own_commit (rc_signing_key rc) dir sha made ls) \<and>
     (found_request i branch base sha pr ls \<or> opened_request i branch base pr ls \<and> on_branch rc i branch dir made sha ls)"

lemma published_mono:
  assumes "published rc i branch base dir made sha pr ls" "set ls \<subseteq> set ls'"
  shows "published rc i branch base dir made sha pr ls'"
  using assms own_commit_mono [OF _ assms(2)]
  unfolding published_def found_request_def opened_request_def on_branch_def by blast

lemma spec_lookup:
  assumes "spec m (\<lambda>r ls. case r of Inl e \<Rightarrow> (\<forall>e'. Q (Inl e') ls) | Inr a \<Rightarrow> Q (Inr a) ls)"
  shows "spec (lookup repo m) Q"
  unfolding lookup_def
  by (intro spec_pbind spec_rethrow rethrows_if rethrows_None spec_weaken [OF assms])
    (auto split: sum.splits intro!: spec_rules spec_pmodify)

lemma spec_find_branch:
  "spec (find_branch sv repo branch) (\<lambda>r ls. case r of Inl e \<Rightarrow> True | Inr a \<Rightarrow> FindBranch repo branch (Inr a) \<in> set ls)"
  unfolding find_branch_def by (intro spec_lookup spec_pcall) simp_all

lemma spec_find_pull_request:
  "spec (find_pull_request sv repo branch)
     (\<lambda>r ls. case r of Inl e \<Rightarrow> True | Inr a \<Rightarrow> FindPullRequest repo branch (Inr a) \<in> set ls)"
  unfolding find_pull_request_def by (intro spec_lookup spec_pcall) simp_all

lemma spec_push_new:
  "spec (push_new sv i branch dir) (\<lambda>r ls. r = Inr () \<longrightarrow> PushBranch (in_repository i) branch dir (Inr ()) \<in> set ls)"
  unfolding push_new_def
  by (intro spec_rules spec_any [OF emits_preflight] spec_use [OF spec_find_pull_request] spec_rethrow
      rethrows_if rethrows_None) auto

lemma spec_open_new:
  "spec (open_new sv i branch base)
     (\<lambda>r ls. case r of Inl e \<Rightarrow> True | Inr pr \<Rightarrow> opened_request i branch base pr ls)"
  unfolding open_new_def Let_def opened_request_def pull_request_of_def
  by (intro spec_rules spec_any [OF emits_preflight] spec_rethrow rethrows_if rethrows_None) auto

lemma spec_adopt:
  "spec (adopt sv rc dir branch base existing pr made) (\<lambda>r ls. case r of Inl e \<Rightarrow> True | Inr sha \<Rightarrow>
     (case existing of Some tip \<Rightarrow> sha = tip \<and> own_commit (rc_signing_key rc) dir sha made ls
      | None \<Rightarrow> sha = made \<or> pr \<noteq> None \<and> own_commit (rc_signing_key rc) dir sha made ls))"
  unfolding adopt_def
  by (intro spec_rules spec_use [OF spec_require_own_commit]) auto

lemma emits_spec_any: "emits P m \<Longrightarrow> spec m (\<lambda>r ls. True)"
  by (erule spec_any) simp_all

lemma spec_never: "spec (refuse_closed sv rc dir branch pr made) (\<lambda>r ls. \<exists>e. r = Inl e)"
  unfolding refuse_closed_def
  by (intro spec_seq [OF emits_spec_any [OF emits_ptry [OF emits_require_own_commit]]])
    (auto split: exn.splits intro: emits_praise spec_praise)

lemma spec_publish:
  "spec (publish_intent sv rc i branch base made dir) (\<lambda>r ls. case r of Inl e \<Rightarrow> True | Inr (sha, pr) \<Rightarrow>
     published rc i branch base dir made sha pr ls)"
  unfolding publish_intent_def
  by (intro spec_rules spec_use [OF spec_find_branch] spec_use [OF spec_find_pull_request] spec_use [OF spec_never]
      spec_use [OF spec_adopt] spec_use [OF spec_open_new] spec_use [OF spec_push_new] TrueI;
    simp?;
    auto simp: found_request_def opened_request_def on_branch_def published_def split: option.splits intro: own_commit_mono)

subsection \<open>One attempt\<close>

definition scoped :: "effect_intent \<Rightarrow> acceptor \<Rightarrow> staged_change list \<Rightarrow> bool" where
  "scoped i acc changes =
    (case acc of OperatorAcceptor s \<Rightarrow> True
     | PolicyAcceptor pid version scope dgst \<Rightarrow> scope_admits scope i (map sc_path changes) = Some True)"

text \<open>
  A commit made of a checkout whose staged changes were vetted, with nothing put into the working tree
  after they were read.
\<close>

definition prepared :: "reconciler \<Rightarrow> effect_intent \<Rightarrow> acceptor \<Rightarrow> string \<Rightarrow> string \<Rightarrow> ev list \<Rightarrow> bool" where
  "prepared rc i acc dir made ls \<longleftrightarrow>
    (\<exists>l1 l2 changes. ls = l1 @ l2 \<and> vetted (diff_policy_for (rc_config rc) (in_repository i)) dir changes l1 \<and>
       scoped i acc changes \<and> committed i acc dir made l2 \<and> list_all keeps_tree l2)"

lemma spec_prepare_commit:
  "spec (prepare_commit sv rc i acc dir) (\<lambda>r ls. list_all local_ev ls \<and>
     (case r of Inl e \<Rightarrow> True | Inr made \<Rightarrow> prepared rc i acc dir made ls))"
proof (rule spec_conj [OF emits_prepare_commit [unfolded emits_def]])
  have commit: "spec (commit_signed sv dir (in_title i) (rationale i) (in_run_id i) (intent_id i) acc (rc_signing_key rc))
     (\<lambda>r ls. list_all keeps_tree ls \<and> (case r of Inl e \<Rightarrow> True | Inr sha \<Rightarrow> committed i acc dir sha ls))"
    by (rule spec_conj [OF emits_tree_commit [unfolded emits_def] spec_commit_signed])
  have scope: "spec (case acc of OperatorAcceptor s \<Rightarrow> preturn ()
      | PolicyAcceptor pid version scope dgst \<Rightarrow> scope_check scope i (map sc_path changes))
     (\<lambda>r ls. ls = [] \<and> (r = Inr () \<longrightarrow> scoped i acc changes))" for changes
    by (auto simp: scoped_def scope_check_def split: acceptor.split intro!: spec_rules)
  show "spec (prepare_commit sv rc i acc dir) (\<lambda>r ls. case r of Inl e \<Rightarrow> True | Inr made \<Rightarrow> prepared rc i acc dir made ls)"
    unfolding prepare_commit_def
    by (intro spec_rules spec_use [OF spec_prepare_checkout] spec_use [OF scope] spec_rethrow rethrows_refusals
        spec_use [OF commit] TrueI)
      (auto simp: prepared_def)
qed

definition attempted :: "reconciler \<Rightarrow> effect_intent \<Rightarrow> acceptor \<Rightarrow> string \<Rightarrow> string \<Rightarrow> string \<Rightarrow>
    (exn, string \<times> pull_request_result) result \<Rightarrow> ev list \<Rightarrow> bool" where
  "attempted rc i acc branch base dir r ls \<longleftrightarrow>
     (\<exists>e. r = Inl e) \<and> list_all local_ev ls \<or>
     (\<exists>made lp lq. ls = lp @ lq \<and> list_all local_ev lp \<and> list_all (own_ev i branch dir) lq \<and> prepared rc i acc dir made lp \<and>
        (case r of Inl e \<Rightarrow> True | Inr (sha, pr) \<Rightarrow> published rc i branch base dir made sha pr lq))"

lemma attempted_refused: "list_all local_ev ls \<Longrightarrow> attempted rc i acc branch base dir (Inl e) ls"
  by (simp add: attempted_def)

lemma attempted_made:
  "list_all local_ev lp \<Longrightarrow> prepared rc i acc dir made lp \<Longrightarrow> list_all (own_ev i branch dir) lq \<Longrightarrow>
    (case r of Inl e \<Rightarrow> True | Inr (sha, pr) \<Rightarrow> published rc i branch base dir made sha pr lq) \<Longrightarrow>
    attempted rc i acc branch base dir r (lp @ lq)"
  unfolding attempted_def by blast

lemma attempted_removed:
  assumes "attempted rc i acc branch base dir r ls"
  shows "attempted rc i acc branch base dir r (ls @ [RemoveTree d])"
  using assms unfolding attempted_def [of rc i acc branch base dir r ls]
proof (elim disjE exE conjE)
  fix made lp lq
  assume a: "ls = lp @ lq" "list_all local_ev lp" "list_all (own_ev i branch dir) lq" "prepared rc i acc dir made lp"
    and p: "case r of Inl e \<Rightarrow> True | Inr (sha, pr) \<Rightarrow> published rc i branch base dir made sha pr lq"
  have "case r of Inl e \<Rightarrow> True | Inr (sha, pr) \<Rightarrow> published rc i branch base dir made sha pr (lq @ [RemoveTree d])"
    using p by (auto split: sum.splits intro: published_mono)
  then have "attempted rc i acc branch base dir r (lp @ (lq @ [RemoveTree d]))"
    by (intro attempted_made [OF a(2,4)]) (simp_all add: a(3) quiet_def)
  then show ?thesis by (simp add: a(1))
qed (simp add: attempted_refused)

lemma spec_attempt: "spec (attempt sv rc i acc branch base dir) (attempted rc i acc branch base dir)"
proof -
  have step: "spec (ptry (pbind (preflight sv i) (\<lambda>_. publish_intent sv rc i branch base made dir))
       (\<lambda>e. if e = CredentialRejected then Some (praise (Refused ''provider-credential-rejected'')) else None))
     (\<lambda>r ls. list_all (own_ev i branch dir) ls \<and>
       (case r of Inl e \<Rightarrow> True | Inr (sha, pr) \<Rightarrow> published rc i branch base dir made sha pr ls))" for made
    by (intro spec_conj spec_rules spec_rethrow rethrows_if rethrows_None spec_any [OF emits_own_reads [OF emits_preflight]]
        spec_use [OF spec_conj [OF emits_publish [unfolded emits_def] spec_publish]])
      (auto intro: published_mono)
  have body: "spec (pbind (prepare_commit sv rc i acc dir) (\<lambda>made.
        ptry (pbind (preflight sv i) (\<lambda>_. publish_intent sv rc i branch base made dir))
          (\<lambda>e. if e = CredentialRejected then Some (praise (Refused ''provider-credential-rejected'')) else None)))
      (attempted rc i acc branch base dir)"
    by (rule spec_seq [OF spec_prepare_commit])
      (auto intro: attempted_refused attempted_made spec_weaken [OF step])
  show ?thesis
    unfolding attempt_def
    by (rule spec_pfinally, rule spec_weaken [OF body], rule spec_pnote) (simp add: attempted_removed)
qed

subsection \<open>One intent\<close>

definition applied_outcome :: "effect_intent \<Rightarrow> acceptor \<Rightarrow> string \<Rightarrow> pull_request_result \<Rightarrow> run_outcome" where
  "applied_outcome i acc sha pr = \<lparr>oc_intent_id = intent_id i, oc_state = ''applied'', oc_commit_sha = Some sha,
     oc_pr_url = Some (pr_url pr), oc_reason = None, oc_acceptor = Some acc\<rparr>"

definition excluded_outcome :: "effect_intent \<Rightarrow> run_outcome" where
  "excluded_outcome i = new_outcome i ''excluded'' (Some ''protected-executor-required'') None"

text \<open>
  An attempt at an authorised intent, on a branch that is not protected, after calls that change nothing
  outside this machine; what follows a success is the report.
\<close>

definition ventured :: "reconciler \<Rightarrow> effect_intent \<Rightarrow> acceptor \<Rightarrow> (exn, string \<times> pull_request_result) result \<Rightarrow> ev list \<Rightarrow> bool" where
  "ventured rc i acc r ls \<longleftrightarrow> authorised rc i acc \<and>
     (\<exists>base dir l la. ls = l @ la \<and> list_all quiet l \<and> DefaultBranch (in_repository i) (Inr base) \<in> set l \<and>
        \<not> refuse_if_protected (branch_for (rc_config rc) i) (base # protected_branches (rc_config rc)) \<and>
        attempted rc i acc (branch_for (rc_config rc) i) base dir r la)"

definition report_of :: "effect_intent \<Rightarrow> acceptor \<Rightarrow> string \<Rightarrow> pull_request_result \<Rightarrow> unit answer \<Rightarrow> ev" where
  "report_of i acc sha pr ans = ReportApplied (intent_id i) sha (pr_url pr) acc (revision i) (canonical_intent_digest i) ans"

inductive processed :: "reconciler \<Rightarrow> effect_intent \<Rightarrow> (exn, run_outcome) result \<Rightarrow> ev list \<Rightarrow> bool" for rc i where
  passed_over: "processed rc i (Inr (excluded_outcome i)) []"
| stopped: "list_all quiet ls \<Longrightarrow> processed rc i (Inl e) ls"
| raised: "ventured rc i acc (Inl e) ls \<Longrightarrow> processed rc i (Inl e) ls"
| reported: "ventured rc i acc (Inr (sha, pr)) la \<Longrightarrow> ans \<noteq> Inl InterruptFault \<Longrightarrow>
    processed rc i (Inr (applied_outcome i acc sha pr)) (la @ [report_of i acc sha pr ans])"
| unreported: "ventured rc i acc (Inr (sha, pr)) la \<Longrightarrow>
    processed rc i (Inl Interrupted) (la @ [report_of i acc sha pr (Inl InterruptFault)])"

lemma raise_fault_interrupt: "raise_fault f = Interrupted \<longleftrightarrow> f = InterruptFault"
  by (cases f) auto

lemma spec_report_applied:
  "spec (report_applied sv i acc sha url) (\<lambda>r ls. \<exists>ans. ls = [ReportApplied (intent_id i) sha url acc (revision i) (canonical_intent_digest i) ans] \<and>
     r = (if ans = Inl InterruptFault then Inl Interrupted else Inr ()))"
  unfolding report_applied_def
  by (intro spec_rules) (auto simp: swallow_def is_exception_def raise_fault_interrupt intro!: spec_rules)

lemma venturedI:
  assumes "authorised rc i acc" "list_all quiet l"
    "\<not> refuse_if_protected (branch_for (rc_config rc) i) (base # protected_branches (rc_config rc))"
    "attempted rc i acc (branch_for (rc_config rc) i) base dir r la"
  shows "ventured rc i acc r (l @ DefaultBranch (in_repository i) (Inr base) # MakeTemp d # la)"
  unfolding ventured_def using assms
  by (intro conjI exI [of _ base] exI [of _ dir] exI [of _ "l @ [DefaultBranch (in_repository i) (Inr base), MakeTemp d]"]
      exI [of _ la]) (simp_all add: quiet_def)

lemma spec_process: "spec (process sv rc i) (processed rc i)"
proof (cases "legacy_execution_excluded i (protected_repositories (rc_config rc))")
  case True
  then show ?thesis by (simp add: process_def excluded_outcome_def [symmetric] spec_preturn passed_over)
next
  case False
  have ends: "processed rc i (Inr (applied_outcome i acc sha pr)) (l @ DefaultBranch (in_repository i) (Inr base) # MakeTemp d # la @ [report_of i acc sha pr ans])"
    if "ventured rc i acc (Inr (sha, pr)) (l @ DefaultBranch (in_repository i) (Inr base) # MakeTemp d # la)" "ans \<noteq> Inl InterruptFault" 
    for acc sha pr l base d la ans using reported [OF that] by simp
  have interrupted: "processed rc i (Inl Interrupted) (l @ DefaultBranch (in_repository i) (Inr base) # MakeTemp d # la @ [report_of i acc sha pr (Inl InterruptFault)])"
    if "ventured rc i acc (Inr (sha, pr)) (l @ DefaultBranch (in_repository i) (Inr base) # MakeTemp d # la)"
    for acc sha pr l base d la using unreported [OF that] by simp
  show ?thesis
    unfolding process_def make_temp_def if_not_P [OF False] applied_outcome_def [symmetric]
    by (intro spec_rules spec_use [OF spec_admit [OF False]] spec_any [OF emits_preflight] spec_use [OF spec_attempt]
        spec_use [OF spec_report_applied])
      (auto simp: report_of_def [symmetric] quiet_def
        intro: stopped raised [OF venturedI] ends [OF venturedI] interrupted [OF venturedI] split: if_splits)
qed

subsection \<open>What is made of the end of an intent\<close>

text \<open>The reason a failure is reported with; what is deferred, or another consumer's, is not reported.\<close>

fun failure_reason :: "exn \<Rightarrow> string option" where
  "failure_reason (Refused reason) = Some reason"
| "failure_reason (Unrecorded state reason cause) = None"
| "failure_reason Interrupted = None"
| "failure_reason e = Some (''internal-error: '' @ exn_name e)"

definition failed_outcome :: "effect_intent \<Rightarrow> string \<Rightarrow> run_outcome" where
  "failed_outcome i reason = new_outcome i ''failed'' (Some reason) (in_acceptor i)"

inductive reconciled :: "reconciler \<Rightarrow> effect_intent \<Rightarrow> (exn, run_outcome) result \<Rightarrow> ev list \<Rightarrow> bool" for rc i where
  settled: "processed rc i (Inr oc) ls \<Longrightarrow> reconciled rc i (Inr oc) ls"
| failed: "processed rc i (Inl e) ls \<Longrightarrow> failure_reason e = Some reason \<Longrightarrow> ans \<noteq> Inl InterruptFault \<Longrightarrow>
    reconciled rc i (Inr (failed_outcome i reason)) (ls @ [ReportFailed (intent_id i) reason ans])"
| unfailed: "processed rc i (Inl e) ls \<Longrightarrow> failure_reason e = Some reason \<Longrightarrow>
    reconciled rc i (Inl Interrupted) (ls @ [ReportFailed (intent_id i) reason (Inl InterruptFault)])"
| put_off: "processed rc i (Inl (Unrecorded state reason cause)) ls \<Longrightarrow>
    reconciled rc i (Inr (new_outcome i state (Some reason) (in_acceptor i))) ls"
| cut_off: "processed rc i (Inl Interrupted) ls \<Longrightarrow> reconciled rc i (Inl Interrupted) ls"

lemma spec_fail:
  "spec (fail sv i reason) (\<lambda>r ls. \<exists>ans. ls = [ReportFailed (intent_id i) reason ans] \<and>
     r = (if ans = Inl InterruptFault then Inl Interrupted else Inr (failed_outcome i reason)))"
  unfolding fail_def failed_outcome_def swallow_def is_exception_def
  by (intro spec_pbind spec_ptry spec_pcall)
    (simp_all add: raise_fault_interrupt spec_preturn split: option.split)

lemma spec_unrecorded:
  "spec (unrecorded sv i state reason) (\<lambda>r ls. ls = [] \<and> r = Inr (new_outcome i state (Some reason) (in_acceptor i)))"
  unfolding unrecorded_def by (intro spec_rules spec_pmodify) auto

lemma spec_drop_deferral: "Q (Inr ()) [] \<Longrightarrow> spec (drop_deferral i) Q"
  unfolding drop_deferral_def by (rule spec_pmodify) simp_all

lemma spec_reconcile_one: "spec (reconcile_one sv rc i) (reconciled rc i)"
proof -
  have handled: "spec (ptry (process sv rc i) (\<lambda>e. case e of
          Refused reason \<Rightarrow> Some (fail sv i reason)
        | Unrecorded state reason cause \<Rightarrow> Some (unrecorded sv i state reason)
        | _ \<Rightarrow> if is_exception e then Some (fail sv i (''internal-error: '' @ exn_name e)) else None)) (reconciled rc i)"
  proof (rule spec_handle [OF spec_process])
    fix e p ls
    assume *: "processed rc i (Inl e) ls" "(case e of
          Refused reason \<Rightarrow> Some (fail sv i reason)
        | Unrecorded state reason cause \<Rightarrow> Some (unrecorded sv i state reason)
        | _ \<Rightarrow> if is_exception e then Some (fail sv i (''internal-error: '' @ exn_name e)) else None) = Some p"
    have failing: "spec (fail sv i reason) (\<lambda>r l. reconciled rc i r (ls @ l))" if "failure_reason e = Some reason" for reason
      by (rule spec_weaken [OF spec_fail]) (auto intro: failed [OF *(1) that] unfailed [OF *(1) that])
    show "spec p (\<lambda>r l. reconciled rc i r (ls @ l))"
      using * by (cases e) (auto simp: is_exception_def intro!: failing spec_weaken [OF spec_unrecorded] intro: put_off)
  qed (auto intro: settled cut_off simp: is_exception_def split: exn.splits if_splits)
  show ?thesis
    unfolding reconcile_one_def
    by (rule spec_seq [OF handled]) (auto intro!: spec_rules spec_drop_deferral)
qed

text \<open>A deferral that lasted too long is reported as a failure.\<close>

inductive expired :: "effect_intent \<times> run_outcome \<Rightarrow> (exn, run_outcome) result \<Rightarrow> ev list \<Rightarrow> bool" where
  kept: "expired (i, oc) (Inr oc) []"
| given_up: "oc_state oc = ''deferred'' \<Longrightarrow> ans \<noteq> Inl InterruptFault \<Longrightarrow>
    expired (i, oc) (Inr (failed_outcome i reason)) [ReportFailed (intent_id i) reason ans]"
| ungiven: "oc_state oc = ''deferred'' \<Longrightarrow> expired (i, oc) (Inl Interrupted) [ReportFailed (intent_id i) reason (Inl InterruptFault)]"

lemma spec_expire_one: "spec (expire_one sv rc (i, oc)) (expired (i, oc))"
proof -
  have "spec (deferral_expired sv rc i) (\<lambda>r ls. ls = [] \<and> r \<in> range Inr)"
    unfolding deferral_expired_def by (intro spec_rules) auto
  note check = this
  show ?thesis
    unfolding expire_one_def prod.case
    by (intro spec_rules spec_use [OF check] spec_drop_deferral spec_weaken [OF spec_fail]) 
      (auto intro: expired.intros)
qed

subsection \<open>A poll\<close>

definition reports_nothing :: "ev \<Rightarrow> bool" where
  "reports_nothing e \<longleftrightarrow> mutation e = None \<and> \<not> is_report e"

inductive poll :: "reconciler \<Rightarrow> (exn, run_outcome list) result \<Rightarrow> ev list \<Rightarrow> bool" for rc where
  not_begun: "list_all reports_nothing ls \<Longrightarrow> poll rc (Inl Interrupted) ls"
| not_polled: "list_all reports_nothing ls \<Longrightarrow> poll rc (Inl (raise_fault f)) (ls @ [PollAccepted (Inl f)])"
| broken: "list_all reports_nothing ls \<Longrightarrow> each (reconciled rc) intents (Inl e) l1 \<Longrightarrow>
    poll rc (Inl e) (ls @ PollAccepted (Inr intents) # l1)"
| finished: "list_all reports_nothing ls \<Longrightarrow> each (reconciled rc) intents (Inr outcomes) l1 \<Longrightarrow>
    each expired (zip intents outcomes) r l2 \<Longrightarrow> poll rc r (ls @ PollAccepted (Inr intents) # l1 @ l2)"

lemma local_silent: "local_ev e \<Longrightarrow> reports_nothing e"
  by (cases e) (auto simp: reports_nothing_def)

lemma emits_policy_matches: "emits reports_nothing (policy_matches sv p i)"
  unfolding policy_matches_def
  by (intro emits_rules emits_weaken [OF emits_patch_paths local_silent])
    (auto split: exn.splits intro: emits_rules)

lemma emits_first_match: "emits reports_nothing (first_match sv i ps)"
  by (induction ps) (auto intro!: emits_rules emits_policy_matches)

lemma spec_swallowed:
  assumes "emits P m" "\<And>ls. list_all P ls \<Longrightarrow> Q (Inl Interrupted) ls" "\<And>a ls. list_all P ls \<Longrightarrow> Q (Inr a) ls"
  shows "spec (ptry m (swallow (preturn a))) Q"
  by (rule spec_handle [OF assms(1) [unfolded emits_def]])
    (auto simp: swallow_def is_exception_def assms split: if_splits intro: spec_preturn)

lemma spec_auto_accept_one:
  "spec (auto_accept_one sv c protected i) (\<lambda>r ls. list_all reports_nothing ls \<and> (\<forall>e. r = Inl e \<longrightarrow> e = Interrupted))"
proof -
  have "emits reports_nothing (if legacy_execution_excluded i protected then preturn []
        else pbind (evaluate sv c i) (\<lambda>a. case a of None \<Rightarrow> preturn []
          | Some acc \<Rightarrow> pbind (accept_call sv (intent_id i) acc (revision i) (canonical_intent_digest i) None) (\<lambda>_.
              preturn [(intent_id i, acc)])))"
    unfolding evaluate_def accept_call_def
    by (intro emits_rules emits_pcall)
      (auto simp: reports_nothing_def split: option.splits intro!: emits_rules emits_first_match)
  then show ?thesis unfolding auto_accept_one_def by (rule spec_swallowed) simp_all
qed

lemma each_silent:
  "each (\<lambda>x r ls. list_all P ls \<and> (\<forall>e. r = Inl e \<longrightarrow> e = Interrupted)) xs r ls \<Longrightarrow>
    list_all P ls \<and> (\<forall>e. r = Inl e \<longrightarrow> e = Interrupted)"
  by (induction rule: each.induct) auto

lemma spec_auto_accept:
  "spec (apply_auto_accept sv config protected) (\<lambda>r ls. list_all reports_nothing ls \<and> (\<forall>e. r = Inl e \<longrightarrow> e = Interrupted))"
proof -
  have polled: "spec (ptry (pbind (pcall (sv_poll_proposed sv) PollProposed) (\<lambda>is. preturn (Some is))) (swallow (preturn None)))
      (\<lambda>r ls. list_all reports_nothing ls \<and> (\<forall>e. r = Inl e \<longrightarrow> e = Interrupted))"
    by (rule spec_swallowed, intro emits_rules emits_pcall) (simp_all add: reports_nothing_def)
  show ?thesis
    unfolding apply_auto_accept_def
    by (intro spec_option spec_if spec_preturn spec_seq [OF polled])
      (auto split: option.split intro!: spec_preturn spec_seq [OF spec_peach [OF spec_auto_accept_one]] dest: each_silent)
qed

lemma spec_run_once: "spec (run_once sv rc) (poll rc)"
proof -
  have expiring: "spec (peach (expire_one sv rc) ios) (each expired ios)" for ios
    by (rule spec_peach) (metis prod.exhaust spec_expire_one)
  note loop = spec_peach [OF spec_reconcile_one]
  show ?thesis
    unfolding run_once_def
    by (intro spec_rules spec_use [OF spec_auto_accept] spec_pmodify spec_use [OF loop] spec_use [OF expiring])
      (auto intro: poll.intros)
qed

end
