(* ===== verification/Reconciler_Properties.thy ===== *)
theory Reconciler_Properties
  imports Reconciler_Safety
begin

unbundle bit_operations_syntax

text \<open>
  Properties of a poll of the legacy reconciler, with the poll of one accepted intent, from an empty
  forge, as their witness.
\<close>

subsection \<open>The calls of a program\<close>

definition calls_of :: "'a prog \<Rightarrow> lworld \<Rightarrow> ev list" where
  "calls_of m w = drop (length (lw_calls w)) (lw_calls (snd (m w)))"

lemma spec_calls: "spec m Q \<Longrightarrow> Q (fst (m w)) (calls_of m w)"
  unfolding spec_def calls_of_def by (metis append_eq_conv_conj)

lemma poll_calls: "poll rc (fst (run_once sv rc w)) (calls_of (run_once sv rc) w)"
  by (rule spec_calls [OF spec_run_once])

subsection \<open>Where a mutation comes from\<close>

lemma quiet_silent: "quiet e \<Longrightarrow> reports_nothing e"
  by (cases e) (auto simp: quiet_def reports_nothing_def)

lemma own_mutation: "own_ev i branch dir e \<Longrightarrow> mutation e = Some m \<Longrightarrow> m = (in_repository i, branch)"
  by (cases e) (auto simp: quiet_def)

lemma own_unreported: "own_ev i branch dir e \<Longrightarrow> \<not> is_report e"
  by (cases e) (auto simp: quiet_def)

lemma no_mutation: "local_ev e \<Longrightarrow> mutation e \<noteq> Some m" "quiet e \<Longrightarrow> mutation e \<noteq> Some m"
  by (auto dest: local_silent quiet_silent simp: reports_nothing_def)

lemma no_report: "local_ev e \<Longrightarrow> \<not> is_report e" "quiet e \<Longrightarrow> \<not> is_report e"
  by (auto dest: local_silent quiet_silent simp: reports_nothing_def)

lemma attempted_ev:
  "attempted rc i acc branch base dir r ls \<Longrightarrow> e \<in> set ls \<Longrightarrow> local_ev e \<or> own_ev i branch dir e"
  unfolding attempted_def list_all_iff by auto

lemma ventured_ev:
  assumes "ventured rc i acc r ls" "e \<in> set ls"
  shows "quiet e \<or> local_ev e \<or> (\<exists>dir. own_ev i (branch_for (rc_config rc) i) dir e)"
proof -
  obtain base dir l la where "ls = l @ la" "list_all quiet l" "attempted rc i acc (branch_for (rc_config rc) i) base dir r la"
    using assms(1) unfolding ventured_def by blast
  then show ?thesis using assms(2) by (auto simp: list_all_iff dest: attempted_ev)
qed

lemma ventured_unreported: "ventured rc i acc r ls \<Longrightarrow> e \<in> set ls \<Longrightarrow> \<not> is_report e"
  using ventured_ev no_report own_unreported by blast

definition unprotected :: "reconciler \<Rightarrow> string \<Rightarrow> string \<Rightarrow> ev list \<Rightarrow> bool" where
  "unprotected rc repo branch ls \<longleftrightarrow>
    (\<exists>base. DefaultBranch repo (Inr base) \<in> set ls \<and> \<not> refuse_if_protected branch (base # protected_branches (rc_config rc)))"

lemma ventured_mutation:
  assumes "ventured rc i acc r ls" "e \<in> set ls" "mutation e = Some m"
  shows "authorised rc i acc \<and> m = (in_repository i, branch_for (rc_config rc) i) \<and>
    unprotected rc (in_repository i) (branch_for (rc_config rc) i) ls"
proof -
  have "m = (in_repository i, branch_for (rc_config rc) i)"
    using ventured_ev [OF assms(1,2)] no_mutation own_mutation assms(3) by blast
  moreover have "unprotected rc (in_repository i) (branch_for (rc_config rc) i) ls"
    using assms(1) unfolding ventured_def unprotected_def by (elim conjE exE) auto
  ultimately show ?thesis using assms(1) by (simp add: ventured_def)
qed

lemma unprotected_mono: "unprotected rc repo branch ls \<Longrightarrow> set ls \<subseteq> set ls' \<Longrightarrow> unprotected rc repo branch ls'"
  unfolding unprotected_def by blast

lemma processed_mutation:
  assumes "processed rc i r ls" "e \<in> set ls" "mutation e = Some m"
  shows "\<exists>acc. authorised rc i acc \<and> m = (in_repository i, branch_for (rc_config rc) i) \<and>
    unprotected rc (in_repository i) (branch_for (rc_config rc) i) ls"
  using assms
proof (cases rule: processed.cases)
  case stopped
  then have "reports_nothing e" using assms(2) by (auto simp: list_all_iff intro: quiet_silent)
  then show ?thesis using assms(3) by (simp add: reports_nothing_def)
next
  case (reported acc sha pr la ans)
  then have "e \<in> set la" using assms(2,3) by (auto simp: report_of_def)
  from ventured_mutation [OF reported(3) this assms(3)] show ?thesis
    using reported(2) by (auto elim: unprotected_mono)
next
  case (unreported acc sha pr la)
  then have "e \<in> set la" using assms(2,3) by (auto simp: report_of_def)
  from ventured_mutation [OF unreported(3) this assms(3)] show ?thesis
    using unreported(2) by (auto elim: unprotected_mono)
qed (use ventured_mutation in \<open>fastforce+\<close>)

lemma reconciled_events:
  assumes "reconciled rc i r ls"
  obtains r' l l' where "processed rc i r' l" "ls = l @ l'" "\<forall>e \<in> set l'. mutation e = None"
  using assms by (cases rule: reconciled.cases) (fastforce intro: that)+

lemma expired_silent: "expired io r ls \<Longrightarrow> e \<in> set ls \<Longrightarrow> mutation e = None"
  by (induction rule: expired.induct) auto

lemma poll_mutation:
  assumes "poll rc r ls" "e \<in> set ls" "mutation e = Some m"
  obtains intents l1 res where "PollAccepted (Inr intents) \<in> set ls" "each (reconciled rc) intents res l1"
    "e \<in> set l1" "set l1 \<subseteq> set ls"
  using assms
proof (cases rule: poll.cases)
  case (finished l intents outcomes l1 l2)
  have "e \<notin> set l2"
    using each_events [OF finished(4)] expired_silent assms(3) by fastforce
  then show ?thesis using finished assms(2,3) that by (auto simp: list_all_iff reports_nothing_def)
qed (auto simp: list_all_iff reports_nothing_def intro: that)

subsection \<open>What is pushed\<close>

lemma append_split:
  assumes "xs @ ys = la @ e # lb"
  obtains k where "xs = la @ e # k" | k where "la = xs @ k" "ys = k @ e # lb"
  using assms by (auto simp: append_eq_append_conv2 Cons_eq_append_conv append_eq_Cons_conv)

lemma each_split:
  "each Q xs r ls \<Longrightarrow> ls = la @ e # lb \<Longrightarrow>
    \<exists>x \<in> set xs. \<exists>r' l0 l1 l2. Q x r' (l1 @ e # l2) \<and> la = l0 @ l1"
proof (induction arbitrary: la rule: each.induct)
  case (each_ok x y l xs ys ls)
  from each_ok.prems show ?case
  proof (rule append_split)
    fix k assume "la = l @ k" "ls = k @ e # lb"
    with each_ok.IH show ?thesis by (metis append_assoc list.set_intros(2))
  qed (use each_ok.hyps(1) in \<open>force intro: exI [of _ "[]"]\<close>)
next
  case (each_later x y l xs e' ls)
  from each_later.prems show ?case
  proof (rule append_split)
    fix k assume "la = l @ k" "ls = k @ e # lb"
    with each_later.IH show ?thesis by (metis append_assoc list.set_intros(2))
  qed (use each_later.hyps(1) in \<open>force intro: exI [of _ "[]"]\<close>)
next
  case (each_raise x e' l xs)
  then show ?case by (metis append_Nil list.set_intros(1))
qed simp

text \<open>A push follows a commit of vetted changes in its own directory, with nothing put into the tree in between.\<close>

definition pushes_vetted :: "reconciler \<Rightarrow> effect_intent \<Rightarrow> string \<Rightarrow> ev list \<Rightarrow> bool" where
  "pushes_vetted rc i dir la \<longleftrightarrow>
    (\<exists>acc made changes l0 lv lc.
       la = l0 @ lv @ lc \<and> vetted (diff_policy_for (rc_config rc) (in_repository i)) dir changes lv \<and> scoped i acc changes \<and>
       committed i acc dir made lc \<and> list_all keeps_tree lc)"

lemma pushes_vetted_later: "pushes_vetted rc i dir la \<Longrightarrow> pushes_vetted rc i dir (l @ la)"
  unfolding pushes_vetted_def by (metis append_assoc)

lemma own_keeps: "own_ev i branch dir e \<Longrightarrow> keeps_tree e"
  by (cases e) (auto simp: quiet_def)

lemma attempted_push:
  assumes "attempted rc i acc branch base dir r ls" "ls = la @ PushBranch repo b d ans # lb"
  shows "pushes_vetted rc i d la"
proof -
  obtain made lp lq where a: "ls = lp @ lq" "list_all local_ev lp" "list_all (own_ev i branch dir) lq" "prepared rc i acc dir made lp"
    using assms unfolding attempted_def by auto
  then obtain l where l: "la = lp @ l" "lq = l @ PushBranch repo b d ans # lb"
    using assms(2) by (auto simp: append_eq_append_conv2 Cons_eq_append_conv append_eq_Cons_conv)
  have d: "d = dir" using a(3) l(2) by simp
  obtain l1 l2 changes where p: "lp = l1 @ l2" "vetted (diff_policy_for (rc_config rc) (in_repository i)) dir changes l1"
    "scoped i acc changes" "committed i acc dir made l2" "list_all keeps_tree l2"
    using a(4) unfolding prepared_def by blast
  have "committed i acc dir made (l2 @ l)" by (rule committed_mono [OF p(4)]) simp
  moreover have "list_all keeps_tree (l2 @ l)" using p(5) a(3) l(2) by (auto simp: list_all_iff intro: own_keeps)
  ultimately have "la = [] @ l1 @ (l2 @ l) \<and> vetted (diff_policy_for (rc_config rc) (in_repository i)) d changes l1 \<and>
      scoped i acc changes \<and> committed i acc d made (l2 @ l) \<and> list_all keeps_tree (l2 @ l)"
    using p l(1) d by simp
  then show ?thesis unfolding pushes_vetted_def by blast
qed

lemma ventured_push:
  assumes "ventured rc i acc r ls" "ls = la @ PushBranch repo b d ans # lb"
  shows "pushes_vetted rc i d la"
proof -
  obtain base dir l l' where v: "ls = l @ l'" "list_all quiet l" "attempted rc i acc (branch_for (rc_config rc) i) base dir r l'"
    using assms(1) unfolding ventured_def by blast
  obtain k where "la = l @ k" "l' = k @ PushBranch repo b d ans # lb"
    using v(1,2) assms(2) by (auto simp: append_eq_append_conv2 Cons_eq_append_conv append_eq_Cons_conv quiet_def)
  then show ?thesis using attempted_push [OF v(3)] pushes_vetted_later by blast
qed

lemma reconciled_push:
  assumes "reconciled rc i r ls" "ls = la @ PushBranch repo b d ans # lb"
  shows "pushes_vetted rc i d la"
proof -
  obtain r' l l' where l: "processed rc i r' l" "ls = l @ l'" "\<forall>e \<in> set l'. mutation e = None"
    using assms(1) by (rule reconciled_events)
  then obtain lb' where lb: "l = la @ PushBranch repo b d ans # lb'"
    using assms(2) by (fastforce simp: append_eq_append_conv2 Cons_eq_append_conv append_eq_Cons_conv)
  from l(1) show ?thesis
  proof (cases rule: processed.cases)
    case (reported acc sha pr l1 ans')
    then obtain k where "l1 = la @ PushBranch repo b d ans # k"
      using lb by (cases lb' rule: rev_cases) (auto simp: report_of_def)
    then show ?thesis using ventured_push [OF reported(3)] by blast
  next
    case (unreported acc sha pr l1)
    then obtain k where "l1 = la @ PushBranch repo b d ans # k"
      using lb by (cases lb' rule: rev_cases) (auto simp: report_of_def)
    then show ?thesis using ventured_push [OF unreported(3)] by blast
  qed (use lb ventured_push in \<open>auto simp: list_all_iff quiet_def\<close>)
qed

lemma poll_push:
  assumes "poll rc r ls" "ls = la @ PushBranch repo b d ans # lb"
  obtains intents i where "PollAccepted (Inr intents) \<in> set la" "i \<in> set intents" "pushes_vetted rc i d la"
proof -
  have through: "\<exists>i \<in> set intents. pushes_vetted rc i d la"
    if h: "each (reconciled rc) intents res l1" "l1 = k @ PushBranch repo b d ans # k'" "la = l @ PollAccepted (Inr intents) # k"
    for intents res l1 k k' l
  proof -
    obtain i r' l0 l2 l3 where i: "i \<in> set intents" "reconciled rc i r' (l2 @ PushBranch repo b d ans # l3)" "k = l0 @ l2"
      using each_split [OF h(1,2)] by blast
    have "la = (l @ PollAccepted (Inr intents) # l0) @ l2" using i(3) h(3) by simp
    then have "pushes_vetted rc i d la" using reconciled_push [OF i(2) refl] pushes_vetted_later by metis
    then show ?thesis using i(1) by blast
  qed
  have start: "\<exists>k. la = l @ PollAccepted (Inr intents) # k \<and> l1 = k @ PushBranch repo b d ans # lb"
    if "ls = l @ PollAccepted (Inr intents) # l1" "list_all reports_nothing l" for l l1 intents
    using that assms(2) by (auto simp: append_eq_append_conv2 Cons_eq_append_conv append_eq_Cons_conv reports_nothing_def)
  from assms(1) show ?thesis
  proof (cases rule: poll.cases)
    case (broken l intents e l1)
    then obtain k where k: "la = l @ PollAccepted (Inr intents) # k" "l1 = k @ PushBranch repo b d ans # lb"
      using start by blast
    have "PollAccepted (Inr intents) \<in> set la" using k(1) by simp
    with through [OF broken(4) k(2,1)] that show ?thesis by blast
  next
    case (finished l intents outcomes l1 l2)
    then obtain k where k: "la = l @ PollAccepted (Inr intents) # k" "l1 @ l2 = k @ PushBranch repo b d ans # lb"
      using start by blast
    have "PushBranch repo b d ans \<notin> set l2"
      using each_events [OF finished(4)] expired_silent by fastforce
    then obtain k' where k': "l1 = k @ PushBranch repo b d ans # k'" using k(2) by (auto elim: append_split)
    have "PollAccepted (Inr intents) \<in> set la" using k(1) by simp
    with through [OF finished(3) k' k(1)] that show ?thesis by blast
  qed (use assms(2) in \<open>auto simp: list_all_iff reports_nothing_def append_eq_append_conv2 Cons_eq_append_conv append_eq_Cons_conv\<close>)
qed

subsection \<open>Outcomes\<close>

definition named_outcome :: "run_outcome \<Rightarrow> ev \<Rightarrow> bool" where
  "named_outcome oc e \<longleftrightarrow>
    (case e of
       ReportApplied i sha url a r d ans \<Rightarrow> oc = \<lparr>oc_intent_id = i, oc_state = ''applied'', oc_commit_sha = Some sha,
         oc_pr_url = Some url, oc_reason = None, oc_acceptor = Some a\<rparr>
     | ReportFailed i reason ans \<Rightarrow> oc_intent_id oc = i \<and> oc_state oc = ''failed'' \<and> oc_reason oc = Some reason
     | _ \<Rightarrow> False)"

lemma processed_report:
  assumes "processed rc i r ls" "e \<in> set ls" "is_report e"
  shows "r = Inl Interrupted \<or> (\<exists>oc. r = Inr oc \<and> named_outcome oc e)"
  using assms
proof (cases rule: processed.cases)
  case stopped
  then show ?thesis using assms(2,3) no_report(2) by (auto simp: list_all_iff)
next
  case (reported acc sha pr la ans)
  then show ?thesis using assms(2,3) ventured_unreported [OF reported(3)]
    by (auto simp: report_of_def named_outcome_def applied_outcome_def)
qed (use ventured_unreported in \<open>auto\<close>)

lemma reconciled_report:
  assumes "reconciled rc i r ls" "e \<in> set ls" "is_report e"
  shows "r = Inl Interrupted \<or> (\<exists>oc. r = Inr oc \<and> named_outcome oc e)"
  using assms
proof (cases rule: reconciled.cases)
  case (failed e' la reason ans)
  have "e = ReportFailed (intent_id i) reason ans"
    using processed_report [OF failed(3) _ assms(3)] failed(2,4) assms(2) by auto
  then show ?thesis using failed(1) by (simp add: named_outcome_def failed_outcome_def new_outcome_def)
qed (use assms(2,3) in \<open>auto dest: processed_report\<close>)

lemma each_report:
  assumes "each Q xs r ls" "r = Inr ys" "e \<in> set ls" "is_report e"
    "\<And>x y l. Q x (Inr y) l \<Longrightarrow> e \<in> set l \<Longrightarrow> named_outcome y e"
  shows "\<exists>y \<in> set ys. named_outcome y e"
  using assms by (induction arbitrary: ys rule: each.induct) auto

lemma named_not_deferred: "named_outcome oc e \<Longrightarrow> oc_state oc \<noteq> ''deferred''"
  by (cases e) (auto simp: named_outcome_def)

lemma expired_kept: "expired io (Inr out) l \<Longrightarrow> oc_state (snd io) \<noteq> ''deferred'' \<Longrightarrow> out = snd io"
  by (cases rule: expired.cases) auto

lemma expired_report:
  "expired io (Inr out) l \<Longrightarrow> e \<in> set l \<Longrightarrow> named_outcome out e"
  by (cases rule: expired.cases) (auto simp: named_outcome_def failed_outcome_def new_outcome_def)

lemma expired_keeps:
  assumes "each expired (zip intents ocs) (Inr outs) l2" "oc \<in> set ocs" "oc_state oc \<noteq> ''deferred''" "length intents = length ocs"
  shows "oc \<in> set outs"
proof -
  have all: "list_all2 (\<lambda>io out. \<exists>l. expired io (Inr out) l) (zip intents ocs) outs"
    by (rule each_results [OF assms(1) refl])
  obtain k where k: "k < length ocs" "ocs ! k = oc" using assms(2) by (auto simp: in_set_conv_nth)
  then have "\<exists>l. expired (intents ! k, oc) (Inr (outs ! k)) l"
    using list_all2_nthD [OF all, of k] assms(4) by simp
  then have "outs ! k = oc" using expired_kept assms(3) by fastforce
  then show ?thesis using k(1) list_all2_lengthD [OF all] assms(4) by (metis length_zip min.idem nth_mem)
qed

lemma reconciled_intents: "each (reconciled rc) intents (Inr ocs) l1 \<Longrightarrow> length intents = length ocs"
  by (drule each_results [OF _ refl]) (rule list_all2_lengthD)

lemma processed_id: "processed rc i (Inr oc) ls \<Longrightarrow> oc_intent_id oc = intent_id i"
  by (cases rule: processed.cases) (auto simp: excluded_outcome_def new_outcome_def applied_outcome_def)

lemma reconciled_id: "reconciled rc i (Inr oc) ls \<Longrightarrow> oc_intent_id oc = intent_id i"
  by (cases rule: reconciled.cases) (auto simp: failed_outcome_def new_outcome_def dest: processed_id)

lemma expired_id: "expired (i, oc) (Inr out) ls \<Longrightarrow> oc_intent_id oc = intent_id i \<Longrightarrow> oc_intent_id out = intent_id i"
  by (cases rule: expired.cases) (auto simp: failed_outcome_def new_outcome_def)

lemma outcome_ids:
  assumes "each (reconciled rc) intents (Inr ocs) l1" "each expired (zip intents ocs) (Inr outs) l2"
  shows "map oc_intent_id outs = map intent_id intents"
proof -
  have a: "list_all2 (\<lambda>i oc. \<exists>l. reconciled rc i (Inr oc) l) intents ocs" by (rule each_results [OF assms(1) refl])
  have b: "list_all2 (\<lambda>io out. \<exists>l. expired io (Inr out) l) (zip intents ocs) outs" by (rule each_results [OF assms(2) refl])
  have "oc_intent_id (outs ! k) = intent_id (intents ! k)" if "k < length outs" for k
  proof -
    have k: "k < length intents" "k < length ocs"
      using that list_all2_lengthD [OF a] list_all2_lengthD [OF b] by simp_all
    then have "\<exists>l. expired (intents ! k, ocs ! k) (Inr (outs ! k)) l" "\<exists>l. reconciled rc (intents ! k) (Inr (ocs ! k)) l"
      using list_all2_nthD [OF a, of k] list_all2_nthD [OF b, of k] by simp_all
    then show ?thesis using expired_id reconciled_id by blast
  qed
  then show ?thesis
    using list_all2_lengthD [OF a] list_all2_lengthD [OF b] by (simp add: list_eq_iff_nth_eq)
qed

lemma interrupted_only:
  "reconciled rc i (Inl e) ls \<Longrightarrow> e = Interrupted" "expired io (Inl e) ls \<Longrightarrow> e = Interrupted"
  by (cases rule: reconciled.cases, auto) (cases rule: expired.cases, auto)

lemma poll_ends:
  assumes "poll rc r ls"
  shows "case r of Inl e \<Rightarrow> e = Interrupted \<or> (\<exists>f. PollAccepted (Inl f) \<in> set ls \<and> e = raise_fault f)
    | Inr outs \<Rightarrow> \<exists>intents. PollAccepted (Inr intents) \<in> set ls \<and> map oc_intent_id outs = map intent_id intents"
  using assms
proof (cases rule: poll.cases)
  case (broken l intents e l1)
  then show ?thesis using each_raises [OF broken(4) refl] interrupted_only(1) by auto
next
  case (finished l intents ocs l1 l2)
  show ?thesis
  proof (cases r)
    case (Inl e)
    then show ?thesis using each_raises [OF finished(4) Inl] interrupted_only(2) by auto
  next
    case (Inr outs)
    then show ?thesis using outcome_ids [OF finished(3)] finished(1,4) by auto
  qed
qed auto

lemma poll_report:
  assumes "poll rc (Inr outs) ls" "e \<in> set ls" "is_report e"
  shows "\<exists>oc \<in> set outs. named_outcome oc e"
  using assms(1)
proof (cases rule: poll.cases)
  case (finished l intents ocs l1 l2)
  consider "e \<in> set l1" | "e \<in> set l2" using assms(2,3) finished(1,2) by (auto simp: list_all_iff reports_nothing_def)
  then show ?thesis
  proof cases
    case 1
    then obtain oc where oc: "oc \<in> set ocs" "named_outcome oc e"
      using each_report [OF finished(3) refl _ assms(3)] reconciled_report assms(3) by fastforce
    then show ?thesis
      using expired_keeps [OF finished(4) oc(1) named_not_deferred [OF oc(2)] reconciled_intents [OF finished(3)]] by blast
  next
    case 2
    then show ?thesis using each_report [OF finished(4) refl _ assms(3)] expired_report by blast
  qed
qed

text \<open>What a named commit stands for.\<close>

definition fulfilled :: "reconciler \<Rightarrow> effect_intent \<Rightarrow> run_outcome \<Rightarrow> string \<Rightarrow> ev list \<Rightarrow> bool" where
  "fulfilled rc i oc sha ls \<longleftrightarrow>
    (\<exists>acc pr base dir made ans.
       authorised rc i acc \<and> oc = applied_outcome i acc sha pr \<and> committed i acc dir made ls \<and>
       published rc i (branch_for (rc_config rc) i) base dir made sha pr ls \<and> report_of i acc sha pr ans \<in> set ls)"

lemma fulfilled_mono: "fulfilled rc i oc sha ls \<Longrightarrow> set ls \<subseteq> set ls' \<Longrightarrow> fulfilled rc i oc sha ls'"
  unfolding fulfilled_def
  by (elim exE conjE, intro exI conjI) (assumption | erule (1) committed_mono | erule (1) published_mono | erule (1) subsetD)+

lemma ventured_applied:
  assumes "ventured rc i acc (Inr (sha, pr)) la"
  shows "\<exists>base dir made. committed i acc dir made la \<and> published rc i (branch_for (rc_config rc) i) base dir made sha pr la"
proof -
  obtain base dir l l' where v: "la = l @ l'" "attempted rc i acc (branch_for (rc_config rc) i) base dir (Inr (sha, pr)) l'"
    using assms unfolding ventured_def by blast
  then obtain made lp lq where a: "l' = lp @ lq" "prepared rc i acc dir made lp"
    "published rc i (branch_for (rc_config rc) i) base dir made sha pr lq"
    unfolding attempted_def by auto
  have "published rc i (branch_for (rc_config rc) i) base dir made sha pr la"
    by (rule published_mono [OF a(3)]) (auto simp: v a(1))
  moreover have "committed i acc dir made la"
    using a(2) unfolding prepared_def by (auto intro: committed_mono simp: v a(1))
  ultimately show ?thesis by blast
qed

lemma processed_applied:
  assumes "processed rc i (Inr oc) ls" "oc_commit_sha oc = Some sha"
  shows "fulfilled rc i oc sha ls"
  using assms
proof (cases rule: processed.cases)
  case (reported acc sha' pr la ans)
  have sha: "sha' = sha" using reported(1) assms(2) by (simp add: applied_outcome_def)
  obtain base dir made where "committed i acc dir made la" "published rc i (branch_for (rc_config rc) i) base dir made sha pr la"
    using ventured_applied reported(3) sha by blast
  then have p: "committed i acc dir made ls" "published rc i (branch_for (rc_config rc) i) base dir made sha pr ls"
    using reported(2) by (auto intro: committed_mono published_mono)
  have "authorised rc i acc" using reported(3) by (simp add: ventured_def)
  moreover have "report_of i acc sha pr ans \<in> set ls" using reported(2) sha by simp
  ultimately show ?thesis
    unfolding fulfilled_def using reported(1) sha p by blast
qed (simp add: excluded_outcome_def new_outcome_def)

lemma reconciled_applied: "reconciled rc i (Inr oc) ls \<Longrightarrow> oc_commit_sha oc = Some sha \<Longrightarrow> fulfilled rc i oc sha ls"
  by (cases rule: reconciled.cases) (auto simp: failed_outcome_def new_outcome_def dest: processed_applied)

lemma expired_applied: "expired io (Inr oc) ls \<Longrightarrow> oc_commit_sha oc \<noteq> None \<Longrightarrow> oc = snd io"
  by (cases rule: expired.cases) (auto simp: failed_outcome_def new_outcome_def)

lemma each_later_results:
  "each Q xs r ls \<Longrightarrow> r = Inr ys \<Longrightarrow> y \<in> set ys \<Longrightarrow> \<exists>x \<in> set xs. \<exists>l. Q x (Inr y) l \<and> set l \<subseteq> set ls"
  by (induction arbitrary: ys rule: each.induct) (auto, blast+)

lemma poll_applied:
  assumes "poll rc (Inr outs) ls" "oc \<in> set outs" "oc_commit_sha oc = Some sha"
  shows "\<exists>intents i. PollAccepted (Inr intents) \<in> set ls \<and> i \<in> set intents \<and> fulfilled rc i oc sha ls"
  using assms(1)
proof (cases rule: poll.cases)
  case (finished l intents ocs l1 l2)
  obtain io k where "io \<in> set (zip intents ocs)" "expired io (Inr oc) k"
    using each_later_results [OF finished(4) refl assms(2)] by blast
  then have "oc \<in> set ocs" using expired_applied assms(3) by (metis in_set_zipE option.distinct(1) prod.collapse)
  then obtain i k where i: "i \<in> set intents" "reconciled rc i (Inr oc) k" "set k \<subseteq> set l1"
    using each_later_results [OF finished(3) refl] by blast
  have "fulfilled rc i oc sha ls"
    by (rule fulfilled_mono [OF reconciled_applied [OF i(2) assms(3)]]) (use i(3) finished(1) in auto)
  then show ?thesis using i(1) finished(1) by auto
qed

subsection \<open>A poll of one accepted intent\<close>

text \<open>The result of a program and the changes and reports among its calls, wherever it starts.\<close>

definition acts :: "'a prog \<Rightarrow> (exn, 'a) result \<Rightarrow> ev list \<Rightarrow> bool" where
  "acts m r es \<longleftrightarrow> spec m (\<lambda>r' ls. r' = r \<and> filter (\<lambda>e. \<not> reports_nothing e) ls = es)"

lemma acts_spec: "acts m r es \<Longrightarrow> (\<And>ls. filter (\<lambda>e. \<not> reports_nothing e) ls = es \<Longrightarrow> Q r ls) \<Longrightarrow> spec m Q"
  unfolding acts_def by (erule spec_weaken) blast

lemma acts_bind: "acts m (Inr a) es \<Longrightarrow> acts (f a) r es' \<Longrightarrow> acts (pbind m f) r (es @ es')"
  unfolding acts_def by (rule spec_seq, assumption) (auto elim: spec_weaken)

lemma acts_bind0: "acts m (Inr a) [] \<Longrightarrow> acts (f a) r es \<Longrightarrow> acts (pbind m f) r es"
  using acts_bind by fastforce

lemma acts_try: "acts m (Inr a) es \<Longrightarrow> acts (ptry m h) (Inr a) es"
  unfolding acts_def by (rule spec_handle, assumption) auto

lemma acts_finally: "acts m (Inr a) es \<Longrightarrow> acts f (Inr ()) [] \<Longrightarrow> acts (pfinally m f) (Inr a) es"
  unfolding acts_def by (intro spec_pfinally) (erule spec_weaken, auto elim!: spec_weaken)

lemma acts_call: "(\<And>t. f t = Inr a) \<Longrightarrow> acts (pcall f mk) (Inr a) (if reports_nothing (mk (Inr a)) then [] else [mk (Inr a)])"
  by (simp add: acts_def spec_def pcall_def)

lemma acts_read: "(\<And>t. f t = a) \<Longrightarrow> acts (pread f) (Inr a) []"
  by (simp add: acts_def spec_def pread_def)

lemma acts_note: "reports_nothing e \<Longrightarrow> acts (pnote e) (Inr ()) []"
  by (simp add: acts_def spec_pnote)

lemma acts_modify: "(\<And>w. lw_calls (f w) = lw_calls w) \<Longrightarrow> acts (pmodify f) (Inr ()) []"
  by (simp add: acts_def spec_pmodify)

lemma acts_return: "acts (preturn a) (Inr a) []"
  by (simp add: acts_def spec_preturn)

lemma acts_answer: "r = Inr a \<Longrightarrow> acts (panswer r) (Inr a) []"
  by (simp add: acts_def spec_panswer)

lemma acts_need: "c \<Longrightarrow> acts (pneed e c) (Inr ()) []"
  by (simp add: pneed_def acts_return)

lemma acts_some: "x = Some a \<Longrightarrow> acts (psome e x) (Inr a) []"
  by (simp add: psome_def acts_return)

definition demo_sha :: string where
  "demo_sha = replicate 40 (CHR ''c'')"

definition demo_stat :: bytes where
  "demo_stat = [49, 9, 48, 9, 97, 0]"

definition demo_rows :: bytes where
  "demo_rows = utf8_encode (CHR '':'' # replicate 6 (CHR ''0'') @ '' 100644 '' @ replicate 40 (CHR ''0'') @ '' '' @ demo_sha @ '' A'') @ [0, 97, 0]"

definition demo_blob :: bytes where
  "demo_blob = utf8_encode (demo_sha @ '' blob 2'') @ [10, 120, 10, 10]"

definition demo_text :: "string list \<Rightarrow> string completed" where
  "demo_text args = \<lparr>returncode = 0, stdout = (if verb args = ''rev-parse'' then demo_sha else []), stderr = []\<rparr>"

definition demo_raw :: "string list \<Rightarrow> bytes completed" where
  "demo_raw args = \<lparr>returncode = 0, stdout = (if args = raw_args then demo_rows else if args = batch_args then demo_blob
     else demo_stat), stderr = []\<rparr>"

definition demo_pr :: pull_request_result where
  "demo_pr = \<lparr>pr_url = ''url'', pr_number = Some 1, pr_base_branch = Some ''main'', pr_head_sha = Some demo_sha,
     pr_state = ''open'', pr_head_ref = None\<rparr>"

definition demo_draft :: effect_intent where
  "demo_draft = \<lparr>intent_id = ''e1'', in_run_id = ''r1'', in_repository = ''org/repo'', base_commit = replicate 40 (CHR ''a''),
     in_title = ''t'', rationale = ''why'', unified_diff = ''+x'', in_workspace_id = ''w'', proposer_principal = ''agent'',
     in_item_id = 1, revision = 1, canonical_intent_digest = [], acceptance = None, effect_kind = ''diff'',
     in_acceptor = Some (OperatorAcceptor ''alice''), release_digest = None\<rparr>"

definition demo_intent :: effect_intent where
  "demo_intent = demo_draft\<lparr>canonical_intent_digest := canonical_digest demo_draft,
     acceptance := Some [(''canonical_intent_digest'', JStr (canonical_digest demo_draft)), (''intent_id'', JStr ''e1''),
       (''intent_revision'', JInt 1), (''acceptor_principal'', JStr ''alice'')]\<rparr>"

definition demo_forge :: forge where
  "demo_forge = \<lparr>sv_git_text = \<lambda>t g. Inr (demo_text (gc_args g)), sv_git_raw = \<lambda>t g. Inr (demo_raw (gc_args g)),
     sv_ssh_keygen = \<lambda>t p. Inl (OtherFault ''OSError''), sv_temp = \<lambda>t. ''/tmp/x'', sv_environ = \<lambda>t. [], sv_clock = \<lambda>t. 0,
     sv_text = \<lambda>e. [], sv_source_file = \<lambda>t n. Inr [], sv_clone_url = \<lambda>t r. Inr ''git@forge'', sv_default_branch = \<lambda>t r. Inr ''main'',
     sv_find_branch = \<lambda>t r b. Inr None, sv_find_pull_request = \<lambda>t r b. Inr None, sv_push_branch = \<lambda>t r b d. Inr (),
     sv_open_pull_request = \<lambda>t q. Inr demo_pr, sv_poll_proposed = \<lambda>t. Inr [], sv_poll_accepted = \<lambda>t. Inr [demo_intent],
     sv_accept = \<lambda>t i a v d p. Inr (), sv_reject = \<lambda>t i a s v d. Inr (), sv_preflight = None,
     sv_report_applied = \<lambda>t i s u a v d. Inr (), sv_report_failed = \<lambda>t i s. Inr ()\<rparr>"

definition demo_reconciler :: reconciler where
  "demo_reconciler = \<lparr>rc_signing_key = \<lparr>key_format = ''openpgp'', sk_signing_key = ''k'', committer_name = ''n'', committer_email = ''e'',
       allowed_signers_file = None, sk_env = []\<rparr>,
     rc_config = \<lparr>repository_allowlist = [''org/repo''], protected_branches = [], branch_prefix = ''vuoro'', diff_policies = [],
       max_lookup_deferral_seconds = 0, protected_repositories = []\<rparr>, rc_auto_accept = None\<rparr>"

lemma demo_reads: "acts (pread (sv_temp demo_forge)) (Inr ''/tmp/x'') []" "acts (pread (sv_environ demo_forge)) (Inr []) []"
  by (rule acts_read, simp add: demo_forge_def)+

lemma acts_call_for: "acts (git_call_for demo_forge args cwd extra inp file) (Inr \<lparr>gc_args = args, gc_cwd = cwd, gc_input = inp,
      gc_file = file, gc_env = scrubbed_env [] ''/tmp/x'' extra\<rparr>) []"
  unfolding git_call_for_def by (intro acts_bind0 [OF demo_reads(1)] acts_bind0 [OF demo_reads(2)] acts_return)

lemma acts_git_call:
  "gc_args g = args \<Longrightarrow> acts (pcall (\<lambda>t. sv_git_text demo_forge t g) (GitText g)) (Inr (demo_text args)) []"
  "gc_args g = args \<Longrightarrow> acts (pcall (\<lambda>t. sv_git_raw demo_forge t g) (GitRaw g)) (Inr (demo_raw args)) []"
  using acts_call [of "\<lambda>t. sv_git_text demo_forge t g" "demo_text args" "GitText g"]
    acts_call [of "\<lambda>t. sv_git_raw demo_forge t g" "demo_raw args" "GitRaw g"]
  by (simp_all add: demo_forge_def reports_nothing_def)

lemma acts_git: "acts (run_git demo_forge args cwd extra file) (Inr (demo_text args)) []"
  unfolding run_git_def by (intro acts_bind0 [OF acts_call_for] acts_git_call) simp

lemma acts_git_raw: "acts (run_git_raw demo_forge args cwd inp file) (Inr (demo_raw args)) []"
  unfolding run_git_raw_def by (intro acts_bind0 [OF acts_call_for] acts_git_call) simp

definition demo_change :: staged_change where
  "demo_change = \<lparr>sc_path = ''a'', sc_status = ''A'', sc_old_mode = ''000000'', sc_new_mode = ''100644'', sc_binary = False,
     sc_new_sha = demo_sha\<rparr>"

lemma demo_numstat_rows: "numstat_rows demo_stat = Some [([49], [48], ''a'')]"
  by code_simp

lemma demo_raw_changes: "raw_changes (foldl (\<lambda>d row. dict_set (snd (snd row)) (is_binary_row row) d) [] [([49], [48], ''a'')])
    (split_on 0 demo_rows) = Inr [demo_change]"
  by code_simp

lemma demo_blobs: "read_blobs_from demo_blob [demo_sha] [] = Inr [(demo_sha, [120, 10])]"
  by code_simp

lemma demo_change_ok: "check_changes [demo_change] \<lparr>path_allowlist = [], protected_path_patterns = []\<rparr> = None"
  "staged_blob_ok demo_change" "first_violation (staged_text [(demo_sha, [120, 10])]) [demo_change] = None"
  by code_simp+

lemma demo_answers:
  "returncode (demo_text args) = 0" "returncode (demo_raw args) = 0"
  "stdout (demo_raw raw_args) = demo_rows" "stdout (demo_raw stat_args) = demo_stat"
  "stdout (demo_raw batch_args) = demo_blob"
  "stdout (demo_raw (''apply'' # args)) = demo_stat"
  "stdout (demo_text [''-C'', d, ''rev-parse'', ''HEAD'']) = demo_sha"
  by (simp_all add: demo_text_def demo_raw_def raw_args_def stat_args_def batch_args_def)

lemma acts_numstat: "acts (numstat demo_forge diff) (Inr [([49], [48], ''a'')]) []"
  unfolding numstat_def
  by (intro acts_bind0 [OF demo_reads(1)] acts_bind0 [OF acts_git_raw] acts_bind0 [OF acts_need] acts_some)
    (simp_all add: demo_answers demo_numstat_rows)

lemma acts_staged: "acts (staged_changes demo_forge dir) (Inr [demo_change]) []"
  unfolding staged_changes_def raw_args_def [symmetric] stat_args_def [symmetric]
  by (intro acts_bind0 [OF acts_git_raw] acts_bind0 [OF acts_need] acts_bind0 [OF acts_some] acts_answer)
    (simp_all only: demo_answers demo_numstat_rows simp_thms, rule demo_raw_changes)

lemma acts_content: "acts (check_staged_content demo_forge dir [demo_change]) (Inr ()) []"
proof -
  have wanted: "filter (\<lambda>c. sc_status c \<noteq> ''D'') [demo_change] = [demo_change]" "sc_new_sha demo_change = demo_sha"
    by (simp_all add: demo_change_def)
  have "acts (read_blobs demo_forge dir [demo_sha]) (Inr [(demo_sha, [120, 10])]) []"
    unfolding read_blobs_def batch_args_def [symmetric]
    by (simp only: list.distinct if_False, intro acts_bind0 [OF acts_git_raw] acts_bind0 [OF acts_need] acts_answer)
      (simp_all only: demo_answers demo_blobs)
  note blobs = this
  have ids: "rev (remdups (rev (map sc_new_sha [demo_change]))) = [demo_sha]" by (simp add: wanted)
  show ?thesis
    unfolding check_staged_content_def wanted Let_def ids
    by (intro acts_bind0 [OF acts_need] acts_bind0 [OF blobs])
      (simp_all only: list.pred_inject demo_change_ok option.case acts_return simp_thms)
qed

lemma acts_no_violation: "v = None \<Longrightarrow> acts (no_violation v) (Inr ()) []"
  by (simp add: no_violation_def acts_return)

lemma acts_configured: "acts (configure_signing demo_forge dir (rc_signing_key demo_reconciler)) (Inr ()) []"
  unfolding configure_signing_def key_config_def key_git_def
  by (intro acts_bind0 [OF acts_bind0 [OF acts_git acts_need]])
    (simp_all add: demo_answers demo_reconciler_def acts_return)

lemma acts_commit: "acts (commit_signed demo_forge dir t y r i acc (rc_signing_key demo_reconciler)) (Inr demo_sha) []"
proof -
  have "strip demo_sha = demo_sha" by code_simp
  then show ?thesis
    unfolding commit_signed_def key_git_def
    by (intro acts_bind0 [OF acts_configured] acts_bind0 [OF acts_git] acts_bind0 [OF acts_need] acts_bind0 [OF demo_reads(1)])
      (simp_all add: demo_answers acts_return)
qed

lemma acts_clone_url: "acts (pcall (\<lambda>t. sv_clone_url demo_forge t r) (CloneUrl r)) (Inr ''git@forge'') []"
  using acts_call [of "\<lambda>t. sv_clone_url demo_forge t r" "''git@forge''" "CloneUrl r"]
  by (simp add: demo_forge_def reports_nothing_def)

lemma acts_prepared: "acts (prepare_checkout demo_forge demo_reconciler demo_intent dir) (Inr [demo_change]) []"
proof -
  have diff: "unified_diff demo_intent = ''+x''" "base_commit demo_intent = replicate 40 (CHR ''a'')"
    by (simp_all add: demo_intent_def demo_draft_def)
  have policy: "diff_policy_for (rc_config demo_reconciler) (in_repository demo_intent) = \<lparr>path_allowlist = [], protected_path_patterns = []\<rparr>"
    by (simp add: diff_policy_for_def demo_reconciler_def)
  have facts: "check_patch_text ''+x'' = None" "object_id (replicate 40 (CHR ''a''))"
    "rev (remdups (rev (map (\<lambda>(a, d, path). path) [([49 :: 8 word], [48 :: 8 word], ''a'')] @ concat (map rename_sources (splitlines ''+x''))))) = [''a'']"
    "first_violation patch_path_violation [''a''] = None" "\<not> list_ex is_binary_row [([49], [48], ''a'')]"
    by code_simp+
  show ?thesis
    unfolding prepare_checkout_def check_patch_is_text_def patch_paths_def checkout_at_def try_apply_diff_def stage_all_def plain_git_def
    by (rule acts_bind0 acts_try acts_no_violation acts_numstat acts_need acts_clone_url acts_git demo_reads acts_staged
        acts_content acts_return | simp only: diff policy facts demo_answers demo_change_ok simp_thms)+
qed

definition demo_push :: ev where
  "demo_push = PushBranch ''org/repo'' ''vuoro/e1'' ''/tmp/x'' (Inr ())"

definition demo_opened :: ev where
  "demo_opened = OpenPullRequest (pull_request_of demo_intent ''vuoro/e1'' ''main'') (Inr demo_pr)"

definition demo_report :: ev where
  "demo_report = report_of demo_intent (OperatorAcceptor ''alice'') demo_sha demo_pr (Inr ())"

definition demo_outcome :: run_outcome where
  "demo_outcome = applied_outcome demo_intent (OperatorAcceptor ''alice'') demo_sha demo_pr"

lemma acts_push: "acts (pcall (\<lambda>t. sv_push_branch demo_forge t r b d) (PushBranch r b d)) (Inr ()) [PushBranch r b d (Inr ())]"
  using acts_call [of "\<lambda>t. sv_push_branch demo_forge t r b d" "()" "PushBranch r b d"]
  by (simp add: demo_forge_def reports_nothing_def)

lemma acts_open: "acts (pcall (\<lambda>t. sv_open_pull_request demo_forge t q) (OpenPullRequest q)) (Inr demo_pr) [OpenPullRequest q (Inr demo_pr)]"
  using acts_call [of "\<lambda>t. sv_open_pull_request demo_forge t q" demo_pr "OpenPullRequest q"]
  by (simp add: demo_forge_def reports_nothing_def)

lemma acts_report:
  "acts (pcall (\<lambda>t. sv_report_applied demo_forge t i s u a v d) (ReportApplied i s u a v d)) (Inr ()) [ReportApplied i s u a v d (Inr ())]"
  using acts_call [of "\<lambda>t. sv_report_applied demo_forge t i s u a v d" "()" "ReportApplied i s u a v d"]
  by (simp add: demo_forge_def reports_nothing_def)

lemma acts_lookup: "acts m (Inr a) [] \<Longrightarrow> acts (lookup r m) (Inr a) []"
  unfolding lookup_def by (rule acts_bind0 [OF acts_try], assumption, rule acts_bind0 [OF acts_modify], simp, rule acts_return)

lemma acts_lookups: "acts (find_branch demo_forge r b) (Inr None) []" "acts (find_pull_request demo_forge r b) (Inr None) []"
proof -
  have "acts (pcall (\<lambda>t. sv_find_branch demo_forge t r b) (FindBranch r b)) (Inr None) []"
    "acts (pcall (\<lambda>t. sv_find_pull_request demo_forge t r b) (FindPullRequest r b)) (Inr None) []"
    using acts_call [of "\<lambda>t. sv_find_branch demo_forge t r b" None "FindBranch r b"]
      acts_call [of "\<lambda>t. sv_find_pull_request demo_forge t r b" None "FindPullRequest r b"]
    by (simp_all add: demo_forge_def reports_nothing_def)
  note calls = this
  show "acts (find_branch demo_forge r b) (Inr None) []" "acts (find_pull_request demo_forge r b) (Inr None) []"
    unfolding find_branch_def find_pull_request_def by (rule acts_lookup [OF calls(1)], rule acts_lookup [OF calls(2)])
qed

lemma demo_intent_simps:
  "in_repository demo_intent = ''org/repo''" "intent_id demo_intent = ''e1''" "effect_kind demo_intent = ''diff''"
  "in_acceptor demo_intent = Some (OperatorAcceptor ''alice'')" "proposer_principal demo_intent = ''agent''"
  "release_digest demo_intent = None" "revision demo_intent = 1"
  "canonical_intent_digest demo_intent = canonical_digest demo_draft" "canonical_digest demo_intent = canonical_digest demo_draft"
  "acceptance demo_intent = Some [(''canonical_intent_digest'', JStr (canonical_digest demo_draft)), (''intent_id'', JStr ''e1''),
       (''intent_revision'', JInt 1), (''acceptor_principal'', JStr ''alice'')]"
  by (simp_all add: demo_intent_def demo_draft_def canonical_digest_def intent_parameters_def)

lemma acts_preflight: "acts (preflight demo_forge demo_intent) (Inr ()) []"
proof -
  have "sv_preflight demo_forge = None" by (simp add: demo_forge_def)
  then show ?thesis
    by (simp add: preflight_def validate_verification_def demo_intent_simps getkey_def pneed_def acts_return)
qed

lemma acts_publish:
  "acts (publish_intent demo_forge demo_reconciler demo_intent ''vuoro/e1'' ''main'' demo_sha ''/tmp/x'') (Inr (demo_sha, demo_pr))
     [demo_push, demo_opened]"
proof -
  have push: "acts (push_new demo_forge demo_intent ''vuoro/e1'' ''/tmp/x'') (Inr ()) ([demo_push] @ [])"
    unfolding push_new_def demo_push_def demo_intent_simps
    by (rule acts_bind0 [OF acts_preflight], rule acts_bind [OF acts_try [OF acts_push]], rule acts_bind0 [OF acts_lookups(2)],
        rule acts_need, rule refl)
  have opened: "acts (open_new demo_forge demo_intent ''vuoro/e1'' ''main'') (Inr demo_pr) [demo_opened]"
    unfolding open_new_def Let_def demo_opened_def pull_request_of_def
    by (rule acts_bind0 [OF acts_preflight], rule acts_try [OF acts_open])
  have both: "acts (pbind (push_new demo_forge demo_intent ''vuoro/e1'' ''/tmp/x'') (\<lambda>_.
       pbind (open_new demo_forge demo_intent ''vuoro/e1'' ''main'') (\<lambda>opened. preturn (demo_sha, opened))))
       (Inr (demo_sha, demo_pr)) (([demo_push] @ []) @ [demo_opened] @ [])"
    by (rule acts_bind [OF push], rule acts_bind [OF opened], rule acts_return)
  have adopted: "acts (adopt demo_forge demo_reconciler ''/tmp/x'' ''vuoro/e1'' ''main'' None None demo_sha) (Inr demo_sha) []"
    by (simp add: adopt_def acts_return)
  show ?thesis
    unfolding publish_intent_def
    by (rule acts_bind0 [OF acts_lookups(1)], rule acts_bind0 [OF acts_lookups(2)],
        simp only: option.case if_False, rule acts_bind0 [OF adopted],
        simp only: refl if_True, rule both [unfolded append.simps append_Nil])
qed

lemma acts_prepare: "acts (prepare_commit demo_forge demo_reconciler demo_intent (OperatorAcceptor ''alice'') dir) (Inr demo_sha) []"
  unfolding prepare_commit_def
  by (rule acts_bind0 [OF acts_prepared], simp only: acceptor.case, rule acts_bind0 [OF acts_return], rule acts_try [OF acts_commit])

lemma acts_attempt:
  "acts (attempt demo_forge demo_reconciler demo_intent (OperatorAcceptor ''alice'') ''vuoro/e1'' ''main'' ''/tmp/x'')
     (Inr (demo_sha, demo_pr)) [demo_push, demo_opened]"
  unfolding attempt_def
  by (rule acts_finally, rule acts_bind0 [OF acts_prepare], rule acts_try, rule acts_bind0 [OF acts_preflight],
      rule acts_publish, rule acts_note, simp add: reports_nothing_def)

lemma is_hex_digit: "n < 16 \<Longrightarrow> is_hex (hex_digit n)"
proof -
  have "list_all (\<lambda>n. is_hex (hex_digit n)) [0..<16]" by code_simp
  then show "n < 16 \<Longrightarrow> is_hex (hex_digit n)" by (simp add: list_all_iff)
qed

lemma hexdigest_hex: "hex_string 64 (hexdigest m)"
proof -
  have "unat (x AND 15) < 16" for x :: "32 word"
    using word_and_le1 [of x 15] by (simp add: word_le_nat_alt)
  then have "list_all is_hex (hex_word w)" for w
    by (auto simp: hex_word_def list_all_iff intro: is_hex_digit)
  then show ?thesis by (auto simp: hex_string_def hexdigest_def list_all_iff sha256_length hex_word_length length_concat comp_def sum_list_triv)
qed

lemma demo_admitted: "acts (admit_intent demo_reconciler demo_intent) (Inr (OperatorAcceptor ''alice'')) []"
proof -
  have ok: "intent_id_ok ''e1''" by code_simp
  have "hex_string 64 (canonical_digest demo_draft)" by (simp add: canonical_digest_def hexdigest_hex)
  then have "digest_matches demo_intent"
    by (simp add: digest_matches_def demo_intent_simps acceptance_fld_def getkey_def)
  moreover have "principal_matches demo_intent (OperatorAcceptor ''alice'')"
    by (simp add: principal_matches_def demo_intent_simps acceptance_fld_def getkey_def)
  ultimately show ?thesis
    unfolding admit_intent_def demo_intent_simps psome_def option.case
    by (intro acts_bind0 [OF acts_return] acts_bind0 [OF acts_need] acts_return
        acts_bind0 [of "check_acceptor demo_reconciler demo_intent (OperatorAcceptor ''alice'')" "()"])
      (simp_all add: check_acceptor_def demo_intent_simps ok demo_reconciler_def acts_return pneed_def)
qed

lemma acts_process: "acts (process demo_forge demo_reconciler demo_intent) (Inr demo_outcome) [demo_push, demo_opened, demo_report]"
proof -
  have allowed: "\<not> legacy_execution_excluded demo_intent (protected_repositories (rc_config demo_reconciler))"
    by (simp add: legacy_execution_excluded_def demo_intent_simps getkey_def demo_reconciler_def)
  have branch: "branch_for (rc_config demo_reconciler) demo_intent = ''vuoro/e1''"
    by (simp add: branch_for_def demo_intent_simps demo_reconciler_def)
  have default_branch: "acts (pcall (\<lambda>t. sv_default_branch demo_forge t r) (DefaultBranch r)) (Inr ''main'') []" for r
    using acts_call [of "\<lambda>t. sv_default_branch demo_forge t r" "''main''" "DefaultBranch r"]
    by (simp add: demo_forge_def reports_nothing_def)
  have free: "\<not> refuse_if_protected ''vuoro/e1'' (''main'' # protected_branches (rc_config demo_reconciler))"
    by (simp add: refuse_if_protected_def demo_reconciler_def)
  have temp: "acts (make_temp demo_forge) (Inr ''/tmp/x'') []"
    unfolding make_temp_def
    by (rule acts_bind0 [OF demo_reads(1)], rule acts_bind0 [OF acts_note], simp add: reports_nothing_def, rule acts_return)
  have report: "acts (report_applied demo_forge demo_intent (OperatorAcceptor ''alice'') demo_sha (pr_url demo_pr)) (Inr ()) [demo_report]"
    unfolding report_applied_def demo_report_def report_of_def by (rule acts_try [OF acts_report])
  have rest: "acts (pbind (report_applied demo_forge demo_intent (OperatorAcceptor ''alice'') demo_sha (pr_url demo_pr)) (\<lambda>_.
      preturn (applied_outcome demo_intent (OperatorAcceptor ''alice'') demo_sha demo_pr))) (Inr demo_outcome) [demo_report]"
    unfolding demo_outcome_def by (rule acts_bind [OF report acts_return, unfolded append_Nil2])
  show ?thesis
    unfolding process_def if_not_P [OF allowed] branch applied_outcome_def [symmetric]
    apply (rule acts_bind0 [OF demo_admitted])
    apply (rule acts_bind0 [OF acts_preflight])
    apply (rule acts_bind0 [OF default_branch])
    apply (rule acts_bind0 [OF acts_need [OF free]])
    apply (rule acts_bind0 [OF temp])
    apply (rule acts_bind [OF acts_attempt, of _ _ "[demo_report]", unfolded append.simps])
    apply (simp only: prod.case)
    apply (rule rest)
    done
qed

lemma acts_run: "acts (run_once demo_forge demo_reconciler) (Inr [demo_outcome]) [demo_push, demo_opened, demo_report]"
proof -
  have state: "oc_state demo_outcome = ''applied''" by (simp add: demo_outcome_def applied_outcome_def)
  have none: "rc_auto_accept demo_reconciler = None" by (simp add: demo_reconciler_def)
  have auto: "acts (apply_auto_accept demo_forge None protected) (Inr []) []" for protected
    by (simp add: apply_auto_accept_def acts_return)
  have polled: "acts (pcall (sv_poll_accepted demo_forge) PollAccepted) (Inr [demo_intent]) []"
    using acts_call [of "sv_poll_accepted demo_forge" "[demo_intent]" PollAccepted]
    by (simp add: demo_forge_def reports_nothing_def)
  have one: "acts (reconcile_one demo_forge demo_reconciler demo_intent) (Inr demo_outcome) [demo_push, demo_opened, demo_report]"
  proof -
    have "acts (pbind (if oc_state demo_outcome \<noteq> ''deferred'' then drop_deferral demo_intent else preturn ()) (\<lambda>_. preturn demo_outcome))
        (Inr demo_outcome) []"
      unfolding state drop_deferral_def by (simp, rule acts_bind0 [OF acts_modify], simp, rule acts_return)
    then show ?thesis
      unfolding reconcile_one_def by (rule acts_bind [OF acts_try [OF acts_process], of _ _ "[]", unfolded append_Nil2])
  qed
  have each_one: "acts (peach (reconcile_one demo_forge demo_reconciler) [demo_intent]) (Inr [demo_outcome]) [demo_push, demo_opened, demo_report]"
    unfolding peach.simps by (rule acts_bind [OF one, of _ _ "[]", unfolded append_Nil2], rule acts_bind0 [OF acts_return], rule acts_return)
  have kept: "acts (expire_one demo_forge demo_reconciler (demo_intent, demo_outcome)) (Inr demo_outcome) []"
    unfolding expire_one_def prod.case state by (simp, rule acts_bind0 [OF acts_return], simp add: acts_return)
  have each_kept: "acts (peach (expire_one demo_forge demo_reconciler) (zip [demo_intent] [demo_outcome])) (Inr [demo_outcome]) []"
    unfolding zip_Cons_Cons zip_Nil peach.simps
    by (rule acts_bind0 [OF kept], rule acts_bind0 [OF acts_return], rule acts_return)
  have cleared: "acts (pmodify f) (Inr ()) []" if "\<And>w. lw_calls (f w) = lw_calls w" for f
    by (rule acts_modify) (rule that)
  show ?thesis
    unfolding run_once_def none
    by (rule acts_bind0 [OF auto], rule acts_bind0 [OF polled], rule acts_bind0 [OF cleared], simp,
        rule acts_bind [OF each_one, of _ _ "[]", unfolded append_Nil2], rule acts_bind0 [OF each_kept],
        rule acts_bind0 [OF cleared], simp, rule acts_return)
qed

definition demo_start :: lworld where
  "demo_start = \<lparr>lw_time = 0, lw_calls = [], lw_deferrals = [], lw_reachable = []\<rparr>"

lemma demo_calls:
  "fst (run_once demo_forge demo_reconciler demo_start) = Inr [demo_outcome]"
  "demo_push \<in> set (calls_of (run_once demo_forge demo_reconciler) demo_start)"
  "demo_report \<in> set (calls_of (run_once demo_forge demo_reconciler) demo_start)"
proof -
  have *: "fst (run_once demo_forge demo_reconciler demo_start) = Inr [demo_outcome]"
    "filter (\<lambda>e. \<not> reports_nothing e) (calls_of (run_once demo_forge demo_reconciler) demo_start) = [demo_push, demo_opened, demo_report]"
    using spec_calls [OF acts_run [unfolded acts_def], of demo_start] by simp_all
  show "fst (run_once demo_forge demo_reconciler demo_start) = Inr [demo_outcome]" by (rule *)
  have "set [demo_push, demo_opened, demo_report] \<subseteq> set (calls_of (run_once demo_forge demo_reconciler) demo_start)"
    unfolding * (2) [symmetric] by (rule filter_is_subset)
  then show "demo_push \<in> set (calls_of (run_once demo_forge demo_reconciler) demo_start)"
    "demo_report \<in> set (calls_of (run_once demo_forge demo_reconciler) demo_start)" by simp_all
qed

subsection \<open>Properties\<close>

text \<open>C23: Whatever git, the forge and the source of the intents answer, a poll pushes a branch or opens a
  pull request only for an intent that was polled as accepted and that is authorised at that moment: its
  acceptance names its identifier, revision and digest, recomputed from its content, was not given by its
  proposer, or comes from a policy that is still configured and admits it; its repository is allowlisted
  and not protected. The change goes to the intent's own branch, which is neither the default branch the
  forge reported nor a protected one.\<close>

theorem publishes_only_authorised:
  assumes "e \<in> set (calls_of (run_once sv rc) w)" "mutation e = Some (repo, branch)"
  shows "\<exists>intents i acc. PollAccepted (Inr intents) \<in> set (calls_of (run_once sv rc) w) \<and> i \<in> set intents \<and>
    authorised rc i acc \<and> repo = in_repository i \<and> branch = branch_for (rc_config rc) i \<and>
    unprotected rc repo branch (calls_of (run_once sv rc) w)"
proof -
  obtain intents l1 res where l: "PollAccepted (Inr intents) \<in> set (calls_of (run_once sv rc) w)"
    "each (reconciled rc) intents res l1" "e \<in> set l1" "set l1 \<subseteq> set (calls_of (run_once sv rc) w)"
    using poll_mutation [OF poll_calls assms] .
  obtain i r' l where i: "i \<in> set intents" "reconciled rc i r' l" "e \<in> set l" "set l \<subseteq> set l1"
    using each_events [OF l(2,3)] by blast
  obtain r'' k k' where k: "processed rc i r'' k" "l = k @ k'" "\<forall>e \<in> set k'. mutation e = None"
    using i(2) by (rule reconciled_events)
  have "e \<in> set k" using i(3) k(2,3) assms(2) by auto
  from processed_mutation [OF k(1) this assms(2)] obtain acc where
    "authorised rc i acc" "repo = in_repository i" "branch = branch_for (rc_config rc) i" "unprotected rc repo branch k"
    by auto
  moreover have "unprotected rc repo branch (calls_of (run_once sv rc) w)"
    by (rule unprotected_mono [OF calculation(4)]) (use k(2) i(4) l(4) in auto)
  ultimately show ?thesis using l(1) i(1) by blast
qed

theorem publishes_only_authorised_witness:
  "\<exists>intents i acc. PollAccepted (Inr intents) \<in> set (calls_of (run_once demo_forge demo_reconciler) demo_start) \<and> i \<in> set intents \<and>
    authorised demo_reconciler i acc \<and> ''org/repo'' = in_repository i \<and> ''vuoro/e1'' = branch_for (rc_config demo_reconciler) i \<and>
    unprotected demo_reconciler ''org/repo'' ''vuoro/e1'' (calls_of (run_once demo_forge demo_reconciler) demo_start)"
  by (rule publishes_only_authorised [OF demo_calls(2)]) (simp add: demo_push_def)

text \<open>C24: What is pushed was vetted. Before every push of a poll, from the same directory: git reported the
  staged changes, all of them allowed by the policy of the intent's repository, every blob they add was
  read and is text, and under a policy acceptance the recorded scope covers every path; then the commit was
  made, signed, with the intent's message, and named; and no git command that puts a commit or a patch into
  a working tree ran between the reading of the staged changes and the push.\<close>

theorem pushes_only_vetted:
  assumes "calls_of (run_once sv rc) w = past @ PushBranch repo branch dir ans # rest"
  shows "\<exists>intents i. PollAccepted (Inr intents) \<in> set past \<and> i \<in> set intents \<and> pushes_vetted rc i dir past"
  using poll_push [OF poll_calls assms] by blast

theorem pushes_only_vetted_witness:
  "\<exists>past rest intents i. calls_of (run_once demo_forge demo_reconciler) demo_start = past @ demo_push # rest \<and>
    PollAccepted (Inr intents) \<in> set past \<and> i \<in> set intents \<and> pushes_vetted demo_reconciler i ''/tmp/x'' past"
proof -
  obtain past rest where *: "calls_of (run_once demo_forge demo_reconciler) demo_start = past @ demo_push # rest"
    using split_list [OF demo_calls(2)] by blast
  from pushes_only_vetted [OF this [unfolded demo_push_def]] * show ?thesis by blast
qed

text \<open>C25: A poll is never stopped by an intent. It returns an outcome for every intent that was polled, in
  their order, whatever fails for any of them; it raises only what the poll of the accepted intents itself
  raised, or when it is interrupted.\<close>

theorem every_intent_gets_an_outcome:
  "case fst (run_once sv rc w) of
     Inr outcomes \<Rightarrow> \<exists>intents. PollAccepted (Inr intents) \<in> set (calls_of (run_once sv rc) w) \<and>
       map oc_intent_id outcomes = map intent_id intents
   | Inl e \<Rightarrow> e = Interrupted \<or> (\<exists>f. PollAccepted (Inl f) \<in> set (calls_of (run_once sv rc) w) \<and> e = raise_fault f)"
  using poll_ends [OF poll_calls [of rc sv w]] by (cases "fst (run_once sv rc w)") auto

text \<open>C26: An outcome that names a commit is true. Its intent was polled and authorised, a signed commit was
  made from it, and the pull request of the outcome stands on the forge against the default branch: either
  it was opened in this poll, for a branch that the commit was pushed to or that was found at a commit of
  our own, or it was found open or merged at that very commit. The commit named is the one just made, or one
  that verifies under the reconciler's key and has its tree, parents and message; and it was reported.\<close>

theorem applied_is_published:
  assumes "fst (run_once sv rc w) = Inr outcomes" "oc \<in> set outcomes" "oc_commit_sha oc = Some sha"
  shows "\<exists>intents i. PollAccepted (Inr intents) \<in> set (calls_of (run_once sv rc) w) \<and> i \<in> set intents \<and>
    fulfilled rc i oc sha (calls_of (run_once sv rc) w)"
  using poll_applied [OF _ assms(2,3)] poll_calls [of rc sv w] assms(1) by simp

theorem applied_is_published_witness:
  "\<exists>intents i. PollAccepted (Inr intents) \<in> set (calls_of (run_once demo_forge demo_reconciler) demo_start) \<and> i \<in> set intents \<and>
    fulfilled demo_reconciler i demo_outcome demo_sha (calls_of (run_once demo_forge demo_reconciler) demo_start)"
  by (rule applied_is_published [OF demo_calls(1)]) (simp_all add: demo_outcome_def applied_outcome_def)

text \<open>Nothing is reported to the source of the intents that the poll does not return: every report of a
  poll that ends is one of its outcomes, an applied one with its commit, pull request and acceptor, or a
  failed one with its reason.\<close>

theorem reports_are_outcomes:
  assumes "fst (run_once sv rc w) = Inr outcomes" "e \<in> set (calls_of (run_once sv rc) w)" "is_report e"
  shows "\<exists>oc \<in> set outcomes. named_outcome oc e"
  using poll_report [OF _ assms(2,3)] poll_calls [of rc sv w] assms(1) by simp

theorem reports_are_outcomes_witness: "\<exists>oc \<in> set [demo_outcome]. named_outcome oc demo_report"
  by (rule reports_are_outcomes [OF demo_calls(1,3)]) (simp add: demo_report_def report_of_def)

end
