(* ===== verification/Rate_Limit.thy ===== *)
theory Rate_Limit
  imports Vuoro_Prelude
begin

text \<open>
  The rate limiter of \<open>vuoro_service/rate_limit.py\<close>: a token bucket for each key, refilled with time.
  Floating-point numbers are reals; the clock is a reading given to each check.
\<close>

subsection \<open>Data\<close>

record bucket =
  bk_tokens :: real
  last_refill_at :: real

record rate_limiter =
  rl_capacity :: real
  refill_per_second :: real
  buckets :: "(string, bucket) dict"

datatype rate_error = ValueError | RateLimitExceeded (retry_after: real)

definition new_limiter :: "int \<Rightarrow> real \<Rightarrow> (rate_error, rate_limiter) result" where
  "new_limiter capacity refill =
    (if capacity \<le> 0 then Inl ValueError
     else if refill \<le> 0 then Inl ValueError
     else Inr \<lparr>rl_capacity = of_int capacity, refill_per_second = refill, buckets = []\<rparr>)"

subsection \<open>Operations\<close>

text \<open>\<open>_bucket\<close>: the bucket of a key at a moment, new and full when there is none.\<close>

definition bucket_at :: "rate_limiter \<Rightarrow> string \<Rightarrow> real \<Rightarrow> bucket" where
  "bucket_at l key now =
    (case dict_get (buckets l) key of
       None \<Rightarrow> \<lparr>bk_tokens = rl_capacity l, last_refill_at = now\<rparr>
     | Some b \<Rightarrow>
         (let elapsed = max 0 (now - last_refill_at b)
          in \<lparr>bk_tokens = min (rl_capacity l) (bk_tokens b + elapsed * refill_per_second l), last_refill_at = now\<rparr>))"

definition with_bucket :: "rate_limiter \<Rightarrow> string \<Rightarrow> bucket \<Rightarrow> rate_limiter" where
  "with_bucket l key b = l\<lparr>buckets := dict_set key b (buckets l)\<rparr>"

definition rate_check :: "rate_limiter \<Rightarrow> string \<Rightarrow> real \<Rightarrow> (rate_error, unit) result \<times> rate_limiter" where
  "rate_check l key now =
    (let b = bucket_at l key now in
     if bk_tokens b < 1
     then (Inl (RateLimitExceeded ((1 - bk_tokens b) / refill_per_second l)), with_bucket l key b)
     else (Inr (), with_bucket l key (b\<lparr>bk_tokens := bk_tokens b - 1\<rparr>)))"

text \<open>\<open>rate_limit_key\<close>\<close>

definition or_dash :: "string option \<Rightarrow> string" where
  "or_dash x = (case x of None \<Rightarrow> ''-'' | Some s \<Rightarrow> if s = [] then ''-'' else s)"

definition rate_limit_key :: "string option \<Rightarrow> string option \<Rightarrow> string" where
  "rate_limit_key token client_ip = or_dash token @ [CHR 0x1f] @ or_dash client_ip"

text \<open>A history of checks: the readings of a monotonic clock, and what each check answered.\<close>

fun rate_checks :: "rate_limiter \<Rightarrow> (string \<times> real) list \<Rightarrow> bool list \<times> rate_limiter" where
  "rate_checks l [] = ([], l)"
| "rate_checks l ((key, now) # qs) =
    (case rate_check l key now of (r, l') \<Rightarrow> (case rate_checks l' qs of (oks, l'') \<Rightarrow> ((r = Inr ()) # oks, l'')))"

definition admitted :: "string \<Rightarrow> (string \<times> real) list \<Rightarrow> bool list \<Rightarrow> nat" where
  "admitted key qs oks = length (filter (\<lambda>(q, ok). fst q = key \<and> ok) (zip qs oks))"

subsection \<open>What a key may still spend\<close>

definition limiter_ok :: "rate_limiter \<Rightarrow> bool" where
  "limiter_ok l \<longleftrightarrow> 1 \<le> rl_capacity l \<and> 0 < refill_per_second l \<and>
     (\<forall>key b. dict_get (buckets l) key = Some b \<longrightarrow> 0 \<le> bk_tokens b \<and> bk_tokens b \<le> rl_capacity l)"

lemma new_limiter_ok: "new_limiter capacity refill = Inr l \<Longrightarrow> limiter_ok l"
  by (auto simp: new_limiter_def limiter_ok_def split: if_splits)

definition seen_by :: "rate_limiter \<Rightarrow> real \<Rightarrow> bool" where
  "seen_by l t \<longleftrightarrow> (\<forall>key b. dict_get (buckets l) key = Some b \<longrightarrow> last_refill_at b \<le> t)"

definition spendable :: "rate_limiter \<Rightarrow> string \<Rightarrow> real \<Rightarrow> real" where
  "spendable l key now = bk_tokens (bucket_at l key now)"

lemma spendable_bounds: "limiter_ok l \<Longrightarrow> 0 \<le> spendable l key now \<and> spendable l key now \<le> rl_capacity l"
  by (auto simp: spendable_def bucket_at_def limiter_ok_def split: option.splits)

lemma spendable_grows:
  assumes "limiter_ok l" "seen_by l t" "t \<le> t'"
  shows "spendable l key t' \<le> spendable l key t + (t' - t) * refill_per_second l"
proof (cases "dict_get (buckets l) key")
  case None
  then show ?thesis using assms by (simp add: spendable_def bucket_at_def limiter_ok_def)
next
  case (Some b)
  then have b: "last_refill_at b \<le> t" "bk_tokens b \<le> rl_capacity l" "0 < refill_per_second l"
    using assms by (auto simp: seen_by_def limiter_ok_def)
  have "min c (x + (y + z)) \<le> min c (x + y) + z" if "0 \<le> z" for c x y z :: real
    using that by (auto simp: min_def)
  note bound = this
  have "(t' - last_refill_at b) * refill_per_second l = (t - last_refill_at b) * refill_per_second l + (t' - t) * refill_per_second l"
    by (simp add: algebra_simps)
  moreover have "0 \<le> (t' - t) * refill_per_second l" using assms(3) b(3) by simp
  ultimately show ?thesis using Some b(1) assms(3) bound by (simp add: spendable_def bucket_at_def)
qed

lemma spendable_with:
  "spendable (with_bucket l key b) k now =
    (if k = key then min (rl_capacity l) (bk_tokens b + max 0 (now - last_refill_at b) * refill_per_second l) else spendable l k now)"
  by (simp add: spendable_def with_bucket_def bucket_at_def Let_def split: option.split)

lemma rate_check_facts:
  assumes "rate_check l key now = (r, l')" "limiter_ok l" "seen_by l now"
  shows "limiter_ok l'" "seen_by l' now" "rl_capacity l' = rl_capacity l" "refill_per_second l' = refill_per_second l"
    "spendable l' k now = spendable l k now - (if k = key \<and> r = Inr () then 1 else 0)"
proof -
  have b: "0 \<le> bk_tokens (bucket_at l key now)" "bk_tokens (bucket_at l key now) \<le> rl_capacity l"
    using spendable_bounds [OF assms(2), of key now] by (simp_all add: spendable_def)
  have at: "last_refill_at (bucket_at l key now) = now"
    by (simp add: bucket_at_def Let_def split: option.split)
  show "limiter_ok l'" "seen_by l' now" "rl_capacity l' = rl_capacity l" "refill_per_second l' = refill_per_second l"
    using assms b at by (auto simp: rate_check_def with_bucket_def limiter_ok_def seen_by_def Let_def split: if_splits)
  show "spendable l' k now = spendable l k now - (if k = key \<and> r = Inr () then 1 else 0)"
  proof (cases "bk_tokens (bucket_at l key now) < 1")
    case True
    then show ?thesis
      using assms(1) b at by (auto simp: rate_check_def Let_def spendable_with) (simp add: spendable_def)
  next
    case False
    then show ?thesis
      using assms(1) b at by (auto simp: rate_check_def Let_def spendable_with) (simp add: spendable_def)
  qed
qed

lemma spent_within:
  assumes "rate_checks l qs = (oks, l')" "limiter_ok l" "seen_by l t" "sorted (t # map snd qs)" "\<forall>q \<in> set qs. snd q \<le> u" "t \<le> u"
  shows "real (admitted key qs oks) \<le> spendable l key t + (u - t) * refill_per_second l \<and> limiter_ok l' \<and>
    rl_capacity l' = rl_capacity l \<and> refill_per_second l' = refill_per_second l \<and> seen_by l' u"
  using assms
proof (induction qs arbitrary: l oks t)
  case Nil
  then show ?case
    using spendable_bounds [OF Nil(2), of key t] by (auto simp: admitted_def limiter_ok_def seen_by_def intro: order_trans)
next
  case (Cons q qs)
  obtain k now where q: "q = (k, now)" by fastforce
  obtain r l1 where step: "rate_check l k now = (r, l1)" by fastforce
  obtain oks' where rest: "rate_checks l1 qs = (oks', l')" "oks = (r = Inr ()) # oks'"
    using Cons.prems(1) q step by (auto split: prod.splits)
  have now: "t \<le> now" "now \<le> u" "sorted (now # map snd qs)" using Cons.prems(4,5) q by auto
  have seen: "seen_by l now" using Cons.prems(3) now(1) unfolding seen_by_def by (meson order_trans)
  note facts = rate_check_facts [OF step Cons.prems(2) seen]
  have ih: "real (admitted key qs oks') \<le> spendable l1 key now + (u - now) * refill_per_second l \<and> limiter_ok l' \<and>
      rl_capacity l' = rl_capacity l \<and> refill_per_second l' = refill_per_second l \<and> seen_by l' u"
    using Cons.IH [OF rest(1) facts(1,2) now(3) _ now(2)] Cons.prems(5) facts(3,4) by simp
  have "real (admitted key (q # qs) oks) = real (admitted key qs oks') + (if key = k \<and> r = Inr () then 1 else 0)"
    using rest(2) q by (simp add: admitted_def)
  then have "real (admitted key (q # qs) oks) \<le> spendable l key now + (u - now) * refill_per_second l"
    using ih facts(5) [of key] by simp
  moreover have "spendable l key now \<le> spendable l key t + (now - t) * refill_per_second l"
    by (rule spendable_grows [OF Cons.prems(2,3) now(1)])
  ultimately show ?case using ih by (simp add: algebra_simps)
qed

lemma rate_checks_append:
  "rate_checks l (qs @ qs') = (case rate_checks l qs of (oks, l') \<Rightarrow> (case rate_checks l' qs' of (oks', l'') \<Rightarrow> (oks @ oks', l'')))"
  by (induction l qs rule: rate_checks.induct) (auto split: prod.splits)

lemma reached_limiter:
  assumes "new_limiter capacity refill = Inr l" "rate_checks l past = (oks, l')" "sorted (map snd past)" "\<forall>q \<in> set past. snd q \<le> t"
  shows "limiter_ok l'" "rl_capacity l' = real_of_int capacity" "refill_per_second l' = refill" "seen_by l' t"
proof -
  have l: "limiter_ok l" "rl_capacity l = real_of_int capacity" "refill_per_second l = refill" "buckets l = []"
    using assms(1) new_limiter_ok by (auto simp: new_limiter_def split: if_splits)
  let ?t0 = "Min (insert t (snd ` set past))"
  have t0: "?t0 \<le> t" "\<forall>q \<in> set past. ?t0 \<le> snd q" by simp_all
  have "sorted (?t0 # map snd past)" using assms(3) t0(2) by simp
  then show "limiter_ok l'" "rl_capacity l' = real_of_int capacity" "refill_per_second l' = refill" "seen_by l' t"
    using spent_within [OF assms(2) l(1) _ _ assms(4) t0(1)] l by (simp_all add: seen_by_def)
qed

lemma others_untouched:
  "rate_checks l qs = (oks, l') \<Longrightarrow> \<forall>q \<in> set qs. fst q \<noteq> key \<Longrightarrow>
    dict_get (buckets l') key = dict_get (buckets l) key \<and> rl_capacity l' = rl_capacity l \<and> refill_per_second l' = refill_per_second l"
proof (induction qs arbitrary: l oks)
  case (Cons q qs)
  obtain k now where q: "q = (k, now)" by fastforce
  obtain r l1 where step: "rate_check l k now = (r, l1)" by fastforce
  obtain oks' where rest: "rate_checks l1 qs = (oks', l')"
    using Cons.prems(1) q step by (auto split: prod.splits)
  have "dict_get (buckets l1) key = dict_get (buckets l) key \<and> rl_capacity l1 = rl_capacity l \<and> refill_per_second l1 = refill_per_second l"
    using step Cons.prems(2) q by (auto simp: rate_check_def with_bucket_def Let_def split: if_splits)
  then show ?case using Cons.IH [OF rest] Cons.prems(2) by simp
qed simp

subsection \<open>Properties\<close>

text \<open>C27: The bucket is a bound. In any history of checks of a new limiter, at the readings of a monotonic
  clock and whatever other keys do, the checks of a key that are let through within any interval are at
  most the capacity plus what the interval refills.\<close>

theorem admitted_within_rate:
  assumes "new_limiter capacity refill = Inr l" "sorted (map snd (past @ qs))"
    "\<forall>q \<in> set past. snd q \<le> t" "\<forall>q \<in> set qs. t \<le> snd q \<and> snd q \<le> u" "t \<le> u"
    "rate_checks l past = (oks, l')" "rate_checks l' qs = (oks', l'')"
  shows "real (admitted key qs oks') \<le> real_of_int capacity + (u - t) * refill"
proof -
  have past: "sorted (map snd past)" "sorted (t # map snd qs)" using assms(2,4) by (simp_all add: sorted_append)
  note l' = reached_limiter [OF assms(1,6) past(1) assms(3)]
  have "real (admitted key qs oks') \<le> spendable l' key t + (u - t) * refill_per_second l'"
    using spent_within [OF assms(7) l'(1,4) past(2) _ assms(5), of key] assms(4) by simp
  then show ?thesis using spendable_bounds [OF l'(1), of key t] l' by simp
qed

theorem admitted_within_rate_witness:
  "\<exists>l oks l' oks' l''. new_limiter 1 1 = Inr l \<and> rate_checks l [(''k'', 0)] = (oks, l') \<and>
    rate_checks l' [(''k'', 1), (''k'', 1)] = (oks', l'') \<and> oks' = [True, False] \<and>
    real (admitted ''k'' [(''k'', 1), (''k'', 1)] oks') \<le> real_of_int 1 + (1 - 0) * 1"
proof -
  define l where "l = \<lparr>rl_capacity = 1, refill_per_second = 1, buckets = []\<rparr>"
  have new: "new_limiter 1 1 = Inr l" by (simp add: new_limiter_def l_def)
  obtain l' where past: "rate_checks l [(''k'', 0)] = ([True], l')" "dict_get (buckets l') ''k'' = Some \<lparr>bk_tokens = 0, last_refill_at = 0\<rparr>"
      "rl_capacity l' = 1" "refill_per_second l' = 1"
    by (simp add: l_def rate_check_def bucket_at_def with_bucket_def Let_def)
  obtain l'' where now: "rate_checks l' [(''k'', 1), (''k'', 1)] = ([True, False], l'')"
    using past(2-4) by (simp add: rate_check_def bucket_at_def with_bucket_def Let_def)
  have "real (admitted ''k'' [(''k'', 1), (''k'', 1)] [True, False]) \<le> real_of_int 1 + (1 - 0) * 1"
    by (rule admitted_within_rate [OF new _ _ _ _ past(1) now]) simp_all
  then show ?thesis using new past(1) now by blast
qed

text \<open>A refusal says the truth about when to come back. A check that is refused names a positive wait;
  the key is let through at any time from then on if nothing else was checked for it meanwhile, whatever the
  other keys do, and refused at every time before.\<close>

theorem retry_after_is_exact:
  assumes "new_limiter capacity refill = Inr l0" "rate_checks l0 past = (oks, l)" "sorted (map snd past @ [now, later])"
    "rate_check l key now = (Inl (RateLimitExceeded wait), l1)" "rate_checks l1 qs = (oks', l2)" "\<forall>q \<in> set qs. fst q \<noteq> key"
  shows "0 < wait \<and> (fst (rate_check l2 key later) = Inr () \<longleftrightarrow> now + wait \<le> later)"
proof -
  have "sorted (map snd past)" "\<forall>q \<in> set past. snd q \<le> now" "now \<le> later" using assms(3) by (auto simp: sorted_append)
  note l = reached_limiter [OF assms(1,2) this(1,2)] and later = this(3)
  define b where "b = bucket_at l key now"
  have b: "bk_tokens b < 1" "last_refill_at b = now" "wait = (1 - bk_tokens b) / refill_per_second l" "l1 = with_bucket l key b"
    using assms(4) by (auto simp: rate_check_def b_def bucket_at_def Let_def split: if_splits option.splits)
  have "dict_get (buckets l2) key = Some b" "rl_capacity l2 = rl_capacity l" "refill_per_second l2 = refill_per_second l"
    using others_untouched [OF assms(5,6)] b(4) by (simp_all add: with_bucket_def)
  then have tokens: "bk_tokens (bucket_at l2 key later) = min (rl_capacity l) (bk_tokens b + (later - now) * refill_per_second l)"
    using b(2) later by (simp add: bucket_at_def)
  have r: "0 < refill_per_second l" "1 \<le> rl_capacity l" using l(1) by (simp_all add: limiter_ok_def)
  have "fst (rate_check l2 key later) = Inr () \<longleftrightarrow> 1 \<le> bk_tokens b + (later - now) * refill_per_second l"
    using r(2) by (auto simp: rate_check_def Let_def tokens not_less)
  also have "\<dots> \<longleftrightarrow> now + wait \<le> later"
    using r(1) by (simp add: b(3) field_simps)
  finally show ?thesis using b(1,3) r(1) by simp
qed

theorem retry_after_is_exact_witness:
  "\<exists>l0 oks l l1 wait. new_limiter 1 2 = Inr l0 \<and> rate_checks l0 [(''k'', 0)] = (oks, l) \<and>
    rate_check l ''k'' 0 = (Inl (RateLimitExceeded wait), l1) \<and> 0 < wait \<and> (fst (rate_check l1 ''k'' 1) = Inr () \<longleftrightarrow> 0 + wait \<le> 1)"
proof -
  define l0 where "l0 = \<lparr>rl_capacity = 1, refill_per_second = 2, buckets = []\<rparr>"
  have new: "new_limiter 1 2 = Inr l0" by (simp add: new_limiter_def l0_def)
  obtain l where past: "rate_checks l0 [(''k'', 0)] = ([True], l)" "dict_get (buckets l) ''k'' = Some \<lparr>bk_tokens = 0, last_refill_at = 0\<rparr>"
      "rl_capacity l = 1" "refill_per_second l = 2"
    by (simp add: l0_def rate_check_def bucket_at_def with_bucket_def Let_def)
  obtain l1 where now: "rate_check l ''k'' 0 = (Inl (RateLimitExceeded (1 / 2)), l1)"
    using past(2-4) by (simp add: rate_check_def bucket_at_def with_bucket_def Let_def)
  have "0 < (1 / 2 :: real) \<and> (fst (rate_check l1 ''k'' 1) = Inr () \<longleftrightarrow> 0 + 1 / 2 \<le> (1 :: real))"
    by (rule retry_after_is_exact [OF new past(1) _ now, where qs = "[]"]) simp_all
  then show ?thesis using new past(1) now by blast
qed

end
