(* ===== verification/Idempotency.thy ===== *)
theory Idempotency
  imports Canonical_Form
begin

text \<open>
  The idempotency ledger of the write tools, \<open>vuoro_mcp_edge/idempotency.py\<close>: the digest of a request, and
  the reference ledger that every owner's durable ledger must behave like.
\<close>

subsection \<open>Requests\<close>

datatype tool_failure = ToolFailure string | ValueError

type_synonym arguments = "(string \<times> json) list"

definition key_char :: "char \<Rightarrow> bool" where
  "key_char c \<longleftrightarrow> is_alnum c \<or> c \<in> set ''._:-''"

text \<open>\<open>require_key\<close>: the pattern \<open>^[A-Za-z0-9._:-]{8,128}$\<close>, as a full match.\<close>

definition idempotency_key_ok :: "string \<Rightarrow> bool" where
  "idempotency_key_ok s \<longleftrightarrow> 8 \<le> length s \<and> length s \<le> 128 \<and> list_all key_char s"

definition require_key :: "arguments \<Rightarrow> (tool_failure, string) result" where
  "require_key args =
    (case map_of args ''idempotency_key'' of
       Some (JStr key) \<Rightarrow> if idempotency_key_ok key then Inr key else Inl (ToolFailure ''invalid-arguments'')
     | _ \<Rightarrow> Inl (ToolFailure ''invalid-arguments''))"

definition request_body :: "arguments \<Rightarrow> arguments" where
  "request_body args = filter (\<lambda>(name, value). name \<noteq> ''idempotency_key'') args"

definition tool_request_digest :: "string \<Rightarrow> arguments \<Rightarrow> string" where
  "tool_request_digest tool args = hexdigest (utf8_encode (tool @ [char_of (10::nat)] @ json_dumps False (JObj (request_body args))))"

subsection \<open>The ledger\<close>

text \<open>Workspace, principal, tool and key.\<close>

datatype ledger_scope = Scope string string string string

record stored_result =
  sr_digest :: string
  sr_result :: json

record ledger_entry =
  le_scope :: ledger_scope
  le_digest :: string
  le_result :: "json option"
  le_replayed :: bool

record idem_ledger =
  il_rows :: "(ledger_scope, stored_result) dict"
  il_pending :: "(ledger_scope, ledger_entry) dict"

definition new_ledger :: idem_ledger where
  "new_ledger = \<lparr>il_rows = [], il_pending = []\<rparr>"

definition replay_or_conflict :: "stored_result option \<Rightarrow> string \<Rightarrow> (tool_failure, json option) result" where
  "replay_or_conflict stored digest =
    (case stored of
       None \<Rightarrow> Inr None
     | Some s \<Rightarrow> if sr_digest s \<noteq> digest then Inl (ToolFailure ''idempotency-conflict'') else Inr (Some (sr_result s)))"

definition begin_entry :: "idem_ledger \<Rightarrow> ledger_scope \<Rightarrow> string \<Rightarrow> (tool_failure, ledger_entry) result \<times> idem_ledger" where
  "begin_entry l scope digest =
    (case dict_get (il_rows l) scope of
       Some row \<Rightarrow>
         (rbind (replay_or_conflict (Some row) digest) (\<lambda>_.
          Inr \<lparr>le_scope = scope, le_digest = digest, le_result = Some (sr_result row), le_replayed = True\<rparr>), l)
     | None \<Rightarrow>
         (case dict_get (il_pending l) scope of
            Some pending \<Rightarrow>
              (rbind (if le_digest pending \<noteq> digest
                      then replay_or_conflict (Some \<lparr>sr_digest = le_digest pending, sr_result = JObj []\<rparr>) digest else Inr None) (\<lambda>_.
               Inl (ToolFailure ''idempotency-in-progress'')), l)
          | None \<Rightarrow>
              (let entry = \<lparr>le_scope = scope, le_digest = digest, le_result = None, le_replayed = False\<rparr>
               in (Inr entry, l\<lparr>il_pending := dict_set scope entry (il_pending l)\<rparr>))))"

definition complete_stored :: "idem_ledger \<Rightarrow> ledger_entry \<Rightarrow> stored_result \<Rightarrow> (tool_failure, ledger_entry) result \<times> idem_ledger" where
  "complete_stored l entry stored =
    (if le_replayed entry \<or> dict_get (il_pending l) (le_scope entry) \<noteq> Some entry \<or> sr_digest stored \<noteq> le_digest entry
     then (Inl ValueError, l)
     else (Inr \<lparr>le_scope = le_scope entry, le_digest = le_digest entry, le_result = Some (sr_result stored), le_replayed = False\<rparr>,
           l\<lparr>il_rows := dict_set (le_scope entry) stored (il_rows l), il_pending := dict_del (le_scope entry) (il_pending l)\<rparr>))"

definition complete_entry :: "idem_ledger \<Rightarrow> ledger_entry \<Rightarrow> json \<Rightarrow> (tool_failure, ledger_entry) result \<times> idem_ledger" where
  "complete_entry l entry res = complete_stored l entry \<lparr>sr_digest = le_digest entry, sr_result = res\<rparr>"

definition lookup_stored :: "idem_ledger \<Rightarrow> ledger_scope \<Rightarrow> stored_result option" where
  "lookup_stored l scope = dict_get (il_rows l) scope"

definition store_result :: "idem_ledger \<Rightarrow> ledger_scope \<Rightarrow> stored_result \<Rightarrow> (tool_failure, stored_result) result \<times> idem_ledger" where
  "store_result l scope stored =
    (case lookup_stored l scope of
       Some previous \<Rightarrow> (Inr previous, l)
     | None \<Rightarrow>
         (case begin_entry l scope (sr_digest stored) of
            (Inl e, l') \<Rightarrow> (Inl e, l')
          | (Inr entry, l') \<Rightarrow>
              (case complete_stored l' entry stored of (Inl e, l'') \<Rightarrow> (Inl e, l'') | (Inr _, l'') \<Rightarrow> (Inr stored, l''))))"

subsection \<open>Histories\<close>

datatype idem_call =
    Begin ledger_scope string
  | Complete ledger_entry json
  | Lookup ledger_scope
  | Store ledger_scope stored_result

datatype idem_answer =
    Entry "(tool_failure, ledger_entry) result"
  | Found "stored_result option"
  | Stored "(tool_failure, stored_result) result"

fun idem_step :: "idem_ledger \<Rightarrow> idem_call \<Rightarrow> idem_answer \<times> idem_ledger" where
  "idem_step l (Begin scope digest) = map_prod Entry id (begin_entry l scope digest)"
| "idem_step l (Complete entry res) = map_prod Entry id (complete_entry l entry res)"
| "idem_step l (Lookup scope) = (Found (lookup_stored l scope), l)"
| "idem_step l (Store scope stored) = map_prod Stored id (store_result l scope stored)"

fun idem_run :: "idem_ledger \<Rightarrow> idem_call list \<Rightarrow> (idem_call \<times> idem_answer) list \<times> idem_ledger" where
  "idem_run l [] = ([], l)"
| "idem_run l (c # cs) = (case idem_step l c of (a, l') \<Rightarrow> (case idem_run l' cs of (as, l'') \<Rightarrow> ((c, a) # as, l'')))"

subsection \<open>One cell for each key\<close>

text \<open>
  The specification: each key of a principal on a tool is free, claimed by one request, or settled with its
  result, and a call touches the cell of its own key only.
\<close>

datatype cell = Free | Claimed string | Settled stored_result

fun call_scope :: "idem_call \<Rightarrow> ledger_scope" where
  "call_scope (Begin scope digest) = scope"
| "call_scope (Complete entry res) = le_scope entry"
| "call_scope (Lookup scope) = scope"
| "call_scope (Store scope stored) = scope"

definition fresh_entry :: "ledger_scope \<Rightarrow> string \<Rightarrow> ledger_entry" where
  "fresh_entry scope digest = \<lparr>le_scope = scope, le_digest = digest, le_result = None, le_replayed = False\<rparr>"

definition incomplete :: "string \<Rightarrow> string \<Rightarrow> tool_failure" where
  "incomplete held digest = ToolFailure (if digest = held then ''idempotency-in-progress'' else ''idempotency-conflict'')"

text \<open>What a settled cell answers, for ever.\<close>

fun final_answer :: "stored_result \<Rightarrow> idem_call \<Rightarrow> idem_answer" where
  "final_answer s (Begin scope digest) = Entry (if digest = sr_digest s
     then Inr \<lparr>le_scope = scope, le_digest = digest, le_result = Some (sr_result s), le_replayed = True\<rparr>
     else Inl (ToolFailure ''idempotency-conflict''))"
| "final_answer s (Complete entry res) = Entry (Inl ValueError)"
| "final_answer s (Lookup scope) = Found (Some s)"
| "final_answer s (Store scope stored) = Stored (Inr s)"

fun cell_step :: "cell \<Rightarrow> idem_call \<Rightarrow> idem_answer \<times> cell" where
  "cell_step (Settled s) c = (final_answer s c, Settled s)"
| "cell_step Free (Begin scope digest) = (Entry (Inr (fresh_entry scope digest)), Claimed digest)"
| "cell_step Free (Store scope stored) = (Stored (Inr stored), Settled stored)"
| "cell_step Free (Lookup scope) = (Found None, Free)"
| "cell_step Free (Complete entry res) = (Entry (Inl ValueError), Free)"
| "cell_step (Claimed d) (Begin scope digest) = (Entry (Inl (incomplete d digest)), Claimed d)"
| "cell_step (Claimed d) (Store scope stored) = (Stored (Inl (incomplete d (sr_digest stored))), Claimed d)"
| "cell_step (Claimed d) (Lookup scope) = (Found None, Claimed d)"
| "cell_step (Claimed d) (Complete entry res) =
    (if entry = fresh_entry (le_scope entry) d
     then (Entry (Inr (entry\<lparr>le_result := Some res\<rparr>)), Settled \<lparr>sr_digest = d, sr_result = res\<rparr>)
     else (Entry (Inl ValueError), Claimed d))"

definition cell_of :: "idem_ledger \<Rightarrow> ledger_scope \<Rightarrow> cell" where
  "cell_of l scope =
    (case dict_get (il_rows l) scope of
       Some s \<Rightarrow> Settled s
     | None \<Rightarrow> (case dict_get (il_pending l) scope of None \<Rightarrow> Free | Some e \<Rightarrow> Claimed (le_digest e)))"

text \<open>Incomplete entries are fresh ones of their own key, and no key is both incomplete and settled.\<close>

definition ledger_ok :: "idem_ledger \<Rightarrow> bool" where
  "ledger_ok l \<longleftrightarrow> dict_ok (il_pending l) \<and>
    (\<forall>scope e. dict_get (il_pending l) scope = Some e \<longrightarrow> e = fresh_entry scope (le_digest e) \<and> dict_get (il_rows l) scope = None)"

lemma new_ledger_ok: "ledger_ok new_ledger"
  by (simp add: ledger_ok_def new_ledger_def)

lemma begin_entry_cell:
  assumes "ledger_ok l"
  shows "begin_entry l scope digest =
    (case cell_of l scope of
       Free \<Rightarrow> (Inr (fresh_entry scope digest), l\<lparr>il_pending := dict_set scope (fresh_entry scope digest) (il_pending l)\<rparr>)
     | Claimed d \<Rightarrow> (Inl (incomplete d digest), l)
     | Settled s \<Rightarrow> (case final_answer s (Begin scope digest) of Entry r \<Rightarrow> (r, l)))"
  by (auto simp: begin_entry_def cell_of_def fresh_entry_def incomplete_def replay_or_conflict_def Let_def split: option.splits)

lemma complete_stored_cell:
  assumes "ledger_ok l" "sr_digest stored = le_digest entry"
  shows "complete_stored l entry stored =
    (if cell_of l (le_scope entry) = Claimed (le_digest entry) \<and> entry = fresh_entry (le_scope entry) (le_digest entry)
     then (Inr (entry\<lparr>le_result := Some (sr_result stored)\<rparr>),
       l\<lparr>il_rows := dict_set (le_scope entry) stored (il_rows l), il_pending := dict_del (le_scope entry) (il_pending l)\<rparr>)
     else (Inl ValueError, l))"
  using assms
  by (cases entry) (force simp: complete_stored_def cell_of_def fresh_entry_def ledger_ok_def split: option.splits)

lemma cell_of_updates:
  "cell_of (l\<lparr>il_pending := dict_set scope e (il_pending l)\<rparr>) sc =
    (if sc = scope \<and> dict_get (il_rows l) scope = None then Claimed (le_digest e) else cell_of l sc)"
  "cell_of (l\<lparr>il_rows := dict_set scope s (il_rows l), il_pending := dict_del scope (il_pending l)\<rparr>) sc =
    (if sc = scope then Settled s else cell_of l sc)"
  by (auto simp: cell_of_def split: option.splits)

lemma ledger_ok_updates:
  "ledger_ok l \<Longrightarrow> dict_get (il_rows l) scope = None \<Longrightarrow>
    ledger_ok (l\<lparr>il_pending := dict_set scope (fresh_entry scope d) (il_pending l)\<rparr>)"
  "ledger_ok l \<Longrightarrow> ledger_ok (l\<lparr>il_rows := dict_set scope s (il_rows l), il_pending := dict_del scope (il_pending l)\<rparr>)"
  by (auto simp: ledger_ok_def fresh_entry_def)

lemma cell_of_iff:
  "cell_of l scope = Settled s \<longleftrightarrow> dict_get (il_rows l) scope = Some s"
  "cell_of l scope = Free \<longleftrightarrow> dict_get (il_rows l) scope = None \<and> dict_get (il_pending l) scope = None"
  "cell_of l scope = Claimed d \<Longrightarrow> dict_get (il_rows l) scope = None"
  by (auto simp: cell_of_def split: option.splits)

definition refines :: "idem_ledger \<Rightarrow> idem_call \<Rightarrow> idem_answer \<Rightarrow> idem_ledger \<Rightarrow> bool" where
  "refines l c a l' \<longleftrightarrow> ledger_ok l' \<and> cell_step (cell_of l (call_scope c)) c = (a, cell_of l' (call_scope c)) \<and>
     (\<forall>scope. scope \<noteq> call_scope c \<longrightarrow> cell_of l' scope = cell_of l scope)"

lemma begin_refines:
  assumes "ledger_ok l" "begin_entry l scope digest = (r, l')"
  shows "refines l (Begin scope digest) (Entry r) l'"
proof (cases "cell_of l scope")
  case Free
  have none: "dict_get (il_rows l) scope = None" using Free by (simp add: cell_of_iff)
  have "r = Inr (fresh_entry scope digest)" "l' = l\<lparr>il_pending := dict_set scope (fresh_entry scope digest) (il_pending l)\<rparr>"
    using assms(2) begin_entry_cell [OF assms(1), of scope digest] Free by simp_all
  then show ?thesis
    using none Free ledger_ok_updates(1) [OF assms(1) none] by (simp add: refines_def cell_of_updates) (simp add: fresh_entry_def)
qed (use assms begin_entry_cell [OF assms(1), of scope digest] in \<open>auto simp: refines_def\<close>)

lemma complete_refines:
  assumes "ledger_ok l" "complete_entry l entry res = (r, l')"
  shows "refines l (Complete entry res) (Entry r) l'"
proof -
  note cell = complete_stored_cell [OF assms(1), of "\<lparr>sr_digest = le_digest entry, sr_result = res\<rparr>" entry, simplified]
  show ?thesis
  proof (cases "cell_of l (le_scope entry) = Claimed (le_digest entry) \<and> entry = fresh_entry (le_scope entry) (le_digest entry)")
    case True
    then show ?thesis using assms(1) assms(2) [unfolded complete_entry_def cell]
      by (auto simp: refines_def cell_of_updates ledger_ok_updates)
  next
    case False
    then have "r = Inl ValueError" "l' = l" using assms(2) unfolding complete_entry_def cell by auto
    moreover have "entry \<noteq> fresh_entry (le_scope entry) d" if "cell_of l (le_scope entry) = Claimed d" for d
      using False that by (metis fresh_entry_def ledger_entry.select_convs(2))
    ultimately show ?thesis using assms(1) by (cases "cell_of l (le_scope entry)") (auto simp: refines_def)
  qed
qed

lemma store_refines:
  assumes "ledger_ok l" "store_result l scope stored = (r, l')"
  shows "refines l (Store scope stored) (Stored r) l'"
proof (cases "cell_of l scope")
  case (Settled s)
  then have "dict_get (il_rows l) scope = Some s" by (simp add: cell_of_iff)
  then show ?thesis using assms Settled by (auto simp: refines_def store_result_def lookup_stored_def)
next
  case (Claimed d)
  then show ?thesis using assms begin_entry_cell [OF assms(1), of scope "sr_digest stored"] cell_of_iff(3) [OF Claimed]
    by (auto simp: refines_def store_result_def lookup_stored_def)
next
  case Free
  let ?e = "fresh_entry scope (sr_digest stored)"
  let ?l = "l\<lparr>il_pending := dict_set scope ?e (il_pending l)\<rparr>"
  have none: "dict_get (il_rows l) scope = None" using Free by (simp add: cell_of_iff)
  have e: "le_scope ?e = scope" "le_digest ?e = sr_digest stored" by (simp_all add: fresh_entry_def)
  have ok: "ledger_ok ?l" by (rule ledger_ok_updates(1) [OF assms(1) none])
  have "begin_entry l scope (sr_digest stored) = (Inr ?e, ?l)"
    using begin_entry_cell [OF assms(1), of scope "sr_digest stored"] Free by simp
  moreover have "complete_stored ?l ?e stored = (Inr (?e\<lparr>le_result := Some (sr_result stored)\<rparr>),
      ?l\<lparr>il_rows := dict_set scope stored (il_rows ?l), il_pending := dict_del scope (il_pending ?l)\<rparr>)"
    using complete_stored_cell [OF ok, of stored ?e] none by (simp add: e cell_of_updates)
  ultimately have "r = Inr stored" "l' = ?l\<lparr>il_rows := dict_set scope stored (il_rows ?l), il_pending := dict_del scope (il_pending ?l)\<rparr>"
    using assms(2) none by (simp_all add: store_result_def lookup_stored_def)
  then show ?thesis
    using ok Free by (simp only: refines_def ledger_ok_updates(2) cell_of_updates call_scope.simps) (simp add: cell_of_updates)
qed

lemma step_refines:
  assumes "ledger_ok l" "idem_step l c = (a, l')"
  shows "refines l c a l'"
proof (cases c)
  case (Begin scope digest)
  then show ?thesis using assms(2) begin_refines [OF assms(1)] by (cases "begin_entry l scope digest") auto
next
  case (Complete entry res)
  then show ?thesis using assms(2) complete_refines [OF assms(1)] by (cases "complete_entry l entry res") auto
next
  case (Store scope stored)
  then show ?thesis using assms(2) store_refines [OF assms(1)] by (cases "store_result l scope stored") auto
next
  case (Lookup scope)
  then have "a = Found (dict_get (il_rows l) scope)" "l' = l" using assms(2) by (auto simp: lookup_stored_def)
  moreover have "cell_step (cell_of l scope) (Lookup scope) = (Found (dict_get (il_rows l) scope), cell_of l scope)"
    by (cases "dict_get (il_rows l) scope") (auto simp: cell_of_def split: option.split)
  ultimately show ?thesis using assms(1) Lookup by (simp add: refines_def)
qed

subsection \<open>Histories\<close>

definition granted :: "ledger_scope \<Rightarrow> idem_call \<times> idem_answer \<Rightarrow> bool" where
  "granted scope ca = (case ca of (Begin sc digest, Entry (Inr e)) \<Rightarrow> sc = scope \<and> \<not> le_replayed e | _ \<Rightarrow> False)"

definition completed_by :: "ledger_scope \<Rightarrow> idem_call \<times> idem_answer \<Rightarrow> bool" where
  "completed_by scope ca = (case ca of (Complete entry res, Entry (Inr e)) \<Rightarrow> le_scope entry = scope | _ \<Rightarrow> False)"

fun left_to_grant :: "cell \<Rightarrow> nat" where
  "left_to_grant Free = 1"
| "left_to_grant _ = 0"

fun left_to_settle :: "cell \<Rightarrow> nat" where
  "left_to_settle (Settled s) = 0"
| "left_to_settle _ = 1"

lemma cell_counts:
  assumes "cell_step x c = (a, y)"
  shows "(if granted (call_scope c) (c, a) then 1 else 0) + left_to_grant y \<le> left_to_grant x"
    "(if completed_by (call_scope c) (c, a) then 1 else 0) + left_to_settle y \<le> left_to_settle x"
  using assms
  by (cases x; cases c; force simp: granted_def completed_by_def fresh_entry_def incomplete_def split: if_splits)+

lemma other_scope: "scope \<noteq> call_scope c \<Longrightarrow> \<not> granted scope (c, a) \<and> \<not> completed_by scope (c, a)"
  by (cases c) (auto simp: granted_def completed_by_def split: idem_answer.split sum.split)

lemma run_counts:
  "idem_run l cs = (h, l') \<Longrightarrow> ledger_ok l \<Longrightarrow> ledger_ok l' \<and>
    length (filter (granted scope) h) + left_to_grant (cell_of l' scope) \<le> left_to_grant (cell_of l scope) \<and>
    length (filter (completed_by scope) h) + left_to_settle (cell_of l' scope) \<le> left_to_settle (cell_of l scope)"
proof (induction cs arbitrary: l h)
  case (Cons c cs)
  obtain a l1 where step: "idem_step l c = (a, l1)" by fastforce
  obtain h1 where rest: "idem_run l1 cs = (h1, l')" "h = (c, a) # h1"
    using Cons.prems(1) step by (auto split: prod.splits)
  note ref = step_refines [OF Cons.prems(2) step, unfolded refines_def]
  note ih = Cons.IH [OF rest(1)]
  show ?case
  proof (cases "scope = call_scope c")
    case True
    then show ?thesis using cell_counts [of "cell_of l (call_scope c)" c a "cell_of l1 (call_scope c)"] ref ih rest(2) by auto
  next
    case False
    then show ?thesis using other_scope [OF False, of a] ref ih rest(2) by simp
  qed
qed simp

lemma run_settled:
  "idem_run l cs = (h, l') \<Longrightarrow> ledger_ok l \<Longrightarrow> cell_of l scope = Settled s \<Longrightarrow>
    cell_of l' scope = Settled s \<and> (\<forall>(c, a) \<in> set h. call_scope c = scope \<longrightarrow> a = final_answer s c)"
proof (induction cs arbitrary: l h)
  case (Cons c cs)
  obtain a l1 where step: "idem_step l c = (a, l1)" by fastforce
  obtain h1 where rest: "idem_run l1 cs = (h1, l')" "h = (c, a) # h1"
    using Cons.prems(1) step by (auto split: prod.splits)
  note ref = step_refines [OF Cons.prems(2) step, unfolded refines_def]
  have "cell_of l1 scope = Settled s \<and> (call_scope c = scope \<longrightarrow> a = final_answer s c)"
    using ref Cons.prems(3) by (cases "scope = call_scope c") auto
  then show ?case using Cons.IH [OF rest(1)] ref rest(2) by auto
qed simp

subsection \<open>What a digest names\<close>

text \<open>Requests with one digest are the same request, or exhibit a collision of the hash.\<close>

lemma tool_prefix:
  assumes "a @ [n] @ b = c @ [n] @ d" "n \<notin> set a" "n \<notin> set c"
  shows "a = c \<and> b = d"
  using assms by (auto simp: append_eq_append_conv2 Cons_eq_append_conv append_eq_Cons_conv)

lemma request_digest_names:
  assumes "tool_request_digest tool args = tool_request_digest tool' args'"
    "char_of (10::nat) \<notin> set tool" "char_of (10::nat) \<notin> set tool'"
    "json_wf (JObj (request_body args))" "json_wf (JObj (request_body args'))"
  shows "tool = tool' \<and> json_norm (JObj (request_body args)) = json_norm (JObj (request_body args')) \<or>
    (\<exists>x y. x \<noteq> y \<and> hexdigest x = hexdigest y)"
proof (cases "utf8_encode (tool @ [char_of (10::nat)] @ json_dumps False (JObj (request_body args))) =
    utf8_encode (tool' @ [char_of (10::nat)] @ json_dumps False (JObj (request_body args')))")
  case True
  then have "tool = tool' \<and> json_dumps False (JObj (request_body args)) = json_dumps False (JObj (request_body args'))"
    using tool_prefix [OF _ assms(2,3)] unfolding utf8_encode_inj by blast
  then show ?thesis using json_dumps_inj [OF assms(4,5)] by blast
next
  case False
  then show ?thesis using assms(1) unfolding tool_request_digest_def by blast
qed

subsection \<open>Properties\<close>

text \<open>C28: One effect for each key. In any history of calls of a new ledger, for every workspace, principal,
  tool and key, at most one call is granted the operation and at most one completes it; and from the moment
  it is settled every call answers from that first result, for ever: a retry of the same request gets it, a
  request with other arguments is refused as a conflict, a second completion is refused, and nothing else
  changes the entry.\<close>

theorem one_effect_per_key:
  assumes "idem_run new_ledger cs = (h, l)"
  shows "length (filter (granted scope) h) \<le> 1 \<and> length (filter (completed_by scope) h) \<le> 1 \<and>
    (\<forall>s cs' h' l'. lookup_stored l scope = Some s \<longrightarrow> idem_run l cs' = (h', l') \<longrightarrow>
       lookup_stored l' scope = Some s \<and> (\<forall>(c, a) \<in> set h'. call_scope c = scope \<longrightarrow> a = final_answer s c))"
proof -
  have start: "cell_of new_ledger scope = Free" by (simp add: cell_of_def new_ledger_def)
  have counts: "ledger_ok l \<and> length (filter (granted scope) h) \<le> 1 \<and> length (filter (completed_by scope) h) \<le> 1"
    using run_counts [OF assms new_ledger_ok, of scope] unfolding start left_to_grant.simps left_to_settle.simps
    by (auto intro: order_trans [OF le_add1])
  have "lookup_stored l' scope = Some s \<and> (\<forall>(c, a) \<in> set h'. call_scope c = scope \<longrightarrow> a = final_answer s c)"
    if "lookup_stored l scope = Some s" "idem_run l cs' = (h', l')" for s cs' h' l'
    using run_settled [OF that(2), of scope s] counts that(1) by (simp add: lookup_stored_def cell_of_iff)
  then show ?thesis using counts by blast
qed

definition demo_scope :: ledger_scope where
  "demo_scope = Scope ''w'' ''p'' ''append_evidence'' ''key-0001''"

definition demo_history :: "idem_call list" where
  "demo_history = [Begin demo_scope ''d'', Begin demo_scope ''d'', Complete (fresh_entry demo_scope ''d'') (JInt 1)]"

theorem one_effect_per_key_witness:
  "\<exists>h l. idem_run new_ledger demo_history = (h, l) \<and> length (filter (granted demo_scope) h) = 1 \<and>
    length (filter (completed_by demo_scope) h) \<le> 1 \<and>
    lookup_stored l demo_scope = Some \<lparr>sr_digest = ''d'', sr_result = JInt 1\<rparr> \<and>
    snd ` set (fst (idem_run l [Begin demo_scope ''e''])) \<subseteq> {final_answer \<lparr>sr_digest = ''d'', sr_result = JInt 1\<rparr> (Begin demo_scope ''e'')}"
proof -
  obtain h l where run: "idem_run new_ledger demo_history = (h, l)" by fastforce
  have "lookup_stored (snd (idem_run new_ledger demo_history)) demo_scope = Some \<lparr>sr_digest = ''d'', sr_result = JInt 1\<rparr>"
    "length (filter (granted demo_scope) (fst (idem_run new_ledger demo_history))) = 1"
    by code_simp+
  then have l: "lookup_stored l demo_scope = Some \<lparr>sr_digest = ''d'', sr_result = JInt 1\<rparr>" "length (filter (granted demo_scope) h) = 1"
    by (simp_all only: run fst_conv snd_conv)
  obtain h' l' where later: "idem_run l [Begin demo_scope ''e''] = (h', l')" by fastforce
  have "\<forall>(c, a) \<in> set h'. call_scope c = demo_scope \<longrightarrow> a = final_answer \<lparr>sr_digest = ''d'', sr_result = JInt 1\<rparr> c"
    using conjunct2 [OF conjunct2 [OF one_effect_per_key [OF run, of demo_scope]], rule_format, OF l(1) later] by (rule conjunct2)
  moreover have "fst ` set h' \<subseteq> {Begin demo_scope ''e''}" using later by (auto split: prod.splits)
  ultimately have "snd ` set h' \<subseteq> {final_answer \<lparr>sr_digest = ''d'', sr_result = JInt 1\<rparr> (Begin demo_scope ''e'')}"
    by fastforce
  then have "snd ` set (fst (idem_run l [Begin demo_scope ''e''])) \<subseteq> {final_answer \<lparr>sr_digest = ''d'', sr_result = JInt 1\<rparr> (Begin demo_scope ''e'')}"
    unfolding later fst_conv .
  moreover have "length (filter (completed_by demo_scope) h) \<le> 1"
    using one_effect_per_key [OF run, of demo_scope] by (rule conjunct1 [OF conjunct2])
  ultimately show ?thesis using run l by blast
qed

end
