(* ===== verification/Run_Registry.thy ===== *)
theory Run_Registry
  imports Idempotency
begin

text \<open>
  Run handles, \<open>vuoro_mcp_edge/runs.py\<close>: who a run belongs to, the registry that mints and resolves them, and
  the link to the run that one continues.
\<close>

subsection \<open>Bindings\<close>

record caller_identity =
  ci_principal_id :: "string option"
  ci_workspace_id :: "string option"
  ci_client_id :: "string option"
  ci_grant_id :: "string option"

record run_binding =
  bn_principal_id :: string
  bn_workspace_id :: string
  bn_repo_id :: string
  bn_client_id :: "string option"
  bn_grant_id :: "string option"

text \<open>\<open>binding_for\<close>: a caller without a stable principal or workspace cannot own a run.\<close>

definition binding_for :: "caller_identity option \<Rightarrow> string \<Rightarrow> (tool_failure, run_binding) result" where
  "binding_for identity repo =
    (case identity of
       None \<Rightarrow> Inl (ToolFailure ''run-binding-unavailable'')
     | Some i \<Rightarrow>
         (case (ci_principal_id i, ci_workspace_id i) of
            (Some p, Some w) \<Rightarrow>
              if p = [] \<or> w = [] then Inl (ToolFailure ''run-binding-unavailable'')
              else Inr \<lparr>bn_principal_id = p, bn_workspace_id = w, bn_repo_id = repo, bn_client_id = ci_client_id i, bn_grant_id = ci_grant_id i\<rparr>
          | _ \<Rightarrow> Inl (ToolFailure ''run-binding-unavailable'')))"

subsection \<open>Handles\<close>

definition crockford :: string where
  "crockford = ''0123456789ABCDEFGHJKMNPQRSTVWXYZ''"

text \<open>\<open>RUN_ID\<close>, as a full match.\<close>

definition run_id_ok :: "string \<Rightarrow> bool" where
  "run_id_ok s \<longleftrightarrow> take 4 s = ''run_'' \<and> length s = 30 \<and> list_all (\<lambda>c. c \<in> set crockford) (drop 4 s)"

text \<open>A new handle from 26 draws of \<open>secrets.choice\<close>.\<close>

definition mint :: "nat list \<Rightarrow> string" where
  "mint draws = ''run_'' @ map (\<lambda>n. crockford ! (n mod 32)) (take 26 draws @ replicate (26 - length draws) 0)"

subsection \<open>The registry\<close>

record run_registry =
  rg_runs :: "(string, run_binding) dict"
  rg_by_key :: "(run_binding \<times> string, string) dict"
  rg_predecessors :: "(string, string option) dict"

definition new_registry :: run_registry where
  "new_registry = \<lparr>rg_runs = [], rg_by_key = [], rg_predecessors = []\<rparr>"

definition predecessor_run :: "run_registry \<Rightarrow> string \<Rightarrow> run_binding option" where
  "predecessor_run l p = (if run_id_ok p then dict_get (rg_runs l) p else None)"

definition may_continue :: "run_registry \<Rightarrow> run_binding \<Rightarrow> string option \<Rightarrow> bool" where
  "may_continue l binding predecessor =
    (case predecessor of
       None \<Rightarrow> True
     | Some p \<Rightarrow>
         (case predecessor_run l p of
            None \<Rightarrow> False
          | Some b \<Rightarrow> bn_workspace_id b = bn_workspace_id binding \<and> bn_repo_id b = bn_repo_id binding))"

definition register_run :: "run_registry \<Rightarrow> run_binding \<Rightarrow> string \<Rightarrow> string option \<Rightarrow> nat list \<Rightarrow>
    (tool_failure, string) result \<times> run_registry" where
  "register_run l binding key predecessor draws =
    (case dict_get (rg_by_key l) (binding, key) of
       Some existing \<Rightarrow>
         ((if dict_get (rg_predecessors l) existing \<noteq> Some predecessor then Inl (ToolFailure ''idempotency-conflict'')
           else Inr existing), l)
     | None \<Rightarrow>
         if \<not> may_continue l binding predecessor then (Inl (ToolFailure ''predecessor-not-eligible''), l)
         else
           (Inr (mint draws),
            l\<lparr>rg_runs := dict_set (mint draws) binding (rg_runs l),
              rg_by_key := dict_set (binding, key) (mint draws) (rg_by_key l),
              rg_predecessors := dict_set (mint draws) predecessor (rg_predecessors l)\<rparr>))"

definition resolve_run :: "run_registry \<Rightarrow> string \<Rightarrow> run_binding \<Rightarrow> (tool_failure, run_binding) result" where
  "resolve_run l run_id caller =
    (case (if run_id_ok run_id then dict_get (rg_runs l) run_id else None) of
       None \<Rightarrow> Inl (ToolFailure ''run-not-found'')
     | Some owner \<Rightarrow> if owner \<noteq> caller then Inl (ToolFailure ''run-not-found'') else Inr owner)"

definition predecessor_of :: "run_registry \<Rightarrow> string \<Rightarrow> string option" where
  "predecessor_of l run_id = (case dict_get (rg_predecessors l) run_id of None \<Rightarrow> None | Some p \<Rightarrow> p)"

lemma crockford_nth: "n < 32 \<Longrightarrow> crockford ! n \<in> set crockford"
  by (rule nth_mem) (simp add: crockford_def)

lemma mint_ok: "run_id_ok (mint draws)"
  by (auto simp: mint_def run_id_ok_def list_all_iff intro!: crockford_nth)

subsection \<open>Histories\<close>

text \<open>The registrations of a history, with their answers; a handle that is minted is a new one.\<close>

type_synonym registration = "run_binding \<times> string \<times> string option \<times> nat list"

fun register_all :: "run_registry \<Rightarrow> registration list \<Rightarrow> (tool_failure, string) result list \<times> run_registry" where
  "register_all l [] = ([], l)"
| "register_all l ((b, key, p, draws) # rs) =
    (case register_run l b key p draws of (a, l') \<Rightarrow> (case register_all l' rs of (as, l'') \<Rightarrow> (a # as, l'')))"

fun mints_fresh :: "run_registry \<Rightarrow> registration list \<Rightarrow> bool" where
  "mints_fresh l [] \<longleftrightarrow> True"
| "mints_fresh l ((b, key, p, draws) # rs) \<longleftrightarrow>
    (dict_get (rg_by_key l) (b, key) = None \<longrightarrow> dict_get (rg_runs l) (mint draws) = None) \<and>
    mints_fresh (snd (register_run l b key p draws)) rs"

text \<open>Who registered a handle.\<close>

definition registered_by :: "run_binding \<Rightarrow> string \<Rightarrow> registration list \<Rightarrow> (tool_failure, string) result list \<Rightarrow> bool" where
  "registered_by b run_id rs as \<longleftrightarrow> (\<exists>(r, a) \<in> set (zip rs as). fst r = b \<and> a = Inr run_id)"

definition registry_ok :: "run_registry \<Rightarrow> bool" where
  "registry_ok l \<longleftrightarrow>
    (\<forall>b key r. dict_get (rg_by_key l) (b, key) = Some r \<longrightarrow> dict_get (rg_runs l) r = Some b) \<and>
    (\<forall>r b. dict_get (rg_runs l) r = Some b \<longrightarrow> run_id_ok r \<and> dict_get (rg_predecessors l) r \<noteq> None) \<and>
    (\<forall>r. dict_get (rg_runs l) r = None \<longrightarrow> dict_get (rg_predecessors l) r = None) \<and>
    (\<forall>r p. dict_get (rg_predecessors l) r = Some (Some p) \<longrightarrow>
       (\<exists>b b'. dict_get (rg_runs l) r = Some b \<and> dict_get (rg_runs l) p = Some b' \<and>
          bn_workspace_id b' = bn_workspace_id b \<and> bn_repo_id b' = bn_repo_id b))"

definition parents :: "run_registry \<Rightarrow> (string \<times> string) set" where
  "parents l = {(p, r). predecessor_of l r = Some p}"

lemma registry_okD:
  assumes "registry_ok l"
  shows "dict_get (rg_by_key l) (b, key) = Some r \<Longrightarrow> dict_get (rg_runs l) r = Some b"
    "dict_get (rg_runs l) r = Some b \<Longrightarrow> run_id_ok r"
    "dict_get (rg_predecessors l) r = Some (Some p) \<Longrightarrow> \<exists>b b'. dict_get (rg_runs l) r = Some b \<and> dict_get (rg_runs l) p = Some b' \<and>
       bn_workspace_id b' = bn_workspace_id b \<and> bn_repo_id b' = bn_repo_id b"
  using assms unfolding registry_ok_def by blast+

definition minted :: "run_registry \<Rightarrow> run_binding \<Rightarrow> string \<Rightarrow> string option \<Rightarrow> string \<Rightarrow> run_registry" where
  "minted l b key p r = l\<lparr>rg_runs := dict_set r b (rg_runs l), rg_by_key := dict_set (b, key) r (rg_by_key l),
     rg_predecessors := dict_set r p (rg_predecessors l)\<rparr>"

lemma register_cases:
  assumes "register_run l b key p draws = (a, l')"
  obtains (old) r where "dict_get (rg_by_key l) (b, key) = Some r" "l' = l" "a = Inr r \<or> (\<exists>e. a = Inl e)"
  | (no) e where "a = Inl e" "l' = l"
  | (new) "dict_get (rg_by_key l) (b, key) = None" "may_continue l b p" "a = Inr (mint draws)" "l' = minted l b key p (mint draws)"
  using assms by (auto simp: register_run_def minted_def split: option.splits if_splits)

lemma may_continueD:
  "may_continue l b (Some p) \<Longrightarrow> \<exists>b'. dict_get (rg_runs l) p = Some b' \<and> bn_workspace_id b' = bn_workspace_id b \<and> bn_repo_id b' = bn_repo_id b"
  by (auto simp: may_continue_def predecessor_run_def split: option.splits if_splits)

lemma minted_ok:
  assumes "registry_ok l" "may_continue l b p" "dict_get (rg_runs l) r = None" "run_id_ok r"
  shows "registry_ok (minted l b key p r)"
proof -
  have "\<exists>b1 b2. dict_get (rg_runs (minted l b key p r)) x = Some b1 \<and> dict_get (rg_runs (minted l b key p r)) q = Some b2 \<and>
      bn_workspace_id b2 = bn_workspace_id b1 \<and> bn_repo_id b2 = bn_repo_id b1"
    if "dict_get (rg_predecessors (minted l b key p r)) x = Some (Some q)" for x q
  proof (cases "x = r")
    case True
    then have "may_continue l b (Some q)" using that assms(2) by (simp add: minted_def)
    then show ?thesis using may_continueD assms(3) True by (fastforce simp: minted_def)
  next
    case False
    then have "dict_get (rg_predecessors l) x = Some (Some q)" using that by (simp add: minted_def)
    then show ?thesis using registry_okD(3) [OF assms(1)] False assms(3) by (fastforce simp: minted_def)
  qed
  moreover have "dict_get (rg_runs (minted l b key p r)) x = Some b'"
    if "dict_get (rg_by_key (minted l b key p r)) (b', key') = Some x" for b' key' x
    using that registry_okD(1) [OF assms(1), of b' key' x] assms(3) by (auto simp: minted_def split: if_splits)
  moreover have "\<forall>x b'. dict_get (rg_runs (minted l b key p r)) x = Some b' \<longrightarrow> run_id_ok x \<and> dict_get (rg_predecessors (minted l b key p r)) x \<noteq> None"
    "\<forall>x. dict_get (rg_runs (minted l b key p r)) x = None \<longrightarrow> dict_get (rg_predecessors (minted l b key p r)) x = None"
    using assms(1,4) unfolding registry_ok_def by (auto simp: minted_def)
  ultimately show ?thesis unfolding registry_ok_def by blast
qed

lemma minted_parents:
  assumes "registry_ok l" "may_continue l b p" "dict_get (rg_runs l) r = None" "acyclic (parents l)"
  shows "acyclic (parents (minted l b key p r))"
proof -
  have known: "dict_get (rg_runs l) x \<noteq> None \<and> dict_get (rg_runs l) y \<noteq> None" if "(x, y) \<in> parents l" for x y
    using that registry_okD(3) [OF assms(1), of y x] by (auto simp: parents_def predecessor_of_def split: option.splits)
  then have r: "\<And>x. (r, x) \<notin> parents l" "\<And>x. (x, r) \<notin> parents l" using assms(3) by blast+
  have "parents (minted l b key p r) = parents l \<union> (case p of None \<Rightarrow> {} | Some q \<Rightarrow> {(q, r)})"
    using r(2) by (auto simp: parents_def predecessor_of_def minted_def split: option.splits if_splits)
  moreover have "(r, q) \<notin> (parents l)\<^sup>*" if "p = Some q" for q
  proof -
    have "q \<noteq> r" using may_continueD assms(2,3) that by fastforce
    then show ?thesis using r(1) by (metis converse_rtranclE)
  qed
  ultimately show ?thesis using assms(4) by (auto simp: acyclic_insert split: option.split)
qed

lemma register_all_facts:
  "register_all l rs = (as, l') \<Longrightarrow> registry_ok l \<Longrightarrow> acyclic (parents l) \<Longrightarrow> mints_fresh l rs \<Longrightarrow>
    registry_ok l' \<and> acyclic (parents l') \<and>
    (\<forall>r b. dict_get (rg_runs l') r = Some b \<longleftrightarrow> dict_get (rg_runs l) r = Some b \<or> registered_by b r rs as)"
proof (induction rs arbitrary: l as)
  case (Cons x rs)
  obtain b key p draws where x: "x = (b, key, p, draws)" by (cases x)
  obtain a l1 where step: "register_run l b key p draws = (a, l1)" by fastforce
  obtain as' where rest: "register_all l1 rs = (as', l')" "as = a # as'"
    using Cons.prems(1) x step by (auto split: prod.splits)
  have fresh: "mints_fresh l1 rs" "dict_get (rg_by_key l) (b, key) = None \<Longrightarrow> dict_get (rg_runs l) (mint draws) = None"
    using Cons.prems(4) x step by simp_all
  have l1: "registry_ok l1 \<and> acyclic (parents l1) \<and>
      (\<forall>r b'. dict_get (rg_runs l1) r = Some b' \<longleftrightarrow> dict_get (rg_runs l) r = Some b' \<or> b' = b \<and> a = Inr r)"
    using step
  proof (cases rule: register_cases)
    case (old r)
    then show ?thesis using Cons.prems(2,3) registry_okD(1) [OF Cons.prems(2)] by auto
  next
    case new
    then show ?thesis
      using Cons.prems(2,3) minted_ok [OF _ _ fresh(2) mint_ok] minted_parents [OF _ _ fresh(2)] fresh(2) by (auto simp: minted_def)
  qed (use Cons.prems(2,3) in auto)
  have "registered_by b' r (x # rs) as \<longleftrightarrow> b' = b \<and> a = Inr r \<or> registered_by b' r rs as'" for b' r
    by (auto simp: registered_by_def rest(2) x)
  then show ?case using Cons.IH [OF rest(1)] l1 fresh(1) by blast
qed (simp add: registered_by_def)

subsection \<open>Properties\<close>

text \<open>C29: A run belongs to its caller. In any history of registrations, with handles that are new when they
  are minted, a handle resolves for a caller exactly when a registration by the same binding, in every
  field, was answered with it; and the runs it continues, however far back, were registered in its own
  workspace and repository and never lead back to it.\<close>

theorem runs_belong_to_their_binding:
  assumes "register_all new_registry rs = (as, l)" "mints_fresh new_registry rs"
  shows "(resolve_run l run_id caller = Inr owner \<longleftrightarrow> owner = caller \<and> registered_by caller run_id rs as) \<and>
    ((p, run_id) \<in> (parents l)\<^sup>+ \<longrightarrow> p \<noteq> run_id \<and>
      (\<exists>b b'. registered_by b run_id rs as \<and> registered_by b' p rs as \<and>
         bn_workspace_id b' = bn_workspace_id b \<and> bn_repo_id b' = bn_repo_id b))"
proof -
  have start: "registry_ok new_registry" "parents new_registry = {}"
    by (auto simp: registry_ok_def new_registry_def parents_def predecessor_of_def)
  have l: "registry_ok l" "acyclic (parents l)" "\<And>r b. dict_get (rg_runs l) r = Some b \<longleftrightarrow> registered_by b r rs as"
    using register_all_facts [OF assms(1) start(1) _ assms(2)] start(2) by (simp_all add: new_registry_def acyclic_def)
  have "resolve_run l run_id caller = Inr owner \<longleftrightarrow> owner = caller \<and> dict_get (rg_runs l) run_id = Some caller"
    using registry_okD(2) [OF l(1)] by (auto simp: resolve_run_def split: option.splits if_splits)
  moreover have "p \<noteq> run_id \<and> (\<exists>b b'. registered_by b run_id rs as \<and> registered_by b' p rs as \<and>
      bn_workspace_id b' = bn_workspace_id b \<and> bn_repo_id b' = bn_repo_id b)" if "(p, run_id) \<in> (parents l)\<^sup>+"
  proof
    show "p \<noteq> run_id" using that l(2) by (auto simp: acyclic_def)
    have edge: "\<exists>b b'. dict_get (rg_runs l) r = Some b \<and> dict_get (rg_runs l) q = Some b' \<and>
        bn_workspace_id b' = bn_workspace_id b \<and> bn_repo_id b' = bn_repo_id b" if "(q, r) \<in> parents l" for q r
      using that registry_okD(3) [OF l(1), of r q] by (auto simp: parents_def predecessor_of_def split: option.splits)
    from that show "\<exists>b b'. registered_by b run_id rs as \<and> registered_by b' p rs as \<and>
        bn_workspace_id b' = bn_workspace_id b \<and> bn_repo_id b' = bn_repo_id b"
      unfolding l(3) [symmetric]
    proof (induction rule: trancl_induct)
      case (step q r)
      from step.IH obtain b b' where q: "dict_get (rg_runs l) q = Some b" "dict_get (rg_runs l) p = Some b'"
        "bn_workspace_id b' = bn_workspace_id b" "bn_repo_id b' = bn_repo_id b" by blast
      from edge [OF step.hyps(2)] obtain c c' where "dict_get (rg_runs l) r = Some c" "dict_get (rg_runs l) q = Some c'"
        "bn_workspace_id c' = bn_workspace_id c" "bn_repo_id c' = bn_repo_id c" by blast
      then show ?case using q by auto
    qed (rule edge)
  qed
  ultimately show ?thesis using l(3) by blast
qed

definition demo_binding :: run_binding where
  "demo_binding = \<lparr>bn_principal_id = ''p'', bn_workspace_id = ''w'', bn_repo_id = ''r'', bn_client_id = None, bn_grant_id = None\<rparr>"

definition demo_registrations :: "registration list" where
  "demo_registrations = [(demo_binding, ''key-0001'', None, [1]),
     (demo_binding\<lparr>bn_principal_id := ''q''\<rparr>, ''key-0002'', Some (mint [1]), [2])]"

theorem runs_belong_to_their_binding_witness:
  "\<exists>as l. register_all new_registry demo_registrations = (as, l) \<and> as = [Inr (mint [1]), Inr (mint [2])] \<and>
    resolve_run l (mint [2]) demo_binding \<noteq> Inr demo_binding \<and>
    (\<exists>b b'. registered_by b (mint [2]) demo_registrations as \<and> registered_by b' (mint [1]) demo_registrations as \<and>
       bn_workspace_id b' = bn_workspace_id b \<and> bn_repo_id b' = bn_repo_id b)"
proof -
  obtain as l where run: "register_all new_registry demo_registrations = (as, l)" by fastforce
  have "fst (register_all new_registry demo_registrations) = [Inr (mint [1]), Inr (mint [2])]"
    "predecessor_of (snd (register_all new_registry demo_registrations)) (mint [2]) = Some (mint [1])"
    "mints_fresh new_registry demo_registrations"
    by code_simp+
  then have facts: "as = [Inr (mint [1]), Inr (mint [2])]" "predecessor_of l (mint [2]) = Some (mint [1])"
      "mints_fresh new_registry demo_registrations"
    by (simp_all only: run fst_conv snd_conv)
  have "mint [1] \<noteq> mint [2]" by code_simp
  then have no: "\<not> registered_by demo_binding (mint [2]) demo_registrations as"
    by (auto simp: registered_by_def facts(1) demo_registrations_def demo_binding_def)
  have "(mint [1], mint [2]) \<in> (parents l)\<^sup>+" using facts(2) by (auto simp: parents_def)
  note result = runs_belong_to_their_binding [OF run facts(3), of "mint [2]" demo_binding demo_binding "mint [1]"]
  show ?thesis using result no facts(1) run \<open>(mint [1], mint [2]) \<in> (parents l)\<^sup>+\<close> by blast
qed

end
