(* ===== verification/Edge_Proof.thy ===== *)
theory Edge_Proof
  imports Replay_Cache Copy_Types Py_Strings
begin

text \<open>
  Edge proofs, \<open>vuoro_service/edge_proof.py\<close>: the one-use message authentication code the MCP edge
  attaches to each call of the runtime shell, the verifier that accepts each nonce once, and the file
  two processes agree on their key through.
\<close>

unbundle bit_operations_syntax

subsection \<open>HMAC-SHA256\<close>

definition word_bytes :: "32 word \<Rightarrow> bytes" where
  "word_bytes w = map (\<lambda>i. ucast (drop_bit (24 - 8 * i) w)) [0..<4]"

definition sha_digest :: "bytes \<Rightarrow> bytes" where
  "sha_digest m = concat (map word_bytes (sha256 m))"

definition hmac_block :: "bytes \<Rightarrow> bytes" where
  "hmac_block key = (let k = (if length key > 64 then sha_digest key else key) in k @ replicate (64 - length k) 0)"

definition hmac_sha256 :: "bytes \<Rightarrow> bytes \<Rightarrow> bytes" where
  "hmac_sha256 key m =
    sha_digest (map (\<lambda>b. b XOR 0x5C) (hmac_block key) @ sha_digest (map (\<lambda>b. b XOR 0x36) (hmac_block key) @ m))"

lemma sha_digest_length [simp]: "length (sha_digest m) = 32"
proof -
  have "length (concat (map word_bytes ws)) = 4 * length ws" for ws
    by (induction ws) (simp_all add: word_bytes_def)
  then show ?thesis by (simp add: sha_digest_def sha256_length)
qed

lemma hmac_length [simp]: "length (hmac_sha256 key m) = 32"
  by (simp add: hmac_sha256_def)

subsection \<open>Fields of a proof\<close>

datatype edge_error = EdgeProofConfigurationError | EdgeProofError | EdgeProofReplayed | EdgeCacheFull
  | UnicodeEncodeError

definition proof_ttl_ms :: int where "proof_ttl_ms = 10000"
definition proof_clock_skew_ms :: int where "proof_clock_skew_ms = 1000"
definition key_bytes :: nat where "key_bytes = 32"
definition nonce_bytes :: nat where "nonce_bytes = 16"
definition mac_bytes :: nat where "mac_bytes = 32"
definition proof_version :: string where "proof_version = ''v1''"
definition proof_domain_text :: string where "proof_domain_text = ''vuoro-edge-proof/v1''"
definition proof_domain :: bytes where "proof_domain = utf8_encode proof_domain_text"

definition url_b64 :: "bytes \<Rightarrow> string" where
  "url_b64 bs = rstrip (CHR ''='') (map to_url (b64encode bs))"

text \<open>
  Python's decoder skips characters outside the alphabet; a text with such characters is not its own
  re-encoding, so it is refused in either reading.
\<close>

definition unb64 :: "string \<Rightarrow> nat \<Rightarrow> (edge_error, bytes) result" where
  "unb64 s n =
    (case b64decode (map from_url (s @ pad4 s)) of
       None \<Rightarrow> Inl EdgeProofError
     | Some bs \<Rightarrow> if length bs \<noteq> n \<or> url_b64 bs \<noteq> s then Inl EdgeProofError else Inr bs)"

definition encode_ascii :: "string \<Rightarrow> (edge_error, bytes) result" where
  "encode_ascii s = (if list_all (\<lambda>c. ord_of c < 128) s then Inr (utf8_encode s) else Inl UnicodeEncodeError)"

definition join_lines :: "bytes list \<Rightarrow> bytes" where
  "join_lines parts = concat (map (\<lambda>p. p @ [10]) (butlast parts)) @ last parts"

definition edge_mac :: "bytes \<Rightarrow> string \<Rightarrow> int \<Rightarrow> int \<Rightarrow> string \<Rightarrow> string \<Rightarrow> string \<Rightarrow> bytes \<Rightarrow>
    (edge_error, bytes) result" where
  "edge_mac key nonce iat_ms exp_ms method path assertion body =
    rbind (encode_ascii nonce) (\<lambda>n.
    rbind (encode_ascii (upper method)) (\<lambda>m.
    Inr (hmac_sha256 key (join_lines [proof_domain, n, utf8_encode (str_of_int iat_ms),
      utf8_encode (str_of_int exp_ms), m, utf8_encode path,
      utf8_encode (hexdigest (utf8_encode assertion)), utf8_encode (hexdigest body)]))))"

text \<open>\<open>int(x)\<close> of a float: towards zero.\<close>

definition trunc :: "real \<Rightarrow> int" where
  "trunc x = (if 0 \<le> x then \<lfloor>x\<rfloor> else \<lceil>x\<rceil>)"

text \<open>The nonce bytes are what \<open>secrets.token_bytes\<close> draws.\<close>

definition mint_edge_proof :: "bytes \<Rightarrow> string \<Rightarrow> string \<Rightarrow> string \<Rightarrow> bytes \<Rightarrow> real \<Rightarrow> bytes \<Rightarrow>
    (edge_error, string) result" where
  "mint_edge_proof key method path assertion body now drawn =
    (let iat_ms = trunc (now * 1000); exp_ms = iat_ms + proof_ttl_ms; nonce = url_b64 drawn
     in rbind (edge_mac key nonce iat_ms exp_ms method path assertion body) (\<lambda>mac.
        Inr (join ''.'' [proof_version, nonce, str_of_int iat_ms, str_of_int exp_ms, url_b64 mac])))"

definition millis :: "string \<Rightarrow> (edge_error, int) result" where
  "millis s =
    (if s = [] \<or> \<not> list_all is_digit s \<or> length s > 16 \<or> s \<noteq> str_of_nat (nat_of_digits 0 s)
     then Inl EdgeProofError else Inr (int (nat_of_digits 0 s)))"

subsection \<open>The verifier\<close>

record verifier =
  ve_key :: bytes
  ve_cache :: replay_cache
  ve_not_before_ms :: "int option"

definition new_verifier :: "bytes \<Rightarrow> replay_cache \<Rightarrow> real option \<Rightarrow> (edge_error, verifier) result" where
  "new_verifier key cache not_before =
    (if length key \<noteq> key_bytes then Inl EdgeProofConfigurationError
     else Inr \<lparr>ve_key = key, ve_cache = cache,
               ve_not_before_ms = map_option (\<lambda>t. trunc (t * 1000)) not_before\<rparr>)"

record edge_request =
  eq_method :: string
  eq_path :: string
  eq_assertion :: string
  eq_body :: bytes

text \<open>Everything \<open>verify\<close> checks before the clock: the nonce and the two times of a proof that authenticates.\<close>

definition authentic_proof :: "bytes \<Rightarrow> string \<Rightarrow> edge_request \<Rightarrow> (edge_error, bytes \<times> int \<times> int) result" where
  "authentic_proof key proof r =
    (case split_on (CHR ''.'') proof of
       [version, nonce_text, iat_text, exp_text, mac_text] \<Rightarrow>
         if version \<noteq> proof_version then Inl EdgeProofError else
         rbind (unb64 nonce_text nonce_bytes) (\<lambda>nonce.
         rbind (unb64 mac_text mac_bytes) (\<lambda>mac.
         rbind (millis iat_text) (\<lambda>iat_ms.
         rbind (millis exp_text) (\<lambda>exp_ms.
         rbind (edge_mac key nonce_text iat_ms exp_ms (eq_method r) (eq_path r) (eq_assertion r) (eq_body r)) (\<lambda>expected.
         if mac \<noteq> expected then Inl EdgeProofError else Inr (nonce, iat_ms, exp_ms))))))
     | _ \<Rightarrow> Inl EdgeProofError)"

text \<open>The checks of its times against the clock of the verifier.\<close>

definition check_times :: "int option \<Rightarrow> int \<Rightarrow> int \<Rightarrow> int \<Rightarrow> (edge_error, unit) result" where
  "check_times not_before now_ms iat_ms exp_ms =
    rbind (need EdgeProofError (0 < exp_ms - iat_ms \<and> exp_ms - iat_ms \<le> proof_ttl_ms)) (\<lambda>_.
    rbind (need EdgeProofError (iat_ms \<le> now_ms + proof_clock_skew_ms)) (\<lambda>_.
    rbind (need EdgeProofError (now_ms < exp_ms)) (\<lambda>_.
    need EdgeProofReplayed (case not_before of None \<Rightarrow> True | Some b \<Rightarrow> b \<le> iat_ms))))"

definition held_until :: "int \<Rightarrow> real" where
  "held_until exp_ms = (of_int exp_ms + of_int proof_clock_skew_ms) / 1000"

text \<open>\<open>t\<close> is the clock reading of the verifier, \<open>c\<close> the later one of its cache.\<close>

definition verify_proof :: "real \<Rightarrow> real \<Rightarrow> string \<Rightarrow> edge_request \<Rightarrow> verifier \<Rightarrow> (edge_error, unit) result \<times> verifier" where
  "verify_proof t c proof r v =
    (case rbind (authentic_proof (ve_key v) proof r) (\<lambda>(nonce, iat_ms, exp_ms).
            rbind (check_times (ve_not_before_ms v) (trunc (t * 1000)) iat_ms exp_ms) (\<lambda>_.
            Inr (nonce, exp_ms))) of
       Inl e \<Rightarrow> (Inl e, v)
     | Inr (nonce, exp_ms) \<Rightarrow>
         (case consume nonce (held_until exp_ms) c (ve_cache v) of
            (res, cache) \<Rightarrow>
              (case res of Inl _ \<Rightarrow> Inl EdgeCacheFull
               | Inr used \<Rightarrow> need EdgeProofReplayed used,
               v\<lparr>ve_cache := cache\<rparr>)))"

subsection \<open>The unpadded base64 of a nonce or code\<close>

lemma b64_shape:
  "\<exists>body k. b64encode bs = body @ replicate k (CHR ''='') \<and> k \<le> 2 \<and> (length body + k) mod 4 = 0 \<and>
     (\<forall>c \<in> set body. b64_value c \<noteq> None)"
proof (induction bs rule: b64encode.induct)
  case (2 a)
  have "unat a * 16 div 64 < 64" using unat_byte [of a] by linarith
  then show ?case
    by (intro exI [of _ "[b64_char (unat a * 16 div 64), b64_char (unat a * 16 mod 64)]"] exI [of _ 2])
      (simp add: numeral_2_eq_2)
next
  case (3 a b)
  let ?n = "(unat a * 256 + unat b) * 4"
  have "?n div 4096 < 64" using unat_byte_le [of a] unat_byte_le [of b] by simp
  then show ?case
    by (intro exI [of _ "[b64_char (?n div 4096), b64_char (?n div 64 mod 64), b64_char (?n mod 64)]"] exI [of _ 1])
      (simp add: Let_def)
next
  case (4 a b c r)
  obtain body k where b: "b64encode r = body @ replicate k (CHR ''='')" "k \<le> 2" "(length body + k) mod 4 = 0"
    "\<forall>c \<in> set body. b64_value c \<noteq> None" using 4 by metis
  define n where "n = (unat a * 256 + unat b) * 256 + unat c"
  define quad where "quad = [b64_char (n div 262144), b64_char (n div 4096 mod 64), b64_char (n div 64 mod 64), b64_char (n mod 64)]"
  have "n div 262144 < 64"
    using unat_byte_le [of a] unat_byte_le [of b] unat_byte_le [of c] unfolding n_def by simp
  then have "\<forall>c \<in> set quad. b64_value c \<noteq> None" by (simp add: quad_def)
  moreover have "b64encode (a # b # c # r) = (quad @ body) @ replicate k (CHR ''='')"
    by (simp only: b64encode.simps Let_def n_def [symmetric] b(1) quad_def) simp
  moreover have "length (quad @ body) + k = 4 + (length body + k)" by (simp add: quad_def)
  then have "(length (quad @ body) + k) mod 4 = 0" using b(3) by (simp only: mod_add_self1)
  ultimately show ?case using b(2,4) by (intro exI [of _ "quad @ body"] exI [of _ k] conjI) auto
qed simp

lemma b64_value_safe:
  assumes "b64_value c \<noteq> None"
  shows "from_url (to_url c) = c \<and> to_url c \<noteq> CHR ''.'' \<and> to_url c \<noteq> CHR ''='' \<and>
    ord_of (to_url c) < 128 \<and> ord_of (to_url c) \<noteq> 10"
proof -
  have o: "ord_of c < 128" "ord_of c \<noteq> 10"
    using assms by (simp_all add: b64_value_def Let_def split: if_splits)
  have n: "c \<noteq> CHR ''-''" "c \<noteq> CHR ''_''" "c \<noteq> CHR ''.''" "c \<noteq> CHR ''=''"
    using assms by (auto simp: b64_value_def)
  show ?thesis
    by (cases "c = CHR ''+''"; cases "c = CHR ''/''") (use o n in \<open>simp_all add: to_url_def from_url_def\<close>)
qed

lemma rstrip_replicate: "c \<notin> set xs \<Longrightarrow> rstrip c (xs @ replicate k c) = xs"
proof -
  assume "c \<notin> set xs"
  then have "dropWhile (\<lambda>x. x = c) (replicate k c @ rev xs) = rev xs"
    by (induction k) (auto intro: dropWhile_eq_self_iff [THEN iffD2] simp: hd_rev)
  then show ?thesis by (simp add: rstrip_def)
qed

lemma pad4_length: "k \<le> 2 \<Longrightarrow> (length s + k) mod 4 = 0 \<Longrightarrow> pad4 s = replicate k (CHR ''='')"
proof -
  assume "k \<le> 2" "(length s + k) mod 4 = 0"
  define m where "m = length s mod 4"
  have "m < 4" "(m + k) mod 4 = 0" using \<open>(length s + k) mod 4 = 0\<close> by (simp_all add: m_def mod_add_left_eq)
  moreover from this have "m = 0 \<or> m = 1 \<or> m = 2 \<or> m = 3" by linarith
  moreover have "k = 0 \<or> k = 1 \<or> k = 2" using \<open>k \<le> 2\<close> by linarith
  ultimately have "(4 - m) mod 4 = k" by (elim disjE) simp_all
  then show ?thesis by (simp add: pad4_def m_def)
qed

lemma url_b64_facts:
  "b64decode (map from_url (url_b64 bs @ pad4 (url_b64 bs))) = Some bs"
  "c \<in> set (url_b64 bs) \<Longrightarrow> c \<noteq> CHR ''.'' \<and> ord_of c < 128 \<and> ord_of c \<noteq> 10"
proof -
  obtain body k where b: "b64encode bs = body @ replicate k (CHR ''='')" "k \<le> 2" "(length body + k) mod 4 = 0"
    "\<forall>c \<in> set body. b64_value c \<noteq> None" using b64_shape [of bs] by metis
  have safe: "from_url (to_url c) = c \<and> to_url c \<noteq> CHR ''.'' \<and> to_url c \<noteq> CHR ''='' \<and>
      ord_of (to_url c) < 128 \<and> ord_of (to_url c) \<noteq> 10" if "c \<in> set body" for c
    using b64_value_safe b(4) that by blast
  have "CHR ''='' \<notin> set (map to_url body)" using safe by fastforce
  moreover have eq: "to_url (CHR ''='') = CHR ''=''" by (simp add: to_url_def)
  ultimately have u: "url_b64 bs = map to_url body"
    by (simp add: url_b64_def b(1) rstrip_replicate)
  have "map from_url (map to_url body) = body" using safe by (simp add: map_idI)
  moreover have "pad4 (map to_url body) = replicate k (CHR ''='')" using b by (intro pad4_length) simp_all
  moreover have "map from_url (replicate k (CHR ''='')) = replicate k (CHR ''='')" by (simp add: from_url_def)
  ultimately have "map from_url (url_b64 bs @ pad4 (url_b64 bs)) = b64encode bs" by (simp add: u b(1))
  then show "b64decode (map from_url (url_b64 bs @ pad4 (url_b64 bs))) = Some bs" by simp
  show "c \<in> set (url_b64 bs) \<Longrightarrow> c \<noteq> CHR ''.'' \<and> ord_of c < 128 \<and> ord_of c \<noteq> 10" using safe by (auto simp: u)
qed

lemma unb64_url_b64 [simp]: "length bs = n \<Longrightarrow> unb64 (url_b64 bs) n = Inr bs"
  using url_b64_facts(1) [of bs] by (simp add: unb64_def)

lemma unb64_Inr: "unb64 s n = Inr bs \<Longrightarrow> length bs = n \<and> url_b64 bs = s"
  by (auto simp: unb64_def split: option.splits if_splits)

lemma millis_str [simp]: "n < 10 ^ 16 \<Longrightarrow> millis (str_of_int (int n)) = Inr (int n)"
  using str_of_nat_digits [of n] str_of_nat_length [of n 15] by (auto simp: millis_def str_of_int_def)

lemma millis_Inr: "millis s = Inr i \<Longrightarrow> s = str_of_int i \<and> 0 \<le> i \<and> list_all is_digit s"
  by (auto simp: millis_def str_of_int_def split: if_splits)

subsection \<open>A minted proof is read back\<close>

lemma split_on_join: "ps \<noteq> [] \<Longrightarrow> \<forall>p \<in> set ps. c \<notin> set p \<Longrightarrow> split_on c (join [c] ps) = ps"
  by (induction "[c]" ps rule: join.induct) (simp_all add: split_on_single split_on_append)

lemma digits_safe: "list_all is_digit s \<Longrightarrow> CHR ''.'' \<notin> set s \<and> list_all (\<lambda>c. ord_of c < 128 \<and> ord_of c \<noteq> 10) s"
  by (auto simp: list_all_iff is_digit_def)

lemma str_of_int_digits: "0 \<le> i \<Longrightarrow> list_all is_digit (str_of_int i)"
  by (simp add: str_of_int_def str_of_nat_digits)

lemma minted_is_authentic:
  assumes mint: "mint_edge_proof key (eq_method r) (eq_path r) (eq_assertion r) (eq_body r) now drawn = Inr proof"
    and n: "length drawn = nonce_bytes" and t: "0 \<le> now" "trunc (now * 1000) + proof_ttl_ms < 10 ^ 16"
  shows "authentic_proof key proof r = Inr (drawn, trunc (now * 1000), trunc (now * 1000) + proof_ttl_ms)"
proof -
  let ?i = "trunc (now * 1000)"
  obtain mac where m: "edge_mac key (url_b64 drawn) ?i (?i + proof_ttl_ms) (eq_method r) (eq_path r) (eq_assertion r)
      (eq_body r) = Inr mac"
    and p: "proof = join ''.'' [proof_version, url_b64 drawn, str_of_int ?i, str_of_int (?i + proof_ttl_ms), url_b64 mac]"
    using mint by (auto simp: mint_edge_proof_def Let_def)
  have i: "0 \<le> ?i" using t by (simp add: trunc_def)
  then have ie: "0 \<le> ?i + proof_ttl_ms" by (simp add: proof_ttl_ms_def)
  have "split_on (CHR ''.'') proof =
      [proof_version, url_b64 drawn, str_of_int ?i, str_of_int (?i + proof_ttl_ms), url_b64 mac]"
    unfolding p using url_b64_facts(2) digits_safe [OF str_of_int_digits [OF i]] digits_safe [OF str_of_int_digits [OF ie]]
    by (intro split_on_join) (auto simp: proof_version_def)
  moreover have "length mac = mac_bytes" using m by (auto simp: edge_mac_def mac_bytes_def)
  moreover have "millis (str_of_int ?i) = Inr ?i" "millis (str_of_int (?i + proof_ttl_ms)) = Inr (?i + proof_ttl_ms)"
    using i ie t(2) millis_str [of "nat ?i"] millis_str [of "nat (?i + proof_ttl_ms)"]
    by (simp_all add: proof_ttl_ms_def nat_less_iff)
  ultimately show ?thesis using m n by (simp add: authentic_proof_def)
qed

lemma authentic_Inr:
  "authentic_proof key proof r = Inr (nonce, iat_ms, exp_ms) \<longleftrightarrow>
    (\<exists>mac. split_on (CHR ''.'') proof =
        [proof_version, url_b64 nonce, str_of_int iat_ms, str_of_int exp_ms, url_b64 mac] \<and>
      unb64 (url_b64 nonce) nonce_bytes = Inr nonce \<and> unb64 (url_b64 mac) mac_bytes = Inr mac \<and>
      millis (str_of_int iat_ms) = Inr iat_ms \<and> millis (str_of_int exp_ms) = Inr exp_ms \<and>
      edge_mac key (url_b64 nonce) iat_ms exp_ms (eq_method r) (eq_path r) (eq_assertion r) (eq_body r) = Inr mac)"
  (is "?L \<longleftrightarrow> ?R")
proof
  show ?R if ?L
    using that unb64_Inr millis_Inr
    by (auto simp: authentic_proof_def split: list.splits if_splits)
  show ?L if ?R
    using that by (auto simp: authentic_proof_def)
qed

subsection \<open>Consuming a nonce\<close>

lemma consume_spec:
  assumes "cache_inv c" and es_def: "es = unexpired now (entries c)"
  shows "fst (consume k e now c) =
      (if dict_get es k \<noteq> None then Inr False else if max_entries c \<le> length es then Inl ReplayCacheFull else Inr True)"
    "entries (snd (consume k e now c)) =
      (if dict_get es k = None \<and> length es < max_entries c
       then dict_set k \<lparr>re_expires_at = e, re_route = ''direct'', re_uses = 1\<rparr> es else es)"
proof -
  have "1 \<le> re_uses en" if "dict_get es k = Some en" for en
    using that assms by (auto simp: es_def cache_inv_def unexpired_get split: option.splits if_splits)
  then show "fst (consume k e now c) =
      (if dict_get es k \<noteq> None then Inr False else if max_entries c \<le> length es then Inl ReplayCacheFull else Inr True)"
    "entries (snd (consume k e now c)) =
      (if dict_get es k = None \<and> length es < max_entries c
       then dict_set k \<lparr>re_expires_at = e, re_route = ''direct'', re_uses = 1\<rparr> es else es)"
    using claim_entries [OF assms(1), of k e "''direct''" 1 now]
    by (auto simp: consume_def spec_claim_def es_def Let_def split: option.splits)
qed

lemma verify_accepts:
  "fst (verify_proof t c proof r v) = Inr () \<longleftrightarrow>
    (\<exists>nonce iat_ms exp_ms. authentic_proof (ve_key v) proof r = Inr (nonce, iat_ms, exp_ms) \<and>
      check_times (ve_not_before_ms v) (trunc (t * 1000)) iat_ms exp_ms = Inr () \<and>
      fst (consume nonce (held_until exp_ms) c (ve_cache v)) = Inr True)"
  by (auto simp: verify_proof_def split: sum.splits prod.splits)

lemma verify_state:
  "snd (verify_proof t c proof r v) = v \<or> (\<exists>nonce exp_ms. snd (verify_proof t c proof r v) =
     v\<lparr>ve_cache := snd (consume nonce (held_until exp_ms) c (ve_cache v))\<rparr> \<and>
     (fst (verify_proof t c proof r v) = Inr () \<longrightarrow> (\<exists>iat_ms. authentic_proof (ve_key v) proof r = Inr (nonce, iat_ms, exp_ms))))"
  by (auto simp: verify_proof_def split: sum.splits prod.splits) (metis snd_conv)+

lemma verify_inv: "cache_inv (ve_cache v) \<Longrightarrow> cache_inv (ve_cache (snd (verify_proof t c proof r v)))"
  using verify_state [of t c "proof" r v] claim_key_inv by (auto simp: consume_def)

lemma trunc_less: "trunc x < e \<Longrightarrow> x < of_int e"
  by (auto simp: trunc_def floor_less_iff split: if_splits) linarith

lemma trunc_mono: "x \<le> y \<Longrightarrow> trunc x \<le> trunc y"
proof -
  assume xy: "x \<le> y"
  have "\<lceil>x\<rceil> \<le> \<lfloor>y\<rfloor>" if xs: "\<not> 0 \<le> x" "0 \<le> y"
  proof -
    have "\<lceil>x\<rceil> \<le> 0" "0 \<le> \<lfloor>y\<rfloor>" using xs by simp_all
    then show ?thesis by (rule order_trans)
  qed
  then show "trunc x \<le> trunc y" using xy by (auto simp: trunc_def floor_mono ceiling_mono)
qed

lemma check_times_now:
  assumes "check_times nb (trunc (t * 1000)) iat_ms exp_ms = Inr ()" "c < t + 1"
  shows "c < held_until exp_ms"
proof -
  have "t * 1000 < of_int exp_ms" using assms(1) trunc_less by (auto simp: check_times_def)
  with assms(2) show ?thesis by (simp add: held_until_def proof_clock_skew_ms_def)
qed


subsection \<open>Calls as steps\<close>

text \<open>
  A call happens at the reading of the cache's clock; the verifier read its own clock \<open>lag\<close> earlier. That
  no more than the clock skew the code allows for, one second, passes in between is what the one use of
  a proof rests on.
\<close>

datatype edge_call = VerifyCall (lag: real) (call_proof: string) (call_request: edge_request)

definition prompt_call :: "edge_call \<Rightarrow> verifier \<Rightarrow> bool" where
  "prompt_call call v \<longleftrightarrow> 0 \<le> lag call \<and> lag call < 1"

definition verify_exec :: "real \<Rightarrow> edge_call \<Rightarrow> verifier \<Rightarrow> (edge_error, unit) result \<times> verifier" where
  "verify_exec now call v = verify_proof (now - lag call) now (call_proof call) (call_request call) v"

type_synonym verify_label = "real \<times> edge_call \<times> (edge_error, unit) result"

abbreviation verify_step :: "real \<times> verifier \<Rightarrow> verify_label \<Rightarrow> real \<times> verifier \<Rightarrow> bool" where
  "verify_step \<equiv> clocked_step prompt_call verify_exec"

definition accepted_proof :: "verify_label \<Rightarrow> string option" where
  "accepted_proof l = (if snd (snd l) = Inr () then Some (call_proof (fst (snd l))) else None)"

text \<open>A proof is spent once its nonce is held until its expiry, or that time has passed.\<close>

definition proof_id :: "string \<Rightarrow> (bytes \<times> int) option" where
  "proof_id proof =
    (case split_on (CHR ''.'') proof of
       [_, n, _, e, _] \<Rightarrow> (case (unb64 n nonce_bytes, millis e) of
          (Inr nonce, Inr exp_ms) \<Rightarrow> Some (nonce, exp_ms) | _ \<Rightarrow> None)
     | _ \<Rightarrow> None)"

definition held :: "bytes \<Rightarrow> real \<Rightarrow> real \<times> verifier \<Rightarrow> bool" where
  "held nonce e s \<longleftrightarrow> e \<le> fst s \<or>
    (\<exists>en. dict_get (entries (ve_cache (snd s))) nonce = Some en \<and> e \<le> re_expires_at en)"

definition spent_proofs :: "real \<times> verifier \<Rightarrow> string set" where
  "spent_proofs s = {p. \<exists>nonce exp_ms. proof_id p = Some (nonce, exp_ms) \<and> held nonce (held_until exp_ms) s}"

lemma authentic_id: "authentic_proof key p r = Inr (nonce, iat_ms, exp_ms) \<Longrightarrow> proof_id p = Some (nonce, exp_ms)"
  by (auto simp: authentic_Inr proof_id_def)

lemma held_consume:
  assumes "cache_inv (ve_cache v)" "held nonce e (t, v)" "t \<le> now"
  shows "held nonce e (now, v\<lparr>ve_cache := snd (consume k d now (ve_cache v))\<rparr>)"
proof (cases "e \<le> now")
  case True
  then show ?thesis by (simp add: held_def)
next
  case False
  then obtain en where en: "dict_get (entries (ve_cache v)) nonce = Some en" "e \<le> re_expires_at en"
    using assms by (auto simp: held_def)
  then have "dict_get (unexpired now (entries (ve_cache v))) nonce = Some en"
    using False assms(1) by (simp add: cache_inv_def unexpired_get)
  then show ?thesis using en(2) assms(1) by (auto simp: held_def consume_spec(2) [OF _ refl])
qed

interpretation verifier_system: clocked_system prompt_call verify_exec "\<lambda>v. cache_inv (ve_cache v)"
  by unfold_locales (simp add: verify_exec_def verify_inv)

interpretation one_use: at_most_once verify_step "\<lambda>s. cache_inv (ve_cache (snd s))" accepted_proof spent_proofs
proof unfold_locales
  fix s l s' and p :: string
  assume inv: "cache_inv (ve_cache (snd s))" and st: "verify_step s l s'"
  obtain now call where call: "fst s \<le> now" "prompt_call call (snd s)" "l = (now, call, fst (verify_exec now call (snd s)))"
    "s' = (now, snd (verify_exec now call (snd s)))"
    using st by (rule clocked_stepE)
  show mono: "spent_proofs s \<subseteq> spent_proofs s'"
  proof -
    have "held nonce e s'" if h: "held nonce e s" for nonce e
    proof -
      have h': "held nonce e (fst s, snd s)" using h by simp
      consider "snd s' = snd s" | k d where "s' = (now, (snd s)\<lparr>ve_cache := snd (consume k d now (ve_cache (snd s)))\<rparr>)"
        using verify_state [of "now - lag call" now "call_proof call" "call_request call" "snd s"] call(4)
        unfolding verify_exec_def by fastforce
      then show ?thesis
      proof cases
        case 1
        then show ?thesis using h call by (auto simp: held_def)
      next
        case 2
        then show ?thesis using held_consume [OF inv h' call(1)] by simp
      qed
    qed
    then show ?thesis by (auto simp: spent_proofs_def)
  qed
  assume acc: "accepted_proof l = Some p"
  then obtain nonce iat_ms exp_ms where a:
      "authentic_proof (ve_key (snd s)) p (call_request call) = Inr (nonce, iat_ms, exp_ms)"
      "check_times (ve_not_before_ms (snd s)) (trunc ((now - lag call) * 1000)) iat_ms exp_ms = Inr ()"
      "fst (consume nonce (held_until exp_ms) now (ve_cache (snd s))) = Inr True"
    using call(3) by (auto simp: accepted_proof_def verify_exec_def verify_accepts split: if_splits)
  have p: "proof_id p = Some (nonce, exp_ms)" using authentic_id a(1) .
  have now: "now < held_until exp_ms" using check_times_now [OF a(2)] call(2) by (simp add: prompt_call_def)
  have none: "dict_get (unexpired now (entries (ve_cache (snd s)))) nonce = None"
    "length (unexpired now (entries (ve_cache (snd s)))) < max_entries (ve_cache (snd s))"
    using a(3) by (auto simp: consume_spec(1) [OF inv refl] split: if_splits)
  show "p \<notin> spent_proofs s"
  proof
    assume "p \<in> spent_proofs s"
    then have "held nonce (held_until exp_ms) s" using p by (auto simp: spent_proofs_def)
    then show False using none(1) now call(1) inv
      by (auto simp: held_def cache_inv_def unexpired_get split: option.splits if_splits)
  qed
  have "snd (verify_exec now call (snd s)) =
      (snd s)\<lparr>ve_cache := snd (consume nonce (held_until exp_ms) now (ve_cache (snd s)))\<rparr>"
    using a call(3) acc
    by (auto simp: accepted_proof_def verify_exec_def verify_proof_def split: if_splits prod.splits)
  then have "held nonce (held_until exp_ms) s'"
    using none call(4) by (auto simp: held_def consume_spec(2) [OF inv refl])
  then show "p \<in> spent_proofs s'" using p by (auto simp: spent_proofs_def)
qed

subsection \<open>What a code binds\<close>

abbreviation line_feed :: char where "line_feed \<equiv> char_of (10::nat)"

definition edge_message :: "string \<Rightarrow> int \<Rightarrow> int \<Rightarrow> edge_request \<Rightarrow> bytes" where
  "edge_message nonce iat_ms exp_ms r = utf8_encode (join [line_feed] [proof_domain_text, nonce,
     str_of_int iat_ms, str_of_int exp_ms, upper (eq_method r), eq_path r,
     hexdigest (utf8_encode (eq_assertion r)), hexdigest (eq_body r)])"

lemma utf8_encode_append [simp]: "utf8_encode (s @ t) = utf8_encode s @ utf8_encode t"
  by (simp add: utf8_encode_def)

lemma utf8_line_feed: "utf8_encode (line_feed # s) = 10 # utf8_encode s"
  by (simp add: utf8_encode_def utf8_char_def)

lemma edge_mac_message:
  assumes "edge_mac key nonce iat_ms exp_ms (eq_method r) (eq_path r) (eq_assertion r) (eq_body r) = Inr mac"
  shows "mac = hmac_sha256 key (edge_message nonce iat_ms exp_ms r)"
  using assms
  by (auto simp: edge_mac_def encode_ascii_def edge_message_def join_lines_def proof_domain_def utf8_line_feed
      split: if_splits)

lemma upper_line_feed: "line_feed \<notin> set s \<Longrightarrow> line_feed \<notin> set (upper s)"
proof (induction s)
  case (Cons c s)
  have "ord_of c \<noteq> 10" using Cons.prems by (metis char_of_char list.set_intros(1))
  then have "line_feed \<notin> set (upper_char c)"
    by (auto simp: upper_char_def Let_def char_of_eq_iff simp del: of_char_eq_iff)
  then show ?case using Cons by (simp add: upper_def)
qed (simp add: upper_def)

lemma edge_message_eq:
  assumes "edge_message n i e q = edge_message n i e r"
    "line_feed \<notin> set (eq_method q)" "line_feed \<notin> set (eq_method r)"
  shows "upper (eq_method q) = upper (eq_method r) \<and> eq_path q = eq_path r \<and>
    hexdigest (utf8_encode (eq_assertion q)) = hexdigest (utf8_encode (eq_assertion r)) \<and>
    hexdigest (eq_body q) = hexdigest (eq_body r)"
proof -
  define rest where "rest = (\<lambda>r :: edge_request. eq_path r @ line_feed # hexdigest (utf8_encode (eq_assertion r)) @ line_feed # hexdigest (eq_body r))"
  have eq: "upper (eq_method q) @ line_feed # rest q = upper (eq_method r) @ line_feed # rest r"
    using assms(1) by (simp add: edge_message_def rest_def)
  then have "split_on line_feed (upper (eq_method q) @ line_feed # rest q) =
      split_on line_feed (upper (eq_method r) @ line_feed # rest r)" by simp
  then have m: "upper (eq_method q) = upper (eq_method r)"
    using upper_line_feed assms(2,3) by (simp add: split_on_append)
  then have "rest q = rest r" using eq by simp
  then show ?thesis using m by (simp add: rest_def)
qed

lemma mint_succeeds:
  "list_all (\<lambda>c. ord_of c < 128) (upper method) \<Longrightarrow> \<exists>p. mint_edge_proof key method path assertion body now drawn = Inr p"
  using url_b64_facts(2) [of _ drawn]
  by (auto simp: mint_edge_proof_def Let_def edge_mac_def encode_ascii_def list_all_iff)

lemma fresh_proof_times:
  assumes "0 \<le> now" "0 \<le> t" "now \<le> t + 1" "t \<le> now + 9.999"
    "case nb of None \<Rightarrow> True | Some b \<Rightarrow> b \<le> trunc (now * 1000)"
  shows "check_times nb (trunc (t * 1000)) (trunc (now * 1000)) (trunc (now * 1000) + proof_ttl_ms) = Inr ()"
proof -
  have t: "trunc (t * 1000) = \<lfloor>t * 1000\<rfloor>" "trunc (now * 1000) = \<lfloor>now * 1000\<rfloor>"
    using assms(1,2) by (simp_all add: trunc_def)
  have "now * 1000 \<le> t * 1000 + of_int 1000" "t * 1000 \<le> now * 1000 + of_int 9999" using assms(3,4) by simp_all
  then have "\<lfloor>now * 1000\<rfloor> \<le> \<lfloor>t * 1000\<rfloor> + 1000" "\<lfloor>t * 1000\<rfloor> \<le> \<lfloor>now * 1000\<rfloor> + 9999"
    by (metis floor_add_int floor_mono)+
  then show ?thesis using assms(5) unfolding t(2) by (simp add: check_times_def proof_ttl_ms_def proof_clock_skew_ms_def t)
qed


subsection \<open>The key file\<close>

text \<open>
  \<open>load_or_create_proof_key\<close> of several processes on one path: looking for the file, linking a private
  temporary file with a drawn key into place, reading. Any of them may fail with an \<open>OSError\<close>.
\<close>

datatype key_stage = KeyLook | KeyLink bytes | KeyRead | KeyDone "(edge_error, bytes) result"

definition key_look :: "bytes option \<Rightarrow> bytes \<Rightarrow> key_stage" where
  "key_look file drawn = (if file = None then KeyLink drawn else KeyRead)"

definition key_link :: "bytes \<Rightarrow> bytes option \<Rightarrow> bytes option" where
  "key_link drawn file = (case file of None \<Rightarrow> Some drawn | Some k \<Rightarrow> Some k)"

definition key_read :: "bytes option \<Rightarrow> key_stage" where
  "key_read file =
    KeyDone (case file of None \<Rightarrow> Inl EdgeProofConfigurationError
             | Some key \<Rightarrow> if length key \<noteq> key_bytes then Inl EdgeProofConfigurationError else Inr key)"

inductive key_step :: "bytes option \<times> (nat \<Rightarrow> key_stage) \<Rightarrow> nat \<Rightarrow> bytes option \<times> (nat \<Rightarrow> key_stage) \<Rightarrow> bool" where
  look: "st i = KeyLook \<Longrightarrow> length drawn = key_bytes \<Longrightarrow> key_step (f, st) i (f, st(i := key_look f drawn))"
| link: "st i = KeyLink drawn \<Longrightarrow> key_step (f, st) i (key_link drawn f, st(i := KeyRead))"
| read: "st i = KeyRead \<Longrightarrow> key_step (f, st) i (f, st(i := key_read f))"
| os_error: "key_step (f, st) i (f, st(i := KeyDone (Inl EdgeProofConfigurationError)))"

text \<open>Every key a process ends with is the content of the file, which never changes once it is there.\<close>

interpretation key_file: step_invariant key_step
  "\<lambda>(f, st). \<forall>i key. st i = KeyDone (Inr key) \<longrightarrow> f = Some key \<and> length key = key_bytes"
  by unfold_locales
    (auto elim!: key_step.cases simp: key_look_def key_link_def key_read_def split: option.splits if_splits)

lemma processes_agree_on_key:
  assumes "run key_step (f0, \<lambda>_. KeyLook) ls (f, st)" "st i = KeyDone (Inr key)" "st j = KeyDone (Inr key')"
  shows "key = key' \<and> length key = key_bytes"
  using key_file.inv_run [OF assms(1)] assms(2,3) by auto

lemma authentic_same_code:
  assumes r: "authentic_proof key p r = Inr (n, i, e)" and q: "authentic_proof key p q = Inr (n', i', e')"
  shows "n = n' \<and> i = i' \<and> e = e' \<and>
    hmac_sha256 key (edge_message (url_b64 n) i e r) = hmac_sha256 key (edge_message (url_b64 n') i' e' q)"
proof -
  obtain mac mac' where m:
    "split_on (CHR ''.'') p = [proof_version, url_b64 n, str_of_int i, str_of_int e, url_b64 mac]"
    "unb64 (url_b64 n) nonce_bytes = Inr n" "unb64 (url_b64 mac) mac_bytes = Inr mac"
    "millis (str_of_int i) = Inr i" "millis (str_of_int e) = Inr e"
    "mac = hmac_sha256 key (edge_message (url_b64 n) i e r)"
    "split_on (CHR ''.'') p = [proof_version, url_b64 n', str_of_int i', str_of_int e', url_b64 mac']"
    "unb64 (url_b64 n') nonce_bytes = Inr n'" "unb64 (url_b64 mac') mac_bytes = Inr mac'"
    "millis (str_of_int i') = Inr i'" "millis (str_of_int e') = Inr e'"
    "mac' = hmac_sha256 key (edge_message (url_b64 n') i' e' q)"
    using r q edge_mac_message unfolding authentic_Inr by blast
  then show ?thesis by (metis Inr_inject list.inject)
qed

definition digest_collision :: "('a \<Rightarrow> 'b) \<Rightarrow> 'a \<Rightarrow> 'a \<Rightarrow> bool" where
  "digest_collision h x y \<longleftrightarrow> x \<noteq> y \<and> h x = h y"

lemma map_filter_once: "distinct (List.map_filter f ls) \<Longrightarrow> length (filter (\<lambda>l. f l = Some k) ls) \<le> 1"
proof (induction ls)
  case (Cons l ls)
  have "filter (\<lambda>l. f l = Some k) ls = []" if "f l = Some k" "k \<notin> set (List.map_filter f ls)"
    using that by (force simp: List.map_filter_def filter_empty_conv)
  with Cons show ?case by (cases "f l") (auto simp: List.map_filter_simps)
qed simp

lemma verify_fresh:
  assumes "mint_edge_proof (ve_key v) (eq_method r) (eq_path r) (eq_assertion r) (eq_body r) now drawn = Inr p"
    "length drawn = nonce_bytes" "0 \<le> now" "trunc (now * 1000) + proof_ttl_ms < 10 ^ 16"
    "0 \<le> t" "now \<le> t + 1" "t \<le> now + 9.999"
    "case ve_not_before_ms v of None \<Rightarrow> True | Some b \<Rightarrow> b \<le> trunc (now * 1000)"
    "cache_inv (ve_cache v)" "dict_get (unexpired c (entries (ve_cache v))) drawn = None"
    "length (unexpired c (entries (ve_cache v))) < max_entries (ve_cache v)"
  shows "fst (verify_proof t c p r v) = Inr ()"
    "entries (ve_cache (snd (verify_proof t c p r v))) =
      dict_set drawn \<lparr>re_expires_at = held_until (trunc (now * 1000) + proof_ttl_ms), re_route = ''direct'', re_uses = 1\<rparr>
        (unexpired c (entries (ve_cache v)))"
  using minted_is_authentic [OF assms(1-4)] fresh_proof_times [OF assms(3,5-8)]
    consume_spec [OF assms(9) refl, of drawn _ c] assms(10,11)
  by (auto simp: verify_proof_def split: sum.splits prod.splits) (metis fst_conv Inl_Inr_False Inr_inject snd_conv)+

abbreviation demo_request :: edge_request where
  "demo_request \<equiv> \<lparr>eq_method = ''post'', eq_path = ''/v1/invoke'', eq_assertion = ''a.b.c'', eq_body = [123, 125]\<rparr>"

abbreviation demo_verifier :: verifier where
  "demo_verifier \<equiv> \<lparr>ve_key = replicate 32 7, ve_cache = demo_cache, ve_not_before_ms = Some 0\<rparr>"

abbreviation demo_mint :: "(edge_error, string) result" where
  "demo_mint \<equiv> mint_edge_proof (replicate 32 7) (eq_method demo_request) (eq_path demo_request) (eq_assertion demo_request)
     (eq_body demo_request) 0 (replicate 16 9)"

lemma demo_mint_ok: "\<exists>p. demo_mint = Inr p"
proof -
  have "list_all (\<lambda>c. ord_of c < 128) (upper ''post'')" by code_simp
  from mint_succeeds [OF this] show ?thesis by simp
qed

lemma demo_verifier_new: "new_verifier (replicate 32 7) demo_cache (Some 0) = Inr demo_verifier"
  by (simp add: new_verifier_def key_bytes_def trunc_def)

lemma demo_cache_inv: "cache_inv demo_cache"
  using new_cache_inv [of 1 demo_cache] by (simp add: new_cache_def)

text \<open>
  Without the bound on the time between the two clock readings the one use is lost: a verifier that stalls
  for a second after its check of the expiry accepts a used proof again, because the cache has purged
  its nonce by then.
\<close>

lemma stalled_verifier_accepts_again:
  "\<exists>p. demo_mint = Inr p \<and> fst (verify_proof 9 9 p demo_request demo_verifier) = Inr () \<and>
     fst (verify_proof 9.5 11 p demo_request (snd (verify_proof 9 9 p demo_request demo_verifier))) = Inr ()"
proof -
  obtain p where p: "demo_mint = Inr p" using demo_mint_ok by blast
  let ?v = "snd (verify_proof 9 9 p demo_request demo_verifier)"
  have 1: "fst (verify_proof 9 9 p demo_request demo_verifier) = Inr ()"
    "entries (ve_cache ?v) = [(replicate 16 9, \<lparr>re_expires_at = 11, re_route = ''direct'', re_uses = 1\<rparr>)]"
    using verify_fresh [of demo_verifier demo_request 0 "replicate 16 9" p 9 9] p demo_cache_inv
    by (simp_all add: nonce_bytes_def trunc_def proof_ttl_ms_def unexpired_def held_until_def proof_clock_skew_ms_def)
  have inv: "cache_inv (ve_cache ?v)" by (rule verify_inv) (use demo_cache_inv in simp)
  have v: "ve_key ?v = replicate 32 7" "ve_not_before_ms ?v = Some 0" "max_entries (ve_cache ?v) = 1"
    using verify_state [of 9 9 p demo_request demo_verifier] max_entries_exec [of 9 "ClaimKey _ _ ''direct'' 1"]
    by (auto simp: consume_def)
  have "fst (verify_proof 9.5 11 p demo_request ?v) = Inr ()"
    using verify_fresh(1) [of ?v demo_request 0 "replicate 16 9" p "9.5" 11] p inv v 1(2)
    by (simp add: nonce_bytes_def trunc_def proof_ttl_ms_def unexpired_def)
  with p 1(1) show ?thesis by blast
qed

subsection \<open>Properties\<close>

text \<open>C32: A minted proof verifies: within ten seconds (less a millisecond) of minting, and not more than
  one second before it by the verifier's clock, the verifier accepts the proof for the request it was
  minted for, when the nonce is not held, the cache is not full and the proof does not predate the
  verifier.\<close>

theorem minted_proof_verifies:
  assumes "mint_edge_proof (ve_key v) (eq_method r) (eq_path r) (eq_assertion r) (eq_body r) now drawn = Inr p"
    "length drawn = nonce_bytes" "0 \<le> now" "trunc (now * 1000) + proof_ttl_ms < 10 ^ 16"
    "0 \<le> t" "now \<le> t + 1" "t \<le> now + 9.999"
    "case ve_not_before_ms v of None \<Rightarrow> True | Some b \<Rightarrow> b \<le> trunc (now * 1000)"
    "cache_inv (ve_cache v)" "dict_get (unexpired c (entries (ve_cache v))) drawn = None"
    "length (unexpired c (entries (ve_cache v))) < max_entries (ve_cache v)"
  shows "fst (verify_proof t c p r v) = Inr ()"
  by (rule verify_fresh(1) [OF assms])

theorem minted_proof_verifies_witness:
  "\<exists>p. demo_mint = Inr p \<and> fst (verify_proof 9 9 p demo_request demo_verifier) = Inr ()"
proof -
  obtain p where p: "demo_mint = Inr p" using demo_mint_ok by blast
  then show ?thesis
    using minted_proof_verifies [of demo_verifier demo_request 0 "replicate 16 9" p 9 9] demo_cache_inv
    by (simp add: nonce_bytes_def trunc_def proof_ttl_ms_def unexpired_def)
qed

text \<open>C30: A proof is accepted at most once: over any history of a verifier with its own cache, in which each
  call reads the cache's clock less than a second after its own, no proof is accepted twice, for the same
  or for different requests.\<close>

theorem edge_proof_accepted_once:
  assumes "new_verifier key cache nb = Inr v0" "new_cache n = Inr cache" "run verify_step (t0, v0) ls s"
  shows "length (filter (\<lambda>l. accepted_proof l = Some p) ls) \<le> 1"
proof -
  have "cache_inv (ve_cache (snd (t0, v0)))"
    using assms(1) new_cache_inv [OF assms(2)] by (auto simp: new_verifier_def split: if_splits)
  then have "distinct (List.map_filter accepted_proof ls)" using one_use.accepted_distinct [OF assms(3)] by blast
  then show ?thesis by (rule map_filter_once)
qed

theorem edge_proof_accepted_once_witness:
  "\<exists>p r. demo_mint = Inr p \<and> length (filter (\<lambda>l. accepted_proof l = Some p)
     [(9, VerifyCall 0 p demo_request, Inr ()), (9.5, VerifyCall 0.25 p demo_request, r)]) \<le> 1"
proof -
  obtain p where p: "demo_mint = Inr p" using demo_mint_ok by blast
  have 1: "fst (verify_proof 9 9 p demo_request demo_verifier) = Inr ()"
    using verify_fresh(1) [of demo_verifier demo_request 0 "replicate 16 9" p 9 9] p demo_cache_inv
    by (simp add: nonce_bytes_def trunc_def proof_ttl_ms_def unexpired_def)
  define calls where "calls = [(9 :: real, VerifyCall 0 p demo_request), (9.5, VerifyCall 0.25 p demo_request)]"
  have "calls_ok prompt_call verify_exec (0, demo_verifier) calls"
    by (simp add: calls_def prompt_call_def)
  then have "length (filter (\<lambda>l. accepted_proof l = Some p) (fst (exec_calls verify_exec (0, demo_verifier) calls))) \<le> 1"
    by (intro edge_proof_accepted_once [OF demo_verifier_new, of 1, OF _ exec_calls_run]) (simp_all add: new_cache_def)
  moreover have "\<exists>r. fst (exec_calls verify_exec (0, demo_verifier) calls) =
      [(9, VerifyCall 0 p demo_request, Inr ()), (9.5, VerifyCall 0.25 p demo_request, r)]"
    using 1 by (auto simp: calls_def verify_exec_def split: prod.splits)
  ultimately show ?thesis using p by metis
qed

text \<open>C31: A proof vouches for one request only: when a verifier accepts a proof minted under its key, for
  whatever request, that request has the method (up to case), path, assertion and body it was minted
  for, or the two requests exhibit a collision of HMAC-SHA256 or of SHA-256.\<close>

theorem edge_proof_binds_request:
  assumes "mint_edge_proof (ve_key v) (eq_method q) (eq_path q) (eq_assertion q) (eq_body q) now drawn = Inr p"
    "length drawn = nonce_bytes" "0 \<le> now" "trunc (now * 1000) + proof_ttl_ms < 10 ^ 16"
    "fst (verify_proof t c p r v) = Inr ()" "line_feed \<notin> set (eq_method q)" "line_feed \<notin> set (eq_method r)"
  shows "upper (eq_method r) = upper (eq_method q) \<and> eq_path r = eq_path q \<and>
      eq_assertion r = eq_assertion q \<and> eq_body r = eq_body q \<or>
    digest_collision hexdigest (utf8_encode (eq_assertion r)) (utf8_encode (eq_assertion q)) \<or>
    digest_collision hexdigest (eq_body r) (eq_body q) \<or>
    (\<exists>iat_ms exp_ms. digest_collision (hmac_sha256 (ve_key v)) (edge_message (url_b64 drawn) iat_ms exp_ms r)
       (edge_message (url_b64 drawn) iat_ms exp_ms q))"
proof -
  let ?i = "trunc (now * 1000)" and ?e = "trunc (now * 1000) + proof_ttl_ms"
  have q: "authentic_proof (ve_key v) p q = Inr (drawn, ?i, ?e)"
    using minted_is_authentic [OF assms(1-4)] .
  obtain n i e where r: "authentic_proof (ve_key v) p r = Inr (n, i, e)"
    using assms(5) by (auto simp: verify_accepts)
  have "n = drawn" "i = ?i" "e = ?e" "hmac_sha256 (ve_key v) (edge_message (url_b64 drawn) ?i ?e r) =
      hmac_sha256 (ve_key v) (edge_message (url_b64 drawn) ?i ?e q)"
    using authentic_same_code [OF r q] by auto
  then show ?thesis
    using edge_message_eq [of "url_b64 drawn" ?i ?e r q] assms(6,7) by (auto simp: digest_collision_def)
qed

theorem edge_proof_binds_request_witness:
  "\<exists>p. demo_mint = Inr p \<and> fst (verify_proof 9 9 p demo_request demo_verifier) = Inr () \<and>
    (upper ''post'' = upper ''post'' \<or> digest_collision hexdigest [123, 125] [123, 125])"
proof -
  obtain p where p: "demo_mint = Inr p" using demo_mint_ok by blast
  have 1: "fst (verify_proof 9 9 p demo_request demo_verifier) = Inr ()"
    using verify_fresh(1) [of demo_verifier demo_request 0 "replicate 16 9" p 9 9] p demo_cache_inv
    by (simp add: nonce_bytes_def trunc_def proof_ttl_ms_def unexpired_def)
  then show ?thesis
    using edge_proof_binds_request [of demo_verifier demo_request 0 "replicate 16 9" p 9 9 demo_request] p
    by (simp add: nonce_bytes_def trunc_def proof_ttl_ms_def)
qed

end
