(* ===== verification/Schema_Runtime.thy ===== *)
theory Schema_Runtime
  imports Py_Data Py_Strings
begin

text \<open>
  Central schema contracts, \<open>vuoro_schema_runtime/runtime.py\<close>: immutable migration assets, the check of a
  ledger against them, and rendering; and the migrator of the knowledge workspace built on them,
  \<open>vuoro_workspace/migrations.py\<close>, over the tables it reads and writes.
\<close>

subsection \<open>Assets\<close>

datatype schema_error = TypeErr | ValueErr | IndexErr | MigrationDrift | SchemaIncompatible | SchemaMigrationError | DatabaseError

definition sha256_text :: "string \<Rightarrow> string" where
  "sha256_text s = hexdigest (utf8_encode s)"

text \<open>\<open>[A-Za-z_][A-Za-z0-9_]{0,62}\<close>.\<close>

definition ident_start :: "char \<Rightarrow> bool" where
  "ident_start c \<longleftrightarrow> (is_alnum c \<and> \<not> is_digit c) \<or> c = CHR ''_''"

definition check_identifier :: "string \<Rightarrow> (schema_error, string) result" where
  "check_identifier s =
    (case s of
       [] \<Rightarrow> Inl ValueErr
     | c # cs \<Rightarrow>
         if ident_start c \<and> list_all (\<lambda>x. is_alnum x \<or> x = CHR ''_'') cs \<and> length cs \<le> 62
         then Inr s else Inl ValueErr)"

definition quote_identifier :: "string \<Rightarrow> (schema_error, string) result" where
  "quote_identifier s = map_sum id (\<lambda>i. [dquote] @ i @ [dquote]) (check_identifier s)"

record migration_asset =
  ma_version :: int
  ma_name :: string
  ma_sql :: string
  ma_sha256 :: string

text \<open>The dataclass with its \<open>__post_init__\<close>.\<close>

definition new_asset :: "int \<Rightarrow> string \<Rightarrow> string \<Rightarrow> string \<Rightarrow> (schema_error, migration_asset) result" where
  "new_asset version name sql sha =
    rbind (need ValueErr (1 \<le> version)) (\<lambda>_.
    rbind (need ValueErr (name \<noteq> [] \<and> sql \<noteq> [])) (\<lambda>_.
    rbind (need MigrationDrift (sha = sha256_text sql)) (\<lambda>_.
    Inr \<lparr>ma_version = version, ma_name = name, ma_sql = sql, ma_sha256 = sha\<rparr>)))"

definition make_asset :: "int \<Rightarrow> string \<Rightarrow> string \<Rightarrow> (schema_error, migration_asset) result" where
  "make_asset version name sql = new_asset version name sql (sha256_text sql)"

definition validate_contiguous :: "migration_asset list \<Rightarrow> (schema_error, migration_asset list) result" where
  "validate_contiguous assets =
    (if map ma_version assets = map int [1..<Suc (length assets)] then Inr assets else Inl MigrationDrift)"

text \<open>\<open>str.replace\<close> for a non-empty pattern.\<close>

function str_replace :: "string \<Rightarrow> string \<Rightarrow> string \<Rightarrow> string" where
  "str_replace old new s =
    (if old = [] \<or> s = [] then s
     else if prefix old s then new @ str_replace old new (drop (length old) s)
     else hd s # str_replace old new (tl s))"
  by pat_completeness auto
termination
  by (relation "measure (\<lambda>(old, new, s). length s)") (auto simp: prefix_def)

declare str_replace.simps [simp del]

definition render_schema_sql :: "string \<Rightarrow> string \<Rightarrow> (schema_error, string) result" where
  "render_schema_sql sql schema = map_sum id (\<lambda>q. str_replace ''__SCHEMA__'' q sql) (quote_identifier schema)"

subsection \<open>Ledger rows\<close>

text \<open>A row as the caller may supply it: a mapping with optional fields of any type, or a tuple.\<close>

datatype ledger_field = FInt int | FStr string | FOther

datatype ledger_row = RowMap "ledger_field option" "ledger_field option" "ledger_field option"
  | RowTuple "ledger_field list"

datatype supplied_ledger = LedgerRows "ledger_row list" | LedgerDict "(ledger_field \<times> ledger_row) list"

definition name_and_digest :: "ledger_row \<Rightarrow> (schema_error, ledger_field \<times> ledger_field) result" where
  "name_and_digest row =
    (case row of
       RowMap _ n d \<Rightarrow> Inr (case n of None \<Rightarrow> FOther | Some x \<Rightarrow> x, case d of None \<Rightarrow> FOther | Some x \<Rightarrow> x)
     | RowTuple [_, n, d] \<Rightarrow> Inr (n, d)
     | RowTuple [n, d] \<Rightarrow> Inr (n, d)
     | RowTuple _ \<Rightarrow> Inl TypeErr)"

text \<open>The version of a row of an iterable: its field, or its first element, which an empty tuple has not.\<close>

definition row_version :: "ledger_row \<Rightarrow> (schema_error, ledger_field) result" where
  "row_version row =
    (case row of
       RowMap v _ _ \<Rightarrow> Inr (case v of None \<Rightarrow> FOther | Some x \<Rightarrow> x)
     | RowTuple (v # _) \<Rightarrow> Inr v
     | RowTuple [] \<Rightarrow> Inl IndexErr)"

definition add_row :: "ledger_field \<Rightarrow> ledger_row \<Rightarrow> (int, string \<times> string) dict \<Rightarrow>
    (schema_error, (int, string \<times> string) dict) result" where
  "add_row version row rows =
    rbind (name_and_digest row) (\<lambda>(name, digest).
      (case (version, name, digest) of
         (FInt v, FStr n, FStr d) \<Rightarrow>
           if dict_get rows v \<noteq> None then Inl MigrationDrift else Inr (dict_set v (n, d) rows)
       | _ \<Rightarrow> Inl TypeErr))"

fun add_rows :: "(ledger_field \<times> ledger_row) list \<Rightarrow> (int, string \<times> string) dict \<Rightarrow>
    (schema_error, (int, string \<times> string) dict) result" where
  "add_rows [] rows = Inr rows"
| "add_rows ((version, row) # rest) rows = rbind (add_row version row rows) (add_rows rest)"

text \<open>The versions of an iterable are read lazily, row by row.\<close>

fun add_iterable :: "ledger_row list \<Rightarrow> (int, string \<times> string) dict \<Rightarrow>
    (schema_error, (int, string \<times> string) dict) result" where
  "add_iterable [] rows = Inr rows"
| "add_iterable (row # rest) rows =
    rbind (row_version row) (\<lambda>version. rbind (add_row version row rows) (add_iterable rest))"

definition ledger_rows :: "supplied_ledger \<Rightarrow> (schema_error, (int, string \<times> string) dict) result" where
  "ledger_rows l = (case l of LedgerRows rs \<Rightarrow> add_iterable rs [] | LedgerDict rs \<Rightarrow> add_rows rs [])"

subsection \<open>The report\<close>

record compat_report =
  cr_schema :: string
  cr_api_version :: string
  cr_installed :: "int option"
  cr_minimum :: int
  cr_maximum :: int
  cr_current_role :: "string option"
  cr_expected_kind :: string
  cr_configured_role :: "string option"
  cr_compatible :: bool
  cr_reasons :: "string list"

definition drifted :: "migration_asset list \<Rightarrow> (int, string \<times> string) dict \<Rightarrow> bool" where
  "drifted assets rows \<longleftrightarrow>
    list_ex (\<lambda>(v, n, d). (case find (\<lambda>a. ma_version a = v) assets of
      None \<Rightarrow> True | Some a \<Rightarrow> ma_name a \<noteq> n \<or> ma_sha256 a \<noteq> d)) rows"

definition ledger_reasons :: "migration_asset list \<Rightarrow> (int, string \<times> string) dict \<Rightarrow> string list" where
  "ledger_reasons assets rows =
    (if rows = [] then [''schema_not_initialized'']
     else (if set (map fst rows) = {1 .. Max (set (map fst rows))} then [] else [''migration_ledger_not_contiguous'']) @
          (if drifted assets rows then [''migration_ledger_drift''] else []))"

definition range_reasons :: "int \<Rightarrow> int \<Rightarrow> int option \<Rightarrow> string list" where
  "range_reasons minimum maximum installed =
    (case installed of None \<Rightarrow> []
     | Some i \<Rightarrow> (if i < minimum then [''schema_too_old''] else []) @ (if i > maximum then [''schema_too_new''] else []))"

definition role_reasons :: "string option \<Rightarrow> string option \<Rightarrow> string list" where
  "role_reasons current configured =
    (case configured of None \<Rightarrow> [''role_not_configured'']
     | Some r \<Rightarrow> if current \<noteq> Some r then [''role_kind_mismatch''] else [])"

text \<open>\<open>dict.fromkeys\<close> as a list: the first occurrence of each.\<close>

definition first_of_each :: "'a list \<Rightarrow> 'a list" where
  "first_of_each xs = rev (remdups (rev xs))"

definition compatibility_report :: "migration_asset list \<Rightarrow> supplied_ledger option \<Rightarrow> string \<Rightarrow> string \<Rightarrow> int \<Rightarrow> int \<Rightarrow>
    string option \<Rightarrow> string \<Rightarrow> string option \<Rightarrow> (schema_error, compat_report) result" where
  "compatibility_report migrations ledger schema api minimum maximum current_role kind configured =
    rbind (validate_contiguous migrations) (\<lambda>assets.
    rbind (check_identifier schema) (\<lambda>_.
    rbind (need ValueErr (api \<noteq> [])) (\<lambda>_.
    rbind (need ValueErr (kind \<in> {''runtime'', ''migration''})) (\<lambda>_.
    rbind (need ValueErr (1 \<le> minimum \<and> minimum \<le> maximum)) (\<lambda>_.
    rbind (need ValueErr (maximum \<le> int (length assets))) (\<lambda>_.
    rbind (case ledger of None \<Rightarrow> Inr [] | Some l \<Rightarrow> ledger_rows l) (\<lambda>rows.
    let installed = (if rows = [] then None else Some (Max (set (map fst rows))));
        found = ledger_reasons assets rows @ range_reasons minimum maximum installed;
        reasons = (if found = [] then role_reasons current_role configured else found)
    in Inr \<lparr>cr_schema = schema, cr_api_version = api, cr_installed = installed, cr_minimum = minimum,
            cr_maximum = maximum, cr_current_role = current_role, cr_expected_kind = kind,
            cr_configured_role = configured, cr_compatible = (reasons = []), cr_reasons = first_of_each reasons\<rparr>)))))))"


subsection \<open>The migrator of the knowledge workspace\<close>

text \<open>
  The two tables the migrator reads and writes; \<open>None\<close> when \<open>schema_version\<close> does not exist. The text of the
  first migration is an argument; what its first two statements do to the tables is \<open>execute_v1\<close>, where
  \<open>works\<close> says whether PostgreSQL runs it without an error.
\<close>

record schema_tables =
  version_rows :: "int list"
  migration_rows :: "(int \<times> string \<times> string) list"

definition current_schema_version :: int where "current_schema_version = 1"
definition minimum_schema_version :: int where "minimum_schema_version = 1"
definition maximum_schema_version :: int where "maximum_schema_version = current_schema_version"
definition domain_api_version :: string where "domain_api_version = ''vuoro-workspace/v1''"

definition workspace_migrations :: "string \<Rightarrow> (schema_error, migration_asset list) result" where
  "workspace_migrations v1 = rbind (make_asset 1 ''initial-knowledge-workspace'' v1) (\<lambda>a. validate_contiguous [a])"

definition read_schema_state :: "string \<Rightarrow> schema_tables option \<Rightarrow>
    (schema_error, int option \<times> (int \<times> string \<times> string) list) result" where
  "read_schema_state schema db =
    rbind (check_identifier schema) (\<lambda>_.
      (case db of
         None \<Rightarrow> Inr (None, [])
       | Some t \<Rightarrow>
           (case version_rows t of
              [v] \<Rightarrow> Inr (Some v, sort_key fst (migration_rows t))
            | _ \<Rightarrow> Inl SchemaMigrationError)))"

definition tuple_rows :: "(int \<times> string \<times> string) list \<Rightarrow> supplied_ledger" where
  "tuple_rows rows = LedgerRows (map (\<lambda>(v, n, d). RowTuple [FInt v, FStr n, FStr d]) rows)"

definition compatibility :: "migration_asset list \<Rightarrow> string \<Rightarrow> string \<Rightarrow> string option \<Rightarrow> schema_tables option \<Rightarrow>
    (schema_error, compat_report) result" where
  "compatibility migrations current_role schema runtime_role db =
    rbind (case read_schema_state schema db of
             Inl SchemaMigrationError \<Rightarrow> Inr (None, [], [''schema_version_ambiguous''])
           | Inl e \<Rightarrow> Inl e
           | Inr (version, ledger) \<Rightarrow> Inr (version, ledger, [])) (\<lambda>(version, ledger, ambiguous).
    let extra = ambiguous @ (case version of None \<Rightarrow> []
          | Some v \<Rightarrow> if ledger = [] \<or> Max (set (map fst ledger)) \<noteq> v then [''schema_version_ledger_mismatch''] else [])
    in rbind (compatibility_report migrations (if ledger = [] then None else Some (tuple_rows ledger)) schema
         domain_api_version minimum_schema_version maximum_schema_version (Some current_role) ''runtime''
         (Some (case runtime_role of None \<Rightarrow> current_role | Some r \<Rightarrow> r))) (\<lambda>report.
       Inr (if extra = [] then report
            else report\<lparr>cr_compatible := False, cr_reasons := first_of_each (extra @ cr_reasons report)\<rparr>)))"

definition require_compatible_schema :: "migration_asset list \<Rightarrow> string \<Rightarrow> string \<Rightarrow> string option \<Rightarrow>
    schema_tables option \<Rightarrow> (schema_error, compat_report) result" where
  "require_compatible_schema migrations current_role schema runtime_role db =
    rbind (compatibility migrations current_role schema runtime_role db) (\<lambda>report.
      if cr_compatible report then Inr report else Inl SchemaIncompatible)"

definition execute_v1 :: "bool \<Rightarrow> schema_tables option \<Rightarrow> schema_tables option" where
  "execute_v1 works db = (if works \<and> db = None then Some \<lparr>version_rows = [], migration_rows = []\<rparr> else None)"

record migration_result =
  mr_schema :: string
  mr_installed :: int
  mr_applied :: "int list"
  mr_role :: string

text \<open>One pending migration: its SQL, its ledger row, the version row.\<close>

definition apply_migration :: "bool \<Rightarrow> string \<Rightarrow> migration_asset \<Rightarrow> schema_tables option \<Rightarrow>
    (schema_error, schema_tables option) result" where
  "apply_migration works schema a db =
    rbind (render_schema_sql (ma_sql a) schema) (\<lambda>_.
      (case execute_v1 works db of
         None \<Rightarrow> Inl DatabaseError
       | Some t \<Rightarrow>
           if ma_version a \<in> set (map fst (migration_rows t)) then Inl DatabaseError
           else Inr (Some (t\<lparr>migration_rows := migration_rows t @ [(ma_version a, ma_name a, ma_sha256 a)],
                           version_rows := [ma_version a]\<rparr>))))"

fun apply_pending :: "bool \<Rightarrow> string \<Rightarrow> int option \<Rightarrow> migration_asset list \<Rightarrow> int list \<Rightarrow> schema_tables option \<Rightarrow>
    (schema_error, int list \<times> schema_tables option) result" where
  "apply_pending works schema version [] applied db = Inr (applied, db)"
| "apply_pending works schema version (a # rest) applied db =
    (if (case version of None \<Rightarrow> False | Some v \<Rightarrow> ma_version a \<le> v)
     then apply_pending works schema version rest applied db
     else rbind (apply_migration works schema a db)
            (apply_pending works schema version rest (applied @ [ma_version a])))"

text \<open>The whole of \<open>migrate_schema\<close> is one transaction under the advisory lock: an error leaves the tables as they were.\<close>

definition migrate_schema :: "bool \<Rightarrow> migration_asset list \<Rightarrow> string \<Rightarrow> string \<Rightarrow> schema_tables option \<Rightarrow>
    (schema_error, migration_result) result \<times> schema_tables option" where
  "migrate_schema works migrations role schema db =
    (case rbind (read_schema_state schema db) (\<lambda>(version, ledger).
            rbind (need SchemaMigrationError (case version of None \<Rightarrow> True | Some v \<Rightarrow> v \<le> current_schema_version)) (\<lambda>_.
            rbind (need SchemaMigrationError (\<not> drifted migrations ledger)) (\<lambda>_.
            apply_pending works schema version migrations [] db))) of
       Inl e \<Rightarrow> (Inl e, db)
     | Inr (applied, db') \<Rightarrow>
         (Inr \<lparr>mr_schema = schema, mr_installed = current_schema_version, mr_applied = applied, mr_role = role\<rparr>, db'))"

definition startup_schema_handshake :: "bool \<Rightarrow> migration_asset list \<Rightarrow> string \<Rightarrow> string option \<Rightarrow> string \<Rightarrow>
    string option \<Rightarrow> schema_tables option \<Rightarrow> (schema_error, compat_report) result \<times> schema_tables option" where
  "startup_schema_handshake works migrations role mode schema runtime_role db =
    (let m = (case mode of None \<Rightarrow> ''read-only'' | Some m \<Rightarrow> m) in
     if m = ''operator-migrate'' then
       (case migrate_schema works migrations role schema db of
          (Inl e, db') \<Rightarrow> (Inl e, db')
        | (Inr _, db') \<Rightarrow> (require_compatible_schema migrations role schema runtime_role db', db'))
     else if m \<noteq> ''read-only'' then (Inl SchemaIncompatible, db)
     else (require_compatible_schema migrations role schema runtime_role db, db))"

subsection \<open>What a compatible ledger is\<close>

text \<open>The reference: the ledger holds exactly the first \<open>n\<close> assets, for an \<open>n\<close> in the supported range.\<close>

definition asset_row :: "migration_asset \<Rightarrow> int \<times> string \<times> string" where
  "asset_row a = (ma_version a, ma_name a, ma_sha256 a)"

definition is_prefix_ledger :: "migration_asset list \<Rightarrow> nat \<Rightarrow> (int, string \<times> string) dict \<Rightarrow> bool" where
  "is_prefix_ledger assets n rows \<longleftrightarrow> n \<le> length assets \<and> mset rows = mset (map asset_row (take n assets))"

lemma add_row_ok:
  assumes "add_row v row rows = Inr rows'" "dict_ok rows"
  shows "dict_ok rows'"
proof -
  obtain name digest where nd: "name_and_digest row = Inr (name, digest)"
    using assms(1) by (auto simp: add_row_def)
  show ?thesis
    by (cases v; cases name; cases digest) (use assms nd in \<open>auto simp: add_row_def split: if_splits\<close>)
qed

lemma ledger_rows_ok:
  assumes "ledger_rows l = Inr rows"
  shows "dict_ok rows"
proof -
  have "dict_ok rows'" if "add_rows rs rows0 = Inr rows'" "dict_ok rows0" for rs rows0 rows'
    using that by (induction rs rows0 rule: add_rows.induct) (auto dest: add_row_ok)
  moreover have "dict_ok rows'" if "add_iterable rs rows0 = Inr rows'" "dict_ok rows0" for rs rows0 rows'
    using that by (induction rs rows0 rule: add_iterable.induct) (auto dest: add_row_ok)
  ultimately show ?thesis using assms by (auto simp: ledger_rows_def split: supplied_ledger.splits)
qed

definition contiguous :: "migration_asset list \<Rightarrow> bool" where
  "contiguous assets \<longleftrightarrow> map ma_version assets = map int [1..<Suc (length assets)]"

lemma validate_contiguous_iff [simp]: "validate_contiguous assets = Inr out \<longleftrightarrow> contiguous assets \<and> out = assets"
  by (auto simp: validate_contiguous_def contiguous_def)

lemma contiguous_nth:
  assumes "contiguous assets" "i < length assets"
  shows "ma_version (assets ! i) = int i + 1"
proof -
  have "map ma_version assets ! i = map int [1..<Suc (length assets)] ! i" using assms(1) by (simp only: contiguous_def)
  then show ?thesis using assms(2) by (simp del: upt_Suc)
qed

lemma find_version:
  assumes "contiguous assets"
  shows "find (\<lambda>a. ma_version a = v) assets = Some a \<longleftrightarrow>
    1 \<le> v \<and> v \<le> int (length assets) \<and> a = assets ! nat (v - 1)"
proof
  assume "find (\<lambda>a. ma_version a = v) assets = Some a"
  then obtain i where "i < length assets" "ma_version (assets ! i) = v" "a = assets ! i"
    by (auto simp: find_Some_iff)
  then show "1 \<le> v \<and> v \<le> int (length assets) \<and> a = assets ! nat (v - 1)"
    using contiguous_nth [OF assms] by fastforce
next
  assume v: "1 \<le> v \<and> v \<le> int (length assets) \<and> a = assets ! nat (v - 1)"
  then have i: "nat (v - 1) < length assets" by linarith
  moreover have "ma_version (assets ! nat (v - 1)) = v" using contiguous_nth [OF assms i] v by simp
  moreover have "ma_version (assets ! j) \<noteq> v" if "j < nat (v - 1)" for j
    using contiguous_nth [OF assms, of j] that i v by simp
  ultimately show "find (\<lambda>a. ma_version a = v) assets = Some a" using v unfolding find_Some_iff by blast
qed

lemma not_drifted_iff:
  assumes "contiguous assets"
  shows "\<not> drifted assets rows \<longleftrightarrow> set rows \<subseteq> set (map asset_row assets)"
proof -
  have "(case find (\<lambda>a. ma_version a = v) assets of None \<Rightarrow> True | Some a \<Rightarrow> ma_name a \<noteq> n \<or> ma_sha256 a \<noteq> d) \<longleftrightarrow>
      (v, n, d) \<notin> set (map asset_row assets)" for v n d
  proof (cases "find (\<lambda>a. ma_version a = v) assets")
    case None
    then have "\<forall>a \<in> set assets. ma_version a \<noteq> v" by (simp add: find_None_iff)
    then show ?thesis using None by (auto simp: asset_row_def)
  next
    case (Some a)
    then have "a \<in> set assets" "ma_version a = v" by (auto simp: find_Some_iff)
    moreover have uniq: "a' = a" if "a' \<in> set assets" "ma_version a' = v" for a'
    proof -
      obtain i where "i < length assets" "a' = assets ! i" using \<open>a' \<in> set assets\<close> by (auto simp: in_set_conv_nth)
      then have "nat (v - 1) = i" using contiguous_nth [OF assms \<open>i < length assets\<close>] that(2) \<open>a' = assets ! i\<close> by simp
      then show ?thesis using find_version [OF assms, of v a] Some \<open>a' = assets ! i\<close> by simp
    qed
    ultimately have "(v, n, d) \<in> asset_row ` set assets \<longleftrightarrow> ma_name a = n \<and> ma_sha256 a = d"
      unfolding asset_row_def by blast
    then show ?thesis using Some by simp
  qed
  then show ?thesis unfolding drifted_def list_ex_iff by auto
qed


lemma reasons_prefix:
  assumes c: "contiguous assets" and ok: "dict_ok rows" and r: "1 \<le> minimum" "maximum \<le> int (length assets)"
    and i: "installed = (if rows = [] then None else Some (Max (set (map fst rows))))"
  shows "ledger_reasons assets rows = [] \<and> range_reasons minimum maximum installed = [] \<longleftrightarrow>
    (\<exists>n. is_prefix_ledger assets n rows \<and> minimum \<le> int n \<and> int n \<le> maximum \<and> installed = Some (int n))"
    (is "?L \<longleftrightarrow> ?R")
proof
  assume L: ?L
  define m where "m = Max (set (map fst rows))"
  have ne: "rows \<noteq> []" and keys: "set (map fst rows) = {1..m}" and sub: "set rows \<subseteq> set (map asset_row assets)"
    using L not_drifted_iff [OF c, of rows] by (auto simp: ledger_reasons_def m_def split: if_splits)
  have inst: "installed = Some m" using ne by (simp add: i m_def)
  have m: "minimum \<le> m" "m \<le> maximum" using L by (simp_all add: range_reasons_def inst split: if_splits)
  define n where "n = nat m"
  have n: "int n = m" "n \<le> length assets" using m r by (simp_all add: n_def)
  have "set rows = set (map asset_row (take n assets))"
  proof
    show "set rows \<subseteq> set (map asset_row (take n assets))"
    proof
      fix row assume row: "row \<in> set rows"
      then obtain j where j: "j < length assets" "row = asset_row (assets ! j)"
        using sub by (fastforce simp: in_set_conv_nth)
      have "fst row \<in> {1..m}" using row keys by (metis image_eqI set_map)
      then have "j < n" using j contiguous_nth [OF c j(1)] n by (simp add: asset_row_def)
      then show "row \<in> set (map asset_row (take n assets))"
        using j n by (auto simp: in_set_conv_nth intro!: image_eqI [of _ _ "assets ! j"] exI [of _ j])
    qed
    show "set (map asset_row (take n assets)) \<subseteq> set rows"
    proof
      fix row assume "row \<in> set (map asset_row (take n assets))"
      then obtain j where j: "j < n" "row = asset_row (assets ! j)" using n by (auto simp: in_set_conv_nth)
      then have v: "fst row = int j + 1" using contiguous_nth [OF c, of j] n by (simp add: asset_row_def)
      then have "fst row \<in> {1..m}" using j n by simp
      then obtain row' where row': "row' \<in> set rows" "fst row' = fst row" using keys by (metis imageE set_map)
      then obtain k where k: "k < length assets" "row' = asset_row (assets ! k)"
        using sub by (fastforce simp: in_set_conv_nth)
      then have "k = j" using contiguous_nth [OF c k(1)] v row'(2) by (simp add: asset_row_def)
      then show "row \<in> set rows" using row' j k by simp
    qed
  qed
  moreover have "distinct rows" using ok distinct_map by blast
  moreover have "distinct (map asset_row (take n assets))"
  proof -
    have "map fst (map asset_row (take n assets)) = take n (map ma_version assets)" by (simp add: asset_row_def take_map)
    moreover have "distinct (map ma_version assets)" using c by (simp add: contiguous_def distinct_map del: upt_Suc)
    ultimately show ?thesis by (metis distinct_map distinct_take)
  qed
  ultimately have "mset rows = mset (map asset_row (take n assets))"
    by (metis set_eq_iff_mset_eq_distinct)
  then show ?R using n m inst by (auto simp: is_prefix_ledger_def)
next
  assume ?R
  then obtain n where n: "n \<le> length assets" "mset rows = mset (map asset_row (take n assets))"
    "minimum \<le> int n" "int n \<le> maximum" by (auto simp: is_prefix_ledger_def)
  have s: "set rows = set (map asset_row (take n assets))" using n(2) by (metis set_mset_mset)
  have "set (map fst rows) = set (take n (map ma_version assets))"
    using s by (auto simp: asset_row_def take_map image_iff)
  also have "\<dots> = int ` {1..<Suc n}"
    using c n(1) by (simp add: contiguous_def take_map take_upt del: upt_Suc)
  also have "\<dots> = {1..int n}" by (auto simp: image_int_atLeastLessThan)
  finally have keys: "set (map fst rows) = {1..int n}" .
  have ne: "rows \<noteq> []" using keys n(3) r(1) by auto
  have m: "Max (set (map fst rows)) = int n" unfolding keys using n(3) r(1) by (intro Max_eqI) auto
  have "set rows \<subseteq> set (map asset_row assets)" using s by (auto dest: in_set_takeD)
  then show ?L using not_drifted_iff [OF c, of rows] n ne keys m
    by (simp add: ledger_reasons_def range_reasons_def i)
qed


lemma if_empty: "(if xs = [] then c else xs) = [] \<longleftrightarrow> xs = [] \<and> c = []"
  by simp

lemma report_prefix:
  assumes "compatibility_report migrations l schema api lo hi role kind configured = Inr rep"
  shows "cr_compatible rep \<longleftrightarrow>
    (\<exists>rows n r. (case l of None \<Rightarrow> Inr [] | Some l \<Rightarrow> ledger_rows l) = Inr rows \<and>
       is_prefix_ledger migrations n rows \<and> lo \<le> int n \<and> int n \<le> hi \<and> cr_installed rep = Some (int n) \<and>
       configured = Some r \<and> role = Some r)"
proof -
  obtain rows where c: "contiguous migrations" "1 \<le> lo" "hi \<le> int (length migrations)"
    and rows: "(case l of None \<Rightarrow> Inr [] | Some l \<Rightarrow> ledger_rows l) = Inr rows"
    and inst: "cr_installed rep = (if rows = [] then None else Some (Max (set (map fst rows))))"
    and comp: "cr_compatible rep \<longleftrightarrow> ledger_reasons migrations rows @ range_reasons lo hi (cr_installed rep) = [] \<and>
      role_reasons role configured = []"
    using assms by (auto simp: compatibility_report_def Let_def if_empty simp del: append_is_Nil_conv)
  have "dict_ok rows" using rows ledger_rows_ok by (cases l) auto
  moreover have "role_reasons role configured = [] \<longleftrightarrow> (\<exists>r. configured = Some r \<and> role = Some r)"
    by (auto simp: role_reasons_def split: option.split)
  ultimately show ?thesis using reasons_prefix [OF c(1) _ c(2,3) inst] rows comp by auto
qed

subsection \<open>Properties\<close>

text \<open>C33: The report agrees with its reference: a schema is reported compatible exactly when the supplied ledger,
  in whatever order and form, holds the rows of the first \<open>n\<close> migration assets and nothing else, \<open>n\<close> lies in
  the supported range and is the version reported as installed, and the connection has the configured role.\<close>

theorem compatible_iff_prefix_ledger:
  assumes "compatibility_report migrations l schema api lo hi role kind configured = Inr rep"
  shows "cr_compatible rep \<longleftrightarrow>
    (\<exists>rows n r. (case l of None \<Rightarrow> Inr [] | Some l \<Rightarrow> ledger_rows l) = Inr rows \<and>
       is_prefix_ledger migrations n rows \<and> lo \<le> int n \<and> int n \<le> hi \<and> cr_installed rep = Some (int n) \<and>
       configured = Some r \<and> role = Some r)"
  by (rule report_prefix [OF assms])

abbreviation demo_v1 :: string where "demo_v1 \<equiv> ''CREATE TABLE __SCHEMA__.schema_version''"

abbreviation demo_asset :: migration_asset where
  "demo_asset \<equiv> \<lparr>ma_version = 1, ma_name = ''initial-knowledge-workspace'', ma_sql = demo_v1, ma_sha256 = sha256_text demo_v1\<rparr>"

lemma demo_migrations: "workspace_migrations demo_v1 = Inr [demo_asset]"
  by (simp add: workspace_migrations_def make_asset_def new_asset_def contiguous_def)

theorem compatible_iff_prefix_ledger_witness:
  "\<exists>rep. compatibility_report [demo_asset] (Some (tuple_rows [asset_row demo_asset])) ''knowledge'' ''v1'' 1 1 (Some ''app'')
      ''runtime'' (Some ''app'') = Inr rep \<and> cr_compatible rep"
proof -
  have rows: "ledger_rows (tuple_rows [asset_row demo_asset]) = Inr [asset_row demo_asset]"
    by (simp add: ledger_rows_def tuple_rows_def row_version_def add_row_def name_and_digest_def asset_row_def)
  have id: "check_identifier ''knowledge'' = Inr ''knowledge''" by code_simp
  have "\<exists>rep. compatibility_report [demo_asset] (Some (tuple_rows [asset_row demo_asset])) ''knowledge'' ''v1'' 1 1
      (Some ''app'') ''runtime'' (Some ''app'') = Inr rep"
    by (simp add: compatibility_report_def contiguous_def id rows Let_def)
  then obtain rep where rep: "compatibility_report [demo_asset] (Some (tuple_rows [asset_row demo_asset])) ''knowledge'' ''v1'' 1 1
      (Some ''app'') ''runtime'' (Some ''app'') = Inr rep" by blast
  have "cr_installed rep = Some 1"
    using rep by (auto simp: compatibility_report_def rows Let_def) (simp add: asset_row_def)+
  moreover have "is_prefix_ledger [demo_asset] 1 [asset_row demo_asset]" by (simp add: is_prefix_ledger_def)
  ultimately have "cr_compatible rep"
    unfolding compatible_iff_prefix_ledger [OF rep] using rows by (intro exI [of _ "[asset_row demo_asset]"] exI [of _ 1] exI [of _ "''app''"]) simp
  with rep show ?thesis by blast
qed

lemma dict_set_fresh: "dict_get d k = None \<Longrightarrow> dict_set k v d = d @ [(k, v)]"
  by (induction d) (auto split: if_splits)

lemma tuple_rows_read:
  assumes "ledger_rows (tuple_rows ledger) = Inr rows"
  shows "rows = ledger"
proof -
  have "rows = acc @ ledger" if "add_iterable (map (\<lambda>(v, n, d). RowTuple [FInt v, FStr n, FStr d]) ledger) acc = Inr rows" for acc
    using that
  proof (induction ledger arbitrary: acc)
    case (Cons x ledger)
    obtain v n d where x: "x = (v, n, d)" by (cases x) auto
    have "dict_get acc v = None"
      by (cases "dict_get acc v") (use Cons.prems x in \<open>auto simp: row_version_def add_row_def name_and_digest_def\<close>)
    then show ?case using Cons.prems Cons.IH [of "acc @ [x]"] x
      by (simp add: row_version_def add_row_def name_and_digest_def dict_set_fresh)
  qed simp
  from this [of "[]"] show ?thesis using assms by (simp add: ledger_rows_def tuple_rows_def)
qed


lemma compatible_state:
  assumes ms: "workspace_migrations v1 = Inr ms"
    and rep: "compatibility ms role schema runtime_role db = Inr rep" "cr_compatible rep"
  shows "(\<exists>t. db = Some t \<and> version_rows t = [1] \<and> migration_rows t = map asset_row ms) \<and> runtime_role \<in> {None, Some role}"
proof -
  obtain a where a: "ms = [a]" "ma_version a = 1"
    using ms by (auto simp: workspace_migrations_def make_asset_def new_asset_def)
  define ledger where "ledger = (case db of None \<Rightarrow> [] | Some t \<Rightarrow> sort_key fst (migration_rows t))"
  define configured where "configured = (case runtime_role of None \<Rightarrow> role | Some r \<Rightarrow> r)"
  obtain version where v: "read_schema_state schema db = Inr (version, ledger)"
    and ok: "\<not> (\<exists>v. version = Some v \<and> (ledger = [] \<or> Max (set (map fst ledger)) \<noteq> v))"
    and cr: "compatibility_report ms (if ledger = [] then None else Some (tuple_rows ledger)) schema domain_api_version
      1 1 (Some role) ''runtime'' (Some configured) = Inr rep"
    using rep unfolding compatibility_def configured_def ledger_def minimum_schema_version_def maximum_schema_version_def
      current_schema_version_def
    by (auto simp: Let_def read_schema_state_def split: if_splits option.splits sum.splits schema_error.splits list.splits)
  obtain rows n where r: "(if ledger = [] then Inr [] else ledger_rows (tuple_rows ledger)) = Inr rows"
    "is_prefix_ledger ms n rows" "1 \<le> int n" "int n \<le> 1" "configured = role"
    using report_prefix [OF cr] rep(2) by (auto split: if_splits)
  then have n: "n = 1" by simp
  then have "mset ledger = {#asset_row a#}" using r(1,2) a tuple_rows_read [of ledger rows]
    by (auto simp: is_prefix_ledger_def split: if_splits)
  then have l: "ledger = [asset_row a]" by simp
  then obtain t where t: "db = Some t" by (cases db) (auto simp: ledger_def)
  then have "mset (migration_rows t) = {#asset_row a#}" using l by (metis ledger_def mset_sort option.simps(5) mset_single_iff_right)
  moreover have "version_rows t = [1]"
    using v ok l t a by (auto simp: read_schema_state_def asset_row_def split: list.splits)
  ultimately show ?thesis using t a r(5) by (auto simp: configured_def split: option.splits)
qed


lemma migrate_cases:
  assumes ms: "workspace_migrations v1 = Inr ms" and m: "migrate_schema works ms role schema db = (Inr res, db')"
  shows "db = None \<and> works \<and> db' = Some \<lparr>version_rows = [1], migration_rows = map asset_row ms\<rparr> \<and> mr_applied res = [1] \<or>
    db \<noteq> None \<and> db' = db \<and> mr_applied res = []"
proof -
  obtain a where a: "ms = [a]" "ma_version a = 1"
    using ms by (auto simp: workspace_migrations_def make_asset_def new_asset_def)
  obtain version ledger where v: "read_schema_state schema db = Inr (version, ledger)"
    and p: "apply_pending works schema version ms [] db = Inr (mr_applied res, db')"
    using m by (auto simp: migrate_schema_def split: sum.splits prod.splits)
  show ?thesis
  proof (cases db)
    case None
    then show ?thesis using v p a
      by (auto simp: read_schema_state_def apply_migration_def execute_v1_def asset_row_def split: if_splits)
  next
    case (Some t)
    then show ?thesis using v p a
      by (auto simp: read_schema_state_def apply_migration_def execute_v1_def split: if_splits list.splits option.splits)
  qed
qed

lemma migrate_error: "migrate_schema works ms role schema db = (Inl e, db') \<Longrightarrow> db' = db"
  by (auto simp: migrate_schema_def split: sum.splits)

lemma migrated_is_compatible:
  assumes "workspace_migrations v1 = Inr ms" "check_identifier schema = Inr s"
  shows "\<exists>rep. require_compatible_schema ms role schema None (Some \<lparr>version_rows = [1], migration_rows = map asset_row ms\<rparr>) = Inr rep"
proof -
  obtain a where a: "ms = [a]" "ma_version a = 1" "contiguous ms"
    using assms(1) by (auto simp: workspace_migrations_def make_asset_def new_asset_def)
  have rows: "ledger_rows (tuple_rows [asset_row a]) = Inr [asset_row a]"
    by (simp add: ledger_rows_def tuple_rows_def row_version_def add_row_def name_and_digest_def asset_row_def)
  obtain rep where rep: "compatibility_report ms (Some (tuple_rows [asset_row a])) schema domain_api_version 1 1
      (Some role) ''runtime'' (Some role) = Inr rep"
    using a assms(2) by (simp add: compatibility_report_def rows domain_api_version_def Let_def)
  have "cr_installed rep = Some 1"
    using rep a by (auto simp: compatibility_report_def rows Let_def) (simp add: asset_row_def)+
  moreover have "is_prefix_ledger ms 1 [asset_row a]" by (simp add: is_prefix_ledger_def a)
  ultimately have "cr_compatible rep"
    unfolding report_prefix [OF rep] using rows by (intro exI [of _ "[asset_row a]"] exI [of _ 1] exI [of _ role]) simp
  moreover have "fst (asset_row a) = 1" using a by (simp add: asset_row_def)
  ultimately show ?thesis using rep a assms(2)
    by (simp add: require_compatible_schema_def compatibility_def read_schema_state_def Let_def
        minimum_schema_version_def maximum_schema_version_def current_schema_version_def)
qed

text \<open>C34: Start-up fails closed: whatever the tables held and whatever PostgreSQL does, a handshake that lets the
  service start leaves exactly the one version row and the one ledger row of this release, for the
  configured role; it changed the tables only when there were none and the operator asked for the migration.\<close>

theorem handshake_admits_only_current:
  assumes "workspace_migrations v1 = Inr ms"
    "startup_schema_handshake works ms role mode schema runtime_role db = (Inr rep, db')"
  shows "db' = Some \<lparr>version_rows = [1], migration_rows = map asset_row ms\<rparr> \<and> runtime_role \<in> {None, Some role} \<and>
    (db' = db \<or> db = None \<and> mode = Some ''operator-migrate'')"
proof -
  have req: "require_compatible_schema ms role schema runtime_role db' = Inr rep"
    and eff: "db' = db \<or> mode = Some ''operator-migrate'' \<and> (\<exists>res. migrate_schema works ms role schema db = (Inr res, db'))"
    using assms(2) by (auto simp: startup_schema_handshake_def Let_def split: option.splits if_splits prod.splits sum.splits)
  have "db' = db \<or> db = None \<and> mode = Some ''operator-migrate''"
    using eff migrate_cases [OF assms(1)] by blast
  moreover have "(\<exists>t. db' = Some t \<and> version_rows t = [1] \<and> migration_rows t = map asset_row ms) \<and> runtime_role \<in> {None, Some role}"
    using req by (intro compatible_state [OF assms(1)]) (auto simp: require_compatible_schema_def split: if_splits)
  ultimately show ?thesis by auto
qed

theorem handshake_admits_only_current_witness:
  "\<exists>rep db'. startup_schema_handshake True [demo_asset] ''app'' (Some ''operator-migrate'') ''knowledge'' None None = (Inr rep, db') \<and>
     db' = Some \<lparr>version_rows = [1], migration_rows = [asset_row demo_asset]\<rparr>"
proof -
  have id: "check_identifier ''knowledge'' = Inr ''knowledge''" by code_simp
  have "migrate_schema True [demo_asset] ''app'' ''knowledge'' None =
      (Inr \<lparr>mr_schema = ''knowledge'', mr_installed = 1, mr_applied = [1], mr_role = ''app''\<rparr>,
       Some \<lparr>version_rows = [1], migration_rows = [asset_row demo_asset]\<rparr>)"
    by (simp add: migrate_schema_def read_schema_state_def id drifted_def apply_migration_def execute_v1_def
        render_schema_sql_def quote_identifier_def current_schema_version_def asset_row_def)
  then obtain rep where s: "startup_schema_handshake True [demo_asset] ''app'' (Some ''operator-migrate'') ''knowledge'' None None =
      (Inr rep, Some \<lparr>version_rows = [1], migration_rows = [asset_row demo_asset]\<rparr>)"
    using migrated_is_compatible [OF demo_migrations id, of "''app''"]
    by (auto simp: startup_schema_handshake_def Let_def)
  show ?thesis using handshake_admits_only_current [OF demo_migrations s] s by auto
qed

end
