(* ===== verification/Effect_Diagnosis.thy ===== *)
theory Effect_Diagnosis
  imports Executor_Properties Py_Strings Canonical_Form
begin

text \<open>
  The read-only diagnosis of uncertain effects, \<open>vuoro_service/ops/effects.py\<close>: its own reader of the
  execution journal, the classification of an attempt against owner facts and journal markers, and the
  conclusions drawn from what the provider shows. Its reader is proved to agree with the journal of the
  reconciler (\<open>Execution_Journal\<close>), and what it calls safe to seal to be unsent.
\<close>

subsection \<open>JSON without the checks\<close>

datatype diag_error = JournalUnreadable | JsonDecodeError | PyAttributeError | PyTypeError

text \<open>\<open>value.get(key)\<close> and \<open>value.get(key) or {}\<close>.\<close>

fun py_get :: "json \<Rightarrow> string \<Rightarrow> (diag_error, json) result" where
  "py_get (JObj kvs) k = Inr (case map_of kvs k of None \<Rightarrow> JNull | Some v \<Rightarrow> v)"
| "py_get _ k = Inl PyAttributeError"

definition py_get_dict :: "json \<Rightarrow> string \<Rightarrow> (diag_error, json) result" where
  "py_get_dict v k = map_sum id (\<lambda>w. if py_truthy w then w else JObj []) (py_get v k)"

primrec py_repr :: "json \<Rightarrow> string" where
  "py_repr JNull = ''None''"
| "py_repr (JBool b) = (if b then ''True'' else ''False'')"
| "py_repr (JInt i) = str_of_int i"
| "py_repr (JStr s) = str_repr s"
| "py_repr (JList xs) = ''['' @ join '', '' (map py_repr xs) @ '']''"
| "py_repr (JObj kvs) = ''{'' @ join '', '' (map (\<lambda>(k, v). str_repr k @ '': '' @ v) (map (map_prod id py_repr) kvs)) @ ''}''"

definition py_str :: "json \<Rightarrow> string" where
  "py_str v = (case v of JStr s \<Rightarrow> s | _ \<Rightarrow> py_repr v)"

subsection \<open>Reading the journal\<close>

record journal_effect =
  je_effect_key :: string
  je_intent_id :: json
  je_intent_revision :: json
  je_namespace :: json
  je_publication_target :: json
  je_events :: "event_type list"
  je_spent :: "operation list"
  je_status :: string
  je_local_ready :: "json option"
  je_observations :: "(event_type \<times> (string \<times> json) list) list"
  je_outcome :: "(string \<times> json) list option"

text \<open>The history of registry rebinds of a version 2 journal; the previous row's host, profile and new registry.\<close>

fun registry_history :: "(string \<times> string \<times> bytes) option \<Rightarrow> rebind_row list \<Rightarrow> (string \<times> string \<times> bytes) option option" where
  "registry_history previous [] = Some previous"
| "registry_history previous (r # rs) =
    (if hex_string 32 (rb_operation_id r) \<and> rb_host_id r \<noteq> [] \<and> profile_id_ok (rb_profile_id r) \<and>
        rb_old_sha256 r = hash_of True (rb_old_utf8 r) \<and> rb_new_sha256 r = hash_of True (rb_new_utf8 r) \<and>
        rb_old_sha256 r \<noteq> rb_new_sha256 r \<and>
        (case previous of None \<Rightarrow> True | Some p \<Rightarrow> (rb_host_id r, rb_profile_id r, rb_old_utf8 r) = p)
     then registry_history (Some (rb_host_id r, rb_profile_id r, rb_new_utf8 r)) rs else None)"

definition v2_history_ok :: "journal_db \<Rightarrow> bool" where
  "v2_history_ok db \<longleftrightarrow> db_registry_sha256 db = hash_of True (db_registry_utf8 db) \<and>
     (case registry_history None (registry_rebinds db) of
        None \<Rightarrow> False
      | Some None \<Rightarrow> True
      | Some (Some (host, _, raw)) \<Rightarrow> db_host_id db = host \<and> db_registry_utf8 db = raw)"

fun parse_payloads :: "(event_type \<times> bytes) list \<Rightarrow> (diag_error, (event_type, json) dict) result" where
  "parse_payloads [] = Inr []"
| "parse_payloads ((kind, raw) # rest) =
    (case py_loads raw of
       None \<Rightarrow> Inl JsonDecodeError
     | Some v \<Rightarrow> map_sum id (\<lambda>vs. (kind, v) # vs) (parse_payloads rest))"

definition observation_fields :: "string list" where
  "observation_fields = [''branch'', ''commit_oid'', ''pr_number'', ''pr_url'', ''state'']"

text \<open>\<open>{field: o.get(field) for field in fields if field in o}\<close>, whatever \<open>o\<close> is.\<close>

fun observation :: "json \<Rightarrow> (diag_error, (string \<times> json) list) result" where
  "observation (JObj kvs) =
     Inr (List.map_filter (\<lambda>k. map_option (Pair k) (map_of kvs k)) observation_fields)"
| "observation (JList xs) =
     (if list_ex (\<lambda>k. JStr k \<in> set xs) observation_fields then Inl PyAttributeError else Inr [])"
| "observation (JStr s) =
     (if list_ex (\<lambda>k. contains k s) observation_fields then Inl PyAttributeError else Inr [])"
| "observation _ = Inl PyTypeError"

definition observed :: "(event_type, json) dict \<Rightarrow> event_type \<Rightarrow>
    (diag_error, (event_type \<times> (string \<times> json) list) list) result" where
  "observed payloads kind =
    (case map_of (rev payloads) kind of
       None \<Rightarrow> Inr []
     | Some v \<Rightarrow> map_sum id (\<lambda>fs. [(kind, fs)]) (observation v))"

definition read_outcome :: "journal_db \<Rightarrow> string \<Rightarrow> (diag_error, (string \<times> json) list option) result" where
  "read_outcome db key =
    (case map_of (applied_outcomes db) key of
       None \<Rightarrow> Inr None
     | Some (raw, digest) \<Rightarrow>
         if hash_of True raw \<noteq> digest then Inl JournalUnreadable
         else (case py_loads raw of
             None \<Rightarrow> Inl JsonDecodeError
           | Some v \<Rightarrow>
               rbind (py_get v ''commit_oid'') (\<lambda>c. rbind (py_get v ''pr_number'') (\<lambda>n. rbind (py_get v ''pr_url'') (\<lambda>u.
               Inr (Some [(''commit_oid'', c), (''pr_number'', n), (''pr_url'', u)]))))))"

definition reader_status :: "event_type list \<Rightarrow> operation list \<Rightarrow> string" where
  "reader_status types spent =
    (if last types \<in> set terminal then event_name (last types)
     else if spent \<noteq> [] then ''UNSETTLED'' else event_name (last types))"

definition read_effect :: "journal_db \<Rightarrow> string \<Rightarrow> binding_row \<Rightarrow> (diag_error, journal_effect) result" where
  "read_effect db key row =
    (let chain = map (\<lambda>((_, seq), kind, raw, _). (seq, kind, raw)) (events_of key db);
         types = map (fst \<circ> snd) chain;
         spent = map (snd \<circ> fst) (spent_of key db)
     in rbind (need JournalUnreadable (hash_of True (bind_utf8 row) = bind_sha256 row)) (\<lambda>_.
        case py_loads (bind_utf8 row) of
          None \<Rightarrow> Inl JsonDecodeError
        | Some binding \<Rightarrow>
            rbind (need JournalUnreadable
              (map fst chain = [0..<length chain] \<and> chain \<noteq> [] \<and> hd types = BOUND)) (\<lambda>_.
            rbind (parse_payloads (map snd chain)) (\<lambda>payloads.
            rbind (observed payloads BRANCH_OBSERVED) (\<lambda>branch.
            rbind (observed payloads PR_OBSERVED) (\<lambda>pr.
            rbind (read_outcome db key) (\<lambda>outcome.
            rbind (py_get binding ''intent_id'') (\<lambda>intent.
            rbind (py_get binding ''intent_revision'') (\<lambda>revision.
            rbind (py_get binding ''namespace'') (\<lambda>namespace.
            rbind (py_get binding ''publication_target'') (\<lambda>target.
            Inr \<lparr>je_effect_key = key, je_intent_id = intent, je_intent_revision = revision, je_namespace = namespace,
                 je_publication_target = target, je_events = types, je_spent = spent,
                 je_status = reader_status types spent, je_local_ready = map_of (rev payloads) LOCAL_READY,
                 je_observations = branch @ pr, je_outcome = outcome\<rparr>)))))))))))"

fun read_effects :: "journal_db \<Rightarrow> (string \<times> binding_row) list \<Rightarrow> (diag_error, (string, journal_effect) dict) result" where
  "read_effects db [] = Inr []"
| "read_effects db ((key, row) # rest) =
    rbind (read_effect db key row) (\<lambda>e. map_sum id (\<lambda>es. (key, e) # es) (read_effects db rest))"

text \<open>\<open>version\<close> is the \<open>user_version\<close> of the file, whose catalog is taken to be the one of its version.\<close>

definition read_journal :: "nat \<Rightarrow> journal_db \<Rightarrow> (diag_error, (string, journal_effect) dict) result" where
  "read_journal version db =
    rbind (need JournalUnreadable (version = 1 \<or> version = 2 \<and> v2_history_ok db)) (\<lambda>_.
    rbind (need JournalUnreadable (list_all (\<lambda>(_, _, raw, digest). hash_of True raw = digest) (journal_events db))) (\<lambda>_.
    rbind (need JournalUnreadable (list_all (\<lambda>(_, raw, digest). hash_of True raw = digest) (publication_spent db))) (\<lambda>_.
    read_effects db (sort_key fst (effect_bindings db)))))"

subsection \<open>Classifying an attempt\<close>

definition journal_operation :: "string \<Rightarrow> operation option" where
  "journal_operation s =
    (if s = ''push_branch'' then Some BranchCreate else if s = ''open_pull_request'' then Some PrCreate else None)"

text \<open>\<open>JOURNAL_OPERATION.get(value or "")\<close>: a list or dict cannot be a key.\<close>

fun operation_of :: "json \<Rightarrow> (diag_error, operation option) result" where
  "operation_of (JStr s) = Inr (journal_operation s)"
| "operation_of (JList (x # xs)) = Inl PyTypeError"
| "operation_of (JObj (x # xs)) = Inl PyTypeError"
| "operation_of _ = Inr None"

datatype journal_link = Linked journal_effect | Unlinked | Ambiguous | NoJournal

fun link_name :: "journal_link \<Rightarrow> string" where
  "link_name (Linked e) = ''linked''"
| "link_name Unlinked = ''unlinked''"
| "link_name Ambiguous = ''ambiguous''"
| "link_name NoJournal = ''no-journal''"

definition same_intent :: "json \<Rightarrow> json \<Rightarrow> journal_effect \<Rightarrow> bool" where
  "same_intent intent revision e \<longleftrightarrow>
     py_eq (je_intent_id e) intent \<and> py_str (je_intent_revision e) = py_str revision"

definition find_link :: "json \<Rightarrow> json \<Rightarrow> (string, journal_effect) dict option \<Rightarrow> journal_link" where
  "find_link intent revision journal =
    (case journal of
       None \<Rightarrow> NoJournal
     | Some js \<Rightarrow>
         (case filter (same_intent intent revision) (map snd js) of
            [] \<Rightarrow> Unlinked
          | [e] \<Rightarrow> Linked e
          | _ \<Rightarrow> Ambiguous))"

record attempt_facts =
  af_attempt_id :: json
  af_state :: json
  af_intent_id :: json
  af_intent_revision :: json
  af_work_item_id :: json
  af_operation :: json
  af_repository :: json
  af_branch :: json
  af_commit_sha :: json
  af_base_branch :: json
  af_principal_id :: json
  af_events :: "json list"
  af_report :: json

fun event_list :: "json \<Rightarrow> (diag_error, json list) result" where
  "event_list (JList xs) = (if list_all is_obj xs then Inr xs else Inl PyAttributeError)"
| "event_list (JStr s) = Inl PyAttributeError"
| "event_list (JObj kvs) = Inl PyAttributeError"
| "event_list _ = Inl PyTypeError"

definition field_or_null :: "json \<Rightarrow> string \<Rightarrow> json" where
  "field_or_null v k = (case fld v k of None \<Rightarrow> JNull | Some w \<Rightarrow> w)"

definition attempt_facts :: "json \<Rightarrow> (diag_error, attempt_facts) result" where
  "attempt_facts attempt =
    rbind (py_get_dict attempt ''authorization'') (\<lambda>authorization.
    rbind (py_get_dict authorization ''target'') (\<lambda>target.
    rbind (py_get attempt ''events'') (\<lambda>raw_events.
    rbind (if py_truthy raw_events then event_list raw_events else Inr []) (\<lambda>events.
    rbind (need PyAttributeError (is_obj target)) (\<lambda>_.
    let report = find (\<lambda>e. field_or_null e ''event_kind'' = JStr ''application_report_received'') events
    in Inr \<lparr>af_attempt_id = field_or_null authorization ''attempt_id'', af_state = field_or_null attempt ''state'',
        af_intent_id = field_or_null authorization ''intent_id'',
        af_intent_revision = field_or_null authorization ''intent_revision'',
        af_work_item_id = field_or_null authorization ''work_item_id'', af_operation = field_or_null target ''operation'',
        af_repository = field_or_null target ''repository'', af_branch = field_or_null target ''branch'',
        af_commit_sha = field_or_null target ''commit_sha'', af_base_branch = field_or_null target ''base_branch'',
        af_principal_id = field_or_null authorization ''principal_id'',
        af_events = map (\<lambda>e. field_or_null e ''event_kind'') events,
        af_report = (case report of None \<Rightarrow> JNull | Some e \<Rightarrow> field_or_null e ''payload'')\<rparr>)))))"

record verdict =
  vd_facts :: attempt_facts
  vd_class :: string
  vd_reasons :: "string list"
  vd_anomalies :: "string list"
  vd_link :: journal_link

text \<open>The class of an attempt, its reasons and anomalies, from its state and the link.\<close>

definition judge :: "attempt_facts \<Rightarrow> journal_link \<Rightarrow> bool \<Rightarrow> string \<times> string list \<times> string list" where
  "judge f link marker =
    (if af_state f = JStr ''sealed_unused'' then
       (''closed-unused'', [''authorization sealed without redemption''],
        if marker then [''journal-transmission-marker-on-sealed-attempt''] else [])
     else if af_state f = JStr ''redeemed'' \<and> af_report f \<noteq> JNull then
       (''reported'', [''redeemed and application report recorded (an applier claim, not provider proof)''], [])
     else if af_state f = JStr ''redeemed'' then
       (''provider-outcome-needed'',
        ''redeemed without an application report; replay never re-grants dispatch'' #
          (if af_operation f = JStr ''push_branch''
           then [''push authorizations take no application report; only the provider settles them''] else []), [])
     else if af_state f = JStr ''accepted'' then
       (case link of
          Linked e \<Rightarrow>
            if marker then
              (''provider-outcome-needed'',
               [''journal records a possible transmission for an unredeemed authorization''],
               [''journal-transmission-marker-without-redemption''])
            else
              (''safe-to-seal'',
               [''never redeemed, and its uniquely linked journal record has no transmission marker''], [])
        | _ \<Rightarrow>
            (''provider-outcome-needed'',
             [''unredeemed, but the journal link is '' @ link_name link @ '': an in-flight transmission is not excluded''],
             if link = Ambiguous then [''journal-link-ambiguous''] else []))
     else (''provider-outcome-needed'', [], [''unknown-attempt-state:'' @ py_str (af_state f)]))"

text \<open>The commit of the local artifact differs from the authorized one.\<close>

definition commit_anomaly :: "attempt_facts \<Rightarrow> journal_link \<Rightarrow> (diag_error, string list) result" where
  "commit_anomaly f link =
    (case link of
       Linked e \<Rightarrow>
         (case je_local_ready e of
            None \<Rightarrow> Inr []
          | Some local \<Rightarrow>
              if py_truthy local \<and> py_truthy (af_commit_sha f) then
                map_sum id (\<lambda>oid. if py_eq oid (af_commit_sha f) then []
                                    else [''journal-local-commit-differs-from-authorized-commit'']) (py_get local ''commit_oid'')
              else Inr [])
     | _ \<Rightarrow> Inr [])"

definition classify :: "json \<Rightarrow> (string, journal_effect) dict option \<Rightarrow> (diag_error, verdict) result" where
  "classify attempt journal =
    rbind (attempt_facts attempt) (\<lambda>f.
    let link = find_link (af_intent_id f) (af_intent_revision f) journal
    in rbind (operation_of (af_operation f)) (\<lambda>op.
       let marker = (case (link, op) of (Linked e, Some p) \<Rightarrow> p \<in> set (je_spent e) | _ \<Rightarrow> False);
           (class, reasons, anomalies) = judge f link marker
       in rbind (commit_anomaly f link) (\<lambda>more.
          Inr \<lparr>vd_facts = f, vd_class = class, vd_reasons = reasons, vd_anomalies = anomalies @ more, vd_link = link\<rparr>)))"

subsection \<open>The two readers agree\<close>

fun status_name :: "record_status \<Rightarrow> string" where
  "status_name Unsettled = ''UNSETTLED''"
| "status_name (At kind) = event_name kind"

definition reads_as :: "journal_effect \<Rightarrow> journal_record \<Rightarrow> bool" where
  "reads_as e r \<longleftrightarrow> je_effect_key e = jr_effect_key r \<and> je_events e = map ev_type (jr_events r) \<and>
     je_spent e = map fst (jr_spent r) \<and> je_status e = status_name (status r)"

lemma py_loads_read: "read_upto m raw = Some v \<Longrightarrow> py_loads raw = Some v \<and> is_obj v"
proof -
  assume r: "read_upto m raw = Some v"
  have "json_loads hook_dict (json_dumps False v) = Some (json_norm v)"
    using read_facts(1) [OF r] by (rule json_roundtrip) (simp add: hook_dict_distinct)
  moreover have "utf8_decode raw = Some (json_dumps False v)"
    using read_facts(5) [OF r] by (auto simp: canonical_def)
  ultimately show ?thesis using read_facts [OF r] by (simp add: py_loads_def)
qed

lemma parse_payloads_read:
  "those (map (\<lambda>x. map_option (Pair (ev_type x)) (read_upto m (ev_payload x))) es) = Some seen \<Longrightarrow>
    parse_payloads (map (\<lambda>x. (ev_type x, ev_payload x)) es) = Inr seen \<and> (\<forall>(k, v) \<in> set seen. is_obj v)"
  by (induction es arbitrary: seen) (auto dest!: py_loads_read split: option.splits)

lemma is_obj_get: "is_obj v \<Longrightarrow> py_get v k = Inr (field_or_null v k)"
  by (cases v) (simp_all add: field_or_null_def)

lemma observed_ok:
  assumes "\<forall>(k, v) \<in> set payloads. is_obj v"
  shows "\<exists>fs. observed payloads kind = Inr fs"
proof (cases "map_of (rev payloads) kind")
  case (Some v)
  then have "is_obj v" using assms map_of_SomeD by fastforce
  then show ?thesis using Some by (cases v) (simp_all add: observed_def)
qed (simp add: observed_def)

lemma verify_starts_bound: "verify_events r e b 0 [] es = Some seen \<Longrightarrow> es \<noteq> [] \<Longrightarrow> ev_type (hd es) = BOUND"
  by (cases es) (auto simp: bind_eq_Some_conv)

lemma read_effect_ok:
  assumes l: "load db key = Some (Some r)" and row: "map_of (effect_bindings db) key = Some row"
    and v: "verify reg r = Some (seen, eff, b)"
  shows "\<exists>e. read_effect db key row = Inr e \<and> reads_as e r \<and> je_intent_id e = field_or_null b ''intent_id'' \<and>
    je_intent_revision e = field_or_null b ''intent_revision''"
proof -
  note lf = load_Some [OF l] and vf = v [unfolded verify_Some]
  have binding: "py_loads (bind_utf8 row) = Some b" "is_obj b"
    using py_loads_read [OF verify_binding [OF v]] lf row by auto
  have ev: "map (\<lambda>((_, seq), kind, raw, _). (seq, kind, raw)) (events_of key db) =
      map (\<lambda>x. (ev_seq x, ev_type x, ev_payload x)) (jr_events r)"
    using lf by (auto simp: comp_def)
  have "bind_sha256 row = hash_of True (bind_utf8 row)"
    using l row by (auto simp: load_def bind_eq_Some_conv)
  moreover have shape: "map ev_seq (jr_events r) = [0..<length (jr_events r)]" "jr_events r \<noteq> []"
    using vf verify_events_shape [of r eff b 0 "[]" "jr_events r" seen] by auto
  have pl: "parse_payloads (map (\<lambda>x. (ev_type x, ev_payload x)) (jr_events r)) = Inr seen"
    "\<forall>(k, v) \<in> set seen. is_obj v"
    using parse_payloads_read verify_record_events [OF v] unfolding record_events_def by blast+
  obtain os1 os2 where obs: "observed seen BRANCH_OBSERVED = Inr os1" "observed seen PR_OBSERVED = Inr os2"
    using observed_ok [OF pl(2)] by blast
  have "\<exists>out. read_outcome db key = Inr out"
  proof (cases "map_of (applied_outcomes db) key")
    case (Some p)
    obtain raw sha where p: "p = (raw, sha)" by fastforce
    then have sha: "sha = hash_of True raw" using l Some by (auto simp: load_def bind_eq_Some_conv split: option.splits)
    obtain w where w: "map_of seen APPLIED = Some w" "raw = canonical w"
      using lf vf Some p by auto
    obtain s1 raw' where "admit r eff b s1 APPLIED raw' = Some w" using verify_entry [OF v w(1)] by blast
    then have "read_upto 65536 raw' = Some w" by (rule admit_read_upto)
    then have "read_upto 65536 raw = Some w" using read_facts(5) w(2) by metis
    then show ?thesis using py_loads_read Some p sha by (auto simp: read_outcome_def is_obj_get)
  qed (simp add: read_outcome_def)
  then obtain out where out: "read_outcome db key = Inr out" by blast
  have "ev_type (hd (jr_events r)) = BOUND" using verify_starts_bound vf by blast
  moreover have sp: "map (snd \<circ> fst) (spent_of key db) = map fst (jr_spent r)" using lf by (auto simp: comp_def)
  moreover have "jr_effect_key r = key" using lf by simp
  moreover have "reader_status (map ev_type (jr_events r)) (map fst (jr_spent r)) = status_name (status r)"
    using shape(2) by (simp add: reader_status_def status_def Let_def last_map)
  ultimately show ?thesis using binding shape pl obs out
    unfolding read_effect_def ev sp
    by (simp add: comp_def is_obj_get reads_as_def hd_map Let_def)
qed

lemma registry_history_chain:
  "rebind_chain previous rs \<Longrightarrow> registry_history previous rs =
    Some (if rs = [] then previous else Some (rb_host_id (last rs), rb_profile_id (last rs), rb_new_utf8 (last rs)))"
proof (induction previous rs rule: rebind_chain.induct)
  case (2 previous r rs)
  then have "rb_host_id r \<noteq> []" by (auto simp: text_upto_def)
  then show ?case using 2 by (auto simp: split: option.splits)
qed simp

lemma usable_history: "journal_inv st \<Longrightarrow> v2_history_ok (js_db st)"
  by (auto simp: journal_inv_def usable_def validate_rebind_history_def v2_history_ok_def registry_history_chain)

interpretation binding_keys: step_invariant journal_step "\<lambda>st. dict_ok (effect_bindings (js_db st))"
proof unfold_locales
  fix st l st'
  assume ok: "dict_ok (effect_bindings (js_db st))" and st: "journal_step st l st'"
  have "db_change (js_registry st) (js_db st) (js_db st')"
    using st by cases (use journal_exec_db in blast)
  then show "dict_ok (effect_bindings (js_db st'))"
    using ok unfolding db_change_def
    by (elim disjE exE conjE)
      (auto dest!: append_body_appended bind_body_cases simp: appended_def map_of_eq_None_iff)
qed

lemma read_effects_ok:
  "\<forall>(key, row) \<in> set bs. \<exists>e. read_effect db key row = Inr e \<and> P key e \<Longrightarrow>
    \<exists>js. read_effects db bs = Inr js \<and> map fst js = map fst bs \<and> (\<forall>(key, e) \<in> set js. P key e)"
proof (induction bs)
  case (Cons b bs)
  obtain key row where b: "b = (key, row)" by fastforce
  obtain e where e: "read_effect db key row = Inr e" "P key e" using Cons.prems b by auto
  obtain js where "read_effects db bs = Inr js" "map fst js = map fst bs" "\<forall>(key, e) \<in> set js. P key e"
    using Cons by auto
  then show ?case using b e by (intro exI [of _ "(key, e) # js"]) simp
qed simp

lemma validated_row:
  assumes "journal_inv st" "(key, row) \<in> set (effect_bindings (js_db st))"
  obtains r seen eff b where "load (js_db st) key = Some (Some r)" "verify (js_registry st) r = Some (seen, eff, b)"
proof -
  have "key \<in> fst ` set (effect_bindings (js_db st))" using assms(2) by force
  then have "record_ok (js_registry st) (js_db st) key"
    using assms(1) by (auto simp: journal_inv_def usable_def validate_all_def Let_def list_all_iff)
  then show thesis using that by (auto simp: record_ok_def split: option.splits)
qed

lemma row_digests:
  assumes "journal_inv st"
  shows "list_all (\<lambda>(_, _, raw, digest). hash_of True raw = digest) (journal_events (js_db st))"
    "list_all (\<lambda>(_, raw, digest). hash_of True raw = digest) (publication_spent (js_db st))"
proof -
  let ?db = "js_db st"
  have ok: "record_ok (js_registry st) ?db key" if "key \<in> fst ` set (effect_bindings ?db)" for key
    using that assms by (auto simp: journal_inv_def usable_def validate_all_def Let_def list_all_iff)
  have l: "list_all (\<lambda>(_, _, raw, sha). sha = hash_of True raw) (events_of key ?db) \<and>
      list_all (\<lambda>(_, raw, sha). sha = hash_of True raw) (spent_of key ?db)" if "key \<in> fst ` set (effect_bindings ?db)" for key
    using ok [OF that] by (auto simp: record_ok_def load_def bind_eq_Some_conv split: option.splits)
  have keys: "\<forall>r \<in> set (journal_events ?db). fst (fst r) \<in> fst ` set (effect_bindings ?db)"
    "\<forall>r \<in> set (publication_spent ?db). fst (fst r) \<in> fst ` set (effect_bindings ?db)"
    using assms by (auto simp: journal_inv_def usable_def validate_all_def Let_def list_all_iff)
  have "r \<in> set (events_of (fst (fst r)) ?db)" if "r \<in> set (journal_events ?db)" for r
    using that by (simp add: events_of_def)
  then show "list_all (\<lambda>(_, _, raw, digest). hash_of True raw = digest) (journal_events ?db)"
    using l keys(1) unfolding list_all_iff by fastforce
  have "r \<in> set (spent_of (fst (fst r)) ?db)" if "r \<in> set (publication_spent ?db)" for r
  proof -
    obtain k op x where r: "r = ((k, op), x)" by (metis surj_pair)
    then show ?thesis using that by (cases op) (simp_all add: spent_of_def)
  qed
  then show "list_all (\<lambda>(_, raw, digest). hash_of True raw = digest) (publication_spent ?db)"
    using l keys(2) unfolding list_all_iff by fastforce
qed

lemma reader_agrees:
  assumes inv: "journal_inv st" and ok: "dict_ok (effect_bindings (js_db st))" and version: "version = 1 \<or> version = 2"
  obtains js where "read_journal version (js_db st) = Inr js" "map fst js = sort (map fst (effect_bindings (js_db st)))"
    "\<forall>(key, e) \<in> set js. \<exists>r. load (js_db st) key = Some (Some r) \<and> reads_as e r"
proof -
  let ?db = "js_db st"
  have "\<forall>(key, row) \<in> set (sort_key fst (effect_bindings ?db)). \<exists>e. read_effect ?db key row = Inr e \<and>
      (\<exists>r. load ?db key = Some (Some r) \<and> reads_as e r)"
  proof (clarify, goal_cases)
    case (1 key row)
    then have row: "(key, row) \<in> set (effect_bindings ?db)" by simp
    obtain r seen eff b where "load ?db key = Some (Some r)" "verify (js_registry st) r = Some (seen, eff, b)"
      using validated_row [OF inv row] .
    then show ?case using read_effect_ok row ok dict_get_in [OF ok] by metis
  qed
  from read_effects_ok [OF this] obtain js where js: "read_effects ?db (sort_key fst (effect_bindings ?db)) = Inr js"
    "map fst js = map fst (sort_key fst (effect_bindings ?db))"
    "\<forall>(key, e) \<in> set js. \<exists>r. load ?db key = Some (Some r) \<and> reads_as e r" by blast
  have "read_journal version ?db = Inr js"
    using js(1) version usable_history [OF inv] row_digests [OF inv] by (auto simp: read_journal_def)
  moreover have "map fst (sort_key fst (effect_bindings ?db)) = sort (map fst (effect_bindings ?db))"
    by (rule properties_for_sort [symmetric]) simp_all
  ultimately show thesis using that js by simp
qed


subsection \<open>What the provider shows\<close>

datatype ref_state = RMatches | RDiffers | RAbsent | RUnknown

text \<open>The branch as \<open>git ls-remote\<close> shows it: its head, empty when there is none, or an error.\<close>

definition branch_state :: "string \<Rightarrow> string \<times> bool \<Rightarrow> ref_state" where
  "branch_state expected answer =
    (case answer of (head, failed) \<Rightarrow>
       if failed then RUnknown else if head = [] then RAbsent else if head = expected then RMatches else RDiffers)"

text \<open>The outcome of an operation and why; \<open>merged\<close> says that a pull request was found and is merged.\<close>

definition provider_outcome :: "json \<Rightarrow> ref_state \<Rightarrow> ref_state \<Rightarrow> bool \<Rightarrow> string \<times> string" where
  "provider_outcome operation branch pr merged =
    (if operation = JStr ''push_branch'' then
       (case branch of
          RMatches \<Rightarrow> (''applied'', ''branch head is the authorized commit'')
        | RAbsent \<Rightarrow>
            if pr = RMatches \<and> merged
            then (''applied'', ''branch is gone but a merged PR's head is the authorized commit'')
            else (''unknown'', ''branch absent now; neither the push nor its absence is established'')
        | RDiffers \<Rightarrow> (''needs-review'', ''branch head moved away from the authorized commit (later push or another actor)'')
        | RUnknown \<Rightarrow> (''unknown'', ''branch lookup failed''))
     else if operation = JStr ''open_pull_request'' then
       (case pr of
          RMatches \<Rightarrow> (''applied'', ''a PR from the branch has the authorized head commit and base'')
        | RDiffers \<Rightarrow> (''needs-review'', ''a PR exists but its head or base differs (moved after opening, or another actor)'')
        | RAbsent \<Rightarrow>
            (case branch of
               RMatches \<Rightarrow> (''partially-applied'', ''branch pushed at the authorized commit, no PR ever opened'')
             | RDiffers \<Rightarrow> (''needs-review'', ''no PR, and the branch head is not the authorized commit'')
             | _ \<Rightarrow> (''not-observed'', ''the provider has never had a PR from this branch''))
        | RUnknown \<Rightarrow> (''unknown'', ''PR lookup failed or the provider is unsupported''))
     else (''unknown'', ''unsupported provider operation '' @ py_repr operation))"

definition next_step :: "verdict \<Rightarrow> string \<Rightarrow> string" where
  "next_step v outcome =
    (let f = vd_facts v in
     if outcome = ''unknown'' then ''provider outcome not established; do not seal, report or re-dispatch on this basis''
     else if outcome = ''needs-review'' then
       ''provider state moved or differs: a person must review before any report or seal; do not re-dispatch''
     else if af_state f = JStr ''accepted'' then
       (if outcome = ''not-observed'' \<and> vd_class v = ''safe-to-seal'' then
          ''unredeemed, no journal transmission and no PR ever opened: eligible for attempt-seal-unused-v1 by its owner principal''
        else if outcome = ''not-observed'' then
          ''unredeemed and no PR observed, but the journal does not exclude a transmission: review before sealing''
        else ''observed at the provider without redemption: investigate the out-of-band actor'')
     else if af_state f = JStr ''redeemed'' then
       (if outcome = ''applied'' \<and> af_operation f = JStr ''open_pull_request'' \<and> af_report f = JNull then
          ''applied: the applier may record attempt-report-applied-v1 with the observed commit and PR URL''
        else if outcome = ''applied'' then ''applied at the provider; no owner action is pending for this attempt''
        else ''redeemed but not applied: the authorization is consumed and replay never re-grants dispatch; a new intent revision is required for another attempt'')
     else ''no action'')"

definition seal_advice :: string where
  "seal_advice = ''unredeemed, no journal transmission and no PR ever opened: eligible for attempt-seal-unused-v1 by its owner principal''"

lemma seal_advice_only_if:
  assumes "next_step v (fst (provider_outcome (af_operation (vd_facts v)) branch pr merged)) = seal_advice"
  shows "vd_class v = ''safe-to-seal'' \<and> af_state (vd_facts v) = JStr ''accepted'' \<and>
    af_operation (vd_facts v) = JStr ''open_pull_request'' \<and> pr = RAbsent \<and> branch \<in> {RAbsent, RUnknown}"
  using assms
  by (simp add: next_step_def seal_advice_def provider_outcome_def Let_def split: if_splits ref_state.splits)

subsection \<open>Safe to seal\<close>

lemma find_link_Linked:
  "find_link intent revision (Some js) = Linked e \<longleftrightarrow> filter (same_intent intent revision) (map snd js) = [e]"
  by (auto simp: find_link_def split: list.splits)

lemma classify_safe:
  assumes "classify attempt (Some js) = Inr v" "vd_class v = ''safe-to-seal''"
  shows "\<exists>e. vd_link v = Linked e \<and> filter (same_intent (af_intent_id (vd_facts v)) (af_intent_revision (vd_facts v))) (map snd js) = [e] \<and>
    af_state (vd_facts v) = JStr ''accepted'' \<and>
    (\<forall>s op. af_operation (vd_facts v) = JStr s \<longrightarrow> journal_operation s = Some op \<longrightarrow> op \<notin> set (je_spent e))"
proof -
  obtain f op where f: "attempt_facts attempt = Inr f" "operation_of (af_operation f) = Inr op"
    using assms(1) by (auto simp: classify_def Let_def)
  define link where "link = find_link (af_intent_id f) (af_intent_revision f) (Some js)"
  define marker where "marker = (case (link, op) of (Linked e, Some p) \<Rightarrow> p \<in> set (je_spent e) | _ \<Rightarrow> False)"
  have v: "vd_facts v = f \<and> vd_link v = link \<and> vd_class v = fst (judge f link marker)"
    using assms(1) unfolding classify_def f rbind_simps Let_def f(2) link_def [symmetric] marker_def [symmetric]
    by (auto split: prod.splits)
  then have c: "vd_link v = find_link (af_intent_id (vd_facts v)) (af_intent_revision (vd_facts v)) (Some js)"
    "operation_of (af_operation (vd_facts v)) = Inr op"
    "marker = (case (vd_link v, op) of (Linked e, Some p) \<Rightarrow> p \<in> set (je_spent e) | _ \<Rightarrow> False)"
    "vd_class v = fst (judge (vd_facts v) (vd_link v) marker)"
    using f(2) by (simp_all add: link_def marker_def)
  have "af_state (vd_facts v) = JStr ''accepted'' \<and> (\<exists>e. vd_link v = Linked e) \<and> \<not> marker"
    using c(4) assms(2) by (auto simp: judge_def split: if_splits journal_link.splits)
  then obtain e where e: "af_state (vd_facts v) = JStr ''accepted''" "vd_link v = Linked e" "\<not> marker" by blast
  then have "p \<notin> set (je_spent e)" if "op = Some p" for p using c(3) that by simp
  then have "\<forall>s p. af_operation (vd_facts v) = JStr s \<longrightarrow> journal_operation s = Some p \<longrightarrow> p \<notin> set (je_spent e)"
    using c(2) by auto
  then show ?thesis using e c(1) find_link_Linked [of _ _ js e] by auto
qed

lemma spent_rows_read:
  assumes "load db key = Some (Some r)" "(key, op) \<in> fst ` set (publication_spent db)"
  shows "op \<in> set (map fst (jr_spent r))"
proof -
  obtain x where x: "((key, op), x) \<in> set (publication_spent db)" using assms(2) by force
  then have "((key, op), x) \<in> set (spent_of key db)" by (cases op) (simp_all add: spent_of_def)
  moreover have "jr_spent r = map (\<lambda>((_, op), raw, _). (op, raw)) (spent_of key db)" using load_Some [OF assms(1)] by simp
  ultimately show ?thesis by (cases x) (auto intro!: rev_image_eqI)
qed

subsection \<open>Properties\<close>

lemma journal_keys: "run journal_step (open_journal host registry db) ls st \<Longrightarrow>
    install_journal host registry = Some db \<Longrightarrow> journal_inv st \<and> dict_ok (effect_bindings (js_db st))"
  using journal_sys.inv_run [OF _ install_inv] binding_keys.inv_run
  by (fastforce simp: install_journal_def bind_eq_Some_conv open_journal_def)

text \<open>C35: The reader of the operator's diagnosis and the journal of the reconciler agree: on every database that
  any sequence of journal calls leaves, at either schema version, the reader succeeds; it lists the recorded
  effects in the order of their keys, and of each it reports the events, the spent markers and the
  status of the record the journal itself loads.\<close>

theorem journal_readers_agree:
  assumes "install_journal host registry = Some db" "run journal_step (open_journal host registry db) ls st"
    "version = 1 \<or> version = 2"
  shows "\<exists>js. read_journal version (js_db st) = Inr js \<and> map fst js = sort (map fst (effect_bindings (js_db st))) \<and>
    (\<forall>key. case load (js_db st) key of
       Some (Some r) \<Rightarrow> (\<exists>e. dict_get js key = Some e \<and> reads_as e r)
     | Some None \<Rightarrow> dict_get js key = None
     | None \<Rightarrow> False)"
proof -
  note inv = journal_keys [OF assms(2,1), THEN conjunct1] journal_keys [OF assms(2,1), THEN conjunct2]
  from reader_agrees [OF inv assms(3)] obtain js where js: "read_journal version (js_db st) = Inr js"
    "map fst js = sort (map fst (effect_bindings (js_db st)))"
    "\<forall>(key, e) \<in> set js. \<exists>r. load (js_db st) key = Some (Some r) \<and> reads_as e r" .
  have keys: "fst ` set js = fst ` set (effect_bindings (js_db st))" by (metis js(2) set_map set_sort)
  have "case load (js_db st) key of
       Some (Some r) \<Rightarrow> (\<exists>e. dict_get js key = Some e \<and> reads_as e r)
     | Some None \<Rightarrow> dict_get js key = None
     | None \<Rightarrow> False" for key
  proof (cases "dict_get js key")
    case (Some e)
    then have "(key, e) \<in> set js" by (rule map_of_SomeD)
    then show ?thesis using js(3) Some by fastforce
  next
    case None
    then have "map_of (effect_bindings (js_db st)) key = None" using keys by (simp add: map_of_eq_None_iff)
    then show ?thesis using None by (simp add: load_def)
  qed
  then show ?thesis using js(1,2) by blast
qed

theorem journal_readers_agree_witness:
  "read_journal 2 (js_db (open_journal ''host'' demo_registry demo_db)) = Inr []"
  using journal_readers_agree [OF demo_install demo_refused, of 2] by (auto simp: demo_db_def open_journal_def)

lemma safe_means_unsent:
  assumes "install_journal host registry = Some db" "run executor_step (open_journal host registry db) ls st"
    "version = 1 \<or> version = 2" "read_journal version (js_db st) = Inr js" "(key, e) \<in> set js" "op \<notin> set (je_spent e)"
  shows "(je_effect_key e, op) \<notin> set (creates (concat ls))"
proof
  assume sent: "(je_effect_key e, op) \<in> set (creates (concat ls))"
  have t: "run journal_step (open_journal host registry db) (labels (concat ls)) st" "publication_trace (concat ls)"
    using executor_run_trace [OF assms(2)] by blast+
  have "(je_effect_key e, op) \<in> fst ` set (publication_spent (js_db st))"
    using subseq_set [OF creates_spent [OF t(2)]] sent
      journal_spending.accepted_distinct [OF t(1) install_inv [OF assms(1)]] by blast
  moreover note inv = journal_keys [OF t(1) assms(1), THEN conjunct1] journal_keys [OF t(1) assms(1), THEN conjunct2]
  obtain js' where js: "read_journal version (js_db st) = Inr js'"
    "\<forall>(key, e) \<in> set js'. \<exists>r. load (js_db st) key = Some (Some r) \<and> reads_as e r"
    by (rule reader_agrees [OF inv assms(3)])
  have "js' = js" using js(1) assms(4) by simp
  then obtain r where r: "load (js_db st) key = Some (Some r)" "reads_as e r" using js(2) assms(5) by blast
  have "je_effect_key e = key" using r(2) load_Some [OF r(1)] by (simp only: reads_as_def)
  ultimately have "op \<in> set (map fst (jr_spent r))" using spent_rows_read [OF r(1)] by simp
  then show False using assms(6) r(2) unfolding reads_as_def by metis
qed


abbreviation demo_attempt :: json where
  "demo_attempt \<equiv> JObj [(''state'', JStr ''accepted''), (''authorization'', JObj [(''intent_id'', JStr ''i''),
     (''intent_revision'', JInt 1), (''target'', JObj [(''operation'', JStr ''open_pull_request'')])]), (''events'', JList [])]"

lemma demo_reads_empty: "read_journal 2 (js_db (open_journal ''host'' demo_registry demo_db)) = Inr []"
proof -
  have "journal_inv (open_journal ''host'' demo_registry demo_db)" using demo_install by (rule install_inv)
  then have "v2_history_ok (js_db (open_journal ''host'' demo_registry demo_db))" by (rule usable_history)
  then have "v2_history_ok demo_db" by (simp only: open_journal_def journal_state.simps)
  then show ?thesis by (simp add: read_journal_def demo_db_def open_journal_def)
qed

lemma demo_verdict: "\<exists>v. classify demo_attempt (Some []) = Inr v \<and> vd_class v = ''provider-outcome-needed''"
  by (simp add: classify_def attempt_facts_def py_get_dict_def field_or_null_def find_link_def judge_def
      journal_operation_def commit_anomaly_def Let_def)


end
