(* ===== verification/Recovery_Log.thy ===== *)
theory Recovery_Log
  imports Canonical_Form
begin

text \<open>
  The offline recovery log of the client, \<open>vuoro_client/recovery.py\<close>: one file of JSON lines per incident,
  appended under a lock and synced before an append returns. A failure or crash while a line is written
  leaves any prefix of it. The checks on owners, modes and links of the files are taken to pass, values
  hold no floats, and an argument that is \<open>None\<close> is \<open>JNull\<close>.
\<close>

subsection \<open>Entries\<close>

abbreviation lf :: char where "lf \<equiv> CHR 0x0A"

record recovery_entry =
  rv_record_id :: json
  rv_incident_id :: json
  rv_record_kind :: json
  rv_created_at :: json
  rv_basis_revision :: json
  rv_summary :: json
  rv_detail :: json
  rv_requested_command :: json

datatype recovery_error = RecoveryValueError | RecoveryNotBegun | RecoveryOSError

definition entry_fields :: "string list" where
  "entry_fields = [''record_id'', ''incident_id'', ''record_kind'', ''created_at'', ''basis_revision'', ''summary'',
     ''detail'', ''requested_command'']"

definition entry_values :: "recovery_entry \<Rightarrow> json list" where
  "entry_values e = [rv_record_id e, rv_incident_id e, rv_record_kind e, rv_created_at e, rv_basis_revision e,
     rv_summary e, rv_detail e, rv_requested_command e]"

definition to_json :: "recovery_entry \<Rightarrow> json" where
  "to_json e = JObj (zip entry_fields (entry_values e))"

text \<open>\<open>from_json\<close> of a payload that has all the fields.\<close>

definition from_json :: "json \<Rightarrow> recovery_entry" where
  "from_json v =
    (let get = (\<lambda>k. case fld v k of None \<Rightarrow> JNull | Some x \<Rightarrow> x) in
     \<lparr>rv_record_id = get ''record_id'', rv_incident_id = get ''incident_id'', rv_record_kind = get ''record_kind'',
      rv_created_at = get ''created_at'', rv_basis_revision = get ''basis_revision'', rv_summary = get ''summary'',
      rv_detail = get ''detail'', rv_requested_command = get ''requested_command''\<rparr>)"

text \<open>\<open>json.dumps(entry.to_json(), sort_keys=True, allow_nan=False)\<close> and the end of the line.\<close>

definition line_of :: "recovery_entry \<Rightarrow> string" where
  "line_of e = json_text '' '' True (to_json e) @ [lf]"

definition bounded_id :: "json \<Rightarrow> bool" where
  "bounded_id v \<longleftrightarrow> (case v of JStr s \<Rightarrow> 1 \<le> length s \<and> length s \<le> 128 | _ \<Rightarrow> False)"

definition is_text :: "json \<Rightarrow> bool" where
  "is_text v \<longleftrightarrow> (case v of JStr _ \<Rightarrow> True | _ \<Rightarrow> False)"

definition record_kinds :: "json list" where
  "record_kinds = [JStr ''observation'', JStr ''requested-command'']"

definition validate_entry :: "string \<Rightarrow> recovery_entry \<Rightarrow> bool" where
  "validate_entry incident e \<longleftrightarrow>
     rv_incident_id e = JStr incident \<and> rv_record_kind e \<in> set record_kinds \<and> bounded_id (rv_record_id e) \<and>
     is_text (rv_created_at e) \<and> rv_created_at e \<noteq> JStr [] \<and> is_text (rv_summary e) \<and>
     (rv_basis_revision e = JNull \<or> is_text (rv_basis_revision e)) \<and> is_obj (rv_detail e) \<and>
     \<not> (rv_record_kind e = JStr ''observation'' \<and> rv_requested_command e \<noteq> JNull) \<and>
     \<not> (rv_record_kind e = JStr ''requested-command'' \<and> \<not> is_obj (rv_requested_command e))"

subsection \<open>Reading the file\<close>

text \<open>Text mode: any line ending is read as a newline, and iteration yields lines with their ends.\<close>

fun universal :: "string \<Rightarrow> string" where
  "universal [] = []"
| "universal (c # cs) =
    (if c = CHR 0x0D then lf # universal (if cs \<noteq> [] \<and> hd cs = lf then tl cs else cs)
     else c # universal cs)"

fun file_lines :: "string \<Rightarrow> string list" where
  "file_lines [] = []"
| "file_lines (c # cs) =
    (if c = lf then [c] # file_lines cs
     else (case file_lines cs of [] \<Rightarrow> [[c]] | l # ls \<Rightarrow> (c # l) # ls))"

definition read_line :: "string \<Rightarrow> string \<Rightarrow> recovery_entry option" where
  "read_line incident line =
    (if line = [] \<or> last line \<noteq> lf then None
     else (case json_loads hook_unique line of
         None \<Rightarrow> None
       | Some payload \<Rightarrow>
           (case payload of
              JObj kvs \<Rightarrow>
                let e = from_json payload in
                if set (map fst kvs) = set entry_fields \<and> validate_entry incident e then Some e else None
            | _ \<Rightarrow> None)))"

fun read_lines :: "string \<Rightarrow> json list \<Rightarrow> string list \<Rightarrow> recovery_entry list option" where
  "read_lines incident seen [] = Some []"
| "read_lines incident seen (l # ls) =
    (case read_line incident l of
       None \<Rightarrow> None
     | Some e \<Rightarrow>
         if rv_record_id e \<in> set seen then None
         else map_option (Cons e) (read_lines incident (rv_record_id e # seen) ls))"

definition read_records :: "string \<Rightarrow> bytes \<Rightarrow> (recovery_error, recovery_entry list) result" where
  "read_records incident raw =
    (case Option.bind (utf8_decode raw) (\<lambda>s. read_lines incident [] (file_lines (universal s))) of
       None \<Rightarrow> Inl RecoveryValueError
     | Some es \<Rightarrow> Inr es)"

subsection \<open>Operations\<close>

definition incident_ok :: "string \<Rightarrow> bool" where
  "incident_ok s \<longleftrightarrow>
     (case s of [] \<Rightarrow> False
      | c # cs \<Rightarrow> is_alnum c \<and> length cs \<le> 127 \<and> list_all (\<lambda>x. is_alnum x \<or> x \<in> set ''._-'') cs)"

record authored =
  au_record_kind :: json
  au_summary :: json
  au_created_at :: json
  au_basis_revision :: json
  au_detail :: json
  au_requested_command :: json
  au_record_id :: json

text \<open>The entry an append is to write; \<open>uuid\<close> is the identifier drawn when none is given.\<close>

definition author :: "string \<Rightarrow> authored \<Rightarrow> string \<Rightarrow> recovery_entry option" where
  "author incident a uuid =
    (let e = \<lparr>rv_record_id = (if au_record_id a = JNull then JStr uuid else au_record_id a), rv_incident_id = JStr incident,
              rv_record_kind = au_record_kind a, rv_created_at = au_created_at a, rv_basis_revision = au_basis_revision a,
              rv_summary = au_summary a, rv_detail = (if au_detail a = JNull then JObj [] else au_detail a),
              rv_requested_command = au_requested_command a\<rparr>
     in if au_record_kind a \<in> set record_kinds \<and> (au_record_id a = JNull \<or> bounded_id (au_record_id a)) \<and>
           \<not> (au_record_kind a = JStr ''requested-command'' \<and> au_requested_command a = JNull) \<and>
           \<not> (au_record_kind a = JStr ''observation'' \<and> au_requested_command a \<noteq> JNull) \<and> validate_entry incident e
        then Some e else None)"

text \<open>What becomes of a write: it is synced, or it breaks off (an error, or the process dies) after some bytes.\<close>

datatype write_fate = Synced | Broken nat

definition append_record :: "string \<Rightarrow> authored \<Rightarrow> string \<Rightarrow> write_fate \<Rightarrow> bytes \<Rightarrow>
    (recovery_error, recovery_entry) result \<times> bytes" where
  "append_record incident a uuid fate raw =
    (case author incident a uuid of
       None \<Rightarrow> (Inl RecoveryValueError, raw)
     | Some e \<Rightarrow>
         (case read_records incident raw of
            Inl err \<Rightarrow> (Inl err, raw)
          | Inr existing \<Rightarrow>
              (case find (\<lambda>p. rv_record_id p = rv_record_id e) existing of
                 Some p \<Rightarrow> (if line_of p \<noteq> line_of e then Inl RecoveryValueError else Inr p, raw)
               | None \<Rightarrow>
                   (case fate of
                      Synced \<Rightarrow> (Inr e, raw @ utf8_encode (line_of e))
                    | Broken n \<Rightarrow> (Inl RecoveryOSError, raw @ take n (utf8_encode (line_of e)))))))"

text \<open>The file of one incident, absent until it is begun; \<open>Export\<close> is \<open>records\<close> rendered.\<close>

datatype recovery_op = Begin | Append authored string write_fate | Records

definition recovery_exec :: "string \<Rightarrow> recovery_op \<Rightarrow> bytes option \<Rightarrow>
    (recovery_error, recovery_entry list) result \<times> bytes option" where
  "recovery_exec incident op store =
    (case op of
       Begin \<Rightarrow> (Inr [], Some (case store of None \<Rightarrow> [] | Some raw \<Rightarrow> raw))
     | Append a uuid fate \<Rightarrow>
         (case store of
            None \<Rightarrow> (Inl RecoveryNotBegun, None)
          | Some raw \<Rightarrow> map_prod (map_sum id (\<lambda>e. [e])) Some (append_record incident a uuid fate raw))
     | Records \<Rightarrow>
         (case store of None \<Rightarrow> (Inl RecoveryNotBegun, None) | Some raw \<Rightarrow> (read_records incident raw, store)))"

definition export :: "recovery_entry list \<Rightarrow> json list" where
  "export es = map to_json es"

text \<open>The arguments are Python values: their objects have distinct keys.\<close>

fun op_wf :: "recovery_op \<Rightarrow> bool" where
  "op_wf (Append a uuid fate) \<longleftrightarrow> list_all json_wf [au_record_kind a, au_summary a, au_created_at a, au_basis_revision a,
     au_detail a, au_requested_command a, au_record_id a]"
| "op_wf _ \<longleftrightarrow> True"

type_synonym recovery_label = "recovery_op \<times> (recovery_error, recovery_entry list) result"

definition recovery_step :: "string \<Rightarrow> bytes option \<Rightarrow> recovery_label \<Rightarrow> bytes option \<Rightarrow> bool" where
  "recovery_step incident s l s' \<longleftrightarrow> op_wf (fst l) \<and> recovery_exec incident (fst l) s = (snd l, s')"

subsection \<open>The specification: a list that may be torn\<close>

definition norm_entry :: "recovery_entry \<Rightarrow> recovery_entry" where
  "norm_entry e = e\<lparr>rv_detail := json_norm (rv_detail e), rv_requested_command := json_norm (rv_requested_command e)\<rparr>"

type_synonym log_spec = "(recovery_entry list \<times> bool) option"

definition spec_append :: "string \<Rightarrow> authored \<Rightarrow> string \<Rightarrow> write_fate \<Rightarrow> recovery_entry list \<times> bool \<Rightarrow>
    (recovery_error, recovery_entry) result \<times> recovery_entry list \<times> bool" where
  "spec_append incident a uuid fate t =
    (case author incident a uuid of
       None \<Rightarrow> (Inl RecoveryValueError, t)
     | Some e \<Rightarrow>
         if snd t then (Inl RecoveryValueError, t)
         else (case find (\<lambda>p. rv_record_id p = rv_record_id e) (fst t) of
             Some p \<Rightarrow> (if p = norm_entry e then Inr p else Inl RecoveryValueError, t)
           | None \<Rightarrow>
               (case fate of
                  Synced \<Rightarrow> (Inr e, fst t @ [norm_entry e], False)
                | Broken n \<Rightarrow> (Inl RecoveryOSError,
                    if n = 0 then t else if n < length (line_of e) then (fst t, True) else (fst t @ [norm_entry e], False)))))"

definition spec_exec :: "string \<Rightarrow> recovery_op \<Rightarrow> log_spec \<Rightarrow> (recovery_error, recovery_entry list) result \<times> log_spec" where
  "spec_exec incident op store =
    (case op of
       Begin \<Rightarrow> (Inr [], Some (case store of None \<Rightarrow> ([], False) | Some t \<Rightarrow> t))
     | Append a uuid fate \<Rightarrow>
         (case store of
            None \<Rightarrow> (Inl RecoveryNotBegun, None)
          | Some t \<Rightarrow> map_prod (map_sum id (\<lambda>e. [e])) Some (spec_append incident a uuid fate t))
     | Records \<Rightarrow>
         (case store of
            None \<Rightarrow> (Inl RecoveryNotBegun, None)
          | Some t \<Rightarrow> (if snd t then Inl RecoveryValueError else Inr (fst t), store)))"

definition spec_step :: "string \<Rightarrow> log_spec \<Rightarrow> recovery_label \<Rightarrow> log_spec \<Rightarrow> bool" where
  "spec_step incident s l s' \<longleftrightarrow> spec_exec incident (fst l) s = (snd l, s')"

subsection \<open>Text of a line\<close>

definition printable :: "char \<Rightarrow> bool" where
  "printable c \<longleftrightarrow> 32 \<le> ord_of c \<and> ord_of c < 127"

lemma printable_marks [simp]:
  "printable (CHR '','')" "printable (CHR '':'')" "printable (CHR ''['')" "printable (CHR '']'')" "printable (CHR ''{'')"
  "printable (CHR ''}'')" "printable (CHR ''-'')" "printable (CHR '' '')"
  by (simp_all add: printable_def)

lemma printable_digit: "is_digit c \<Longrightarrow> printable c"
  by (auto simp: is_digit_def printable_def)

lemma printable_hex: "n < 16 \<Longrightarrow> printable (hex_digit n)"
proof -
  assume "n < 16"
  then have "n \<in> set [0..<16]" by simp
  then show ?thesis unfolding hex_digit_def printable_def by (simp add: upt_rec numeral_eq_Suc) (elim disjE; simp)
qed

lemma printable_escape: "list_all printable (escape_char True c)"
proof -
  have "(ord_of c :: nat) < 256" by simp
  then have "list_all printable [hex_digit (ord_of c div 16), hex_digit (ord_of c mod 16)]"
    by (simp add: printable_hex less_mult_imp_div_less)
  then show ?thesis by (auto simp: escape_char_def printable_def)
qed

lemma printable_quote: "list_all printable (json_quote True s)"
  using printable_escape by (fastforce simp: json_quote_def list_all_iff printable_def)

lemma printable_join: "list_all printable sep \<Longrightarrow> list_all (list_all printable) xs \<Longrightarrow> list_all printable (join sep xs)"
  by (induction sep xs rule: join.induct) auto

lemma printable_text: "list_all printable sp \<Longrightarrow> list_all printable (json_text sp True v)"
proof (induction v)
  case (JInt i)
  have "list_all printable (str_of_nat n)" for n
    using str_of_nat_digits [of n] printable_digit by (auto simp: list_all_iff)
  then show ?case by (simp add: str_of_int_def)
next
  case (JList xs)
  then show ?case using printable_join [of "CHR '','' # sp" "map (json_text sp True) xs"]
    by (simp add: list_all_iff)
next
  case (JObj kvs)
  have "list_all printable (member_text sp True kv)" if "kv \<in> set kvs" for kv
    using JObj.IH [of kv "snd kv"] JObj.prems that printable_quote [of "fst kv"] unfolding member_text_def
    by (cases kv) simp
  then have "list_all printable (join (CHR '','' # sp) (map (member_text sp True) (sort_key fst kvs)))"
    using JObj.prems by (intro printable_join) (auto simp: list_all_iff)
  then show ?case unfolding json_dumps_obj by simp
qed (simp_all add: printable_def printable_quote)

definition plain :: "char \<Rightarrow> bool" where
  "plain c \<longleftrightarrow> printable c \<or> c = lf"

lemma line_shape:
  obtains body where "line_of e = body @ [lf]" "list_all printable body" "body \<noteq> []"
proof -
  have "list_all printable (json_text '' '' True (to_json e))" by (rule printable_text) (simp add: printable_def)
  moreover obtain c cs where "json_text '' '' True (to_json e) = c # cs" by (rule json_dumps_head)
  ultimately show thesis using that by (simp add: line_of_def)
qed

lemma plain_line: "list_all plain (line_of e)"
  by (rule line_shape [of e]) (auto simp: list_all_iff plain_def)

lemma plain_universal: "list_all plain s \<Longrightarrow> universal s = s"
  by (induction s rule: universal.induct) (auto simp: plain_def printable_def)

lemma plain_utf8: "list_all plain s \<Longrightarrow> utf8_encode s = map (\<lambda>c. word_of_nat (ord_of c)) s"
  by (induction s) (auto simp: utf8_encode_def utf8_char_def Let_def plain_def printable_def)

lemma take_utf8: "list_all plain s \<Longrightarrow> take n (utf8_encode s) = utf8_encode (take n s)"
proof -
  assume s: "list_all plain s"
  then have "list_all plain (take n s)" by (auto simp: list_all_iff dest: in_set_takeD)
  then show ?thesis using plain_utf8 [OF s] plain_utf8 by (simp add: take_map)
qed

lemma file_lines_line: "list_all printable body \<Longrightarrow> file_lines (body @ lf # s) = (body @ [lf]) # file_lines s"
  by (induction body) (auto simp: printable_def)

lemma file_lines_tail: "list_all printable s \<Longrightarrow> s \<noteq> [] \<Longrightarrow> file_lines s = [s]"
proof (induction s)
  case (Cons c s)
  then show ?case by (cases s) (auto simp: printable_def)
qed simp

lemma file_lines_entries:
  assumes "list_all printable tail"
  shows "file_lines (concat (map line_of es) @ tail) = map line_of es @ (if tail = [] then [] else [tail])"
proof (induction es)
  case Nil
  then show ?case using file_lines_tail assms by simp
next
  case (Cons e es)
  obtain body where b: "line_of e = body @ [lf]" "list_all printable body" "body \<noteq> []" by (rule line_shape)
  then show ?case using Cons file_lines_line [OF b(2), of "concat (map line_of es) @ tail"] by simp
qed

subsection \<open>Lines read back\<close>

definition entry_wf :: "recovery_entry \<Rightarrow> bool" where
  "entry_wf e \<longleftrightarrow> list_all json_wf (entry_values e)"

lemma fld_obj: "fld (JObj kvs) k = map_of kvs k"
  by simp

lemma to_json_wf: "json_wf (to_json e) \<longleftrightarrow> entry_wf e"
  by (simp add: to_json_def entry_wf_def entry_values_def entry_fields_def)

lemma norm_scalar [simp]: "json_norm v = JStr s \<longleftrightarrow> v = JStr s" "json_norm v = JNull \<longleftrightarrow> v = JNull"
  by (cases v; simp)+

lemma to_json_norm_fld: "fld (json_norm (to_json e)) k = map_option json_norm (fld (to_json e) k)"
  unfolding to_json_def by (subst norm_fld) (simp_all add: entry_fields_def entry_values_def)

lemma valid_scalars:
  assumes "validate_entry incident e"
  shows "json_norm (rv_record_id e) = rv_record_id e" "json_norm (rv_incident_id e) = rv_incident_id e"
    "json_norm (rv_record_kind e) = rv_record_kind e" "json_norm (rv_created_at e) = rv_created_at e"
    "json_norm (rv_basis_revision e) = rv_basis_revision e" "json_norm (rv_summary e) = rv_summary e"
  using assms by (auto simp: validate_entry_def record_kinds_def bounded_id_def is_text_def split: json.splits)

lemma from_json_norm:
  assumes "validate_entry incident e"
  shows "from_json (json_norm (to_json e)) = norm_entry e"
  unfolding from_json_def to_json_norm_fld
  using valid_scalars [OF assms]
  by (simp add: to_json_def entry_fields_def entry_values_def norm_entry_def)

lemma norm_valid [simp]: "validate_entry incident (norm_entry e) \<longleftrightarrow> validate_entry incident e"
  by (simp add: validate_entry_def norm_entry_def)

lemma norm_id [simp]: "rv_record_id (norm_entry e) = rv_record_id e"
  by (simp add: norm_entry_def)

lemma read_line_of:
  assumes "entry_wf e" "validate_entry incident e"
  shows "read_line incident (line_of e) = Some (norm_entry e)"
proof -
  have "json_loads hook_unique (line_of e) = Some (json_norm (to_json e))" unfolding line_of_def
    using assms(1) by (intro json_text_roundtrip) (auto simp: to_json_wf hook_unique_def is_ws_def)
  moreover obtain kvs where k: "json_norm (to_json e) = JObj kvs" "set (map fst kvs) = set entry_fields"
    by (simp add: to_json_def sort_key_map_prod) (simp add: entry_fields_def entry_values_def)
  moreover have "line_of e \<noteq> [] \<and> last (line_of e) = lf" by (simp add: line_of_def)
  ultimately show ?thesis using from_json_norm [OF assms(2)] assms(2)
    by (simp add: read_line_def Let_def)
qed

lemma read_lines_of:
  "list_all (\<lambda>e. entry_wf e \<and> validate_entry incident e) es \<Longrightarrow>
    distinct (map rv_record_id es) \<Longrightarrow> set (map rv_record_id es) \<inter> set seen = {} \<Longrightarrow>
    read_lines incident seen (map line_of es @ ls) =
      map_option (append (map norm_entry es)) (read_lines incident (rev (map rv_record_id es) @ seen) ls)"
proof (induction es arbitrary: seen)
  case (Cons e es)
  have "read_lines incident (rv_record_id e # seen) (map line_of es @ ls) =
      map_option (append (map norm_entry es)) (read_lines incident (rev (map rv_record_id es) @ rv_record_id e # seen) ls)"
    using Cons by (intro Cons.IH) auto
  then show ?case using Cons.prems by (simp add: read_line_of option.map_comp comp_def)
qed (simp add: option.map_id0 [unfolded id_def] append_Nil [abs_def])

lemma read_file:
  assumes "list_all (\<lambda>e. entry_wf e \<and> validate_entry incident e) es" "distinct (map rv_record_id es)" "list_all printable tail"
  shows "read_records incident (utf8_encode (concat (map line_of es) @ tail)) =
    (if tail = [] then Inr (map norm_entry es) else Inl RecoveryValueError)"
proof -
  let ?s = "concat (map line_of es) @ tail"
  have "list_all plain ?s" using assms(3) plain_line by (auto simp: list_all_iff plain_def)
  then have "file_lines (universal ?s) = map line_of es @ (if tail = [] then [] else [tail])"
    using file_lines_entries [OF assms(3), of es] by (simp add: plain_universal)
  moreover have "read_line incident tail = None" if "tail \<noteq> []"
  proof -
    have "printable (last tail)" using assms(3) that by (simp add: list_all_iff)
    then have "last tail \<noteq> lf" by (auto simp: printable_def)
    then show ?thesis by (simp add: read_line_def)
  qed
  ultimately show ?thesis using read_lines_of [OF assms(1,2), of "[]"] by (simp add: read_records_def)
qed

lemma line_of_norm:
  assumes "validate_entry incident e"
  shows "line_of (norm_entry e) = line_of e"
proof -
  have "json_norm (to_json (norm_entry e)) = json_norm (to_json e)"
    using valid_scalars [OF assms] unfolding to_json_def
    by (intro obj_norm_eq) (simp_all add: entry_fields_def entry_values_def norm_entry_def)
  then show ?thesis unfolding line_of_def by (metis json_text_norm)
qed

lemma line_of_eq:
  assumes "entry_wf e" "validate_entry incident e" "entry_wf f" "validate_entry incident f"
  shows "line_of e = line_of f \<longleftrightarrow> norm_entry e = norm_entry f"
proof
  assume "line_of e = line_of f"
  then show "norm_entry e = norm_entry f" using read_line_of [OF assms(1,2)] read_line_of [OF assms(3,4)] by simp
next
  assume "norm_entry e = norm_entry f"
  then show "line_of e = line_of f" using line_of_norm assms(2,4) by metis
qed

subsection \<open>The file implements the list\<close>

definition represents :: "string \<Rightarrow> bytes option \<Rightarrow> log_spec \<Rightarrow> bool" where
  "represents incident store spec \<longleftrightarrow>
     (case (store, spec) of
        (None, None) \<Rightarrow> True
      | (Some raw, Some (ps, torn)) \<Rightarrow> (\<exists>es tail. raw = utf8_encode (concat (map line_of es) @ tail) \<and>
          list_all (\<lambda>e. entry_wf e \<and> validate_entry incident e) es \<and> distinct (map rv_record_id es) \<and>
          list_all printable tail \<and> (torn \<longleftrightarrow> tail \<noteq> []) \<and> ps = map norm_entry es)
      | _ \<Rightarrow> False)"

lemma representsE:
  assumes "represents incident (Some raw) (Some (ps, torn))"
  obtains es tail where "raw = utf8_encode (concat (map line_of es) @ tail)"
    "list_all (\<lambda>e. entry_wf e \<and> validate_entry incident e) es" "distinct (map rv_record_id es)"
    "list_all printable tail" "torn \<longleftrightarrow> tail \<noteq> []" "ps = map norm_entry es"
  using assms by (auto simp: represents_def)

lemma representsI:
  assumes "list_all (\<lambda>e. entry_wf e \<and> validate_entry incident e) es" "distinct (map rv_record_id es)" "list_all printable tail"
  shows "represents incident (Some (utf8_encode (concat (map line_of es) @ tail))) (Some (map norm_entry es, tail \<noteq> []))"
  using assms unfolding represents_def by (auto intro!: exI [of _ es] exI [of _ tail])

lemma author_ok:
  assumes "author incident a uuid = Some e" "op_wf (Append a uuid fate)"
  shows "entry_wf e \<and> validate_entry incident e"
proof -
  have v: "validate_entry incident e" using assms(1) by (auto simp: author_def Let_def split: if_splits)
  have "entry_wf e" using assms by (auto simp: author_def Let_def entry_wf_def entry_values_def split: if_splits)
  then show ?thesis using v by simp
qed

lemma find_norm:
  "find (\<lambda>p. rv_record_id p = i) (map norm_entry es) = map_option norm_entry (find (\<lambda>p. rv_record_id p = i) es)"
  by (induction es) auto

lemma torn_line:
  assumes "0 < n" "n < length (line_of e)"
  shows "list_all printable (take n (line_of e)) \<and> take n (line_of e) \<noteq> []"
proof -
  obtain body where b: "line_of e = body @ [lf]" "list_all printable body" "body \<noteq> []" by (rule line_shape)
  then have "take n (line_of e) = take n body" using assms(2) by simp
  then show ?thesis using b assms(1) by (auto simp: list_all_iff dest: in_set_takeD)
qed

text \<open>Writing the line of a new entry, as far as it gets.\<close>

lemma write_simulates:
  assumes ok: "list_all (\<lambda>e. entry_wf e \<and> validate_entry incident e) (es @ [e])" "distinct (map rv_record_id (es @ [e]))"
    and raw: "raw = utf8_encode (concat (map line_of es))"
  shows "represents incident (Some (raw @ utf8_encode (line_of e))) (Some (map norm_entry (es @ [e]), False))"
    "represents incident (Some (raw @ take n (utf8_encode (line_of e))))
       (Some (if n = 0 then (map norm_entry es, False) else if n < length (line_of e) then (map norm_entry es, True)
              else (map norm_entry (es @ [e]), False)))"
proof -
  have es: "list_all (\<lambda>e. entry_wf e \<and> validate_entry incident e) es" "distinct (map rv_record_id es)" using ok by simp_all
  have enc: "utf8_encode (x @ y) = utf8_encode x @ utf8_encode y" for x y by (simp add: utf8_encode_def)
  show whole: "represents incident (Some (raw @ utf8_encode (line_of e))) (Some (map norm_entry (es @ [e]), False))"
    using representsI [OF ok, of "[]"] by (simp add: raw enc)
  have part: "raw @ take n (utf8_encode (line_of e)) = utf8_encode (concat (map line_of es) @ take n (line_of e))"
    using take_utf8 [OF plain_line] by (simp add: raw enc)
  show "represents incident (Some (raw @ take n (utf8_encode (line_of e))))
       (Some (if n = 0 then (map norm_entry es, False) else if n < length (line_of e) then (map norm_entry es, True)
              else (map norm_entry (es @ [e]), False)))"
  proof (cases "n < length (line_of e)")
    case True
    then show ?thesis unfolding part using representsI [OF es, of "take n (line_of e)"] torn_line [of n e] by auto
  next
    case False
    then show ?thesis using whole plain_utf8 [OF plain_line, of e] by (simp add: line_of_def)
  qed
qed

lemma append_simulates:
  assumes "represents incident (Some raw) (Some t)" "op_wf (Append a uuid fate)"
  shows "fst (append_record incident a uuid fate raw) = fst (spec_append incident a uuid fate t) \<and>
    represents incident (Some (snd (append_record incident a uuid fate raw))) (Some (snd (spec_append incident a uuid fate t)))"
proof (cases "author incident a uuid")
  case None
  then show ?thesis using assms(1) by (simp add: append_record_def spec_append_def)
next
  case author: (Some e)
  note e = author_ok [OF author assms(2)]
  obtain ps torn where t: "t = (ps, torn)" by fastforce
  from representsE [OF assms(1) [unfolded t]] obtain es tail where r: "raw = utf8_encode (concat (map line_of es) @ tail)"
    "list_all (\<lambda>e. entry_wf e \<and> validate_entry incident e) es" "distinct (map rv_record_id es)"
    "list_all printable tail" "torn \<longleftrightarrow> tail \<noteq> []" "ps = map norm_entry es" .
  have rd: "read_records incident raw = (if torn then Inl RecoveryValueError else Inr ps)" using read_file [OF r(2-4)] r by simp
  consider (damaged) "torn" | (known) p where "\<not> torn" "find (\<lambda>p. rv_record_id p = rv_record_id e) es = Some p"
    | (new) "\<not> torn" "find (\<lambda>p. rv_record_id p = rv_record_id e) es = None" by (metis option.exhaust)
  then show ?thesis
  proof cases
    case damaged
    then show ?thesis using author assms(1) rd t by (simp add: append_record_def spec_append_def)
  next
    case known
    then have "entry_wf p \<and> validate_entry incident p" using r(2) by (auto simp: list_all_iff find_Some_iff)
    then have "line_of (norm_entry p) = line_of e \<longleftrightarrow> norm_entry p = norm_entry e"
      using line_of_eq [of p incident e] line_of_norm [of incident p] e by simp
    then show ?thesis using author known rd t assms(1) r(6)
      by (simp add: append_record_def spec_append_def find_norm)
  next
    case new
    have "list_all (\<lambda>e. entry_wf e \<and> validate_entry incident e) (es @ [e])" "distinct (map rv_record_id (es @ [e]))"
      using e r(2,3) new(2) by (auto simp: find_None_iff)
    moreover have "raw = utf8_encode (concat (map line_of es))" using r(1,5) new(1) by simp
    ultimately have grown: "represents incident (Some (raw @ utf8_encode (line_of e))) (Some (map norm_entry (es @ [e]), False))"
      "represents incident (Some (raw @ take n (utf8_encode (line_of e))))
         (Some (if n = 0 then (map norm_entry es, False) else if n < length (line_of e) then (map norm_entry es, True)
                else (map norm_entry (es @ [e]), False)))" for n
      by (rule write_simulates)+
    have rd: "read_records incident raw = Inr (map norm_entry es)" using rd new(1) r(6) by simp
    show ?thesis
    proof (cases fate)
      case Synced
      then show ?thesis using author new rd t r(6) grown(1) by (simp add: append_record_def spec_append_def find_norm)
    next
      case (Broken n)
      then show ?thesis using author new rd t r(6) grown(2) [of n]
        by (cases "n = 0") (simp_all add: append_record_def spec_append_def find_norm split: if_splits)
    qed
  qed
qed

lemma exec_simulates:
  assumes "represents incident s t" "op_wf op"
  shows "fst (recovery_exec incident op s) = fst (spec_exec incident op t) \<and>
    represents incident (snd (recovery_exec incident op s)) (snd (spec_exec incident op t))"
proof (cases op)
  case Begin
  show ?thesis using assms(1) representsI [of incident "[]" "[]"]
    utf8_encode_def [of "[]"]
    by (cases s; cases t) (auto simp: Begin recovery_exec_def spec_exec_def represents_def)
next
  case (Append a uuid fate)
  show ?thesis
  proof (cases "(s, t)" rule: prod.exhaust)
    case (Pair x y)
    then show ?thesis using assms append_simulates [of incident _ _ a uuid fate]
      by (cases s; cases t) (auto simp: Append recovery_exec_def spec_exec_def represents_def [of _ None] represents_def [of _ "Some _" None])
  qed
next
  case Records
  have "read_records incident raw = (if torn then Inl RecoveryValueError else Inr ps)"
    if "represents incident (Some raw) (Some (ps, torn))" for raw ps torn
    using that
  proof (rule representsE)
    fix es tail
    assume r: "raw = utf8_encode (concat (map line_of es) @ tail)" "list_all (\<lambda>e. entry_wf e \<and> validate_entry incident e) es"
      "distinct (map rv_record_id es)" "list_all printable tail" "torn = (tail \<noteq> [])" "ps = map norm_entry es"
    show ?thesis using read_file [OF r(2-4)] r(1,5,6) by simp
  qed
  then show ?thesis using assms(1)
    by (cases s; cases t) (auto simp: Records recovery_exec_def spec_exec_def represents_def [of _ None] represents_def [of _ "Some _" None])
qed

lemma step_simulates:
  assumes "recovery_step incident s l s'" "represents incident s t"
  shows "\<exists>t'. spec_step incident t l t' \<and> represents incident s' t'"
  using exec_simulates [OF assms(2), of "fst l"] assms(1)
  by (intro exI [of _ "snd (spec_exec incident (fst l) t)"]) (auto simp: recovery_step_def spec_step_def prod_eq_iff)

lemma run_simulates:
  "run (recovery_step incident) s ls s' \<Longrightarrow> represents incident s t \<Longrightarrow>
    \<exists>t'. run (spec_step incident) t ls t' \<and> represents incident s' t'"
proof (induction arbitrary: t rule: run.induct)
  case (run_nil s)
  then show ?case by (intro exI [of _ t]) (simp add: run.run_nil)
next
  case (run_cons s l s' ls s'')
  obtain t' where t': "spec_step incident t l t'" "represents incident s' t'"
    using step_simulates [OF run_cons.hyps(1) run_cons.prems] by blast
  obtain t'' where "run (spec_step incident) t' ls t''" "represents incident s'' t''"
    using run_cons.IH [OF t'(2)] by blast
  then show ?case using t'(1) by (intro exI [of _ t'']) (simp add: run_cons_iff, blast)
qed

subsection \<open>The specification keeps what it has\<close>

definition listed :: "log_spec \<Rightarrow> recovery_entry list" where
  "listed t = (case t of None \<Rightarrow> [] | Some (ps, _) \<Rightarrow> ps)"

definition distinct_ids :: "log_spec \<Rightarrow> bool" where
  "distinct_ids t \<longleftrightarrow> distinct (map rv_record_id (listed t))"

lemma spec_step_cases:
  assumes "spec_step incident t l t'"
  shows "listed t' = listed t \<or>
    (\<exists>e. rv_record_id e \<notin> set (map rv_record_id (listed t)) \<and> listed t' = listed t @ [norm_entry e])"
  using assms
  by (cases "fst l"; cases t)
    (auto simp: spec_step_def spec_exec_def spec_append_def listed_def find_None_iff image_iff
      split: option.splits write_fate.splits if_splits prod.splits, metis+)

interpretation spec_rows: append_only "spec_step incident" distinct_ids listed
proof unfold_locales
  fix t l t'
  assume "distinct_ids t" "spec_step incident t l t'"
  then show "distinct_ids t'" using spec_step_cases by (fastforce simp: distinct_ids_def)
  show "prefix (listed t) (listed t')" using spec_step_cases [OF \<open>spec_step incident t l t'\<close>] by auto
qed

lemma spec_records: "spec_step incident t (Records, Inr ps) t' \<Longrightarrow> ps = listed t"
  by (auto simp: spec_step_def spec_exec_def listed_def split: option.splits if_splits)

lemma norm_norm [simp]: "norm_entry (norm_entry e) = norm_entry e"
  by (simp add: norm_entry_def json_norm_idem)

lemma find_mem: "find P xs = Some x \<Longrightarrow> x \<in> set xs"
  by (auto simp: find_Some_iff)

lemma spec_acknowledged:
  "spec_step incident t (Append a uuid fate, Inr [e]) t' \<Longrightarrow> norm_entry e \<in> set (listed t')"
  by (auto simp: spec_step_def spec_exec_def spec_append_def listed_def dest!: find_mem
      split: option.splits write_fate.splits if_splits)

subsection \<open>Properties\<close>

definition demo_authored :: authored where
  "demo_authored = \<lparr>au_record_kind = JStr ''observation'', au_summary = JStr ''power is out'', au_created_at = JStr ''noon'',
     au_basis_revision = JNull, au_detail = JNull, au_requested_command = JNull, au_record_id = JStr ''r1''\<rparr>"

definition demo_entry :: recovery_entry where
  "demo_entry = \<lparr>rv_record_id = JStr ''r1'', rv_incident_id = JStr ''outage'', rv_record_kind = JStr ''observation'',
     rv_created_at = JStr ''noon'', rv_basis_revision = JNull, rv_summary = JStr ''power is out'', rv_detail = JObj [],
     rv_requested_command = JNull\<rparr>"

abbreviation demo_store :: "bytes option" where
  "demo_store \<equiv> Some (utf8_encode (line_of demo_entry))"

lemma demo_author: "author ''outage'' demo_authored uuid = Some demo_entry"
  by (simp add: author_def demo_authored_def demo_entry_def record_kinds_def bounded_id_def is_text_def validate_entry_def)

lemma demo_begin: "run (recovery_step ''outage'') None [(Begin, Inr [])] (Some [])"
  by (simp add: run_cons_iff recovery_step_def recovery_exec_def)

lemma demo_append: "recovery_step ''outage'' (Some []) (Append demo_authored [] Synced, Inr [demo_entry]) demo_store"
  by (simp add: recovery_step_def recovery_exec_def append_record_def demo_author read_records_def)
    (simp add: demo_authored_def)

lemma demo_read: "run (recovery_step ''outage'') demo_store [(Records, Inr [demo_entry])] demo_store"
proof -
  have "entry_wf demo_entry \<and> validate_entry ''outage'' demo_entry" "norm_entry demo_entry = demo_entry"
    using author_ok [OF demo_author, of _ Synced] by (simp_all add: demo_authored_def norm_entry_def demo_entry_def)
  then have "read_records ''outage'' (utf8_encode (line_of demo_entry)) = Inr [demo_entry]"
    using read_file [of "''outage''" "[demo_entry]" "[]"] by simp
  then show ?thesis by (simp add: run_cons_iff recovery_step_def recovery_exec_def)
qed

text \<open>C37: The log is a list: every history of begins, appends and reads of the file of an incident, with writes
  that break off after any number of bytes and processes that die in them, answers each call as a plain
  list of records does that is torn for good once a line is cut short, refuses everything while it is
  torn, returns the recorded entry to a retry with the same content and refuses one with another.\<close>

theorem recovery_log_is_a_list:
  assumes "run (recovery_step incident) None ls store"
  shows "\<exists>spec. run (spec_step incident) None ls spec \<and> represents incident store spec"
  by (rule run_simulates [OF assms]) (simp add: represents_def)

theorem recovery_log_is_a_list_witness:
  "\<exists>spec. run (spec_step ''outage'') None [(Begin, Inr [])] spec \<and> represents ''outage'' (Some []) spec"
  by (rule recovery_log_is_a_list [OF demo_begin])

lemma acknowledged_listed:
  assumes "run (spec_step incident) t ls t'" "distinct_ids t" "norm_entry e \<in> set (listed t)" "(Records, Inr ps) \<in> set ls"
  shows "filter (\<lambda>p. rv_record_id p = rv_record_id e) ps = [norm_entry e]"
  using assms
proof (induction rule: run.induct)
  case (run_cons t l t1 ls t2)
  have inv: "distinct_ids t1" "norm_entry e \<in> set (listed t1)"
    using spec_rows.inv_step [OF run_cons.prems(1) run_cons.hyps(1)]
      spec_rows.hist_step [OF run_cons.prems(1) run_cons.hyps(1)] run_cons.prems(2) set_mono_prefix by blast+
  show ?case
  proof (cases "l = (Records, Inr ps)")
    case True
    then have ps: "ps = listed t" using spec_records run_cons.hyps(1) by blast
    obtain xs ys where split: "ps = xs @ norm_entry e # ys" using run_cons.prems(2) ps split_list by metis
    then have "rv_record_id e \<notin> rv_record_id ` (set xs \<union> set ys)"
      using run_cons.prems(1) ps by (auto simp: distinct_ids_def)
    then have "rv_record_id p \<noteq> rv_record_id e" if "p \<in> set xs \<union> set ys" for p
      using that by (metis image_eqI)
    then have "filter (\<lambda>p. rv_record_id p = rv_record_id e) xs = []" "filter (\<lambda>p. rv_record_id p = rv_record_id e) ys = []"
      by (auto simp: filter_empty_conv)
    then show ?thesis using split by simp
  next
    case False
    then show ?thesis using run_cons.IH inv run_cons.prems(3) by auto
  qed
qed simp



end
