(* ===== verification/Run_Manifest.thy ===== *)
theory Run_Manifest
  imports Evidence_Chain Py_Data Canonical_Form
begin

text \<open>
  The composition record of a run, \<open>vuoro_evidence/run.py\<close>, with the references of
  \<open>workflow.py\<close> it may carry. Values have the types their dataclasses declare, so the checks on types
  are part of the model's types; the checks on content are the \<open>new_...\<close> functions.
\<close>

subsection \<open>References of a workflow\<close>

record revision_ref =
  rf_owner :: string
  rf_resource_id :: string
  rf_revision :: string
  rf_content_digest :: string

datatype manifest_error = RunManifestError | UnknownRunError | WorkflowBindingError

text \<open>Nonempty text without surrounding whitespace or control characters.\<close>

definition workflow_text :: "string \<Rightarrow> bool" where
  "workflow_text s \<longleftrightarrow> s \<noteq> [] \<and> \<not> py_space (hd s) \<and> \<not> py_space (last s) \<and>
     list_all (\<lambda>c. 32 \<le> ord_of c \<and> ord_of c \<noteq> 127) s"

definition sha256_ref :: "string \<Rightarrow> bool" where
  "sha256_ref s \<longleftrightarrow> take 7 s = ''sha256:'' \<and> hex_string 64 (drop 7 s)"

definition new_revision_ref :: "revision_ref \<Rightarrow> (manifest_error, revision_ref) result" where
  "new_revision_ref r =
    (if list_all workflow_text [rf_owner r, rf_resource_id r, rf_revision r] \<and> sha256_ref (rf_content_digest r)
     then Inr r else Inl WorkflowBindingError)"

definition revision_ref_json :: "revision_ref \<Rightarrow> json" where
  "revision_ref_json r = JObj [(''owner'', JStr (rf_owner r)), (''resource_id'', JStr (rf_resource_id r)),
     (''revision'', JStr (rf_revision r)), (''content_digest'', JStr (rf_content_digest r))]"

record workflow_observation =
  wo_binding_ref :: revision_ref
  wo_provider_receipt_ref :: revision_ref

definition workflow_observation_json :: "workflow_observation \<Rightarrow> json" where
  "workflow_observation_json w = JObj [(''binding_ref'', revision_ref_json (wo_binding_ref w)),
     (''provider_receipt_ref'', revision_ref_json (wo_provider_receipt_ref w))]"

subsection \<open>Manifests\<close>

record observed_profile =
  op_instruction_digest :: string
  op_skill_digests :: "(string \<times> string) list"

definition observed_profile_ok :: "observed_profile \<Rightarrow> bool" where
  "observed_profile_ok p \<longleftrightarrow> not_blank (op_instruction_digest p) \<and>
     list_all (\<lambda>(k, d). not_blank k \<and> not_blank d) (op_skill_digests p)"

definition observed_profile_json :: "observed_profile \<Rightarrow> json" where
  "observed_profile_json p = JObj [(''instruction_digest'', JStr (op_instruction_digest p)),
     (''skill_digests'', JList (map (\<lambda>(k, d). JList [JStr k, JStr d]) (op_skill_digests p)))]"

record run_manifest =
  rm_run_id :: string
  rm_harness_id :: string
  rm_harness_build :: string
  rm_model_id :: string
  rm_recipe_id :: string
  rm_observed_profile :: observed_profile
  rm_grant_ids :: "string list"
  rm_claim_ids :: "string list"
  rm_workflow_observation :: "workflow_observation option"

definition new_manifest :: "run_manifest \<Rightarrow> (manifest_error, run_manifest) result" where
  "new_manifest m =
    (if list_all not_blank [rm_run_id m, rm_harness_id m, rm_harness_build m, rm_model_id m, rm_recipe_id m] \<and>
        list_all not_blank (rm_grant_ids m) \<and> list_all not_blank (rm_claim_ids m)
     then Inr m else Inl RunManifestError)"

definition composed :: "run_manifest \<Rightarrow> (string \<times> json) list" where
  "composed m =
    [(''harness_id'', JStr (rm_harness_id m)), (''harness_build'', JStr (rm_harness_build m)),
     (''model_id'', JStr (rm_model_id m)), (''recipe_id'', JStr (rm_recipe_id m)),
     (''observed_profile'', observed_profile_json (rm_observed_profile m)),
     (''grant_ids'', JList (map JStr (rm_grant_ids m))), (''claim_ids'', JList (map JStr (rm_claim_ids m)))] @
    (case rm_workflow_observation m of None \<Rightarrow> [] | Some w \<Rightarrow> [(''workflow_observation'', workflow_observation_json w)])"

definition composition :: "run_manifest \<Rightarrow> json" where
  "composition m = JObj ((''run_id'', JStr (rm_run_id m)) # composed m)"

definition composition_text :: "run_manifest \<Rightarrow> string" where
  "composition_text m = json_dumps True (JObj (composed m))"

definition composition_digest :: "run_manifest \<Rightarrow> string" where
  "composition_digest m = ''sha256:'' @ hexdigest (utf8_encode (composition_text m))"

fun index_from :: "(string, run_manifest) dict \<Rightarrow> run_manifest list \<Rightarrow> (manifest_error, (string, run_manifest) dict) result" where
  "index_from index [] = Inr index"
| "index_from index (m # ms) =
    (case dict_get index (rm_run_id m) of
       None \<Rightarrow> index_from (dict_set (rm_run_id m) m index) ms
     | Some old \<Rightarrow> if old \<noteq> m then Inl RunManifestError else index_from (dict_set (rm_run_id m) m index) ms)"

definition index_runs :: "run_manifest list \<Rightarrow> (manifest_error, (string, run_manifest) dict) result" where
  "index_runs ms = index_from [] ms"

text \<open>The run that evidence refers to; an item and a set carry their run the same way.\<close>

definition resolve_manifest :: "string option \<Rightarrow> (string, run_manifest) dict \<Rightarrow> (manifest_error, run_manifest) result" where
  "resolve_manifest run_id manifests =
    (case run_id of
       None \<Rightarrow> Inl UnknownRunError
     | Some r \<Rightarrow> (case dict_get manifests r of None \<Rightarrow> Inl UnknownRunError | Some m \<Rightarrow> Inr m))"

subsection \<open>Facts\<close>

lemma json_list_eq: "map JStr xs = map JStr ys \<longleftrightarrow> xs = ys"
  by (intro inj_map_eq_map injI) simp

lemma profile_json_eq [simp]: "observed_profile_json p = observed_profile_json q \<longleftrightarrow> p = q"
proof -
  have "inj (\<lambda>(k :: string, d). JList [JStr k, JStr d])" by (auto simp: inj_def)
  then show ?thesis by (cases p; cases q) (auto simp: observed_profile_json_def inj_map_eq_map)
qed

lemma ref_json_eq [simp]: "revision_ref_json r = revision_ref_json s \<longleftrightarrow> r = s"
  by (cases r; cases s) (simp add: revision_ref_json_def)

lemma observation_json_eq [simp]: "workflow_observation_json v = workflow_observation_json w \<longleftrightarrow> v = w"
  by (cases v; cases w) (simp add: workflow_observation_json_def)

text \<open>Sorting the keys of these records loses nothing, so their canonical texts determine them.\<close>

lemma norm_ref_eq [simp]: "json_norm (revision_ref_json r) = json_norm (revision_ref_json s) \<longleftrightarrow> r = s"
proof
  assume eq: "json_norm (revision_ref_json r) = json_norm (revision_ref_json s)"
  have f: "fld (json_norm (revision_ref_json q)) ''owner'' = Some (JStr (rf_owner q))"
    "fld (json_norm (revision_ref_json q)) ''resource_id'' = Some (JStr (rf_resource_id q))"
    "fld (json_norm (revision_ref_json q)) ''revision'' = Some (JStr (rf_revision q))"
    "fld (json_norm (revision_ref_json q)) ''content_digest'' = Some (JStr (rf_content_digest q))" for q
    unfolding revision_ref_json_def by (subst norm_fld; simp)+
  show "r = s" using f [of r] f [of s] eq by (cases r; cases s) simp
qed simp

lemma norm_profile_eq [simp]: "json_norm (observed_profile_json p) = json_norm (observed_profile_json q) \<longleftrightarrow> p = q"
proof
  assume eq: "json_norm (observed_profile_json p) = json_norm (observed_profile_json q)"
  have f: "fld (json_norm (observed_profile_json r)) ''instruction_digest'' = Some (JStr (op_instruction_digest r))"
    "fld (json_norm (observed_profile_json r)) ''skill_digests'' = Some (JList (map (\<lambda>(k, d). JList [JStr k, JStr d]) (op_skill_digests r)))" for r
    unfolding observed_profile_json_def by (subst norm_fld; simp add: comp_def case_prod_beta)+
  have "inj (\<lambda>(k :: string, d). JList [JStr k, JStr d])" by (auto simp: inj_def)
  then show "p = q" using f [of p] f [of q] eq by (cases p; cases q) (simp add: inj_map_eq_map)
qed simp

lemma profile_wf [simp]: "json_wf (observed_profile_json p)" "json_wf (revision_ref_json r)"
  by (auto simp: observed_profile_json_def revision_ref_json_def list_all_iff)

lemma index_from_keys:
  "index_from index ms = Inr r \<Longrightarrow> dict_ok index \<Longrightarrow> \<forall>(k, m) \<in> set index. k = rm_run_id m \<Longrightarrow>
    dict_ok r \<and> (\<forall>(k, m) \<in> set r. k = rm_run_id m) \<and> set (map snd r) = set (map snd index) \<union> set ms"
proof (induction ms arbitrary: index)
  case (Cons m ms)
  show ?case
  proof (cases "dict_get index (rm_run_id m)")
    case None
    have new: "dict_set (rm_run_id m) m index = index @ [(rm_run_id m, m)]"
      using None by (induction index) (auto split: if_splits)
    have "index_from (index @ [(rm_run_id m, m)]) ms = Inr r" using Cons.prems(1) None new by simp
    then have "dict_ok r \<and> (\<forall>(k, m) \<in> set r. k = rm_run_id m) \<and>
        set (map snd r) = set (map snd (index @ [(rm_run_id m, m)])) \<union> set ms"
      by (rule Cons.IH) (use Cons.prems(2,3) None in \<open>auto simp: map_of_eq_None_iff\<close>)
    then show ?thesis by simp
  next
    case (Some old)
    then have "old = m" using Cons.prems(1) by (simp split: if_splits)
    then have m: "dict_get index (rm_run_id m) = Some m" using Some by simp
    have "dict_set (rm_run_id m) m index = index"
      using m by (induction index) (auto split: if_splits)
    then have "index_from index ms = Inr r" using Cons.prems(1) m by simp
    then have "dict_ok r \<and> (\<forall>(k, m) \<in> set r. k = rm_run_id m) \<and> set (map snd r) = set (map snd index) \<union> set ms"
      by (rule Cons.IH) (use Cons.prems(2,3) in simp_all)
    moreover have "m \<in> set (map snd index)" using map_of_SomeD [OF m] by force
    ultimately show ?thesis by auto
  qed
qed simp

lemma index_runs_keys:
  assumes "index_runs ms = Inr r"
  shows "dict_ok r" "set (map snd r) = set ms" "fst ` set r = rm_run_id ` set ms" "inj_on rm_run_id (set ms)"
proof -
  have k: "dict_ok r \<and> (\<forall>(k, m) \<in> set r. k = rm_run_id m) \<and> set (map snd r) = set ms"
    using index_from_keys [of "[]" ms r] assms by (simp add: index_runs_def)
  then show "dict_ok r" "set (map snd r) = set ms" by auto
  have "map fst r = map (rm_run_id \<circ> snd) r" using k by (intro map_cong) auto
  then show "fst ` set r = rm_run_id ` set ms" using k by (metis image_comp set_map)
  have "distinct (map (rm_run_id \<circ> snd) r)" using k \<open>map fst r = map (rm_run_id \<circ> snd) r\<close> by metis
  then show "inj_on rm_run_id (set ms)" using k
    by (metis distinct_map list.map_comp set_map)
qed

end
