(* ===== verification/Outcome_Record.thy ===== *)
theory Outcome_Record
  imports Run_Manifest
begin

text \<open>
  Learning records over outcomes an owner accepted, \<open>vuoro_evidence/experiment.py\<close>: the qualification of
  one outcome, the observation of one case, the record of one revision over a declared population, and
  its summary. Costs are exact rationals; \<open>Decimal\<close> sums agree with them up to 28 digits.
\<close>

subsection \<open>Outcomes\<close>

datatype experiment_error = ExperimentError | ManifestError manifest_error

datatype disposition = OutAccepted | OutRejected | OutPending | OutUnknown

datatype source_status = SrcQualified | SrcUnverified | SrcUnavailable | SrcStale | SrcConflicting

fun disposition_name :: "disposition \<Rightarrow> string" where
  "disposition_name OutAccepted = ''accepted''"
| "disposition_name OutRejected = ''rejected''"
| "disposition_name OutPending = ''pending''"
| "disposition_name OutUnknown = ''unknown''"

fun status_text :: "source_status \<Rightarrow> string" where
  "status_text SrcQualified = ''qualified''"
| "status_text SrcUnverified = ''unverified''"
| "status_text SrcUnavailable = ''unavailable''"
| "status_text SrcStale = ''stale''"
| "status_text SrcConflicting = ''conflicting''"

record qualification =
  ql_case_id :: string
  ql_owner_record_ref :: string
  ql_status :: source_status
  ql_qualification_ref :: "string option"
  ql_source_snapshot_ref :: "string option"
  ql_source_snapshot_sha256 :: "string option"
  ql_owner_revision_ref :: "string option"
  ql_release_digest :: "string option"
  ql_independent_verification_ref :: "string option"
  ql_actual_use_ref :: "string option"
  ql_reason :: "string option"

definition opt_all :: "('a \<Rightarrow> bool) \<Rightarrow> 'a option \<Rightarrow> bool" where
  "opt_all P x = (case x of None \<Rightarrow> True | Some a \<Rightarrow> P a)"

definition new_qualification :: "qualification \<Rightarrow> (experiment_error, qualification) result" where
  "new_qualification q =
    (if not_blank (ql_case_id q) \<and> not_blank (ql_owner_record_ref q) \<and>
        list_all (opt_all not_blank) [ql_qualification_ref q, ql_source_snapshot_ref q, ql_owner_revision_ref q,
          ql_independent_verification_ref q, ql_actual_use_ref q, ql_reason q] \<and>
        opt_all sha256_ref (ql_source_snapshot_sha256 q) \<and> opt_all (hex_string 64) (ql_release_digest q) \<and>
        (if ql_status q = SrcQualified
         then None \<notin> set [ql_qualification_ref q, ql_source_snapshot_ref q, ql_source_snapshot_sha256 q, ql_owner_revision_ref q]
         else ql_reason q \<noteq> None)
     then Inr q else Inl ExperimentError)"

datatype measure = AcceptanceSeconds | ReviewSeconds | ReworkSeconds | RecoverySeconds

record owner_outcome =
  oo_case_id :: string
  oo_run_ids :: "string list"
  oo_disposition :: disposition
  oo_owner_record_ref :: string
  oo_evidence_refs :: "string list"
  oo_evidence_class :: string
  oo_captured :: "bool option"
  oo_seconds :: "measure \<Rightarrow> int option"
  oo_known_cost :: "rat option"
  oo_currency :: "string option"
  oo_owner_release_digest :: "string option"
  oo_source_qualification :: "qualification option"

definition currency_code :: "string \<Rightarrow> bool" where
  "currency_code s \<longleftrightarrow> length s = 3 \<and> list_all (\<lambda>c. 65 \<le> ord_of c \<and> ord_of c \<le> 90) s"

definition all_measures :: "measure list" where
  "all_measures = [AcceptanceSeconds, ReviewSeconds, ReworkSeconds, RecoverySeconds]"

definition new_observation :: "owner_outcome \<Rightarrow> (experiment_error, owner_outcome) result" where
  "new_observation x =
    (if list_all not_blank [oo_case_id x, oo_owner_record_ref x, oo_evidence_class x] \<and>
        list_all (\<lambda>vs. vs \<noteq> [] \<and> distinct vs \<and> list_all not_blank vs) [oo_run_ids x, oo_evidence_refs x] \<and>
        list_all (\<lambda>m. opt_all (\<lambda>n. 0 \<le> n) (oo_seconds x m)) all_measures \<and>
        \<not> (oo_disposition x \<noteq> OutAccepted \<and> oo_seconds x AcceptanceSeconds \<noteq> None) \<and>
        (case oo_known_cost x of
           None \<Rightarrow> oo_currency x = None
         | Some c \<Rightarrow> 0 \<le> c \<and> (case oo_currency x of None \<Rightarrow> False | Some u \<Rightarrow> currency_code u)) \<and>
        opt_all (hex_string 64) (oo_owner_release_digest x)
     then Inr x else Inl ExperimentError)"

text \<open>Why an outcome cannot enter a qualified comparison.\<close>

definition source_qualification_reasons :: "owner_outcome \<Rightarrow> string list" where
  "source_qualification_reasons x =
    (case oo_source_qualification x of
       None \<Rightarrow> [''source-qualification-missing'']
     | Some q \<Rightarrow>
         (if ql_case_id q \<noteq> oo_case_id x then [''qualification-case-mismatch''] else []) @
         (if ql_owner_record_ref q \<noteq> oo_owner_record_ref x then [''qualification-owner-record-mismatch''] else []) @
         (if ql_status q \<noteq> SrcQualified then [''source-'' @ status_text (ql_status q)]
          else
            (if oo_disposition x = OutAccepted \<and> (oo_owner_release_digest x = None \<or> ql_release_digest q = None)
             then [''release-digest-missing'']
             else if ql_release_digest q \<noteq> oo_owner_release_digest x
             then [if oo_owner_release_digest x = None then ''release-digest-missing'' else ''release-digest-mismatch'']
             else []) @
            (if oo_disposition x = OutAccepted then
               (if ql_independent_verification_ref q = None then [''independent-verification-missing''] else []) @
               (if ql_actual_use_ref q = None then [''actual-use-missing''] else [])
             else [])))"

definition comparison_qualified :: "owner_outcome \<Rightarrow> bool" where
  "comparison_qualified x \<longleftrightarrow> source_qualification_reasons x = []"

subsection \<open>Experiments\<close>

definition population_digest :: "string \<Rightarrow> string \<Rightarrow> string list \<Rightarrow> string \<Rightarrow> string \<Rightarrow> string" where
  "population_digest population_ref task_group expected kind revision =
    ''sha256:'' @ hexdigest (canonical (JObj [(''population_ref'', JStr population_ref), (''task_group'', JStr task_group),
      (''expected_case_ids'', JList (map JStr (sort expected))), (''revision_kind'', JStr kind),
      (''revision_ref'', JStr revision)]))"

definition run_revision :: "run_manifest \<Rightarrow> string \<Rightarrow> (experiment_error, string) result" where
  "run_revision m kind =
    (if kind = ''recipe_id'' then Inr (rm_recipe_id m)
     else if kind = ''model_id'' then Inr (rm_model_id m)
     else if kind = ''harness_build'' then Inr (rm_harness_build m)
     else if kind = ''observed_profile''
     then Inr (''sha256:'' @ hexdigest (canonical (observed_profile_json (rm_observed_profile m))))
     else Inl ExperimentError)"

record experiment_record =
  ex_experiment_id :: string
  ex_revision_ref :: string
  ex_task_group :: string
  ex_population_ref :: string
  ex_expected_case_ids :: "string list"
  ex_observations :: "owner_outcome list"
  ex_manifests :: "run_manifest list"
  ex_limitations :: "string list"
  ex_revision_kind :: string
  ex_population_sha256 :: string
  ex_registered_aware :: bool
  ex_registration_ref :: string

definition revision_kinds :: "string list" where
  "revision_kinds = [''recipe_id'', ''model_id'', ''harness_build'', ''observed_profile'']"

text \<open>The observations name distinct cases of the population, and no run serves two of them; the runs they use.\<close>

fun check_observations :: "string list \<Rightarrow> string list \<Rightarrow> string list \<Rightarrow> string list \<Rightarrow> owner_outcome list \<Rightarrow>
    (experiment_error, string list) result" where
  "check_observations expected runs seen used [] = Inr used"
| "check_observations expected runs seen used (x # xs) =
    (if oo_case_id x \<notin> set expected \<or> oo_case_id x \<in> set seen then Inl ExperimentError
     else if \<not> set (oo_run_ids x) \<subseteq> set runs then Inl ExperimentError
     else if set used \<inter> set (oo_run_ids x) \<noteq> {} then Inl ExperimentError
     else check_observations expected runs (oo_case_id x # seen) (oo_run_ids x @ used) xs)"

definition new_experiment :: "experiment_record \<Rightarrow> (experiment_error, experiment_record) result" where
  "new_experiment e =
    rbind (need ExperimentError (list_all not_blank [ex_experiment_id e, ex_revision_ref e, ex_task_group e, ex_population_ref e])) (\<lambda>_.
    rbind (need ExperimentError (ex_expected_case_ids e \<noteq> [] \<and> distinct (ex_expected_case_ids e) \<and>
      list_all not_blank (ex_expected_case_ids e))) (\<lambda>_.
    rbind (need ExperimentError (ex_limitations e \<noteq> [] \<and> list_all not_blank (ex_limitations e))) (\<lambda>_.
    rbind (need ExperimentError (not_blank (ex_registration_ref e) \<and> ex_registered_aware e)) (\<lambda>_.
    rbind (need ExperimentError (ex_population_sha256 e = population_digest (ex_population_ref e) (ex_task_group e)
      (ex_expected_case_ids e) (ex_revision_kind e) (ex_revision_ref e))) (\<lambda>_.
    rbind (need ExperimentError (ex_revision_kind e \<in> set revision_kinds)) (\<lambda>_.
    rbind (need ExperimentError (list_all (\<lambda>m. run_revision m (ex_revision_kind e) = Inr (ex_revision_ref e)) (ex_manifests e))) (\<lambda>_.
    rbind (map_sum ManifestError id (index_runs (ex_manifests e))) (\<lambda>runs.
    rbind (check_observations (ex_expected_case_ids e) (map fst runs) [] [] (ex_observations e)) (\<lambda>used.
    rbind (need ExperimentError (set (map fst runs) = set used)) (\<lambda>_.
    Inr e))))))))))"

subsection \<open>The summary\<close>

record effort =
  ef_known_total :: "int option"
  ef_known_cases :: nat
  ef_unknown_cases :: int

definition effort_of :: "owner_outcome list \<Rightarrow> int \<Rightarrow> measure \<Rightarrow> effort" where
  "effort_of rows denominator m =
    (let known = List.map_filter (\<lambda>x. oo_seconds x m) rows
     in \<lparr>ef_known_total = (if known = [] then None else Some (sum_list known)), ef_known_cases = length known,
         ef_unknown_cases = denominator - int (length known)\<rparr>)"

record cost_totals =
  ct_known_totals :: "(string \<times> rat) list"
  ct_known_cases :: nat
  ct_unknown_cases :: int

definition currencies_of :: "owner_outcome list \<Rightarrow> string list" where
  "currencies_of rows = sort (remdups (map (\<lambda>x. case oo_currency x of None \<Rightarrow> [] | Some u \<Rightarrow> u)
     (filter (\<lambda>x. oo_known_cost x \<noteq> None) rows)))"

definition costs_of :: "owner_outcome list \<Rightarrow> int \<Rightarrow> cost_totals" where
  "costs_of rows denominator =
    (let known = List.map_filter oo_known_cost rows
     in \<lparr>ct_known_totals = map (\<lambda>u. (u, sum_list (List.map_filter oo_known_cost (filter (\<lambda>x. oo_currency x = Some u) rows))))
           (currencies_of rows),
         ct_known_cases = length known, ct_unknown_cases = denominator - int (length known)\<rparr>)"

record burden =
  bu_expected_cases :: int
  bu_observed_cases :: nat
  bu_effort :: "(measure \<times> effort) list"
  bu_cost :: cost_totals

definition burden_of :: "owner_outcome list \<Rightarrow> int \<Rightarrow> burden" where
  "burden_of rows denominator = \<lparr>bu_expected_cases = denominator, bu_observed_cases = length rows,
     bu_effort = map (\<lambda>m. (m, effort_of rows denominator m)) [ReviewSeconds, ReworkSeconds, RecoverySeconds],
     bu_cost = costs_of rows denominator\<rparr>"

definition accepted_effort :: "owner_outcome list \<Rightarrow> (measure \<times> effort) list" where
  "accepted_effort rows = map (\<lambda>m. (m, effort_of rows (int (length rows)) m)) all_measures"

record case_report =
  cp_case_id :: string
  cp_status :: string
  cp_qualified :: "bool option"
  cp_reason_codes :: "string list"
  cp_qualification :: "qualification option"
  cp_owner_release_digest :: "string option"

definition case_report_of :: "owner_outcome option \<Rightarrow> string \<Rightarrow> case_report" where
  "case_report_of x case_id =
    (case x of
       None \<Rightarrow> \<lparr>cp_case_id = case_id, cp_status = ''missing_observation'', cp_qualified = None,
         cp_reason_codes = [''observation-missing''], cp_qualification = None, cp_owner_release_digest = None\<rparr>
     | Some y \<Rightarrow> \<lparr>cp_case_id = case_id,
         cp_status = (case oo_source_qualification y of None \<Rightarrow> ''missing'' | Some q \<Rightarrow> status_text (ql_status q)),
         cp_qualified = Some (comparison_qualified y), cp_reason_codes = source_qualification_reasons y,
         cp_qualification = oo_source_qualification y, cp_owner_release_digest = oo_owner_release_digest y\<rparr>)"

definition by_case :: "owner_outcome list \<Rightarrow> (string, owner_outcome) dict" where
  "by_case xs = foldl (\<lambda>d x. dict_set (oo_case_id x) x d) [] xs"

definition all_dispositions :: "disposition list" where
  "all_dispositions = [OutAccepted, OutRejected, OutPending, OutUnknown]"

record experiment_summary =
  su_expected_cases :: nat
  su_observed_cases :: nat
  su_accepted_cases :: nat
  su_owner_reported_accepted_cases :: nat
  su_dispositions :: "(disposition \<times> nat) list"
  su_missing_case_ids :: "string list"
  su_captured_cases :: nat
  su_uncaptured_cases :: nat
  su_capture_unknown :: int
  su_qualified_cases :: nat
  su_unqualified_cases :: int
  su_unqualified_case_ids :: "string list"
  su_cases :: "case_report list"
  su_inconclusive_reasons :: "string list"
  su_readiness :: string
  su_accepted_effort :: "(measure \<times> effort) list"
  su_owner_reported_effort :: "(measure \<times> effort) list"
  su_population_burden :: burden
  su_burden_by_disposition :: "(disposition \<times> burden) list"
  su_accepted_cost :: cost_totals
  su_owner_reported_cost :: cost_totals

definition summarize :: "experiment_record \<Rightarrow> int \<Rightarrow> rat \<Rightarrow> string \<Rightarrow> string \<Rightarrow> (experiment_error, experiment_summary) result" where
  "summarize e min_accepted min_capture policy_ref reviewer_ref =
    (if min_accepted < 1 \<or> \<not> (0 \<le> min_capture \<and> min_capture \<le> 1) \<or> \<not> not_blank policy_ref \<or> \<not> not_blank reviewer_ref
     then Inl ExperimentError
     else
      (let xs = ex_observations e;
           n = length (ex_expected_case_ids e);
           reported = filter (\<lambda>x. oo_disposition x = OutAccepted) xs;
           accepted = filter comparison_qualified reported;
           captured = length (filter (\<lambda>x. oo_captured x = Some True) xs);
           reasons = (if int (length accepted) < min_accepted then [''too_few_accepted_cases''] else []) @
             (if length accepted < length reported then [''source_qualification_incomplete''] else []) @
             (if of_nat captured / of_nat n < min_capture then [''insufficient_capture''] else []);
           qualified = (\<lambda>c. case dict_get (by_case xs) c of None \<Rightarrow> False | Some x \<Rightarrow> comparison_qualified x)
       in Inr \<lparr>su_expected_cases = n, su_observed_cases = length xs, su_accepted_cases = length accepted,
            su_owner_reported_accepted_cases = length reported,
            su_dispositions = map (\<lambda>d. (d, length (filter (\<lambda>x. oo_disposition x = d) xs))) all_dispositions,
            su_missing_case_ids = sort (filter (\<lambda>c. c \<notin> set (map oo_case_id xs)) (ex_expected_case_ids e)),
            su_captured_cases = captured, su_uncaptured_cases = length (filter (\<lambda>x. oo_captured x = Some False) xs),
            su_capture_unknown = int n - int (length (filter (\<lambda>x. oo_captured x \<noteq> None) xs)),
            su_qualified_cases = length (filter comparison_qualified xs),
            su_unqualified_cases = int n - int (length (filter comparison_qualified xs)),
            su_unqualified_case_ids = sort (filter (\<lambda>c. \<not> qualified c) (ex_expected_case_ids e)),
            su_cases = map (\<lambda>c. case_report_of (dict_get (by_case xs) c) c) (sort (ex_expected_case_ids e)),
            su_inconclusive_reasons = reasons,
            su_readiness = (if reasons = [] then ''eligible_for_review'' else ''inconclusive''),
            su_accepted_effort = accepted_effort accepted, su_owner_reported_effort = accepted_effort reported,
            su_population_burden = burden_of xs (int n),
            su_burden_by_disposition = map (\<lambda>d. (d, burden_of (filter (\<lambda>x. oo_disposition x = d) xs)
              (int (length (filter (\<lambda>x. oo_disposition x = d) xs))))) all_dispositions,
            su_accepted_cost = costs_of accepted (int (length accepted)),
            su_owner_reported_cost = costs_of reported (int (length reported))\<rparr>))"

subsection \<open>Facts\<close>

lemma by_case_keys:
  assumes "distinct (map oo_case_id xs)"
  shows "by_case xs = map (\<lambda>x. (oo_case_id x, x)) xs"
proof -
  have "distinct (map fst d @ map oo_case_id xs) \<Longrightarrow>
      foldl (\<lambda>d x. dict_set (oo_case_id x) x d) d xs = d @ map (\<lambda>x. (oo_case_id x, x)) xs" for d :: "(string, owner_outcome) dict"
  proof (induction xs arbitrary: d)
    case (Cons x xs)
    then have "dict_set (oo_case_id x) x d = d @ [(oo_case_id x, x)]" by (induction d) auto
    then show ?case using Cons.IH [of "d @ [(oo_case_id x, x)]"] Cons.prems by simp
  qed simp
  from this [of "[]"] show ?thesis using assms by (simp add: by_case_def)
qed

lemma check_observations_facts:
  assumes "check_observations expected runs seen used xs = Inr used'"
  shows "distinct (map oo_case_id xs) \<and> set (map oo_case_id xs) \<subseteq> set expected \<and> set (map oo_case_id xs) \<inter> set seen = {} \<and>
    set used' = set used \<union> (\<Union>x \<in> set xs. set (oo_run_ids x)) \<and>
    (\<forall>x \<in> set xs. set (oo_run_ids x) \<inter> set used = {}) \<and>
    (\<forall>x \<in> set xs. \<forall>y \<in> set xs. x \<noteq> y \<longrightarrow> set (oo_run_ids x) \<inter> set (oo_run_ids y) = {})"
  using assms
proof (induction xs arbitrary: seen used)
  case (Cons x xs)
  then have c: "oo_case_id x \<in> set expected" "oo_case_id x \<notin> set seen" "set used \<inter> set (oo_run_ids x) = {}"
    and r: "check_observations expected runs (oo_case_id x # seen) (oo_run_ids x @ used) xs = Inr used'"
    by (auto split: if_splits)
  note ih = Cons.IH [OF r]
  have "set (oo_run_ids x) \<inter> set (oo_run_ids y) = {}" if "y \<in> set xs" for y using ih that by auto
  then show ?case using ih c by auto
qed simp

lemma experiment_facts:
  assumes "new_experiment e = Inr e'"
  shows "e' = e" "distinct (map oo_case_id (ex_observations e))"
    "set (map oo_case_id (ex_observations e)) \<subseteq> set (ex_expected_case_ids e)" "distinct (ex_expected_case_ids e)"
    "ex_expected_case_ids e \<noteq> []" "\<forall>m \<in> set (ex_manifests e). run_revision m (ex_revision_kind e) = Inr (ex_revision_ref e)"
    "ex_revision_kind e \<in> set revision_kinds"
    "rm_run_id ` set (ex_manifests e) = (\<Union>x \<in> set (ex_observations e). set (oo_run_ids x))"
    "\<forall>x \<in> set (ex_observations e). \<forall>y \<in> set (ex_observations e). x \<noteq> y \<longrightarrow> set (oo_run_ids x) \<inter> set (oo_run_ids y) = {}"
proof -
  obtain runs used where r: "index_runs (ex_manifests e) = Inr runs"
    "check_observations (ex_expected_case_ids e) (map fst runs) [] [] (ex_observations e) = Inr used" "set (map fst runs) = set used"
    using assms by (cases "index_runs (ex_manifests e)") (auto simp: new_experiment_def)
  note c = check_observations_facts [OF r(2)]
  show "e' = e" "distinct (ex_expected_case_ids e)" "ex_expected_case_ids e \<noteq> []" "ex_revision_kind e \<in> set revision_kinds"
    "\<forall>m \<in> set (ex_manifests e). run_revision m (ex_revision_kind e) = Inr (ex_revision_ref e)"
    using assms by (auto simp: new_experiment_def list_all_iff)
  show "distinct (map oo_case_id (ex_observations e))"
    "set (map oo_case_id (ex_observations e)) \<subseteq> set (ex_expected_case_ids e)"
    "\<forall>x \<in> set (ex_observations e). \<forall>y \<in> set (ex_observations e). x \<noteq> y \<longrightarrow> set (oo_run_ids x) \<inter> set (oo_run_ids y) = {}"
    using c by blast+
  show "rm_run_id ` set (ex_manifests e) = (\<Union>x \<in> set (ex_observations e). set (oo_run_ids x))"
    using c r(3) index_runs_keys(3) [OF r(1)] by simp
qed

end
