(* ===== verification/Outcome_Comparison.thy ===== *)
theory Outcome_Comparison
  imports Outcome_Record
begin

text \<open>
  Two revisions compared over one committed set of cases, \<open>vuoro_evidence/comparison.py\<close>. Fractions are
  rationals; their text is not modelled. A date has been checked by whoever made it, so it is a valid one.
\<close>

subsection \<open>Case sets\<close>

record case_criteria =
  cc_kind :: string
  cc_statement :: string
  cc_max_score :: "int option"
  cc_pass_score :: "int option"

definition new_criteria :: "case_criteria \<Rightarrow> (experiment_error, case_criteria) result" where
  "new_criteria c =
    rbind (need ExperimentError (not_blank (cc_statement c))) (\<lambda>_.
      if cc_kind c = ''pass_fail'' then
        rbind (need ExperimentError (cc_max_score c = None \<and> cc_pass_score c = None)) (\<lambda>_. Inr c)
      else if cc_kind c = ''scored'' then
        (case (cc_max_score c, cc_pass_score c) of
           (Some m, Some p) \<Rightarrow> rbind (need ExperimentError (0 < m \<and> 0 \<le> p \<and> p \<le> m)) (\<lambda>_. Inr c)
         | _ \<Rightarrow> Inl ExperimentError)
      else Inl ExperimentError)"

definition int_or_null :: "int option \<Rightarrow> json" where
  "int_or_null x = (case x of None \<Rightarrow> JNull | Some i \<Rightarrow> JInt i)"

definition criteria_json :: "case_criteria \<Rightarrow> json" where
  "criteria_json c = JObj ([(''kind'', JStr (cc_kind c)), (''statement'', JStr (cc_statement c))] @
    (if cc_kind c = ''scored''
     then [(''max_score'', int_or_null (cc_max_score c)), (''pass_score'', int_or_null (cc_pass_score c))] else []))"

record date =
  dt_year :: nat
  dt_month :: nat
  dt_day :: nat

definition padded :: "nat \<Rightarrow> nat \<Rightarrow> string" where
  "padded k n = replicate (k - length (str_of_nat n)) (CHR ''0'') @ str_of_nat n"

definition isoformat :: "date \<Rightarrow> string" where
  "isoformat d = padded 4 (dt_year d) @ ''-'' @ padded 2 (dt_month d) @ ''-'' @ padded 2 (dt_day d)"

record case_spec =
  cs_case_id :: string
  cs_workload :: string
  cs_source_ref :: string
  cs_criteria :: case_criteria
  cs_observed_on :: "date option"

definition new_case :: "case_spec \<Rightarrow> (experiment_error, case_spec) result" where
  "new_case c =
    rbind (need ExperimentError (list_all not_blank [cs_case_id c, cs_workload c, cs_source_ref c])) (\<lambda>_. Inr c)"

definition case_json :: "case_spec \<Rightarrow> json" where
  "case_json c = JObj [(''case_id'', JStr (cs_case_id c)), (''workload'', JStr (cs_workload c)),
     (''source_ref'', JStr (cs_source_ref c)), (''criteria'', criteria_json (cs_criteria c)),
     (''observed_on'', case cs_observed_on c of None \<Rightarrow> JNull | Some d \<Rightarrow> JStr (isoformat d))]"

record case_set =
  ct_name :: string
  ct_version :: int
  ct_description :: string
  ct_cases :: "case_spec list"
  ct_limitations :: "string list"

text \<open>\<open>[a-z0-9][a-z0-9._-]*\<close>.\<close>

definition set_name :: "string \<Rightarrow> bool" where
  "set_name s \<longleftrightarrow>
     (let low = (\<lambda>c. is_digit c \<or> 97 \<le> ord_of c \<and> ord_of c \<le> 122) in
      case s of [] \<Rightarrow> False | c # cs \<Rightarrow> low c \<and> list_all (\<lambda>x. low x \<or> x \<in> set ''._-'') cs)"

definition new_case_set :: "case_set \<Rightarrow> (experiment_error, case_set) result" where
  "new_case_set s =
    (if set_name (ct_name s) \<and> 1 \<le> ct_version s \<and> not_blank (ct_description s) \<and> ct_cases s \<noteq> [] \<and>
        distinct (map cs_case_id (ct_cases s)) \<and> ct_limitations s \<noteq> [] \<and> list_all not_blank (ct_limitations s)
     then Inr s else Inl ExperimentError)"

definition case_set_json :: "case_set \<Rightarrow> json" where
  "case_set_json s = JObj [(''schema_version'', JStr ''vuoro-case-set/v1''), (''name'', JStr (ct_name s)),
     (''version'', JInt (ct_version s)), (''description'', JStr (ct_description s)),
     (''cases'', JList (map case_json (sort_key cs_case_id (ct_cases s)))),
     (''limitations'', JList (map JStr (ct_limitations s)))]"

definition case_set_digest :: "case_set \<Rightarrow> string" where
  "case_set_digest s = ''sha256:'' @ hexdigest (canonical (case_set_json s))"

definition case_set_ref :: "case_set \<Rightarrow> string" where
  "case_set_ref s = ''case-set:'' @ ct_name s @ ''@v'' @ str_of_int (ct_version s) @ ''+'' @ case_set_digest s"

definition case_ids :: "case_set \<Rightarrow> string list" where
  "case_ids s = map cs_case_id (ct_cases s)"

subsection \<open>Cohorts\<close>

definition case_state :: "owner_outcome option \<Rightarrow> string" where
  "case_state x =
    (case x of
       None \<Rightarrow> ''missing''
     | Some y \<Rightarrow> if comparison_qualified y then disposition_name (oo_disposition y) else ''unqualified'')"

definition case_states :: "string list" where
  "case_states = [''accepted'', ''rejected'', ''pending'', ''unknown'', ''unqualified'', ''missing'']"

record cohort =
  co_cases :: "string list"
  co_base :: "string \<Rightarrow> owner_outcome option"
  co_cand :: "string \<Rightarrow> owner_outcome option"

definition observed_paired :: "cohort \<Rightarrow> string list" where
  "observed_paired k = filter (\<lambda>c. co_base k c \<noteq> None \<and> co_cand k c \<noteq> None) (co_cases k)"

definition qualified_in :: "(string \<Rightarrow> owner_outcome option) \<Rightarrow> string \<Rightarrow> bool" where
  "qualified_in rows c = (case rows c of None \<Rightarrow> False | Some x \<Rightarrow> comparison_qualified x)"

definition paired_cases :: "cohort \<Rightarrow> string list" where
  "paired_cases k = filter (\<lambda>c. qualified_in (co_base k) c \<and> qualified_in (co_cand k) c) (observed_paired k)"

definition below_coverage :: "nat \<Rightarrow> nat \<Rightarrow> rat \<Rightarrow> bool" where
  "below_coverage k n coverage \<longleftrightarrow> n = 0 \<or> of_nat k / of_nat n < coverage"

definition observed_gate :: "cohort \<Rightarrow> int \<Rightarrow> rat \<Rightarrow> string list" where
  "observed_gate k min_cases coverage =
    (let n = length (co_cases k); p = length (observed_paired k) in
     (if int n < min_cases then [''cases_below_minimum''] else []) @
     (if int p < min_cases then [''paired_observations_below_minimum''] else []) @
     (if below_coverage p n coverage then [''paired_coverage_below_minimum''] else []))"

definition outcome_gate :: "cohort \<Rightarrow> int \<Rightarrow> rat \<Rightarrow> string list" where
  "outcome_gate k min_cases coverage =
    (let n = length (co_cases k); p = length (paired_cases k) in
     observed_gate k min_cases coverage @
     (if int p < min_cases then [''source_qualified_pairs_below_minimum''] else []) @
     (if below_coverage p n coverage then [''source_qualification_coverage_below_minimum''] else []))"

record arm_report =
  ar_expected :: nat
  ar_observed :: nat
  ar_states :: "(string \<times> nat) list"
  ar_captured :: nat
  ar_uncaptured :: nat
  ar_capture_unknown :: nat

definition counting :: "('a \<Rightarrow> bool) \<Rightarrow> 'a list \<Rightarrow> nat" where
  "counting P xs = length (filter P xs)"

definition arm_of :: "string list \<Rightarrow> (string \<Rightarrow> owner_outcome option) \<Rightarrow> arm_report" where
  "arm_of cases rows = \<lparr>ar_expected = length cases, ar_observed = counting (\<lambda>c. rows c \<noteq> None) cases,
     ar_states = map (\<lambda>s. (s, counting (\<lambda>c. case_state (rows c) = s) cases)) case_states,
     ar_captured = counting (\<lambda>c. Option.bind (rows c) oo_captured = Some True) cases,
     ar_uncaptured = counting (\<lambda>c. Option.bind (rows c) oo_captured = Some False) cases,
     ar_capture_unknown = counting (\<lambda>c. Option.bind (rows c) oo_captured = None) cases\<rparr>"

subsection \<open>Rates and measures\<close>

record rate_values =
  rv_baseline :: rat
  rv_candidate :: rat
  rv_delta :: rat
  rv_lower :: rat
  rv_upper :: rat

record rate =
  rt_denominator :: nat
  rt_base_count :: nat
  rt_base_unresolved :: nat
  rt_cand_count :: nat
  rt_cand_unresolved :: nat
  rt_suppression :: "string list"
  rt_values :: "rate_values option"

definition hits :: "(owner_outcome \<Rightarrow> bool) \<Rightarrow> string list \<Rightarrow> (string \<Rightarrow> owner_outcome option) \<Rightarrow> string list \<Rightarrow> nat" where
  "hits hit paired rows cases = counting (\<lambda>c. c \<in> set paired \<and> (case rows c of None \<Rightarrow> False | Some x \<Rightarrow> hit x)) cases"

definition open_cases :: "(owner_outcome \<Rightarrow> bool) \<Rightarrow> string list \<Rightarrow> (string \<Rightarrow> owner_outcome option) \<Rightarrow> string list \<Rightarrow> nat" where
  "open_cases resolved paired rows cases =
    counting (\<lambda>c. c \<notin> set paired \<or> (case rows c of None \<Rightarrow> True | Some x \<Rightarrow> \<not> resolved x)) cases"

definition rate_of :: "cohort \<Rightarrow> string list \<Rightarrow> (owner_outcome \<Rightarrow> bool) \<Rightarrow> (owner_outcome \<Rightarrow> bool) \<Rightarrow> string list \<Rightarrow> rate" where
  "rate_of k reasons hit resolved paired =
    (let n = length (co_cases k);
         bc = hits hit paired (co_base k) (co_cases k); bu = open_cases resolved paired (co_base k) (co_cases k);
         cc = hits hit paired (co_cand k) (co_cases k); cu = open_cases resolved paired (co_cand k) (co_cases k)
     in \<lparr>rt_denominator = n, rt_base_count = bc, rt_base_unresolved = bu, rt_cand_count = cc, rt_cand_unresolved = cu,
         rt_suppression = reasons,
         rt_values = (if reasons \<noteq> [] then None else
           Some \<lparr>rv_baseline = of_nat bc / of_nat n, rv_candidate = of_nat cc / of_nat n,
             rv_delta = (of_nat cc - of_nat bc) / of_nat n,
             rv_lower = (of_nat cc - of_nat bc - of_nat bu) / of_nat n,
             rv_upper = (of_nat cc + of_nat cu - of_nat bc) / of_nat n\<rparr>)\<rparr>)"

record paired_values =
  pv_base_total :: rat
  pv_cand_total :: rat
  pv_delta_total :: rat
  pv_delta_mean :: rat

record paired_metric =
  pm_denominator :: nat
  pm_known_pairs :: nat
  pm_unknown_cases :: int
  pm_suppression :: "string list"
  pm_values :: "paired_values option"

definition paired_metric_of :: "cohort \<Rightarrow> string list \<Rightarrow> int \<Rightarrow> rat \<Rightarrow> (owner_outcome \<Rightarrow> rat option) \<Rightarrow> paired_metric" where
  "paired_metric_of k reasons min_cases coverage val =
    (let n = length (co_cases k);
         bv = (\<lambda>c. Option.bind (co_base k c) val); cv = (\<lambda>c. Option.bind (co_cand k c) val);
         known = filter (\<lambda>c. bv c \<noteq> None \<and> cv c \<noteq> None) (paired_cases k);
         own = reasons @ (if int (length known) < min_cases then [''known_measurements_below_minimum''] else []) @
           (if below_coverage (length known) n coverage then [''measurement_coverage_below_minimum''] else []);
         base = sum_list (List.map_filter bv known); cand = sum_list (List.map_filter cv known)
     in \<lparr>pm_denominator = n, pm_known_pairs = length known, pm_unknown_cases = int n - int (length known),
         pm_suppression = own,
         pm_values = (if own \<noteq> [] then None else
           Some \<lparr>pv_base_total = base, pv_cand_total = cand, pv_delta_total = cand - base,
             pv_delta_mean = (cand - base) / of_nat (length known)\<rparr>)\<rparr>)"

definition cost_in :: "string \<Rightarrow> owner_outcome \<Rightarrow> rat option" where
  "cost_in unit x = (if oo_currency x = Some unit then oo_known_cost x else None)"

record cost_metric =
  cm_denominator :: nat
  cm_mismatch_cases :: nat
  cm_by_currency :: "(string \<times> paired_metric) list"

definition cost_metric_of :: "cohort \<Rightarrow> string list \<Rightarrow> int \<Rightarrow> rat \<Rightarrow> cost_metric" where
  "cost_metric_of k reasons min_cases coverage =
    (let both = List.map_filter (\<lambda>c. case (co_base k c, co_cand k c) of (Some b, Some d) \<Rightarrow> Some (b, d) | _ \<Rightarrow> None) (paired_cases k);
         units = currencies_of (concat (map (\<lambda>(b, d). [b, d]) both))
     in \<lparr>cm_denominator = length (co_cases k),
         cm_mismatch_cases = counting (\<lambda>(b, d). oo_known_cost b \<noteq> None \<and> oo_known_cost d \<noteq> None \<and> oo_currency b \<noteq> oo_currency d) both,
         cm_by_currency = map (\<lambda>u. (u, paired_metric_of k reasons min_cases coverage (cost_in u))) units\<rparr>)"

definition transitions :: "cohort \<Rightarrow> (string \<times> nat) list" where
  "transitions k =
    (let keys = map (\<lambda>c. case_state (co_base k c) @ ''->'' @ case_state (co_cand k c)) (co_cases k)
     in map (\<lambda>t. (t, count_list keys t)) (sort (remdups keys)))"

record metrics =
  me_cases :: nat
  me_observed_pairs :: nat
  me_qualified_pairs :: nat
  me_suppression :: "string list"
  me_base_arm :: arm_report
  me_cand_arm :: arm_report
  me_transitions :: "(string \<times> nat) list"
  me_rates :: "(string \<times> rate) list"
  me_measures :: "(measure \<times> paired_metric) list"
  me_cost :: cost_metric

definition qualified_as :: "disposition \<Rightarrow> owner_outcome \<Rightarrow> bool" where
  "qualified_as d x \<longleftrightarrow> comparison_qualified x \<and> oo_disposition x = d"

definition disposition_resolved :: "owner_outcome \<Rightarrow> bool" where
  "disposition_resolved x \<longleftrightarrow> comparison_qualified x \<and> oo_disposition x \<in> {OutAccepted, OutRejected}"

definition metrics_of :: "cohort \<Rightarrow> int \<Rightarrow> rat \<Rightarrow> metrics" where
  "metrics_of k min_cases coverage =
    (let reasons = outcome_gate k min_cases coverage; observed = observed_gate k min_cases coverage
     in \<lparr>me_cases = length (co_cases k), me_observed_pairs = length (observed_paired k),
         me_qualified_pairs = length (paired_cases k), me_suppression = reasons,
         me_base_arm = arm_of (co_cases k) (co_base k), me_cand_arm = arm_of (co_cases k) (co_cand k),
         me_transitions = transitions k,
         me_rates =
           [(''acceptance_rate'', rate_of k reasons (qualified_as OutAccepted) disposition_resolved (paired_cases k)),
            (''rejection_rate'', rate_of k reasons (qualified_as OutRejected) disposition_resolved (paired_cases k)),
            (''capture_rate'', rate_of k observed (\<lambda>x. oo_captured x = Some True) (\<lambda>x. oo_captured x \<noteq> None) (observed_paired k))],
         me_measures = map (\<lambda>m. (m, paired_metric_of k reasons min_cases coverage (\<lambda>x. map_option of_int (oo_seconds x m)))) all_measures,
         me_cost = cost_metric_of k reasons min_cases coverage\<rparr>)"

subsection \<open>Comparisons\<close>

record comparison =
  cmp_id :: string
  cmp_case_set :: case_set
  cmp_baseline :: experiment_record
  cmp_candidate :: experiment_record
  cmp_limitations :: "string list"

definition fixed_axes :: "run_manifest \<Rightarrow> (string \<times> json) list" where
  "fixed_axes m = [(''harness_id'', JStr (rm_harness_id m)), (''harness_build'', JStr (rm_harness_build m)),
     (''model_id'', JStr (rm_model_id m)), (''recipe_id'', JStr (rm_recipe_id m)),
     (''observed_profile'', observed_profile_json (rm_observed_profile m)),
     (''workflow_binding'', case rm_workflow_observation m of None \<Rightarrow> JNull | Some w \<Rightarrow> revision_ref_json (wo_binding_ref w))]"

definition fixed_composition :: "run_manifest \<Rightarrow> string \<Rightarrow> string" where
  "fixed_composition m kind = json_dumps False (JObj (filter (\<lambda>(k, _). k \<noteq> kind) (fixed_axes m)))"

definition arm_ok :: "case_set \<Rightarrow> experiment_record \<Rightarrow> bool" where
  "arm_ok s e \<longleftrightarrow> ex_population_ref e = case_set_ref s \<and> sort (ex_expected_case_ids e) = sort (case_ids s)"

definition new_comparison :: "comparison \<Rightarrow> (experiment_error, comparison) result" where
  "new_comparison x =
    (let b = cmp_baseline x; d = cmp_candidate x; ms = ex_manifests b @ ex_manifests d in
     if not_blank (cmp_id x) \<and> cmp_limitations x \<noteq> [] \<and> list_all not_blank (cmp_limitations x) \<and>
        arm_ok (cmp_case_set x) b \<and> arm_ok (cmp_case_set x) d \<and> ex_task_group b = ex_task_group d \<and>
        ex_revision_kind b = ex_revision_kind d \<and> ex_revision_ref b \<noteq> ex_revision_ref d \<and>
        ex_experiment_id b \<noteq> ex_experiment_id d \<and>
        set (map rm_run_id (ex_manifests b)) \<inter> set (map rm_run_id (ex_manifests d)) = {} \<and>
        (ex_manifests b \<noteq> [] \<and> ex_manifests d \<noteq> [] \<longrightarrow>
          list_all (\<lambda>m. fixed_composition m (ex_revision_kind b) = fixed_composition (hd ms) (ex_revision_kind b)) ms)
     then Inr x else Inl ExperimentError)"

definition group_by :: "(string \<Rightarrow> string) \<Rightarrow> string list \<Rightarrow> (string, string list) dict" where
  "group_by key cases =
    foldl (\<lambda>g c. dict_set (key c) ((case dict_get g (key c) of None \<Rightarrow> [] | Some old \<Rightarrow> old) @ [c]) g) [] cases"

definition spec_of :: "case_set \<Rightarrow> string \<Rightarrow> case_spec option" where
  "spec_of s c = find (\<lambda>x. cs_case_id x = c) (ct_cases s)"

definition workload_of :: "case_set \<Rightarrow> string \<Rightarrow> string" where
  "workload_of s c = (case spec_of s c of None \<Rightarrow> [] | Some x \<Rightarrow> cs_workload x)"

definition month_of :: "case_set \<Rightarrow> string \<Rightarrow> string" where
  "month_of s c =
    (case Option.bind (spec_of s c) cs_observed_on of
       None \<Rightarrow> ''unknown'' | Some d \<Rightarrow> padded 4 (dt_year d) @ ''-'' @ padded 2 (dt_month d))"

definition coverage_label :: "owner_outcome option \<Rightarrow> owner_outcome option \<Rightarrow> string" where
  "coverage_label b d =
    [''neither_captured_or_unknown'', ''one_arm_captured'', ''both_captured'']
      ! counting (\<lambda>x. Option.bind x oo_captured = Some True) [b, d]"

record comparison_report =
  cr_overall :: metrics
  cr_strata :: "(string \<times> (string \<times> metrics) list) list"
  cr_inconclusive :: "string list"
  cr_readiness :: string
  cr_base_cases :: "case_report list"
  cr_cand_cases :: "case_report list"
  cr_qualified_pairs :: nat

definition strata_of :: "(string \<Rightarrow> string) \<Rightarrow> cohort \<Rightarrow> int \<Rightarrow> rat \<Rightarrow> (string \<times> metrics) list" where
  "strata_of key k min_cases coverage =
    map (\<lambda>(label, cases). (label, metrics_of (k\<lparr>co_cases := cases\<rparr>) min_cases coverage))
      (sort_key fst (group_by key (co_cases k)))"

definition overall_cohort :: "comparison \<Rightarrow> cohort" where
  "overall_cohort x = \<lparr>co_cases = sort (case_ids (cmp_case_set x)),
     co_base = dict_get (by_case (ex_observations (cmp_baseline x))),
     co_cand = dict_get (by_case (ex_observations (cmp_candidate x)))\<rparr>"

definition compare_arms :: "comparison \<Rightarrow> int \<Rightarrow> rat \<Rightarrow> string \<Rightarrow> string \<Rightarrow> (experiment_error, comparison_report) result" where
  "compare_arms x min_cases coverage policy_ref reviewer_ref =
    (if min_cases < 1 \<or> \<not> (0 \<le> coverage \<and> coverage \<le> 1) \<or> \<not> not_blank policy_ref \<or> \<not> not_blank reviewer_ref
     then Inl ExperimentError
     else
      (let k = overall_cohort x; s = cmp_case_set x; overall = metrics_of k min_cases coverage
       in Inr \<lparr>cr_overall = overall,
            cr_strata = [(''workload'', strata_of (workload_of s) k min_cases coverage),
              (''observed_month'', strata_of (month_of s) k min_cases coverage),
              (''coverage'', strata_of (\<lambda>c. coverage_label (co_base k c) (co_cand k c)) k min_cases coverage)],
            cr_inconclusive = me_suppression overall,
            cr_readiness = (if me_suppression overall = [] then ''eligible_for_review'' else ''inconclusive''),
            cr_base_cases = map (\<lambda>c. case_report_of (co_base k c) c) (co_cases k),
            cr_cand_cases = map (\<lambda>c. case_report_of (co_cand k c) c) (co_cases k),
            cr_qualified_pairs = length (paired_cases k)\<rparr>))"

subsection \<open>Counting\<close>

lemma counting_simps [simp]: "counting P [] = 0" "counting P (x # xs) = (if P x then 1 else 0) + counting P xs"
  by (simp_all add: counting_def)

lemma counting_mono: "(\<And>x. x \<in> set xs \<Longrightarrow> P x \<Longrightarrow> Q x) \<Longrightarrow> counting P xs \<le> counting Q xs"
  by (induction xs) auto

lemma counting_cong: "(\<And>x. x \<in> set xs \<Longrightarrow> P x \<longleftrightarrow> Q x) \<Longrightarrow> counting P xs = counting Q xs"
  by (induction xs) auto

lemma counting_or: "counting (\<lambda>x. P x \<or> Q x) xs \<le> counting P xs + counting Q xs"
  by (induction xs) auto

lemma counting_disjoint: "(\<And>x. x \<in> set xs \<Longrightarrow> \<not> (P x \<and> Q x)) \<Longrightarrow>
    counting (\<lambda>x. P x \<or> Q x) xs = counting P xs + counting Q xs"
  by (induction xs) auto

subsection \<open>What is known of a case\<close>

text \<open>The reference: what the paired observations establish of one case in one arm, for each rate.\<close>

definition known_result :: "string \<Rightarrow> cohort \<Rightarrow> (string \<Rightarrow> owner_outcome option) \<Rightarrow> string \<Rightarrow> bool option" where
  "known_result name k rows c =
    (if name = ''capture_rate'' then (if c \<in> set (observed_paired k) then Option.bind (rows c) oo_captured else None)
     else if c \<in> set (paired_cases k) then
       (case map_option oo_disposition (rows c) of
          Some OutAccepted \<Rightarrow> Some (name = ''acceptance_rate'')
        | Some OutRejected \<Rightarrow> Some (name = ''rejection_rate'')
        | _ \<Rightarrow> None)
     else None)"

text \<open>A way every case could come out, given what is known.\<close>

definition completes :: "string \<Rightarrow> cohort \<Rightarrow> (string \<Rightarrow> owner_outcome option) \<Rightarrow> (string \<Rightarrow> bool) \<Rightarrow> bool" where
  "completes name k rows result \<longleftrightarrow>
     (\<forall>c \<in> set (co_cases k). case known_result name k rows c of None \<Rightarrow> True | Some b \<Rightarrow> result c = b)"

definition true_delta :: "cohort \<Rightarrow> (string \<Rightarrow> bool) \<Rightarrow> (string \<Rightarrow> bool) \<Rightarrow> rat" where
  "true_delta k base cand =
    (of_nat (counting cand (co_cases k)) - of_nat (counting base (co_cases k))) / of_nat (length (co_cases k))"

lemma paired_rows:
  assumes "c \<in> set (paired_cases k)"
  obtains x y where "co_base k c = Some x" "co_cand k c = Some y" "comparison_qualified x" "comparison_qualified y"
  using assms by (auto simp: paired_cases_def observed_paired_def qualified_in_def split: option.splits)

definition counts_known :: "string \<Rightarrow> cohort \<Rightarrow> (string \<Rightarrow> owner_outcome option) \<Rightarrow> nat \<Rightarrow> nat \<Rightarrow> bool" where
  "counts_known name k rows yes unsettled \<longleftrightarrow>
     yes = counting (\<lambda>c. known_result name k rows c = Some True) (co_cases k) \<and>
     unsettled = counting (\<lambda>c. known_result name k rows c = None) (co_cases k)"

lemma disposition_counts:
  assumes "\<And>c. c \<in> set (paired_cases k) \<Longrightarrow> \<exists>x. rows c = Some x \<and> comparison_qualified x"
  shows "counts_known ''acceptance_rate'' k rows (hits (qualified_as OutAccepted) (paired_cases k) rows (co_cases k))
      (open_cases disposition_resolved (paired_cases k) rows (co_cases k))"
    "counts_known ''rejection_rate'' k rows (hits (qualified_as OutRejected) (paired_cases k) rows (co_cases k))
      (open_cases disposition_resolved (paired_cases k) rows (co_cases k))"
proof -
  have yes: "(c \<in> set (paired_cases k) \<and> (case rows c of None \<Rightarrow> False | Some x \<Rightarrow> qualified_as d x)) \<longleftrightarrow>
      known_result name k rows c = Some True"
    if "name = ''acceptance_rate'' \<and> d = OutAccepted \<or> name = ''rejection_rate'' \<and> d = OutRejected" for c d name
  proof (cases "c \<in> set (paired_cases k)")
    case True
    then obtain x where "rows c = Some x" "comparison_qualified x" using assms by blast
    then show ?thesis using True that by (cases "oo_disposition x") (auto simp: known_result_def qualified_as_def)
  next
    case False
    then show ?thesis using that by (auto simp: known_result_def)
  qed
  have unsettled: "(c \<notin> set (paired_cases k) \<or> (case rows c of None \<Rightarrow> True | Some x \<Rightarrow> \<not> disposition_resolved x)) \<longleftrightarrow>
      known_result name k rows c = None" if "name = ''acceptance_rate'' \<or> name = ''rejection_rate''" for c name
  proof (cases "c \<in> set (paired_cases k)")
    case True
    then obtain x where "rows c = Some x" "comparison_qualified x" using assms by blast
    then show ?thesis using True that by (cases "oo_disposition x") (auto simp: known_result_def disposition_resolved_def)
  next
    case False
    then show ?thesis using that by (auto simp: known_result_def)
  qed
  show "counts_known ''acceptance_rate'' k rows (hits (qualified_as OutAccepted) (paired_cases k) rows (co_cases k))
      (open_cases disposition_resolved (paired_cases k) rows (co_cases k))"
    "counts_known ''rejection_rate'' k rows (hits (qualified_as OutRejected) (paired_cases k) rows (co_cases k))
      (open_cases disposition_resolved (paired_cases k) rows (co_cases k))"
    unfolding counts_known_def hits_def open_cases_def by (intro conjI counting_cong yes unsettled; simp)+
qed

lemma capture_counts:
  assumes "\<And>c. c \<in> set (observed_paired k) \<Longrightarrow> rows c \<noteq> None"
  shows "counts_known ''capture_rate'' k rows (hits (\<lambda>x. oo_captured x = Some True) (observed_paired k) rows (co_cases k))
      (open_cases (\<lambda>x. oo_captured x \<noteq> None) (observed_paired k) rows (co_cases k))"
proof -
  have "(c \<in> set (observed_paired k) \<and> (case rows c of None \<Rightarrow> False | Some x \<Rightarrow> oo_captured x = Some True)) \<longleftrightarrow>
      known_result ''capture_rate'' k rows c = Some True" for c
    using assms [of c] by (cases "rows c") (auto simp: known_result_def)
  moreover have "(c \<notin> set (observed_paired k) \<or> (case rows c of None \<Rightarrow> True | Some x \<Rightarrow> \<not> oo_captured x \<noteq> None)) \<longleftrightarrow>
      known_result ''capture_rate'' k rows c = None" for c
    using assms [of c] by (cases "rows c") (auto simp: known_result_def)
  ultimately show ?thesis unfolding counts_known_def hits_def open_cases_def by (simp only:)
qed

lemma rate_counts:
  assumes "(name, r) \<in> set (me_rates (metrics_of k min_cases coverage))"
  shows "counts_known name k (co_base k) (rt_base_count r) (rt_base_unresolved r)"
    "counts_known name k (co_cand k) (rt_cand_count r) (rt_cand_unresolved r)"
    "rt_denominator r = length (co_cases k)" "\<exists>hit resolved paired reasons. r = rate_of k reasons hit resolved paired"
    "rt_suppression r = [] \<longrightarrow> min_cases \<le> int (length (co_cases k))"
proof -
  have b: "c \<in> set (paired_cases k) \<Longrightarrow> \<exists>x. co_base k c = Some x \<and> comparison_qualified x"
    and d: "c \<in> set (paired_cases k) \<Longrightarrow> \<exists>x. co_cand k c = Some x \<and> comparison_qualified x" for c
    using paired_rows by metis+
  have o: "c \<in> set (observed_paired k) \<Longrightarrow> co_base k c \<noteq> None" "c \<in> set (observed_paired k) \<Longrightarrow> co_cand k c \<noteq> None" for c
    by (simp_all add: observed_paired_def)
  from assms consider
      "name = ''acceptance_rate''" "r = rate_of k (outcome_gate k min_cases coverage) (qualified_as OutAccepted) disposition_resolved (paired_cases k)"
    | "name = ''rejection_rate''" "r = rate_of k (outcome_gate k min_cases coverage) (qualified_as OutRejected) disposition_resolved (paired_cases k)"
    | "name = ''capture_rate''" "r = rate_of k (observed_gate k min_cases coverage) (\<lambda>x. oo_captured x = Some True)
        (\<lambda>x. oo_captured x \<noteq> None) (observed_paired k)"
    by (auto simp: metrics_of_def Let_def)
  note which = this
  from which show "counts_known name k (co_base k) (rt_base_count r) (rt_base_unresolved r)"
    by cases (use disposition_counts [OF b] capture_counts [OF o(1)] in \<open>simp_all add: rate_of_def Let_def\<close>)
  from which show "counts_known name k (co_cand k) (rt_cand_count r) (rt_cand_unresolved r)"
    by cases (use disposition_counts [OF d] capture_counts [OF o(2)] in \<open>simp_all add: rate_of_def Let_def\<close>)
  from which show "rt_denominator r = length (co_cases k)" by cases (simp_all add: rate_of_def Let_def)
  from which show "\<exists>hit resolved paired reasons. r = rate_of k reasons hit resolved paired" by cases blast+
  from which show "rt_suppression r = [] \<longrightarrow> min_cases \<le> int (length (co_cases k))"
    by cases (auto simp: rate_of_def outcome_gate_def observed_gate_def Let_def split: if_splits)
qed

lemma counts_bound:
  assumes "counts_known name k rows yes unsettled" "completes name k rows result"
  shows "yes \<le> counting result (co_cases k)" "counting result (co_cases k) \<le> yes + unsettled"
proof -
  let ?yes = "\<lambda>c. known_result name k rows c = Some True" and ?un = "\<lambda>c. known_result name k rows c = None"
  have c: "(?yes c \<longrightarrow> result c) \<and> (result c \<longrightarrow> ?yes c \<or> ?un c)" if "c \<in> set (co_cases k)" for c
    using bspec [OF assms(2) [unfolded completes_def] that] by (cases "known_result name k rows c") auto
  show "yes \<le> counting result (co_cases k)" using assms(1) c by (simp add: counts_known_def counting_mono)
  have "counting result (co_cases k) \<le> counting (\<lambda>c. ?yes c \<or> ?un c) (co_cases k)" by (rule counting_mono) (use c in simp)
  also have "\<dots> \<le> counting ?yes (co_cases k) + counting ?un (co_cases k)" by (rule counting_or)
  finally show "counting result (co_cases k) \<le> yes + unsettled" using assms(1) by (simp add: counts_known_def)
qed

lemma counts_attained:
  assumes "counts_known name k rows yes unsettled"
  shows "\<exists>result. completes name k rows result \<and> counting result (co_cases k) = yes"
    "\<exists>result. completes name k rows result \<and> counting result (co_cases k) = yes + unsettled"
proof -
  let ?yes = "\<lambda>c. known_result name k rows c = Some True" and ?un = "\<lambda>c. known_result name k rows c = None"
  have "completes name k rows ?yes" by (auto simp: completes_def split: option.split)
  then show "\<exists>result. completes name k rows result \<and> counting result (co_cases k) = yes"
    using assms by (auto simp: counts_known_def)
  have "completes name k rows (\<lambda>c. ?yes c \<or> ?un c)" by (auto simp: completes_def split: option.split)
  moreover have "counting (\<lambda>c. ?yes c \<or> ?un c) (co_cases k) = counting ?yes (co_cases k) + counting ?un (co_cases k)"
    by (rule counting_disjoint [of "co_cases k" ?yes ?un]) (metis option.distinct(1))
  ultimately show "\<exists>result. completes name k rows result \<and> counting result (co_cases k) = yes + unsettled"
    using assms by (auto simp: counts_known_def)
qed

subsection \<open>A comparison\<close>

definition demo_qualification :: qualification where
  "demo_qualification = \<lparr>ql_case_id = ''c1'', ql_owner_record_ref = ''o1'', ql_status = SrcQualified,
     ql_qualification_ref = Some ''report'', ql_source_snapshot_ref = Some ''snapshot'', ql_source_snapshot_sha256 = Some ''digest'',
     ql_owner_revision_ref = Some ''revision'', ql_release_digest = Some ''release'', ql_independent_verification_ref = Some ''check'',
     ql_actual_use_ref = Some ''use'', ql_reason = None\<rparr>"

definition demo_observation :: "string \<Rightarrow> disposition \<Rightarrow> owner_outcome" where
  "demo_observation run_id d = \<lparr>oo_case_id = ''c1'', oo_run_ids = [run_id], oo_disposition = d, oo_owner_record_ref = ''o1'',
     oo_evidence_refs = [''e1''], oo_evidence_class = ''review'', oo_captured = Some True, oo_seconds = (\<lambda>_. None),
     oo_known_cost = None, oo_currency = None, oo_owner_release_digest = Some ''release'',
     oo_source_qualification = Some demo_qualification\<rparr>"

lemma demo_qualified [simp]: "comparison_qualified (demo_observation r d)"
  by (simp add: comparison_qualified_def source_qualification_reasons_def demo_observation_def demo_qualification_def)

definition demo_cohort :: cohort where
  "demo_cohort = \<lparr>co_cases = [''c1''], co_base = (\<lambda>_. Some (demo_observation ''r1'' OutRejected)),
     co_cand = (\<lambda>_. Some (demo_observation ''r2'' OutAccepted))\<rparr>"

definition demo_rate :: rate where
  "demo_rate = \<lparr>rt_denominator = 1, rt_base_count = 0, rt_base_unresolved = 0, rt_cand_count = 1, rt_cand_unresolved = 0,
     rt_suppression = [], rt_values = Some \<lparr>rv_baseline = 0, rv_candidate = 1, rv_delta = 1, rv_lower = 1, rv_upper = 1\<rparr>\<rparr>"

lemma demo_rates: "(''acceptance_rate'', demo_rate) \<in> set (me_rates (metrics_of demo_cohort 1 1))"
  by (simp add: metrics_of_def rate_of_def outcome_gate_def observed_gate_def observed_paired_def paired_cases_def
      qualified_in_def below_coverage_def hits_def open_cases_def qualified_as_def disposition_resolved_def Let_def
      demo_cohort_def demo_rate_def)
    (simp add: demo_observation_def)

definition demo_manifest :: "string \<Rightarrow> string \<Rightarrow> run_manifest" where
  "demo_manifest run_id model = \<lparr>rm_run_id = run_id, rm_harness_id = ''h'', rm_harness_build = ''1'', rm_model_id = model,
     rm_recipe_id = ''r'', rm_observed_profile = \<lparr>op_instruction_digest = ''d'', op_skill_digests = []\<rparr>, rm_grant_ids = [],
     rm_claim_ids = [], rm_workflow_observation = None\<rparr>"

definition demo_cases :: case_set where
  "demo_cases = \<lparr>ct_name = ''demo'', ct_version = 1, ct_description = ''one case'',
     ct_cases = [\<lparr>cs_case_id = ''c1'', cs_workload = ''docs'', cs_source_ref = ''s'',
       cs_criteria = \<lparr>cc_kind = ''pass_fail'', cc_statement = ''works'', cc_max_score = None, cc_pass_score = None\<rparr>,
       cs_observed_on = None\<rparr>], ct_limitations = [''small'']\<rparr>"

definition demo_experiment :: "string \<Rightarrow> string \<Rightarrow> string \<Rightarrow> disposition \<Rightarrow> experiment_record" where
  "demo_experiment name run_id model d = \<lparr>ex_experiment_id = name, ex_revision_ref = model, ex_task_group = ''docs'',
     ex_population_ref = case_set_ref demo_cases, ex_expected_case_ids = [''c1''], ex_observations = [demo_observation run_id d],
     ex_manifests = [demo_manifest run_id model], ex_limitations = [''small''], ex_revision_kind = ''model_id'',
     ex_population_sha256 = population_digest (case_set_ref demo_cases) ''docs'' [''c1''] ''model_id'' model,
     ex_registered_aware = True, ex_registration_ref = ''registry''\<rparr>"

definition demo_comparison :: comparison where
  "demo_comparison = \<lparr>cmp_id = ''demo'', cmp_case_set = demo_cases,
     cmp_baseline = demo_experiment ''e1'' ''r1'' ''m1'' OutRejected, cmp_candidate = demo_experiment ''e2'' ''r2'' ''m2'' OutAccepted,
     cmp_limitations = [''small'']\<rparr>"

lemma demo_experiment_ok:
  "not_blank name \<Longrightarrow> not_blank model \<Longrightarrow>
    new_experiment (demo_experiment name run_id model d) = Inr (demo_experiment name run_id model d)"
  by (simp add: new_experiment_def demo_experiment_def demo_observation_def demo_manifest_def run_revision_def revision_kinds_def
      index_runs_def not_blank_def py_space_def case_set_ref_def)

lemma demo_comparison_ok: "new_comparison demo_comparison = Inr demo_comparison"
  by (simp add: new_comparison_def demo_comparison_def demo_experiment_def demo_manifest_def arm_ok_def case_ids_def
      demo_cases_def not_blank_def py_space_def fixed_composition_def fixed_axes_def Let_def)

subsection \<open>Properties\<close>

text \<open>C39: The bounds of a difference are exact: whatever the cases that are unpaired, unqualified or undecided
  turn out to be, the difference of the acceptance, rejection or capture rate of the two arms lies
  between the reported bounds, over the whole case set and in every stratum, and each bound is the
  difference for some way they could turn out.\<close>

theorem delta_bounds_are_exact:
  assumes "(name, r) \<in> set (me_rates (metrics_of k min_cases coverage))" "rt_values r = Some v"
  shows "(\<forall>base cand. completes name k (co_base k) base \<and> completes name k (co_cand k) cand \<longrightarrow>
      rv_lower v \<le> true_delta k base cand \<and> true_delta k base cand \<le> rv_upper v) \<and>
    (\<exists>base cand. completes name k (co_base k) base \<and> completes name k (co_cand k) cand \<and> true_delta k base cand = rv_lower v) \<and>
    (\<exists>base cand. completes name k (co_base k) base \<and> completes name k (co_cand k) cand \<and> true_delta k base cand = rv_upper v)"
proof -
  note c = rate_counts [OF assms(1)]
  let ?n = "of_nat (length (co_cases k)) :: rat"
  have v: "rv_lower v = (of_nat (rt_cand_count r) - of_nat (rt_base_count r) - of_nat (rt_base_unresolved r)) / ?n"
    "rv_upper v = (of_nat (rt_cand_count r) + of_nat (rt_cand_unresolved r) - of_nat (rt_base_count r)) / ?n" "rt_suppression r = []"
    using c(4) assms(2) by (auto simp: rate_of_def Let_def split: if_splits)
  have "rv_lower v \<le> true_delta k base cand \<and> true_delta k base cand \<le> rv_upper v"
    if "completes name k (co_base k) base" "completes name k (co_cand k) cand" for base cand
    using counts_bound [OF c(1) that(1)] counts_bound [OF c(2) that(2)]
    unfolding v true_delta_def by (intro conjI divide_right_mono) (simp_all add: algebra_simps flip: of_nat_add)
  moreover obtain low where "completes name k (co_base k) low" "counting low (co_cases k) = rt_base_count r + rt_base_unresolved r"
    using counts_attained(2) [OF c(1)] by blast
  moreover obtain high where "completes name k (co_cand k) high" "counting high (co_cases k) = rt_cand_count r + rt_cand_unresolved r"
    using counts_attained(2) [OF c(2)] by blast
  moreover obtain base where "completes name k (co_base k) base" "counting base (co_cases k) = rt_base_count r"
    using counts_attained(1) [OF c(1)] by blast
  moreover obtain cand where "completes name k (co_cand k) cand" "counting cand (co_cases k) = rt_cand_count r"
    using counts_attained(1) [OF c(2)] by blast
  ultimately show ?thesis unfolding v true_delta_def
    by (intro conjI) (blast, force simp: algebra_simps, force simp: algebra_simps)
qed

lemma fixed_axes_eq:
  assumes "fixed_composition m kind = fixed_composition m' kind" "axis \<noteq> kind"
  shows "map_of (fixed_axes m) axis = map_of (fixed_axes m') axis"
proof -
  let ?f = "filter (\<lambda>(k, _). k \<noteq> kind)"
  have ok: "dict_ok (fixed_axes n)" "list_all (\<lambda>(k, v). json_wf v) (fixed_axes n)" for n
    by (simp_all add: fixed_axes_def split: option.split)
  have wf: "dict_ok (?f (fixed_axes n))" "json_wf (JObj (?f (fixed_axes n)))" for n
    using ok [of n] by (auto simp: distinct_map_filter list_all_iff)
  have keep: "map_of (?f (fixed_axes n)) axis = map_of (fixed_axes n) axis" for n
    using assms(2) dict_get_filter [of "fixed_axes n" "\<lambda>(k, _). k \<noteq> kind" axis] ok(1) by (auto split: option.split)
  have "json_norm (JObj (?f (fixed_axes m))) = json_norm (JObj (?f (fixed_axes m')))"
    by (rule json_dumps_inj [OF wf(2) wf(2)]) (use assms(1) in \<open>simp only: fixed_composition_def\<close>)
  then have "fld (json_norm (JObj (?f (fixed_axes m)))) axis = fld (json_norm (JObj (?f (fixed_axes m')))) axis" by (rule arg_cong)
  then have "map_option json_norm (map_of (fixed_axes m) axis) = map_option json_norm (map_of (fixed_axes m') axis)"
    unfolding norm_fld [OF wf(1)] keep .
  then show ?thesis
    by (auto simp: fixed_axes_def split: if_splits option.splits) (auto simp: revision_ref_json_def)
qed

theorem delta_bounds_are_exact_witness:
  "\<exists>base cand. completes ''acceptance_rate'' demo_cohort (co_base demo_cohort) base \<and>
     completes ''acceptance_rate'' demo_cohort (co_cand demo_cohort) cand \<and> true_delta demo_cohort base cand = 1"
  using delta_bounds_are_exact [OF demo_rates] by (simp add: demo_rate_def)

text \<open>C40: The arms of a comparison differ in the selected revision and in nothing else: between any run of the
  baseline and any run of the candidate the harness, its build, the model, the recipe, the observed
  profile and the workflow binding agree, except for the axis the comparison selects, on which every such
  pair of runs differs; and no run is in both arms.\<close>

theorem arms_differ_only_in_revision:
  assumes "new_experiment b = Inr (cmp_baseline x)" "new_experiment d = Inr (cmp_candidate x)" "new_comparison x = Inr y"
    "m \<in> set (ex_manifests (cmp_baseline x))" "m' \<in> set (ex_manifests (cmp_candidate x))"
  shows "rm_run_id m \<noteq> rm_run_id m' \<and>
    (\<forall>axis. map_of (fixed_axes m) axis = map_of (fixed_axes m') axis \<longleftrightarrow> axis \<noteq> ex_revision_kind (cmp_baseline x))"
proof -
  let ?b = "cmp_baseline x" and ?d = "cmp_candidate x"
  let ?kind = "ex_revision_kind ?b"
  have b: "b = ?b" and d: "d = ?d" using experiment_facts(1) assms(1,2) by metis+
  have c: "ex_revision_kind ?d = ?kind" "ex_revision_ref ?b \<noteq> ex_revision_ref ?d"
    "set (map rm_run_id (ex_manifests ?b)) \<inter> set (map rm_run_id (ex_manifests ?d)) = {}"
    using assms(3) by (auto simp: new_comparison_def Let_def split: if_splits)
  have same: "fixed_composition m ?kind = fixed_composition m' ?kind"
    using assms(3-5) by (auto simp: new_comparison_def Let_def list_all_iff split: if_splits)
  have r: "run_revision m ?kind = Inr (ex_revision_ref ?b)" "run_revision m' ?kind = Inr (ex_revision_ref ?d)" "?kind \<in> set revision_kinds"
    using experiment_facts(6,7) [OF assms(1)] experiment_facts(6) [OF assms(2)] assms(4,5) b d c(1) by auto
  have "map_of (fixed_axes m) ?kind \<noteq> map_of (fixed_axes m') ?kind"
    using r c(2) by (auto simp: run_revision_def revision_kinds_def fixed_axes_def split: if_splits)
  moreover have "rm_run_id m \<noteq> rm_run_id m'" using c(3) assms(4,5) by auto
  ultimately show ?thesis using fixed_axes_eq [OF same] by blast
qed

theorem arms_differ_only_in_revision_witness:
  "map_of (fixed_axes (demo_manifest ''r1'' ''m1'')) ''model_id'' \<noteq> map_of (fixed_axes (demo_manifest ''r2'' ''m2'')) ''model_id''"
proof -
  have "new_experiment (cmp_baseline demo_comparison) = Inr (cmp_baseline demo_comparison)"
    "new_experiment (cmp_candidate demo_comparison) = Inr (cmp_candidate demo_comparison)"
    by (simp_all add: demo_comparison_def demo_experiment_ok not_blank_def py_space_def)
  from arms_differ_only_in_revision [OF this demo_comparison_ok, of "demo_manifest ''r1'' ''m1''" "demo_manifest ''r2'' ''m2''"]
  show ?thesis by (simp add: demo_comparison_def demo_experiment_def)
qed

subsection \<open>Strata\<close>

lemma sum_dict_set:
  fixes f :: "'b \<Rightarrow> nat"
  assumes "dict_ok g" "f (case dict_get g k of None \<Rightarrow> z | Some old \<Rightarrow> old) + n = f v" "f z = 0"
  shows "sum_list (map (\<lambda>(l, w). f w) (dict_set k v g)) = sum_list (map (\<lambda>(l, w). f w) g) + n"
  using assms by (induction g) (auto split: if_splits)

lemma group_by_sum:
  "sum_list (map (\<lambda>(l, cs). counting P cs) (group_by key cases)) = counting P cases"
proof -
  let ?step = "\<lambda>g c. dict_set (key c) ((case dict_get g (key c) of None \<Rightarrow> [] | Some old \<Rightarrow> old) @ [c]) g"
  let ?sum = "\<lambda>g. sum_list (map (\<lambda>(l, cs). counting P cs) g)"
  have app: "counting P (xs @ ys) = counting P xs + counting P ys" for xs ys by (simp add: counting_def)
  have "dict_ok g \<Longrightarrow> ?sum (foldl ?step g cases) = ?sum g + counting P cases" for g
  proof (induction cases arbitrary: g)
    case (Cons c cs)
    have "?sum (?step g c) = ?sum g + (if P c then 1 else 0)"
      by (rule sum_dict_set [where z = "[]"]) (use Cons.prems in \<open>simp_all add: app\<close>)
    moreover have "dict_ok (?step g c)" using Cons.prems by (simp add: distinct_update)
    ultimately show ?case using Cons.IH [of "?step g c"] by simp
  qed simp
  from this [of "[]"] show ?thesis by (simp add: group_by_def)
qed

lemma group_by_subset: "(l, cs) \<in> set (group_by key cases) \<Longrightarrow> set cs \<subseteq> set cases"
  using member_le_sum_list [of _ "map (\<lambda>(l, cs). counting (\<lambda>c. c \<notin> set cases) cs) (group_by key cases)"]
    group_by_sum [of "\<lambda>c. c \<notin> set cases" key cases]
  by (force simp: counting_def filter_empty_conv)

lemma known_result_part:
  assumes "set cs \<subseteq> set (co_cases k)" "c \<in> set cs"
  shows "known_result name (k\<lparr>co_cases := cs\<rparr>) rows c = known_result name k rows c"
  using assms by (auto simp: known_result_def observed_paired_def paired_cases_def)

definition rate_count :: "(rate \<Rightarrow> nat) \<Rightarrow> string \<Rightarrow> metrics \<Rightarrow> nat" where
  "rate_count f name m = (case map_of (me_rates m) name of None \<Rightarrow> 0 | Some r \<Rightarrow> f r)"

definition rate_names :: "string list" where
  "rate_names = [''acceptance_rate'', ''rejection_rate'', ''capture_rate'']"

lemma metrics_rate_names: "map fst (me_rates (metrics_of k min_cases coverage)) = rate_names"
  by (simp add: metrics_of_def rate_names_def Let_def)

lemma rate_count_known:
  assumes "name \<in> set rate_names"
  shows "rate_count rt_base_count name (metrics_of k m c) = counting (\<lambda>x. known_result name k (co_base k) x = Some True) (co_cases k)"
    "rate_count rt_base_unresolved name (metrics_of k m c) = counting (\<lambda>x. known_result name k (co_base k) x = None) (co_cases k)"
    "rate_count rt_cand_count name (metrics_of k m c) = counting (\<lambda>x. known_result name k (co_cand k) x = Some True) (co_cases k)"
    "rate_count rt_cand_unresolved name (metrics_of k m c) = counting (\<lambda>x. known_result name k (co_cand k) x = None) (co_cases k)"
proof -
  have "name \<in> fst ` set (me_rates (metrics_of k m c))" using assms metrics_rate_names [of k m c] by (metis set_map)
  then obtain r where r: "map_of (me_rates (metrics_of k m c)) name = Some r" by (metis map_of_eq_None_iff not_None_eq)
  note f = rate_counts(1,2) [OF map_of_SomeD [OF r]]
  show "rate_count rt_base_count name (metrics_of k m c) = counting (\<lambda>x. known_result name k (co_base k) x = Some True) (co_cases k)"
    "rate_count rt_base_unresolved name (metrics_of k m c) = counting (\<lambda>x. known_result name k (co_base k) x = None) (co_cases k)"
    "rate_count rt_cand_count name (metrics_of k m c) = counting (\<lambda>x. known_result name k (co_cand k) x = Some True) (co_cases k)"
    "rate_count rt_cand_unresolved name (metrics_of k m c) = counting (\<lambda>x. known_result name k (co_cand k) x = None) (co_cases k)"
    using f r by (simp_all add: rate_count_def counts_known_def)
qed

lemma strata_sum:
  assumes "\<And>cs. set cs \<subseteq> set (co_cases k) \<Longrightarrow> f (metrics_of (k\<lparr>co_cases := cs\<rparr>) m c) = counting P cs"
  shows "sum_list (map (f \<circ> snd) (strata_of key k m c)) = counting P (co_cases k)"
proof -
  let ?g = "group_by key (co_cases k)"
  have "map (f \<circ> snd) (strata_of key k m c) = map (\<lambda>(l, cs). counting P cs) (sort_key fst ?g)"
    using assms group_by_subset by (fastforce simp: strata_of_def)
  moreover have "sum_list (map h (sort_key fst xs)) = sum_list (map h xs)" for h :: "string \<times> string list \<Rightarrow> nat" and xs
    by (metis mset_map mset_sort sum_mset_sum_list)
  ultimately show ?thesis by (simp add: group_by_sum)
qed

text \<open>Strata lose nothing: on every axis the cases, the qualified pairs, the counted and the unresolved cases
  of either arm, for each rate, add up over the strata to those of the whole case set.\<close>

theorem strata_add_up:
  assumes "compare_arms x min_cases coverage policy reviewer = Inr rep" "(axis, strata) \<in> set (cr_strata rep)"
  shows "sum_list (map (me_cases \<circ> snd) strata) = me_cases (cr_overall rep) \<and>
    sum_list (map (me_qualified_pairs \<circ> snd) strata) = me_qualified_pairs (cr_overall rep) \<and>
    (\<forall>name \<in> set rate_names. \<forall>f \<in> {rt_base_count, rt_base_unresolved, rt_cand_count, rt_cand_unresolved}.
      sum_list (map (rate_count f name \<circ> snd) strata) = rate_count f name (cr_overall rep))"
proof -
  let ?k = "overall_cohort x"
  obtain key where key: "strata = strata_of key ?k min_cases coverage" and o: "cr_overall rep = metrics_of ?k min_cases coverage"
    using assms by (auto simp: compare_arms_def Let_def split: if_splits)
  have pairs: "me_qualified_pairs (metrics_of (k\<lparr>co_cases := cs\<rparr>) m c) =
      counting (\<lambda>c. co_base k c \<noteq> None \<and> co_cand k c \<noteq> None \<and> qualified_in (co_base k) c \<and> qualified_in (co_cand k) c) cs" for k cs m c
    by (simp add: metrics_of_def paired_cases_def observed_paired_def counting_def Let_def conj_assoc)
  have cases: "me_cases (metrics_of (k\<lparr>co_cases := cs\<rparr>) m c) = counting (\<lambda>_. True) cs" for k cs m c
    by (simp add: metrics_of_def counting_def Let_def)
  have part: "counting (\<lambda>c. known_result name (k\<lparr>co_cases := cs\<rparr>) rows c = v) cs = counting (\<lambda>c. known_result name k rows c = v) cs"
    if "set cs \<subseteq> set (co_cases k)" for name k cs rows v
    by (rule counting_cong) (simp add: known_result_part [OF that])
  have "sum_list (map (rate_count f name \<circ> snd) strata) = rate_count f name (cr_overall rep)"
    if "name \<in> set rate_names" "f \<in> {rt_base_count, rt_base_unresolved, rt_cand_count, rt_cand_unresolved}" for name f
    using that(2) unfolding key o
    by (elim insertE emptyE; simp only: rate_count_known [OF that(1)];
        intro strata_sum; simp add: rate_count_known [OF that(1)] part)
  moreover have "sum_list (map (me_cases \<circ> snd) strata) = me_cases (cr_overall rep)"
    unfolding key o using cases [where k = ?k and cs = "co_cases ?k"] by (subst strata_sum [OF cases]) simp
  moreover have "sum_list (map (me_qualified_pairs \<circ> snd) strata) = me_qualified_pairs (cr_overall rep)"
    unfolding key o using pairs [where k = ?k and cs = "co_cases ?k"] by (subst strata_sum [OF pairs]) simp
  ultimately show ?thesis by blast
qed

end
