(* ===== verification/Spec2Isabelle.thy ===== *)
theory Spec2Isabelle
  imports Lease Replay_Cache Evidence_Ledger Protected_Currentness Executor_Properties Copy_Types Reconciler_Properties Rate_Limit Run_Registry Edge_Proof Schema_Runtime Effect_Diagnosis Recovery_Log Outcome_Comparison
begin

text \<open>
  A verification library of the core of Vuoro, a substrate for governed work: a service that leases
  work and refuses stale or replayed requests, a hash-chained evidence record, and the reconciler that
  carries accepted effects to a git forge. All sources are under \<open>src/packages\<close>.

  \<^bold>\<open>The program and the theories.\<close>

  \<^item> The service shell, package \<open>vuoro-service\<close>. \<open>Lease\<close> is \<open>lease.py\<close>: one method of
    \<open>LeaseStore\<close> per definition over the record of its three dictionaries. \<open>Heapq\<close> and
    \<open>Replay_Cache\<close> are \<open>replay.py\<close>: the cache of one-use keys with its expiry heap. \<open>Rate_Limit\<close>
    is \<open>rate_limit.py\<close>: the token bucket of every key. \<open>Edge_Proof\<close> is \<open>edge_proof.py\<close>: the one-use
    codes between the edge and the shell, over the replay cache. \<open>Effect_Diagnosis\<close> is
    \<open>ops/effects.py\<close>: its own reader of the executor's journal and the advice drawn from it.
  \<^item> The MCP edge, package \<open>vuoro-mcp-edge\<close>. \<open>Idempotency\<close> is \<open>idempotency.py\<close>: request
    digests and the ledger that answers a repeated write from the first result. \<open>Run_Registry\<close> is
    \<open>runs.py\<close>: handles, their bindings and who may continue a run.
  \<^item> Evidence, package \<open>vuoro-evidence\<close>. \<open>Evidence_Chain\<close> is \<open>core/model.py\<close>, \<open>core/chain.py\<close> and
    \<open>core/set_builder.py\<close>: entries linked by digests of their canonical JSON. \<open>Evidence_Ledger\<close> is
    \<open>core/reducer.py\<close> and \<open>core/decision.py\<close>: what a set of claims says about an effect, and whether
    the effect may be run again. \<open>Run_Manifest\<close> is \<open>run.py\<close> with the references of \<open>workflow.py\<close>,
    \<open>Outcome_Record\<close> is \<open>experiment.py\<close>, \<open>Outcome_Comparison\<close> is \<open>comparison.py\<close>: how a run was
    composed, what its cases came to, and two revisions compared over one set of cases.
  \<^item> Schemas, packages \<open>vuoro-schema-runtime\<close> and \<open>vuoro-workspace\<close>. \<open>Schema_Runtime\<close> is
    \<open>runtime.py\<close> and \<open>migrations.py\<close>: migration assets, the check of a ledger and the migrator.
  \<^item> The client, package \<open>vuoro-client\<close>. \<open>Recovery_Log\<close> is \<open>recovery.py\<close>: an append-only file per
    incident, with writes that may stop at any byte.
  \<^item> The protected path of the reconciler, package \<open>vuoro-reconciler\<close>. \<open>Protected_Codec\<close> and
    \<open>Copy_Types\<close> are \<open>protected_effects.py\<close> and \<open>protected_copy_codec.py\<close>: decoding an accepted copy
    from bytes, every check included. \<open>Protected_Currentness\<close> is \<open>protected_currentness.py\<close>.
    \<open>Protected_Git\<close> is the data half of \<open>protected_git.py\<close>. \<open>Execution_Journal\<close> and
    \<open>Journal_Safety\<close> are \<open>execution_journal.py\<close>: the SQLite history of a publication, with the commit
    of each transaction free to fail. \<open>Protected_Executor\<close>, \<open>Executor_Safety\<close> and
    \<open>Executor_Properties\<close> are \<open>protected_executor.py\<close>, \<open>protected_ledger_source.py\<close> and
    \<open>protected_basis_source.py\<close>: the orchestration over that journal.
  \<^item> The legacy path of the reconciler. \<open>Effect_Intents\<close> is \<open>intents.py\<close>, \<open>verification.py\<close> and the
    data of \<open>provider.py\<close>; \<open>Acceptance\<close> is \<open>acceptance.py\<close>; \<open>Diff_Policy\<close> is \<open>diff_policy.py\<close>;
    \<open>Local_Git\<close> is \<open>gitenv.py\<close>, \<open>git_ops.py\<close> and \<open>signing.py\<close>; \<open>Reconciler\<close> is \<open>reconciler.py\<close>.
    \<open>Legacy_World\<close> is the world its programs act on, \<open>Program_Logic\<close> the rules to reason about
    them, \<open>Reconciler_Safety\<close> and \<open>Reconciler_Properties\<close> what a poll does.
  \<^item> What they share. \<open>Vuoro_Prelude\<close>: results, dictionaries, runs of step relations and the
    contracts stated as locales. \<open>Py_Text\<close>, \<open>Py_Json\<close>, \<open>Py_Data\<close>, \<open>Py_Strings\<close>: the parts of Python's
    standard library the sources use (UTF-8, SHA-256, base64, \<open>json\<close>, string methods, \<open>fnmatch\<close>).
    \<open>Canonical_Form\<close>: what reading and writing canonical JSON guarantees.

  \<^bold>\<open>How code becomes definitions.\<close> A dataclass is a record, an enum a datatype, a dict an
  association list in insertion order. A call that may raise returns \<open>Inl\<close> of the exception, and a
  method returns its result together with the object it leaves behind, also when it raises. Clock
  readings, random identifiers and the outcome of a commit are arguments. Each stateful component is a
  step relation whose steps are its calls, so a history is a \<open>run\<close>. What lies outside (git, the forge,
  the private services, the disk) is a world that may answer anything at every call; a property about
  the reconciler or the executor holds for all such worlds.

  \<^bold>\<open>What the lemmas show.\<close> For every stateful component: an invariant every call keeps; the
  refinement of an optimised structure by its plain meaning (the heap of the replay cache, the
  reducer against the history of one effect, the file of the recovery log by a list); the safety of any
  history (one lease holder, one use per key and per proof, one transmission per effect and operation,
  one effect per idempotency key). Where two programs read the same record (the journal and its
  diagnosis, the ledger and its assets), that they agree. For the data:
  that reading what was written gives the value back, that a text has one reading, that a digest
  binds its contents up to a collision of SHA-256, and that decoded data meets its type. For the
  orchestrations: that every outward call is preceded by the checks that permit it, and that every
  report says what the durable record holds.

  \<^bold>\<open>Bounds and fuel.\<close> The JSON reader takes fuel \<open>2 * length s + 2\<close>; \<open>Canonical_Form\<close> proves that
  any larger fuel gives the same answer, so a refusal is never a lack of fuel. The loop of \<open>_purge\<close>
  is a total function, and \<open>Replay_Cache\<close> also runs it as a while loop that may not end and proves that
  it ends. Every other loop is a total function. Words are 32 bits in SHA-256 and 8 bits in byte strings; all other integers are
  unbounded, as in Python, with the bounds of the code written out as its checks.

  \<^bold>\<open>Where the model is narrower than Python.\<close> Strings hold code points below 256 and paths are
  Latin-1. Floats and times are real numbers, and \<open>Decimal\<close> and \<open>Fraction\<close> are rationals. Exceptions keep their class and the code of a
  \<open>ToolFailure\<close>, not their message, except where a message is reported. \<open>fnmatch\<close> brackets with a
  reversed range and bracketed IPv6 hosts are not treated as Python does; the latter are refused. A reader of JSON knows no floats. Tables are
  lists of rows, and a statement of the migrator that fails leaves them as they were.
  Locks that only serialise calls are the atomicity of a step.

  \<^bold>\<open>Not modelled.\<close> Programs whose content is another program's behaviour: running git, GnuPG and
  PostgreSQL, HTTP transports and servers, child processes and their file descriptors, command lines,
  deployment and test scripts. The SQL statements of the workspace store need a model of PostgreSQL
  that is not part of the sources. The journal's checks of file identity, ownership and modes are
  not modelled, nor are its SQLite settings; a journal is what its tables hold.
\<close>

end
